(* ===== verification/Tar_Prelude.thy ===== *)
theory Tar_Prelude
  imports Main "HOL-Library.Sublist" "HOL-Library.Word" "HOL-Library.Code_Target_Nat"
begin

text \<open>
  What every other theory of the development shares: Rust strings as UTF-8 byte lists with
  the operations of \<open>str\<close> the registry uses, results as a sum with the error on the left,
  decimal numbers, JSON values, and generic lemmas on lists that model SQL tables.

  A Rust \<open>String\<close> is a sequence of UTF-8 bytes, and HOL's \<open>char\<close> is a byte, so a \<open>string\<close>
  here is the byte sequence of the Rust string: \<open>len()\<close> is \<open>length\<close>, comparison is
  bytewise, and a split at an ASCII character is a split at that byte.
\<close>

named_theorems str_simps "evaluation rules for string operations"
named_theorems res_simps "rules for results"

section \<open>Results\<close>

text \<open>Rust's \<open>?\<close>: continue with the value, or return the error.\<close>

definition and_then :: "'e + 'a \<Rightarrow> ('a \<Rightarrow> 'e + 'b) \<Rightarrow> 'e + 'b" where
  "and_then r f = (case r of Inl e \<Rightarrow> Inl e | Inr x \<Rightarrow> f x)"

lemma and_then_Inl [simp, res_simps]: "and_then (Inl e) f = Inl e"
  by (simp add: and_then_def)

lemma and_then_Inr [simp, res_simps]: "and_then (Inr x) f = f x"
  by (simp add: and_then_def)

lemma and_then_eq_Inr [res_simps]:
  "and_then r f = Inr y \<longleftrightarrow> (\<exists>x. r = Inr x \<and> f x = Inr y)"
  by (cases r) (auto simp: and_then_def)

lemma and_then_eq_Inl [res_simps]:
  "and_then r f = Inl e \<longleftrightarrow> r = Inl e \<or> (\<exists>x. r = Inr x \<and> f x = Inl e)"
  by (cases r) (auto simp: and_then_def)

definition is_ok :: "'e + 'a \<Rightarrow> bool" where
  "is_ok r = (case r of Inl _ \<Rightarrow> False | Inr _ \<Rightarrow> True)"

lemma is_ok_simps [simp]: "is_ok (Inr x)" "\<not> is_ok (Inl e)"
  by (simp_all add: is_ok_def)

lemma is_ok_iff: "is_ok r \<longleftrightarrow> (\<exists>x. r = Inr x)"
  by (cases r) simp_all

definition ok_or :: "'e \<Rightarrow> 'a option \<Rightarrow> 'e + 'a" where
  "ok_or e v = (case v of None \<Rightarrow> Inl e | Some x \<Rightarrow> Inr x)"

lemma ok_or_simps [simp]: "ok_or e None = Inl e" "ok_or e (Some x) = Inr x"
  by (simp_all add: ok_or_def)

text \<open>\<open>Iterator::collect::<Result<Vec<_>>>\<close>: the first error, or all the values.\<close>

fun collect_results :: "('e + 'a) list \<Rightarrow> 'e + 'a list" where
  "collect_results [] = Inr []"
| "collect_results (r # rs) =
     and_then r (\<lambda>x. and_then (collect_results rs) (\<lambda>xs. Inr (x # xs)))"

lemma collect_results_Inr:
  "collect_results rs = Inr xs \<longleftrightarrow> rs = map Inr xs"
  by (induction rs arbitrary: xs) (auto simp: res_simps)

section \<open>Bytes\<close>

definition byte :: "char \<Rightarrow> nat" where
  "byte c = of_char c"

definition is_ascii_upper :: "char \<Rightarrow> bool" where
  "is_ascii_upper c \<longleftrightarrow> 65 \<le> byte c \<and> byte c \<le> 90"

definition is_ascii_lower :: "char \<Rightarrow> bool" where
  "is_ascii_lower c \<longleftrightarrow> 97 \<le> byte c \<and> byte c \<le> 122"

definition is_ascii_digit :: "char \<Rightarrow> bool" where
  "is_ascii_digit c \<longleftrightarrow> 48 \<le> byte c \<and> byte c \<le> 57"

definition is_ascii_alphanumeric :: "char \<Rightarrow> bool" where
  "is_ascii_alphanumeric c \<longleftrightarrow> is_ascii_upper c \<or> is_ascii_lower c \<or> is_ascii_digit c"

definition ascii_lower_char :: "char \<Rightarrow> char" where
  "ascii_lower_char c = (if is_ascii_upper c then char_of (byte c + 32) else c)"

text \<open>\<open>str::to_ascii_lowercase\<close> and \<open>str::eq_ignore_ascii_case\<close>.\<close>

definition to_ascii_lowercase :: "string \<Rightarrow> string" where
  "to_ascii_lowercase s = map ascii_lower_char s"

definition to_ascii_uppercase :: "string \<Rightarrow> string" where
  "to_ascii_uppercase s = map (\<lambda>c. if is_ascii_lower c then char_of (byte c - 32) else c) s"

definition eq_ignore_ascii_case :: "string \<Rightarrow> string \<Rightarrow> bool" where
  "eq_ignore_ascii_case a b \<longleftrightarrow> to_ascii_lowercase a = to_ascii_lowercase b"

lemma ascii_lower_char_idem [simp]:
  "ascii_lower_char (ascii_lower_char c) = ascii_lower_char c"
  by (auto simp: ascii_lower_char_def is_ascii_upper_def byte_def)

lemma to_ascii_lowercase_idem [simp]:
  "to_ascii_lowercase (to_ascii_lowercase s) = to_ascii_lowercase s"
  by (simp add: to_ascii_lowercase_def comp_def)

lemma length_to_ascii_lowercase [simp]: "length (to_ascii_lowercase s) = length s"
  by (simp add: to_ascii_lowercase_def)

lemma eq_ignore_ascii_case_refl [simp]: "eq_ignore_ascii_case a a"
  by (simp add: eq_ignore_ascii_case_def)

lemma eq_ignore_ascii_case_sym: "eq_ignore_ascii_case a b \<longleftrightarrow> eq_ignore_ascii_case b a"
  by (auto simp: eq_ignore_ascii_case_def)

section \<open>Prefixes, splitting and trimming\<close>

text \<open>\<open>str::strip_prefix\<close>, \<open>str::strip_suffix\<close>; \<open>starts_with\<close> is \<^const>\<open>prefix\<close>.\<close>

definition strip_prefix :: "string \<Rightarrow> string \<Rightarrow> string option" where
  "strip_prefix p s = (if prefix p s then Some (drop (length p) s) else None)"

lemma strip_prefix_Some [str_simps]: "strip_prefix p s = Some r \<longleftrightarrow> s = p @ r"
  by (auto simp: strip_prefix_def prefix_def)

lemma strip_prefix_append [simp]: "strip_prefix p (p @ r) = Some r"
  by (simp add: str_simps)

lemma strip_prefix_self [simp]: "strip_prefix p p = Some []"
  by (simp add: strip_prefix_def)

lemma strip_prefix_rec [simp]:
  "strip_prefix [] s = Some s"
  "strip_prefix (x # xs) [] = None"
  "strip_prefix (x # xs) (y # ys) = (if x = y then strip_prefix xs ys else None)"
  by (simp_all add: strip_prefix_def)

lemma strip_prefix_None [str_simps]: "strip_prefix p s = None \<longleftrightarrow> \<not> prefix p s"
  by (simp add: strip_prefix_def)

text \<open>\<open>str::split_once\<close> at an ASCII character: the parts around its first occurrence.\<close>

fun split_once :: "char \<Rightarrow> string \<Rightarrow> (string \<times> string) option" where
  "split_once c [] = None"
| "split_once c (x # xs) =
     (if x = c then Some ([], xs)
      else map_option (\<lambda>(a, b). (x # a, b)) (split_once c xs))"

lemma split_once_Some:
  "split_once c s = Some (a, b) \<longleftrightarrow> s = a @ c # b \<and> c \<notin> set a"
proof (induction s arbitrary: a b)
  case (Cons x xs)
  show ?case
  proof (cases a)
    case (Cons y a')
    then show ?thesis using Cons.IH by auto
  qed auto
qed auto

lemma split_once_None: "split_once c s = None \<longleftrightarrow> c \<notin> set s"
  by (induction s) auto

lemma split_once_append [simp]: "c \<notin> set a \<Longrightarrow> split_once c (a @ c # b) = Some (a, b)"
  by (simp add: split_once_Some)

text \<open>\<open>str::split\<close> at an ASCII character: always at least one part.\<close>

fun split_on :: "char \<Rightarrow> string \<Rightarrow> string list" where
  "split_on c [] = [[]]"
| "split_on c (x # xs) =
     (if x = c then [] # split_on c xs
      else (case split_on c xs of [] \<Rightarrow> [[x]] | p # ps \<Rightarrow> (x # p) # ps))"

lemma split_on_nonempty [simp]: "split_on c s \<noteq> []"
  by (induction s) (auto split: list.splits)

lemma split_on_no_sep: "p \<in> set (split_on c s) \<Longrightarrow> c \<notin> set p"
proof (induction s arbitrary: p)
  case (Cons x xs)
  show ?case
  proof (cases "split_on c xs")
    case (Cons q qs)
    with Cons.IH Cons.prems show ?thesis by (auto split: if_splits)
  qed simp
qed simp

text \<open>\<open>[String]::join\<close>.\<close>

fun join :: "string \<Rightarrow> string list \<Rightarrow> string" where
  "join sep [] = []"
| "join sep [s] = s"
| "join sep (s # t # ss) = s @ sep @ join sep (t # ss)"

lemma join_Cons: "ss \<noteq> [] \<Longrightarrow> join sep (s # ss) = s @ sep @ join sep ss"
  by (cases ss) simp_all

lemma join_split_on: "join [c] (split_on c s) = s"
proof (induction s)
  case (Cons x xs)
  obtain p ps where ps: "split_on c xs = p # ps"
    by (cases "split_on c xs") auto
  with Cons show ?case by (cases ps) auto
qed simp

lemma split_on_append:
  "c \<notin> set a \<Longrightarrow> split_on c (a @ c # b) = a # split_on c b"
  by (induction a) auto

lemma split_on_absent: "c \<notin> set a \<Longrightarrow> split_on c a = [a]"
  by (induction a) auto

lemma split_on_join:
  "ss \<noteq> [] \<Longrightarrow> \<forall>s \<in> set ss. c \<notin> set s \<Longrightarrow> split_on c (join [c] ss) = ss"
proof (induction ss)
  case (Cons s ss)
  then show ?case
    by (cases "ss = []") (auto simp: join_Cons split_on_append split_on_absent)
qed simp

text \<open>
  \<open>char::is_whitespace\<close> holds of the code points of Unicode's White_Space property. On UTF-8
  bytes \<open>trim\<close> removes their encodings at both ends; every encoding starts with a lead byte,
  so a byte prefix or suffix that is one of them is that character.
\<close>

definition white_space :: "string list" where
  "white_space =
     [[CHR 0x09], [CHR 0x0A], [CHR 0x0B], [CHR 0x0C], [CHR 0x0D], [CHR 0x20],
      [CHR 0xC2, CHR 0x85], [CHR 0xC2, CHR 0xA0], [CHR 0xE1, CHR 0x9A, CHR 0x80],
      [CHR 0xE2, CHR 0x80, CHR 0x80], [CHR 0xE2, CHR 0x80, CHR 0x81],
      [CHR 0xE2, CHR 0x80, CHR 0x82], [CHR 0xE2, CHR 0x80, CHR 0x83],
      [CHR 0xE2, CHR 0x80, CHR 0x84], [CHR 0xE2, CHR 0x80, CHR 0x85],
      [CHR 0xE2, CHR 0x80, CHR 0x86], [CHR 0xE2, CHR 0x80, CHR 0x87],
      [CHR 0xE2, CHR 0x80, CHR 0x88], [CHR 0xE2, CHR 0x80, CHR 0x89],
      [CHR 0xE2, CHR 0x80, CHR 0x8A], [CHR 0xE2, CHR 0x80, CHR 0xA8],
      [CHR 0xE2, CHR 0x80, CHR 0xA9], [CHR 0xE2, CHR 0x80, CHR 0xAF],
      [CHR 0xE2, CHR 0x81, CHR 0x9F], [CHR 0xE3, CHR 0x80, CHR 0x80]]"

text \<open>Remove any of the given non-empty words from the front, as often as one is there.\<close>

function strip_words :: "string list \<Rightarrow> string \<Rightarrow> string" where
  "strip_words ws s =
     (case find (\<lambda>w. w \<noteq> [] \<and> prefix w s) ws of
        None \<Rightarrow> s
      | Some w \<Rightarrow> strip_words ws (drop (length w) s))"
  by pat_completeness auto
termination
proof (relation "measure (\<lambda>(ws, s). length s)")
  fix ws s w
  assume "find (\<lambda>w. w \<noteq> [] \<and> prefix w s) ws = Some w"
  then have "w \<noteq> []" and "prefix w s" by (auto simp: find_Some_iff)
  then have "0 < length w" "length w \<le> length s" by (auto dest: prefix_length_le)
  then have "length s - length w < length s" by linarith
  then show "((ws, drop (length w) s), ws, s) \<in> measure (\<lambda>(ws, s). length s)" by simp
qed simp

declare strip_words.simps [simp del]

definition trim_start :: "string \<Rightarrow> string" where
  "trim_start s = strip_words white_space s"

definition trim_end :: "string \<Rightarrow> string" where
  "trim_end s = rev (strip_words (map rev white_space) (rev s))"

definition trim :: "string \<Rightarrow> string" where
  "trim s = trim_end (trim_start s)"

lemma strip_words_stuck:
  "(\<And>w. w \<in> set ws \<Longrightarrow> w \<noteq> [] \<Longrightarrow> \<not> prefix w s) \<Longrightarrow> strip_words ws s = s"
  by (subst strip_words.simps) (auto split: option.splits simp: find_Some_iff)

lemma strip_words_result:
  "w \<in> set ws \<Longrightarrow> w \<noteq> [] \<Longrightarrow> \<not> prefix w (strip_words ws s)"
proof (induction ws s rule: strip_words.induct)
  case (1 ws s)
  show ?case
  proof (cases "find (\<lambda>w. w \<noteq> [] \<and> prefix w s) ws")
    case None
    then have "strip_words ws s = s" by (subst strip_words.simps) simp
    with 1 None show ?thesis by (auto simp: find_None_iff)
  next
    case (Some v)
    with 1 show ?thesis by (subst strip_words.simps) auto
  qed
qed

lemma strip_words_idem [simp]: "strip_words ws (strip_words ws s) = strip_words ws s"
  by (rule strip_words_stuck) (rule strip_words_result)

lemma strip_words_suffix: "suffix (strip_words ws s) s"
proof (induction ws s rule: strip_words.induct)
  case (1 ws s)
  show ?case
  proof (cases "find (\<lambda>w. w \<noteq> [] \<and> prefix w s) ws")
    case None
    then show ?thesis by (subst strip_words.simps) simp
  next
    case (Some v)
    with 1 have "suffix (strip_words ws (drop (length v) s)) (drop (length v) s)" by simp
    also have "suffix (drop (length v) s) s" by (rule suffix_drop)
    finally show ?thesis using Some by (subst strip_words.simps) simp
  qed
qed

lemma trim_end_prefix: "prefix (trim_end s) s"
  using strip_words_suffix [of "map rev white_space" "rev s"]
  by (simp add: trim_end_def suffix_to_prefix)

text \<open>
  A trimmed string has no white space at its front: trimming the end keeps the front, or
  leaves nothing.
\<close>

lemma prefix_of_trim_end: "prefix w (trim_end s) \<Longrightarrow> prefix w s"
  using trim_end_prefix [of s] by (rule prefix_order.trans [rotated])

lemma trim_idem [simp]: "trim (trim s) = trim s"
proof -
  have "trim_start (trim_end (trim_start s)) = trim_end (trim_start s)"
    unfolding trim_start_def
    by (rule strip_words_stuck)
      (use prefix_of_trim_end strip_words_result [of _ white_space s] in blast)
  then show ?thesis by (simp add: trim_def trim_end_def)
qed

text \<open>\<open>str::trim_end_matches\<close> with one character.\<close>

definition trim_end_matches :: "char \<Rightarrow> string \<Rightarrow> string" where
  "trim_end_matches c s = rev (dropWhile (\<lambda>x. x = c) (rev s))"

lemma trim_end_matches_idem [simp]:
  "trim_end_matches c (trim_end_matches c s) = trim_end_matches c s"
  by (simp add: trim_end_matches_def dropWhile_idem)

text \<open>\<open>str::split_whitespace\<close>, with the part read so far.\<close>

function split_ws :: "string \<Rightarrow> string \<Rightarrow> string list" where
  "split_ws cur [] = (if cur = [] then [] else [cur])"
| "split_ws cur (x # xs) =
     (case find (\<lambda>w. w \<noteq> [] \<and> prefix w (x # xs)) white_space of
        Some w \<Rightarrow> (if cur = [] then [] else [cur]) @ split_ws [] (drop (length w) (x # xs))
      | None \<Rightarrow> split_ws (cur @ [x]) xs)"
  by pat_completeness auto
termination
proof (relation "measure (\<lambda>(cur, s). length s)")
  fix cur :: string and x :: char and xs w :: string
  assume "find (\<lambda>w. w \<noteq> [] \<and> prefix w (x # xs)) white_space = Some w"
  then have "0 < length w" by (auto simp: find_Some_iff)
  then have "length (drop (length w) (x # xs)) < length (x # xs)" by simp
  then show "(([], drop (length w) (x # xs)), cur, x # xs) \<in> measure (\<lambda>(cur, s). length s)" by simp
qed simp_all

definition split_whitespace :: "string \<Rightarrow> string list" where
  "split_whitespace s = split_ws [] s"

definition ws_free :: "string \<Rightarrow> bool" where
  "ws_free s \<longleftrightarrow> (\<forall>w \<in> set white_space. \<not> sublist w s)"

lemma white_space_blank: "w \<in> set white_space \<Longrightarrow> CHR 0x20 \<in> set w \<Longrightarrow> w = [CHR 0x20]"
  by (auto simp: white_space_def)

lemma ws_free_front:
  assumes "ws_free t" "t \<noteq> []" "rest = [] \<or> (\<exists>r. rest = CHR 0x20 # r)" "w \<in> set white_space"
  shows "\<not> prefix w (t @ rest)"
proof
  assume "prefix w (t @ rest)"
  then consider "prefix w t" | us where "w = t @ us" "prefix us rest"
    by (auto simp: prefix_append)
  then show False
  proof cases
    case 1
    with assms(1,4) show False by (auto simp: ws_free_def)
  next
    case 2
    show False
    proof (cases us)
      case Nil
      with 2 assms(1,4) show False by (auto simp: ws_free_def)
    next
      case (Cons u us')
      with 2 assms(3) have "u = CHR 0x20" by auto
      with 2 Cons have "CHR 0x20 \<in> set w" by simp
      with assms(4) have "w = [CHR 0x20]" by (rule white_space_blank)
      with 2 Cons assms(2) show False by (cases t) auto
    qed
  qed
qed

lemma split_ws_word:
  assumes "ws_free t" "rest = [] \<or> (\<exists>r. rest = CHR 0x20 # r)"
  shows "split_ws cur (t @ rest) = split_ws (cur @ t) rest"
  using assms
proof (induction t arbitrary: cur)
  case (Cons x t)
  have "ws_free t" using Cons.prems(1) by (auto simp: ws_free_def sublist_Cons_right)
  have "find (\<lambda>w. w \<noteq> [] \<and> prefix w ((x # t) @ rest)) white_space = None"
    unfolding find_None_iff using ws_free_front [OF Cons.prems(1) _ Cons.prems(2)] by blast
  then have "split_ws cur ((x # t) @ rest) = split_ws (cur @ [x]) (t @ rest)" by simp
  also have "\<dots> = split_ws ((cur @ [x]) @ t) rest"
    by (rule Cons.IH [OF \<open>ws_free t\<close> Cons.prems(2)])
  finally show ?case by simp
qed simp

lemma split_ws_blank: "split_ws cur (CHR 0x20 # s) = (if cur = [] then [] else [cur]) @ split_ws [] s"
  by (simp add: white_space_def)

lemma split_whitespace_join:
  assumes "\<forall>s \<in> set ss. s \<noteq> [] \<and> ws_free s"
  shows "split_whitespace (join [CHR 0x20] ss) = ss"
  using assms
proof (induction ss)
  case (Cons s ss)
  then have s: "s \<noteq> []" "ws_free s" by auto
  show ?case
  proof (cases "ss = []")
    case True
    have "split_ws [] (s @ []) = split_ws ([] @ s) []" by (rule split_ws_word [OF s(2)]) simp
    with True s show ?thesis by (simp add: split_whitespace_def)
  next
    case False
    have "split_ws [] (s @ CHR 0x20 # join [CHR 0x20] ss) = split_ws ([] @ s) (CHR 0x20 # join [CHR 0x20] ss)"
      by (rule split_ws_word [OF s(2)]) simp
    with False s Cons show ?thesis
      by (simp add: split_whitespace_def join_Cons split_ws_blank del: split_ws.simps(2))
  qed
qed (simp add: split_whitespace_def)

section \<open>Searching and replacing\<close>

text \<open>\<open>str::contains\<close>.\<close>

definition contains_str :: "string \<Rightarrow> string \<Rightarrow> bool" where
  "contains_str hay needle \<longleftrightarrow> sublist needle hay"

text \<open>\<open>str::replace\<close> for a non-empty pattern: occurrences from the left, without overlap.\<close>

fun replace_str :: "string \<Rightarrow> string \<Rightarrow> string \<Rightarrow> string" where
  "replace_str pat rep [] = []"
| "replace_str pat rep (x # xs) =
     (if pat \<noteq> [] \<and> prefix pat (x # xs)
      then rep @ replace_str pat rep (drop (length pat - 1) xs)
      else x # replace_str pat rep xs)"

lemma replace_str_append [simp]:
  "pat \<noteq> [] \<Longrightarrow> replace_str pat rep (pat @ s) = rep @ replace_str pat rep s"
  by (cases pat) simp_all

lemma replace_str_absent: "\<not> sublist pat s \<Longrightarrow> replace_str pat rep s = s"
proof (induction s)
  case (Cons x xs)
  then have "\<not> prefix pat (x # xs)" "\<not> sublist pat xs"
    by (auto simp: sublist_Cons_right)
  with Cons.IH show ?case by simp
qed simp

text \<open>
  When no part of the replacement can complete an occurrence of the pattern, none is left
  after replacing. Two words are incompatible when neither is a prefix of the other.
\<close>

definition incompatible :: "string \<Rightarrow> string \<Rightarrow> bool" where
  "incompatible a b \<longleftrightarrow> \<not> prefix a b \<and> \<not> prefix b a"

definition overlap_free :: "string \<Rightarrow> string \<Rightarrow> bool" where
  "overlap_free pat rep \<longleftrightarrow>
     (\<forall>k \<in> set [1..<length pat]. incompatible (drop k pat) rep) \<and>
     (\<forall>j \<in> set [0..<length rep]. incompatible (drop j rep) pat)"

lemma overlap_freeI:
  assumes "\<And>k. 0 < k \<Longrightarrow> k < length pat \<Longrightarrow> incompatible (drop k pat) rep"
    and "\<And>j. j < length rep \<Longrightarrow> incompatible (drop j rep) pat"
  shows "overlap_free pat rep"
  using assms by (simp add: overlap_free_def)

lemma incompatible_append: "incompatible a b \<Longrightarrow> \<not> prefix a (b @ c)"
  by (auto simp: incompatible_def prefix_append)

lemma prefix_replace_str:
  shows "prefix (drop k pat) (replace_str pat rep s) \<Longrightarrow> 0 < k \<Longrightarrow>
     overlap_free pat rep \<Longrightarrow> prefix (drop k pat) s"
proof (induction pat rep s arbitrary: k rule: replace_str.induct)
  case (1 pat rep)
  then show ?case by simp
next
  case (2 pat rep x xs)
  show ?case
  proof (cases "drop k pat")
    case (Cons q qs)
    then have k: "k < length pat" by (metis drop_all leI list.distinct(1))
    with "2.prems"(2) have "k \<in> set [1..<length pat]" by simp
    with "2.prems"(3) have inc: "incompatible (drop k pat) rep"
      unfolding overlap_free_def by blast
    show ?thesis
    proof (cases "pat \<noteq> [] \<and> prefix pat (x # xs)")
      case True
      with "2.prems"(1) inc show ?thesis by (auto dest: incompatible_append)
    next
      case False
      with "2.prems"(1) Cons have "q = x" "prefix qs (replace_str pat rep xs)" by auto
      moreover have "qs = drop (Suc k) pat" using Cons by (metis drop_Suc list.sel(3) tl_drop)
      ultimately show ?thesis using "2.IH"(2) [OF False, of "Suc k"] "2.prems"(3) Cons by simp
    qed
  qed simp
qed

lemma prefix_drop_append:
  assumes "overlap_free pat rep" "suffix u rep" "u \<noteq> []"
  shows "\<not> prefix pat (u @ v)"
proof -
  from assms(2) obtain zs where "rep = zs @ u" by (auto simp: suffix_def)
  then obtain j where j: "u = drop j rep" by (metis append_eq_conv_conj)
  with assms(3) have "j < length rep" by (metis drop_all leI)
  with assms(1) j have "incompatible u pat" by (auto simp: overlap_free_def)
  then have "incompatible pat u" by (auto simp: incompatible_def)
  then show ?thesis by (rule incompatible_append)
qed

lemma sublist_append_block:
  assumes "overlap_free pat rep" "suffix u rep" "sublist pat (u @ v)"
  shows "sublist pat v"
  using assms(2,3)
proof (induction u)
  case (Cons c u)
  have "\<not> prefix pat ((c # u) @ v)"
    by (rule prefix_drop_append [OF assms(1) Cons.prems(1)]) simp
  with Cons.prems(2) have "sublist pat (u @ v)" by (auto simp: sublist_Cons_right)
  moreover have "suffix u rep" using Cons.prems(1) by (auto simp: suffix_def)
  ultimately show ?case by (rule Cons.IH [rotated])
qed simp

lemma replace_str_none_left:
  assumes "overlap_free pat rep" "pat \<noteq> []"
  shows "\<not> sublist pat (replace_str pat rep s)"
  using assms
proof (induction pat rep s rule: replace_str.induct)
  case (1 pat rep)
  then show ?case by simp
next
  case (2 pat rep x xs)
  show ?case
  proof (cases "pat \<noteq> [] \<and> prefix pat (x # xs)")
    case True
    let ?rest = "replace_str pat rep (drop (length pat - 1) xs)"
    have "\<not> sublist pat ?rest" by (rule "2.IH"(1) [OF True "2.prems"])
    then have "\<not> sublist pat (rep @ ?rest)"
      using sublist_append_block [OF "2.prems"(1) suffix_order.refl] by blast
    with True show ?thesis by simp
  next
    case False
    have "\<not> prefix pat (x # replace_str pat rep xs)"
    proof
      assume p: "prefix pat (x # replace_str pat rep xs)"
      with "2.prems"(2) obtain ps where ps: "pat = x # ps" "prefix ps (replace_str pat rep xs)"
        by (cases pat) auto
      then have "prefix (drop 1 pat) xs"
        using prefix_replace_str [OF _ _ "2.prems"(1), of 1 xs] by simp
      with ps False show False by simp
    qed
    moreover have "\<not> sublist pat (replace_str pat rep xs)" by (rule "2.IH"(2) [OF False "2.prems"])
    ultimately have "\<not> sublist pat (x # replace_str pat rep xs)"
      by (simp add: sublist_Cons_right)
    then show ?thesis unfolding replace_str.simps if_not_P [OF False] .
  qed
qed

section \<open>Decimal numbers\<close>

definition digit_char :: "nat \<Rightarrow> char" where
  "digit_char d = char_of (48 + d)"

definition digit_value :: "char \<Rightarrow> nat option" where
  "digit_value c = (if is_ascii_digit c then Some (byte c - 48) else None)"

text \<open>The \<open>Display\<close> form of an unsigned integer.\<close>

fun show_nat :: "nat \<Rightarrow> string" where
  "show_nat n =
     (if n < 10 then [digit_char n] else show_nat (n div 10) @ [digit_char (n mod 10)])"

declare show_nat.simps [simp del]

definition show_int :: "int \<Rightarrow> string" where
  "show_int i = (if i < 0 then CHR ''-'' # show_nat (nat (- i)) else show_nat (nat i))"

fun digits_value :: "nat \<Rightarrow> string \<Rightarrow> nat option" where
  "digits_value acc [] = Some acc"
| "digits_value acc (c # cs) =
     (case digit_value c of None \<Rightarrow> None | Some d \<Rightarrow> digits_value (10 * acc + d) cs)"

text \<open>
  \<open>str::parse\<close> into an unsigned integer with the given largest value: an optional \<open>+\<close>, at
  least one digit, nothing else, and no overflow.
\<close>

definition parse_unsigned :: "nat \<Rightarrow> string \<Rightarrow> nat option" where
  "parse_unsigned max_value s =
     (let ds = (case s of c # cs \<Rightarrow> if c = CHR ''+'' then cs else s | [] \<Rightarrow> s)
      in if ds = [] then None
         else (case digits_value 0 ds of
                 None \<Rightarrow> None
               | Some n \<Rightarrow> if n \<le> max_value then Some n else None))"

text \<open>\<open>parse::<i64>\<close>: the same with an optional minus sign.\<close>

definition parse_i64 :: "string \<Rightarrow> int option" where
  "parse_i64 s =
     (case s of
        c # cs \<Rightarrow>
          if c = CHR ''-'' then
            (if cs = [] then None
             else (case digits_value 0 cs of
                     None \<Rightarrow> None
                   | Some n \<Rightarrow> if n \<le> 2 ^ 63 then Some (- int n) else None))
          else map_option int (parse_unsigned (2 ^ 63 - 1) s)
      | [] \<Rightarrow> None)"

lemma digit_value_digit_char [simp]: "d < 10 \<Longrightarrow> digit_value (digit_char d) = Some d"
  by (simp add: digit_value_def digit_char_def is_ascii_digit_def byte_def)

lemma digits_value_append:
  "digits_value acc (xs @ ys) =
     (case digits_value acc xs of None \<Rightarrow> None | Some a \<Rightarrow> digits_value a ys)"
  by (induction xs arbitrary: acc) (auto split: option.splits)

lemma digits_value_show_nat: "digits_value 0 (show_nat n) = Some n"
proof (induction n rule: show_nat.induct)
  case (1 n)
  show ?case
  proof (cases "n < 10")
    case True
    then show ?thesis by (subst show_nat.simps) simp
  next
    case False
    with 1 show ?thesis by (subst show_nat.simps) (simp add: digits_value_append)
  qed
qed

lemma show_nat_digits: "c \<in> set (show_nat n) \<Longrightarrow> is_ascii_digit c"
proof (induction n rule: show_nat.induct)
  case (1 n)
  have dig: "is_ascii_digit (digit_char d)" if "d < 10" for d
    using that by (simp add: digit_char_def is_ascii_digit_def byte_def)
  show ?case
  proof (cases "n < 10")
    case True
    with 1 dig show ?thesis by (simp add: show_nat.simps [of n])
  next
    case False
    with 1 dig [of "n mod 10"] show ?thesis by (auto simp: show_nat.simps [of n])
  qed
qed

lemma show_nat_nonempty [simp]: "show_nat n \<noteq> []"
  by (subst show_nat.simps) simp

lemma show_nat_no_plus: "show_nat n \<noteq> CHR ''+'' # cs"
proof
  assume "show_nat n = CHR ''+'' # cs"
  with show_nat_digits [of "CHR ''+''" n] show False
    by (simp add: is_ascii_digit_def byte_def)
qed

lemma parse_unsigned_show_nat: "n \<le> m \<Longrightarrow> parse_unsigned m (show_nat n) = Some n"
proof -
  assume le: "n \<le> m"
  obtain c cs where s: "show_nat n = c # cs"
    by (cases "show_nat n") auto
  with show_nat_no_plus [of n] have "c \<noteq> CHR ''+''" by auto
  with s have "parse_unsigned m (show_nat n) =
      (case digits_value 0 (show_nat n) of None \<Rightarrow> None | Some k \<Rightarrow> if k \<le> m then Some k else None)"
    unfolding parse_unsigned_def by (simp only: s list.case Let_def if_False list.distinct)
  then show ?thesis using le by (simp only: digits_value_show_nat option.case if_True)
qed

lemma parse_unsigned_bound: "parse_unsigned m s = Some n \<Longrightarrow> n \<le> m"
  by (auto simp: parse_unsigned_def Let_def split: if_splits option.splits)

lemma parse_i64_show_int:
  assumes "- (2 ^ 63) \<le> i" "i < 2 ^ 63" shows "parse_i64 (show_int i) = Some i"
proof (cases "i < 0")
  case True
  then have "nat (- i) \<le> 2 ^ 63" using assms(1) by simp
  with True show ?thesis by (simp add: show_int_def parse_i64_def digits_value_show_nat)
next
  case False
  obtain c cs where c: "show_nat (nat i) = c # cs" by (cases "show_nat (nat i)") auto
  then have "is_ascii_digit c" using show_nat_digits [of c "nat i"] by simp
  then have "c \<noteq> CHR ''-''" by (auto simp: is_ascii_digit_def byte_def)
  moreover have "parse_unsigned (2 ^ 63 - 1) (show_nat (nat i)) = Some (nat i)"
    using assms(2) False by (intro parse_unsigned_show_nat) simp
  ultimately show ?thesis using False by (simp add: show_int_def parse_i64_def c)
qed

lemma show_nat_inject: "show_nat a = show_nat b \<longleftrightarrow> a = b"
  by (metis digits_value_show_nat option.inject)

section \<open>SQL tables as lists of rows\<close>

text \<open>
  A table is the list of its rows in rowid order. \<open>UPDATE .. WHERE\<close>, \<open>DELETE .. WHERE\<close>,
  \<open>rows_affected()\<close> and \<open>fetch_optional\<close> on it, and what a statement can fail with.
\<close>

datatype db_error = Constraint_Failed string | Row_Missing

named_theorems sql_simps "rules for table operations"

definition update_where :: "('r \<Rightarrow> bool) \<Rightarrow> ('r \<Rightarrow> 'r) \<Rightarrow> 'r list \<Rightarrow> 'r list" where
  "update_where P f rows = map (\<lambda>r. if P r then f r else r) rows"

definition delete_where :: "('r \<Rightarrow> bool) \<Rightarrow> 'r list \<Rightarrow> 'r list" where
  "delete_where P rows = filter (\<lambda>r. \<not> P r) rows"

definition rows_where :: "('r \<Rightarrow> bool) \<Rightarrow> 'r list \<Rightarrow> nat" where
  "rows_where P rows = length (filter P rows)"

text \<open>\<open>ORDER BY key DESC\<close>; rows with equal keys keep their rowid order.\<close>

definition order_by_desc :: "('r \<Rightarrow> int) \<Rightarrow> 'r list \<Rightarrow> 'r list" where
  "order_by_desc key rows = sort_key (\<lambda>r. - key r) rows"

lemma set_update_where [sql_simps]:
  "x \<in> set (update_where P f rows) \<longleftrightarrow>
     (\<exists>r \<in> set rows. x = (if P r then f r else r))"
  by (auto simp: update_where_def)

lemma update_where_mem: "r \<in> set rows \<Longrightarrow> (if P r then f r else r) \<in> set (update_where P f rows)"
  by (auto simp: update_where_def)

lemma map_update_where:
  "(\<And>r. key (f r) = key r) \<Longrightarrow> map key (update_where P f rows) = map key rows"
  by (auto simp: update_where_def)

lemma length_update_where [simp]: "length (update_where P f rows) = length rows"
  by (simp add: update_where_def)

lemma set_delete_where [sql_simps]:
  "x \<in> set (delete_where P rows) \<longleftrightarrow> x \<in> set rows \<and> \<not> P x"
  by (auto simp: delete_where_def)

lemma distinct_map_delete_where:
  "distinct (map key rows) \<Longrightarrow> distinct (map key (delete_where P rows))"
  by (simp add: delete_where_def distinct_map_filter)

lemma rows_where_pos [sql_simps]: "0 < rows_where P rows \<longleftrightarrow> (\<exists>r \<in> set rows. P r)"
  by (auto simp: rows_where_def length_greater_0_conv filter_empty_conv)

lemma find_update_where:
  assumes "\<And>r. Q (f r) = Q r"
  shows "find Q (update_where P f rows) =
     map_option (\<lambda>r. if P r then f r else r) (find Q rows)"
  using assms by (induction rows) (auto simp: update_where_def)

lemma find_key_distinct:
  assumes "distinct (map key rows)" "r \<in> set rows" "key r = k"
  shows "find (\<lambda>x. key x = k) rows = Some r"
  using assms by (induction rows) (auto simp: image_iff)

lemma set_order_by_desc [simp]: "set (order_by_desc key rows) = set rows"
  by (simp add: order_by_desc_def)

lemma update_where_append:
  "update_where P f (xs @ ys) = update_where P f xs @ update_where P f ys"
  by (simp add: update_where_def)

lemma update_where_none: "(\<And>r. r \<in> set rows \<Longrightarrow> \<not> P r) \<Longrightarrow> update_where P f rows = rows"
  by (simp add: update_where_def map_idI)

lemma find_SomeD: "find P xs = Some x \<Longrightarrow> x \<in> set xs \<and> P x"
  by (induction xs) (auto split: if_splits)

lemma find_append_new: "find P xs = None \<Longrightarrow> P y \<Longrightarrow> find P (xs @ [y]) = Some y"
  by (induction xs) (auto split: if_splits)

lemma sorted_wrt_take: "sorted_wrt R xs \<Longrightarrow> sorted_wrt R (take n xs)"
  by (metis append_take_drop_id sorted_wrt_append)

text \<open>\<open>LIMIT n\<close>: SQLite reads a negative limit as none.\<close>

definition sql_limit :: "int \<Rightarrow> 'r list \<Rightarrow> 'r list" where
  "sql_limit n rows = (if n < 0 then rows else take (nat n) rows)"

lemma sql_limit_simps [simp]: "n < 0 \<Longrightarrow> sql_limit n rows = rows" "0 \<le> n \<Longrightarrow> sql_limit n rows = take (nat n) rows"
  by (simp_all add: sql_limit_def)

lemma set_sql_limit: "x \<in> set (sql_limit n rows) \<Longrightarrow> x \<in> set rows"
  by (auto simp: sql_limit_def split: if_splits dest: in_set_takeD)

section \<open>Bounded integers and characters\<close>

text \<open>\<open>i64\<close> saturation, \<open>Ord::clamp\<close>, and \<open>chars().take(n)\<close> on UTF-8 bytes.\<close>

definition sat_i64 :: "int \<Rightarrow> int" where
  "sat_i64 x = max (- (2 ^ 63)) (min (2 ^ 63 - 1) x)"

definition clamp :: "int \<Rightarrow> int \<Rightarrow> int \<Rightarrow> int" where
  "clamp lo hi x = (if x < lo then lo else if hi < x then hi else x)"

lemma clamp_bounds: "lo \<le> hi \<Longrightarrow> lo \<le> clamp lo hi x \<and> clamp lo hi x \<le> hi"
  by (simp add: clamp_def)

definition is_continuation :: "char \<Rightarrow> bool" where
  "is_continuation c \<longleftrightarrow> 128 \<le> byte c \<and> byte c < 192"

fun take_chars :: "nat \<Rightarrow> string \<Rightarrow> string" where
  "take_chars n [] = []"
| "take_chars n (c # cs) =
     (if is_continuation c then c # take_chars n cs
      else if n = 0 then [] else c # take_chars (n - 1) cs)"

lemma take_chars_prefix: "prefix (take_chars n s) s"
  by (induction n s rule: take_chars.induct) auto

section \<open>Searching and trimming\<close>

text \<open>\<open>Iterator::find_map\<close>.\<close>

fun find_map :: "('a \<Rightarrow> 'b option) \<Rightarrow> 'a list \<Rightarrow> 'b option" where
  "find_map f [] = None"
| "find_map f (x # xs) = (case f x of Some y \<Rightarrow> Some y | None \<Rightarrow> find_map f xs)"

lemma find_map_Some: "find_map f xs = Some y \<Longrightarrow> \<exists>x \<in> set xs. f x = Some y"
  by (induction xs) (auto split: option.splits)

lemma find_unique:
  assumes "x \<in> set xs" "P x" and only: "\<And>y. y \<in> set xs \<Longrightarrow> P y \<Longrightarrow> y = x"
  shows "find P xs = Some x"
proof (cases "find P xs")
  case None
  with assms(1,2) show ?thesis by (simp add: find_None_iff)
next
  case (Some y)
  then have "y \<in> set xs \<and> P y" by (rule find_SomeD)
  with only Some show ?thesis by blast
qed

text \<open>A text of visible ASCII characters has nothing to trim.\<close>

definition visible :: "string \<Rightarrow> bool" where
  "visible s \<longleftrightarrow> list_all (\<lambda>c. 32 < byte c \<and> byte c < 128) s"

lemma visible_append [simp]: "visible (a @ b) \<longleftrightarrow> visible a \<and> visible b"
  by (simp add: visible_def)

lemma white_space_invisible: "list_all (\<lambda>w. list_ex (\<lambda>c. byte c \<le> 32 \<or> 128 \<le> byte c) w) white_space"
  by code_simp

lemma visible_not_blank:
  assumes "visible s" "w \<in> set white_space" shows "\<not> prefix w s \<and> \<not> prefix (rev w) (rev s)"
proof -
  from white_space_invisible assms(2) obtain c where "c \<in> set w" "byte c \<le> 32 \<or> 128 \<le> byte c"
    by (fastforce simp: list_all_iff list_ex_iff)
  moreover have "c \<notin> set s" if "byte c \<le> 32 \<or> 128 \<le> byte c" for c
    using that assms(1) by (auto simp: visible_def list_all_iff)
  ultimately show ?thesis by (metis set_mono_prefix set_rev subsetD)
qed

lemma trim_visible: "visible s \<Longrightarrow> trim s = s"
  unfolding trim_def trim_start_def trim_end_def
  by (subst (1 2) strip_words_stuck) (auto dest: visible_not_blank)

section \<open>Lists without repetition\<close>

text \<open>\<open>if !v.contains(&x) { v.push(x) }\<close>, and the list that a loop of it builds.\<close>

definition push_new :: "'a \<Rightarrow> 'a list \<Rightarrow> 'a list" where
  "push_new x xs = (if x \<in> set xs then xs else xs @ [x])"

definition dedup :: "'a list \<Rightarrow> 'a list" where
  "dedup xs = fold push_new xs []"

lemma set_push_new [simp]: "set (push_new x xs) = insert x (set xs)"
  by (auto simp: push_new_def)

lemma dedup_Nil [simp]: "dedup [] = []"
  by (simp add: dedup_def)

lemma dedup_snoc [simp]: "dedup (xs @ [x]) = push_new x (dedup xs)"
  by (simp add: dedup_def)

lemma set_dedup [simp]: "set (dedup xs) = set xs"
  by (induction xs rule: rev_induct) auto

lemma distinct_dedup [simp]: "distinct (dedup xs)"
  by (induction xs rule: rev_induct) (auto simp: push_new_def)

lemma dedup_distinct: "distinct xs \<Longrightarrow> dedup xs = xs"
  by (induction xs rule: rev_induct) (auto simp: push_new_def)

lemma dedup_dedup [simp]: "dedup (dedup xs) = dedup xs"
  by (simp add: dedup_distinct)

lemma map_filter_snoc: "List.map_filter f (xs @ [x]) = List.map_filter f xs @ (case f x of None \<Rightarrow> [] | Some y \<Rightarrow> [y])"
  by (simp add: List.map_filter_def split: option.split)

lemma map_filter_map: "List.map_filter f (map g xs) = List.map_filter (f \<circ> g) xs"
  by (simp add: List.map_filter_def comp_def filter_map)

lemma set_map_filter: "set (List.map_filter f xs) = {y. \<exists>x \<in> set xs. f x = Some y}"
  by (auto simp: List.map_filter_def image_iff) (metis option.sel option.distinct(1))

lemma dedup_map_filter_dedup: "dedup (List.map_filter f (dedup xs)) = dedup (List.map_filter f xs)"
proof (induction xs rule: rev_induct)
  case (snoc x xs)
  show ?case
  proof (cases "x \<in> set xs")
    case True
    then have "dedup (List.map_filter f (xs @ [x])) = dedup (List.map_filter f xs)"
      by (auto simp: map_filter_snoc push_new_def set_map_filter split: option.split)
    with True snoc.IH show ?thesis by (simp add: push_new_def)
  next
    case False
    with snoc.IH show ?thesis by (simp add: push_new_def map_filter_snoc split: option.split)
  qed
qed (simp add: List.map_filter_def)

definition first_some :: "'a option \<Rightarrow> 'a option \<Rightarrow> 'a option" where
  "first_some a b = (case a of Some x \<Rightarrow> Some x | None \<Rightarrow> b)"

end
