(* ===== verification/Settings.thy ===== *)
theory Settings
  imports Tar_Prelude
begin

text \<open>
  The value grammar of \<open>src/config.rs\<close>: environment lookups, booleans, durations and sizes,
  and the two settings records that carry logic of their own, the SPARQL backend and the OIDC
  issuers. The process environment is a partial map. A \<open>Duration\<close> is a number of
  nanoseconds. Multiplications of \<open>u64\<close> and \<open>usize\<close> wrap around, as the release profile
  compiles them. An \<open>anyhow\<close> error is a value of \<open>config_error\<close>, one constructor per message.
\<close>

type_synonym environment = "string \<rightharpoonup> string"

datatype config_error =
    Bad_Duration string
  | Base_Iri_Required
  | Base_Iri_Not_Http string
  | Previous_Base_Iris rebase_error
  | Root_Token_Refused
  | Sparql_Two_Credentials
  | Sparql_Username_Alone
  | Sparql_Password_Alone
  | Sparql_Endpoint_Not_Http string
  | Rate_Limit_Error limit_error
and rebase_error =
    Old_Not_Http string
  | Old_Is_Current string
  | Nested_Bases string string
  | Graph_Write_Failed string
and limit_error =
    Limit_Shape string
  | Limit_Number string
  | Limit_Zero string
  | Cidr_Address string
  | Cidr_Prefix string
  | Enabled_Not_Bool string
  | Class_Shape string
  | In_Setting string limit_error

definition env :: "environment \<Rightarrow> string \<Rightarrow> string option" where
  "env e key = (case e key of None \<Rightarrow> None | Some v \<Rightarrow> if trim v = [] then None else Some v)"

definition env_bool :: "environment \<Rightarrow> string \<Rightarrow> bool \<Rightarrow> bool" where
  "env_bool e key dflt =
     (case env e key of
        Some v \<Rightarrow> to_ascii_lowercase v \<in> {''1'', ''true'', ''yes'', ''on''}
      | None \<Rightarrow> dflt)"

section \<open>Durations and sizes\<close>

definition from_secs :: "64 word \<Rightarrow> nat" where
  "from_secs n = unat n * 10 ^ 9"

text \<open>The number part of a duration and the seconds one unit stands for.\<close>

definition duration_parts :: "string \<Rightarrow> string \<times> 64 word" where
  "duration_parts s =
     (if s = [] then (s, 1)
      else if last s = CHR ''s'' then (butlast s, 1)
      else if last s = CHR ''m'' then (butlast s, 60)
      else if last s = CHR ''h'' then (butlast s, 3600)
      else if last s = CHR ''d'' then (butlast s, 86400)
      else (s, 1))"

definition parse_duration :: "string \<Rightarrow> config_error + nat" where
  "parse_duration s0 =
     (let s = trim s0; (num, mult) = duration_parts s in
      case parse_unsigned (2 ^ 64 - 1) (trim num) of
        None \<Rightarrow> Inl (Bad_Duration s)
      | Some n \<Rightarrow> Inr (from_secs (of_nat n * mult)))"

definition env_duration :: "environment \<Rightarrow> string \<Rightarrow> string \<Rightarrow> config_error + nat" where
  "env_duration e key dflt = parse_duration (case env e key of Some v \<Rightarrow> v | None \<Rightarrow> dflt)"

definition strip_suffix :: "string \<Rightarrow> string \<Rightarrow> string option" where
  "strip_suffix p s = (if suffix p s then Some (take (length s - length p) s) else None)"

definition parse_bytes :: "string \<Rightarrow> 64 word option" where
  "parse_bytes v0 =
     (let v = trim v0;
          (n, m) = (case strip_suffix ''MiB'' v of Some x \<Rightarrow> (x, 1024 * 1024)
                    | None \<Rightarrow> (case strip_suffix ''KiB'' v of Some x \<Rightarrow> (x, 1024)
                    | None \<Rightarrow> (case strip_suffix ''MB'' v of Some x \<Rightarrow> (x, 1000000)
                    | None \<Rightarrow> (v, 1))))
      in map_option (\<lambda>k. of_nat k * m) (parse_unsigned (2 ^ 64 - 1) (trim n)))"

section \<open>The SPARQL backend\<close>

datatype sparql_auth = NoAuth | Bearer string | Basic string string

record sparql_backend =
  query_endpoint :: string
  update_endpoint :: string
  auth :: sparql_auth
  timeout :: nat

definition sparql_auth_from :: "string option \<Rightarrow> string option \<Rightarrow> string option \<Rightarrow> config_error + sparql_auth" where
  "sparql_auth_from bearer username password =
     (case (bearer, username, password) of
        (Some _, Some _, _) \<Rightarrow> Inl Sparql_Two_Credentials
      | (Some _, _, Some _) \<Rightarrow> Inl Sparql_Two_Credentials
      | (Some t, None, None) \<Rightarrow> Inr (Bearer t)
      | (None, Some u, Some p) \<Rightarrow> Inr (Basic u p)
      | (None, Some _, None) \<Rightarrow> Inl Sparql_Username_Alone
      | (None, None, Some _) \<Rightarrow> Inl Sparql_Password_Alone
      | (None, None, None) \<Rightarrow> Inr NoAuth)"

definition is_http_url :: "string \<Rightarrow> bool" where
  "is_http_url s \<longleftrightarrow> prefix ''http://'' s \<or> prefix ''https://'' s"

definition sparql_backend_from_env :: "environment \<Rightarrow> string \<Rightarrow> config_error + sparql_backend" where
  "sparql_backend_from_env e endpoint =
     and_then (sparql_auth_from (env e ''TAR_SPARQL_BEARER_TOKEN'')
                 (env e ''TAR_SPARQL_USERNAME'') (env e ''TAR_SPARQL_PASSWORD'')) (\<lambda>a.
       if \<not> is_http_url endpoint then Inl (Sparql_Endpoint_Not_Http endpoint)
       else and_then (env_duration e ''TAR_SPARQL_TIMEOUT'' ''60s'') (\<lambda>t.
         Inr \<lparr>query_endpoint = endpoint,
              update_endpoint = (case env e ''TAR_SPARQL_UPDATE_ENDPOINT'' of
                                   Some u \<Rightarrow> u | None \<Rightarrow> endpoint),
              auth = a, timeout = t\<rparr>))"

definition describe_backend :: "sparql_backend \<Rightarrow> string" where
  "describe_backend b =
     (let a = (case auth b of NoAuth \<Rightarrow> ''no credential'' | Bearer _ \<Rightarrow> ''bearer token''
               | Basic _ _ \<Rightarrow> ''basic auth'')
      in if update_endpoint b = query_endpoint b then query_endpoint b @ '' ('' @ a @ '')''
         else ''query '' @ query_endpoint b @ '' / update '' @ update_endpoint b @ '' ('' @ a @ '')'')"

section \<open>OIDC issuers\<close>

record oidc_config =
  oidc_issuer :: "string option"
  client_id :: "string option"
  client_secret :: "string option"
  workload_issuers :: "string list"
  audience :: "string option"
  require_audience :: bool
  client_claim :: string
  roles_claim :: string
  scope_claim :: string
  auto_register_instances :: bool
  dev_insecure :: bool

definition oidc_enabled :: "oidc_config \<Rightarrow> bool" where
  "oidc_enabled c \<longleftrightarrow> oidc_issuer c \<noteq> None \<or> workload_issuers c \<noteq> []"

text \<open>The loop over the workload issuers, with the issuers collected so far.\<close>

fun push_issuers :: "string list \<Rightarrow> string list \<Rightarrow> string list" where
  "push_issuers v [] = v"
| "push_issuers v (i # rest) =
     (let t = trim_end_matches (CHR ''/'') i
      in push_issuers (if t \<in> set v then v else v @ [t]) rest)"

definition accepted_issuers :: "oidc_config \<Rightarrow> string list" where
  "accepted_issuers c =
     push_issuers (case oidc_issuer c of None \<Rightarrow> [] | Some i \<Rightarrow> [trim_end_matches (CHR ''/'') i])
       (workload_issuers c)"

definition human_signin_enabled :: "oidc_config \<Rightarrow> bool" where
  "human_signin_enabled c \<longleftrightarrow> oidc_issuer c \<noteq> None \<and> client_id c \<noteq> None"

definition default_binding_issuer :: "oidc_config \<Rightarrow> string option" where
  "default_binding_issuer c =
     (case oidc_issuer c of
        Some i \<Rightarrow> Some (trim_end_matches (CHR ''/'') i)
      | None \<Rightarrow> (case workload_issuers c of
                  [only] \<Rightarrow> Some (trim_end_matches (CHR ''/'') only) | _ \<Rightarrow> None))"

definition issuer_pin_required :: "oidc_config \<Rightarrow> bool" where
  "issuer_pin_required c \<longleftrightarrow> oidc_enabled c \<and> default_binding_issuer c = None"

section \<open>Lemmas\<close>

lemma set_push_issuers:
  "set (push_issuers v ws) = set v \<union> trim_end_matches (CHR ''/'') ` set ws"
  by (induction ws arbitrary: v) (auto simp: Let_def)

lemma distinct_push_issuers: "distinct v \<Longrightarrow> distinct (push_issuers v ws)"
  by (induction ws arbitrary: v) (auto simp: Let_def)

lemma distinct_accepted_issuers: "distinct (accepted_issuers c)"
  by (auto simp: accepted_issuers_def intro!: distinct_push_issuers split: option.splits)

lemma accepted_issuers_iff:
  "i \<in> set (accepted_issuers c) \<longleftrightarrow>
     (\<exists>j. (oidc_issuer c = Some j \<or> j \<in> set (workload_issuers c))
        \<and> i = trim_end_matches (CHR ''/'') j)"
  by (cases "oidc_issuer c") (auto simp: accepted_issuers_def set_push_issuers)

lemma accepted_issuers_nonempty: "accepted_issuers c \<noteq> [] \<longleftrightarrow> oidc_enabled c"
proof -
  have "accepted_issuers c \<noteq> [] \<longleftrightarrow> (\<exists>i. i \<in> set (accepted_issuers c))"
    by (metis list.set_intros(1) neq_Nil_conv length_greater_0_conv length_pos_if_in_set)
  also have "\<dots> \<longleftrightarrow> oidc_enabled c"
    by (auto simp: accepted_issuers_iff oidc_enabled_def)
      (metis list.set_intros(1) neq_Nil_conv)
  finally show ?thesis .
qed

lemma default_binding_issuer_accepted:
  "default_binding_issuer c = Some i \<Longrightarrow> i \<in> set (accepted_issuers c)"
  by (auto simp: default_binding_issuer_def accepted_issuers_iff split: option.splits list.splits)

lemma parse_duration_with_unit:
  assumes "parse_unsigned (2 ^ 64 - 1) (trim num) = Some n"
    and "trim s0 = num @ [u]" and "(u, m) \<in> {(CHR ''s'', 1), (CHR ''m'', 60), (CHR ''h'', 3600), (CHR ''d'', 86400)}"
    and "n * m < 2 ^ 64"
  shows "parse_duration s0 = Inr (n * m * 10 ^ 9)"
proof -
  have parts: "duration_parts (trim s0) = (num, of_nat m)"
    using assms(2,3) by (auto simp: duration_parts_def)
  have "unat (of_nat n * of_nat m :: 64 word) = n * m"
    using assms(4) by (simp add: unat_of_nat flip: of_nat_mult)
  with assms(1) parts show ?thesis
    by (simp add: parse_duration_def Let_def from_secs_def)
qed

end
