(* ===== verification/Graph_Store.thy ===== *)
theory Graph_Store
  imports Tar_Prelude
begin

text \<open>
  The graph store: RDF terms and quads, \<open>GraphTx\<close> and its application
  (\<open>src/store/mod.rs\<close>, \<open>src/store/oxi.rs\<close>), and the rule that says which nodes a record owns
  (\<open>src/store/queries.rs\<close>). The store is the list of its quads, each once; every quad is in a
  named graph. Oxigraph's transaction is atomic: a transaction that fails leaves the store as
  it was. Which strings are IRIs is decided by the \<open>oxigraph\<close> crate and is the argument
  \<open>valid_iri\<close>.
\<close>

datatype node = NamedNode string | BlankNode string

datatype rdf_term = Node node | Literal string string "string option"

record quad =
  q_subject :: node
  q_predicate :: string
  q_object :: rdf_term
  q_graph :: string

type_synonym store = "quad list"

definition OWNED_SUBRESOURCE_PREDICATES :: "string list" where
  "OWNED_SUBRESOURCE_PREDICATES =
     [''http://www.w3.org/ns/prov#qualifiedAttribution'',
      ''http://www.w3.org/ns/dcat#distribution'',
      ''http://www.w3.org/ns/dcat#endpointDescription'',
      ''https://w3id.org/tar/ns#hasCapability'',
      ''https://w3id.org/tar/ns#sync'',
      ''http://spdx.org/rdf/terms#checksum'',
      ''http://www.w3.org/ns/prov#qualifiedAssociation'']"

definition is_owned_subresource :: "string \<Rightarrow> bool" where
  "is_owned_subresource p \<longleftrightarrow> p \<in> set OWNED_SUBRESOURCE_PREDICATES"

definition G_LOCAL :: string where
  "G_LOCAL = ''urn:tar:local''"

section \<open>Transactions\<close>

record graph_tx =
  insert_quads :: "quad list"
  delete_subjects :: "(string \<times> string) list"
  delete_properties :: "(string \<times> string \<times> string) list"
  clear_graphs :: "string list"

definition new_tx :: graph_tx where
  "new_tx = \<lparr>insert_quads = [], delete_subjects = [], delete_properties = [], clear_graphs = []\<rparr>"

definition tx_insert :: "quad \<Rightarrow> graph_tx \<Rightarrow> graph_tx" where
  "tx_insert q t = t\<lparr>insert_quads := insert_quads t @ [q]\<rparr>"

definition tx_extend :: "quad list \<Rightarrow> graph_tx \<Rightarrow> graph_tx" where
  "tx_extend qs t = t\<lparr>insert_quads := insert_quads t @ qs\<rparr>"

definition replace_subject :: "string \<Rightarrow> string \<Rightarrow> graph_tx \<Rightarrow> graph_tx" where
  "replace_subject s g t = t\<lparr>delete_subjects := delete_subjects t @ [(s, g)]\<rparr>"

definition replace_property :: "string \<Rightarrow> string \<Rightarrow> string \<Rightarrow> graph_tx \<Rightarrow> graph_tx" where
  "replace_property s p g t = t\<lparr>delete_properties := delete_properties t @ [(s, p, g)]\<rparr>"

definition tx_is_empty :: "graph_tx \<Rightarrow> bool" where
  "tx_is_empty t \<longleftrightarrow> insert_quads t = [] \<and> delete_subjects t = [] \<and>
     delete_properties t = [] \<and> clear_graphs t = []"

section \<open>Application\<close>

text \<open>The nodes one quad leads to: a blank node always, a named node if it is owned.\<close>

definition owned_objects :: "quad \<Rightarrow> node list" where
  "owned_objects q =
     (case q_object q of
        Node (BlankNode b) \<Rightarrow> [BlankNode b]
      | Node (NamedNode n) \<Rightarrow> if is_owned_subresource (q_predicate q) then [NamedNode n] else []
      | Literal _ _ _ \<Rightarrow> [])"

definition quads_of :: "store \<Rightarrow> string \<Rightarrow> node \<Rightarrow> quad list" where
  "quads_of st g n = filter (\<lambda>q. q_subject q = n \<and> q_graph q = g) st"

text \<open>
  The work list of \<open>apply\<close>: pop a node, skip it if it was seen, else doom its quads and push
  what they own. The head of the list is the top of the stack.
\<close>

function doom :: "store \<Rightarrow> string \<Rightarrow> node list \<Rightarrow> node list \<Rightarrow> quad list \<Rightarrow> quad list" where
  "doom st g [] seen doomed = doomed"
| "doom st g (n # frontier) seen doomed =
     (if n \<in> set seen then doom st g frontier seen doomed
      else doom st g (rev (concat (map owned_objects (quads_of st g n))) @ frontier)
             (n # seen) (doomed @ quads_of st g n))"
  by pat_completeness auto
termination
proof (relation "measures [\<lambda>(st, g, fr, seen, d). card (q_subject ` set st - set seen),
                           \<lambda>(st, g, fr, seen, d). length fr]")
  fix st :: store and g :: string and n :: node and frontier seen :: "node list" and doomed :: "quad list"
  assume new: "n \<notin> set seen"
  let ?old = "q_subject ` set st - set seen" and ?new = "q_subject ` set st - set (n # seen)"
  show "((st, g, rev (concat (map owned_objects (quads_of st g n))) @ frontier,
          n # seen, doomed @ quads_of st g n), st, g, n # frontier, seen, doomed)
        \<in> measures [\<lambda>(st, g, fr, seen, d). card (q_subject ` set st - set seen),
                    \<lambda>(st, g, fr, seen, d). length fr]"
  proof (cases "n \<in> q_subject ` set st")
    case True
    with new have "?new \<subset> ?old" by auto
    then have "card ?new < card ?old" by (simp add: psubset_card_mono)
    then show ?thesis by simp
  next
    case False
    then have "quads_of st g n = []" by (auto simp: quads_of_def filter_empty_conv)
    moreover from False have "?new = ?old" by auto
    ultimately show ?thesis by simp
  qed
qed auto

definition delete_subject :: "string \<Rightarrow> string \<Rightarrow> store \<Rightarrow> store" where
  "delete_subject s g st =
     (let doomed = doom st g [NamedNode s] [] [] in filter (\<lambda>q. q \<notin> set doomed) st)"

definition delete_property :: "string \<Rightarrow> string \<Rightarrow> string \<Rightarrow> store \<Rightarrow> store" where
  "delete_property s p g st =
     filter (\<lambda>q. \<not> (q_subject q = NamedNode s \<and> q_predicate q = p \<and> q_graph q = g)) st"

definition clear_graph :: "string \<Rightarrow> store \<Rightarrow> store" where
  "clear_graph g st = filter (\<lambda>q. q_graph q \<noteq> g) st"

definition insert_quad :: "quad \<Rightarrow> store \<Rightarrow> store" where
  "insert_quad q st = (if q \<in> set st then st else st @ [q])"

definition tx_iris :: "graph_tx \<Rightarrow> string list" where
  "tx_iris t = clear_graphs t @ concat (map (\<lambda>(s, g). [s, g]) (delete_subjects t))
     @ concat (map (\<lambda>(s, p, g). [s, p, g]) (delete_properties t))"

text \<open>\<open>OxigraphStore::apply\<close>: the first string that is no IRI aborts the transaction.
  The remote backend, which deletes what a record owns to four levels only, is not modelled.\<close>

definition apply_tx :: "(string \<Rightarrow> bool) \<Rightarrow> graph_tx \<Rightarrow> store \<Rightarrow> string + store" where
  "apply_tx valid_iri t st =
     (case find (\<lambda>s. \<not> valid_iri s) (tx_iris t) of
        Some bad \<Rightarrow> Inl bad
      | None \<Rightarrow>
          (let st1 = fold clear_graph (clear_graphs t) st;
               st2 = fold (\<lambda>(s, g). delete_subject s g) (delete_subjects t) st1;
               st3 = fold (\<lambda>(s, p, g). delete_property s p g) (delete_properties t) st2
           in Inr (fold insert_quad (insert_quads t) st3)))"

text \<open>\<open>GraphStore::exists\<close>: some graph says something about the subject.\<close>

definition store_exists :: "store \<Rightarrow> string \<Rightarrow> bool" where
  "store_exists st s \<longleftrightarrow> (\<exists>q \<in> set st. q_subject q = NamedNode s)"

section \<open>What a deletion removes\<close>

text \<open>One ownership edge inside a graph, and the nodes a subject reaches by such edges.\<close>

definition owns :: "store \<Rightarrow> string \<Rightarrow> (node \<times> node) set" where
  "owns st g = {(m, n). \<exists>q \<in> set st. q_graph q = g \<and> q_subject q = m \<and> n \<in> set (owned_objects q)}"

definition owned_closure :: "store \<Rightarrow> string \<Rightarrow> node \<Rightarrow> node set" where
  "owned_closure st g n = (owns st g)\<^sup>* `` {n}"

lemma owns_image: "owns st g `` {n} = set (concat (map owned_objects (quads_of st g n)))"
  by (auto simp: owns_def quads_of_def)

lemma rtrancl_Image_step: "R\<^sup>* `` (A \<union> R `` A) = R\<^sup>* `` A"
  by (auto intro: converse_rtrancl_into_rtrancl)

lemma rtrancl_Image_closed:
  assumes "R `` A \<subseteq> A"
  shows "R\<^sup>* `` A = A"
proof -
  have "y \<in> A" if "(x, y) \<in> R\<^sup>*" "x \<in> A" for x y
    using that by induction (use assms in auto)
  then show ?thesis by auto
qed

lemma doom_closure:
  assumes "set doomed = {q \<in> set st. q_graph q = g \<and> q_subject q \<in> set seen}"
    and "owns st g `` set seen \<subseteq> set seen \<union> set frontier"
  shows "set (doom st g frontier seen doomed) =
     {q \<in> set st. q_graph q = g \<and> q_subject q \<in> (owns st g)\<^sup>* `` (set seen \<union> set frontier)}"
  using assms
proof (induction st g frontier seen doomed rule: doom.induct)
  case (1 st g seen doomed)
  then show ?case using rtrancl_Image_closed [of "owns st g" "set seen"] by simp
next
  case (2 st g n frontier seen doomed)
  let ?succ = "rev (concat (map owned_objects (quads_of st g n)))"
  show ?case
  proof (cases "n \<in> set seen")
    case True
    then have same: "set seen \<union> set (n # frontier) = set seen \<union> set frontier" by auto
    from 2 True same show ?thesis by simp
  next
    case False
    have succ: "set ?succ = owns st g `` {n}" by (simp add: owns_image)
    have d: "set (doomed @ quads_of st g n) =
        {q \<in> set st. q_graph q = g \<and> q_subject q \<in> set (n # seen)}"
      using 2(3) by (auto simp: quads_of_def)
    have c: "owns st g `` set (n # seen) \<subseteq> set (n # seen) \<union> set (?succ @ frontier)"
      using 2(4) succ by auto
    have "(owns st g)\<^sup>* `` (set (n # seen) \<union> set (?succ @ frontier)) =
          (owns st g)\<^sup>* `` (set seen \<union> set (n # frontier))" (is "?l = ?r")
    proof -
      have "?l \<subseteq> (owns st g)\<^sup>* ``
          ((set seen \<union> set (n # frontier)) \<union> owns st g `` (set seen \<union> set (n # frontier)))"
        using succ by (intro Image_mono) auto
      also have "\<dots> = ?r" by (rule rtrancl_Image_step)
      finally have "?l \<subseteq> ?r" .
      moreover have "?r \<subseteq> ?l" by (intro Image_mono) auto
      ultimately show ?thesis by blast
    qed
    with 2(2) [OF False d c] False show ?thesis by simp
  qed
qed

lemma set_doom:
  "set (doom st g [NamedNode s] [] []) =
     {q \<in> set st. q_graph q = g \<and> q_subject q \<in> owned_closure st g (NamedNode s)}"
  using doom_closure [of "[]" st g "[]" "[NamedNode s]"] by (simp add: owned_closure_def)

lemma set_delete_subject:
  "set (delete_subject s g st) =
     {q \<in> set st. \<not> (q_graph q = g \<and> q_subject q \<in> owned_closure st g (NamedNode s))}"
  unfolding delete_subject_def Let_def set_filter set_doom by auto

lemma self_in_closure [simp]: "n \<in> owned_closure st g n"
  by (simp add: owned_closure_def)

lemma set_delete_property:
  "q \<in> set (delete_property s p g st) \<longleftrightarrow>
     q \<in> set st \<and> \<not> (q_subject q = NamedNode s \<and> q_predicate q = p \<and> q_graph q = g)"
  by (auto simp: delete_property_def)

lemma set_insert_quad [simp]: "set (insert_quad q st) = insert q (set st)"
  by (auto simp: insert_quad_def)

lemma set_fold_insert_quad [simp]: "set (fold insert_quad qs st) = set st \<union> set qs"
  by (induction qs arbitrary: st) auto

lemma distinct_insert_quad: "distinct st \<Longrightarrow> distinct (insert_quad q st)"
  by (simp add: insert_quad_def)

lemma set_clear_graph [simp]: "set (clear_graph g st) = {q \<in> set st. q_graph q \<noteq> g}"
  by (auto simp: clear_graph_def)

lemma fold_invariant_list:
  "(\<And>x s. x \<in> set xs \<Longrightarrow> P s \<Longrightarrow> P (f x s)) \<Longrightarrow> P s \<Longrightarrow> P (fold f xs s)"
  by (induction xs arbitrary: s) auto

lemma fold_clear_graph:
  "set (fold clear_graph gs st) = {q \<in> set st. q_graph q \<notin> set gs}"
  by (induction gs arbitrary: st) auto

text \<open>No transaction makes the store hold a quad twice.\<close>

lemma distinct_apply_tx:
  assumes "distinct st" and "apply_tx valid_iri t st = Inr st'"
  shows "distinct st'"
proof -
  have d: "distinct (fold f xs s)"
    if "distinct s" "\<And>x s. distinct s \<Longrightarrow> distinct (f x s)" for f :: "'x \<Rightarrow> store \<Rightarrow> store" and xs s
    by (rule fold_invariant_list [of xs distinct]) (use that in auto)
  have "distinct (fold insert_quad (insert_quads t)
      (fold (\<lambda>(s, p, g). delete_property s p g) (delete_properties t)
      (fold (\<lambda>(s, g). delete_subject s g) (delete_subjects t)
      (fold clear_graph (clear_graphs t) st))))"
    by (intro d assms(1) distinct_insert_quad)
      (auto simp: delete_property_def delete_subject_def clear_graph_def Let_def)
  with assms(2) show ?thesis by (auto simp: apply_tx_def Let_def split: option.splits)
qed

end
