(* ===== verification/Errors.thy ===== *)
theory Errors
  imports Tar_Prelude
begin

text \<open>
  \<open>src/error.rs\<close>: the registry's error value and the problem document it is rendered to
  (RFC 9457). A JSON object is a partial map from member names to values, as \<open>serde_json\<close>'s
  map is keyed; only string and number members occur here.
\<close>

datatype json_value = JStr string | JNum nat

type_synonym json_object = "string \<rightharpoonup> json_value"

record app_error =
  status :: nat
  kind :: string
  title :: string
  detail :: "string option"
  report :: "string option"
  extra :: json_object

text \<open>\<open>AppError::new\<close>, \<open>detail\<close> and \<open>with\<close>.\<close>

definition new_error :: "nat \<Rightarrow> string \<Rightarrow> string \<Rightarrow> app_error" where
  "new_error st k t =
     \<lparr>status = st, kind = k, title = t, detail = None, report = None, extra = Map.empty\<rparr>"

definition with_detail :: "string \<Rightarrow> app_error \<Rightarrow> app_error" where
  "with_detail d e = e\<lparr>detail := Some d\<rparr>"

definition with_extra :: "string \<Rightarrow> json_value \<Rightarrow> app_error \<Rightarrow> app_error" where
  "with_extra key v e = e\<lparr>extra := (extra e)(key \<mapsto> v)\<rparr>"

definition not_found :: "string \<Rightarrow> app_error" where
  "not_found what = with_detail what (new_error 404 ''not-found'' ''Not found'')"

definition bad_request :: "string \<Rightarrow> app_error" where
  "bad_request d = with_detail d (new_error 400 ''bad-request'' ''Bad request'')"

definition unauthorized :: "string \<Rightarrow> app_error" where
  "unauthorized d = with_detail d (new_error 401 ''unauthorized'' ''Authentication required'')"

definition forbidden :: "string \<Rightarrow> app_error" where
  "forbidden d = with_detail d (new_error 403 ''forbidden'' ''Forbidden'')"

definition conflict :: "string \<Rightarrow> app_error" where
  "conflict d = with_detail d (new_error 409 ''conflict'' ''Conflict'')"

definition gone :: "string \<Rightarrow> app_error" where
  "gone d = with_detail d (new_error 410 ''tombstoned'' ''Record is tombstoned'')"

definition too_many_requests :: "string \<Rightarrow> app_error" where
  "too_many_requests d = with_detail d (new_error 429 ''rate-limited'' ''Too many requests'')"

definition bad_gateway :: "string \<Rightarrow> app_error" where
  "bad_gateway d =
     with_detail d (new_error 502 ''upstream-failed'' ''Upstream request failed'')"

definition internal :: "string \<Rightarrow> app_error" where
  "internal d = with_detail d (new_error 500 ''internal'' ''Internal error'')"

definition unsupported_media :: "string \<Rightarrow> app_error" where
  "unsupported_media d = with_detail d (new_error 406 ''not-acceptable'' ''Not acceptable'')"

definition validation :: "string \<Rightarrow> string \<Rightarrow> app_error" where
  "validation report_ttl summary =
     \<lparr>status = 422, kind = ''shacl-validation-failed'',
      title = ''Write rejected by SHACL validation'', detail = Some summary,
      report = Some report_ttl, extra = Map.empty\<rparr>"

lemmas error_defs = new_error_def with_detail_def with_extra_def not_found_def bad_request_def
  unauthorized_def forbidden_def conflict_def gone_def too_many_requests_def bad_gateway_def
  internal_def unsupported_media_def validation_def

lemma status_of_errors [simp]:
  "status (not_found d) = 404" "status (bad_request d) = 400"
  "status (unauthorized d) = 401" "status (forbidden d) = 403"
  "status (conflict d) = 409" "status (gone d) = 410"
  "status (too_many_requests d) = 429" "status (bad_gateway d) = 502"
  "status (internal d) = 500" "status (unsupported_media d) = 406"
  "status (validation r d) = 422" "status (with_extra k v e) = status e"
  by (simp_all add: error_defs)

lemma errors_differ [simp]:
  "unauthorized d \<noteq> forbidden d'" "forbidden d \<noteq> unauthorized d'"
  "unauthorized d \<noteq> internal d'" "internal d \<noteq> unauthorized d'"
  by (simp_all add: error_defs)

section \<open>The response\<close>

record problem_response =
  resp_status :: nat
  resp_body :: json_object
  resp_headers :: "string \<rightharpoonup> string"

text \<open>
  \<open>IntoResponse for AppError\<close>: the base members, then detail, then the report with its media
  type, then the extra members, which replace a member of the same name.
\<close>

definition into_response :: "app_error \<Rightarrow> problem_response" where
  "into_response e =
     (let base = [''type'' \<mapsto> JStr (''https://w3id.org/tar/problem/'' @ kind e),
                  ''title'' \<mapsto> JStr (title e),
                  ''status'' \<mapsto> JNum (status e)];
          with_d = (case detail e of None \<Rightarrow> base | Some d \<Rightarrow> base(''detail'' \<mapsto> JStr d));
          with_r = (case report e of None \<Rightarrow> with_d
                    | Some r \<Rightarrow> with_d(''report'' \<mapsto> JStr r,
                                      ''report_media_type'' \<mapsto> JStr ''text/turtle''));
          hdrs = [''content-type'' \<mapsto> ''application/problem+json'']
      in \<lparr>resp_status = status e,
          resp_body = with_r ++ extra e,
          resp_headers = (if status e = 401 then hdrs(''www-authenticate'' \<mapsto> ''Bearer'')
                          else hdrs)\<rparr>)"

lemma into_response_status [simp]: "resp_status (into_response e) = status e"
  by (simp add: into_response_def Let_def)

lemma into_response_challenge:
  "resp_headers (into_response e) ''www-authenticate'' = Some ''Bearer'' \<longleftrightarrow> status e = 401"
  by (simp add: into_response_def Let_def)

end
