(* ===== verification/Rebase.thy ===== *)
theory Rebase
  imports Settings Graph_Store Errors
begin

text \<open>
  \<open>src/rebase.rs\<close>: renaming the registry's own records from an old base IRI to the current one,
  and answering for the old one afterwards. The graph half works on the quads of the local
  graph; the ops half on the fourteen columns that hold IRIs, each the list of its values. The
  \<open>url\<close> crate's form decoding and URL parsing are arguments.
\<close>


section \<open>Bases\<close>

definition is_under :: "string \<Rightarrow> string \<Rightarrow> bool" where
  "is_under iri base =
     (case strip_prefix base iri of None \<Rightarrow> False | Some rest \<Rightarrow> prefix ''/'' rest)"

definition check_bases :: "string \<Rightarrow> string \<Rightarrow> rebase_error + unit" where
  "check_bases old0 new0 =
     (let old = trim_end_matches (CHR ''/'') old0; new = trim_end_matches (CHR ''/'') new0 in
      if \<not> is_http_url old then Inl (Old_Not_Http old)
      else if old = new then Inl (Old_Is_Current old)
      else if is_under new old \<or> is_under old new then Inl (Nested_Bases old new)
      else Inr ())"

definition rewrite_iri :: "string \<Rightarrow> string \<Rightarrow> string \<Rightarrow> string option" where
  "rewrite_iri iri old new =
     (case strip_prefix old iri of
        None \<Rightarrow> None
      | Some r \<Rightarrow> if r = [] then Some new
                  else map_option (\<lambda>rest. new @ ''/'' @ rest) (strip_prefix ''/'' r))"

definition rewrite_text :: "string \<Rightarrow> string \<Rightarrow> string \<Rightarrow> string" where
  "rewrite_text txt old new = replace_str (old @ ''/'') (new @ ''/'') txt"

definition rewrite_form ::
  "(string \<Rightarrow> (string \<times> string) list) \<Rightarrow> ((string \<times> string) list \<Rightarrow> string) \<Rightarrow>
   string \<Rightarrow> string list \<Rightarrow> string \<Rightarrow> string" where
  "rewrite_form form_parse form_serialize form olds new =
     form_serialize
       (map (\<lambda>(k, v). (k, fold (\<lambda>old v. rewrite_text v old new) olds v)) (form_parse form))"

section \<open>The command\<close>

text \<open>A named node is renamed, and the flag says whether one was; anything else is kept.\<close>

definition rename_node :: "string \<Rightarrow> string \<Rightarrow> string \<Rightarrow> string \<times> bool" where
  "rename_node old new iri =
     (case rewrite_iri iri old new of Some iri' \<Rightarrow> (iri', True) | None \<Rightarrow> (iri, False))"

definition rewrite_quad :: "string \<Rightarrow> string \<Rightarrow> string \<Rightarrow> quad \<Rightarrow> quad \<times> bool" where
  "rewrite_quad old new graph q =
     (let (s, c1) = (case q_subject q of
                       NamedNode n \<Rightarrow> apfst NamedNode (rename_node old new n)
                     | BlankNode b \<Rightarrow> (BlankNode b, False));
          (p, c2) = rename_node old new (q_predicate q);
          (ob, c3) = (case q_object q of
                       Node (NamedNode n) \<Rightarrow> apfst (\<lambda>i. Node (NamedNode i)) (rename_node old new n)
                     | o1 \<Rightarrow> (o1, False))
      in (\<lparr>q_subject = s, q_predicate = p, q_object = ob, q_graph = graph\<rparr>, c1 \<or> c2 \<or> c3))"

text \<open>How an ops column holds IRIs.\<close>

datatype holds = Iri | Json | Joined

definition OPS_COLUMNS :: "(string \<times> string \<times> holds) list" where
  "OPS_COLUMNS =
     [(''api_tokens'', ''instance_iri'', Iri),
      (''api_tokens'', ''software_iri'', Iri),
      (''subscriptions'', ''instance_iri'', Iri),
      (''subscriptions'', ''filter'', Json),
      (''subscription_deliveries'', ''artifact_iri'', Iri),
      (''subscription_deliveries'', ''run_iri'', Iri),
      (''subscription_deliveries'', ''payload'', Json),
      (''run_keys'', ''instance_iri'', Iri),
      (''run_keys'', ''run_iri'', Iri),
      (''artifact_keys'', ''artifact_iri'', Iri),
      (''advertise_idem'', ''idem_key'', Joined),
      (''advertise_idem'', ''run_iri'', Iri),
      (''advertise_idem'', ''artifact_iri'', Iri),
      (''audit_log'', ''target'', Iri)]"

text \<open>
  A column is the list of its values, \<open>NULL\<close> as \<open>None\<close>. SQL's \<open>instr\<close>, \<open>replace\<close> and
  \<open>substr\<close> give \<open>NULL\<close> on \<open>NULL\<close>, which no \<open>WHERE\<close> accepts.
\<close>

type_synonym ops_columns = "string \<times> string \<Rightarrow> string option list"

definition column_from :: "holds \<Rightarrow> string \<Rightarrow> string" where
  "column_from h base = (case h of Json \<Rightarrow> CHR 0x22 # base @ ''/'' | _ \<Rightarrow> base @ ''/'')"

definition column_hit :: "holds \<Rightarrow> string \<Rightarrow> string \<Rightarrow> bool" where
  "column_hit h from v = (case h of Iri \<Rightarrow> prefix from v | _ \<Rightarrow> contains_str v from)"

definition column_new :: "holds \<Rightarrow> string \<Rightarrow> string \<Rightarrow> string \<Rightarrow> string" where
  "column_new h from to v =
     (case h of Iri \<Rightarrow> to @ drop (length from) v | _ \<Rightarrow> replace_str from to v)"

definition rewrite_cell :: "holds \<Rightarrow> string \<Rightarrow> string \<Rightarrow> string option \<Rightarrow> string option" where
  "rewrite_cell h old new cell =
     map_option (\<lambda>v. if column_hit h (column_from h old) v
                     then column_new h (column_from h old) (column_from h new) v else v) cell"

definition column_count :: "holds \<Rightarrow> string \<Rightarrow> string option list \<Rightarrow> nat" where
  "column_count h old cells =
     length (filter (\<lambda>c. case c of None \<Rightarrow> False | Some v \<Rightarrow> column_hit h (column_from h old) v) cells)"

text \<open>The report, without the path of the snapshot file that a run with a data directory keeps.\<close>

record rebase_report =
  statements :: nat
  changed_rows :: "(string \<times> nat) list"

definition report_is_empty :: "rebase_report \<Rightarrow> bool" where
  "report_is_empty r \<longleftrightarrow> statements r = 0 \<and> changed_rows r = []"

text \<open>One column of the loop: count, skip an untouched column, update unless it is a dry run.\<close>

definition rebase_column ::
  "string \<Rightarrow> string \<Rightarrow> bool \<Rightarrow> string \<times> string \<times> holds \<Rightarrow>
   ops_columns \<times> (string \<times> nat) list \<Rightarrow> ops_columns \<times> (string \<times> nat) list" where
  "rebase_column old new dry_run c acc =
     (case (c, acc) of ((tbl, col, h), (db, rows)) \<Rightarrow>
        (let n = column_count h old (db (tbl, col)) in
         if n = 0 then (db, rows)
         else (if dry_run then db
               else db((tbl, col) := map (rewrite_cell h old new) (db (tbl, col))),
               rows @ [(tbl @ ''.'' @ col, n)])))"

text \<open>
  \<open>run\<close>: the quads of the local graph are rewritten in memory and written back by one
  transaction that clears the graph and inserts the result; then the columns, in one database
  transaction.
\<close>

definition rebase_run ::
  "(string \<Rightarrow> bool) \<Rightarrow> string \<Rightarrow> string \<Rightarrow> bool \<Rightarrow> store \<Rightarrow> ops_columns \<Rightarrow>
   rebase_error + (store \<times> ops_columns \<times> rebase_report)" where
  "rebase_run valid_iri new0 old0 dry_run st db =
     (let new = trim_end_matches (CHR ''/'') new0; old = trim_end_matches (CHR ''/'') old0 in
      and_then (check_bases old new) (\<lambda>_.
        let rw = map (rewrite_quad old new G_LOCAL) (filter (\<lambda>q. q_graph q = G_LOCAL) st);
            n = length (filter snd rw);
            tx = tx_extend (map fst rw) (new_tx\<lparr>clear_graphs := [G_LOCAL]\<rparr>);
            written = (if n > 0 \<and> \<not> dry_run then apply_tx valid_iri tx st else Inr st)
        in (case written of
              Inl bad \<Rightarrow> Inl (Graph_Write_Failed bad)
            | Inr st' \<Rightarrow>
                (let (db', rows) = fold (rebase_column old new dry_run) OPS_COLUMNS (db, [])
                 in Inr (st', db', \<lparr>statements = n, changed_rows = rows\<rparr>)))))"

section \<open>Requests to an old base\<close>

record parsed_url =
  url_host :: "string option"
  url_port :: "nat option"
  url_path :: string


definition redirect_to ::
  "(string \<Rightarrow> parsed_url option) \<Rightarrow> string \<Rightarrow> string \<Rightarrow> string \<Rightarrow> string \<Rightarrow> string option" where
  "redirect_to url_parse host path_and_query new old =
     (case url_parse old of None \<Rightarrow> None | Some url \<Rightarrow>
      (case url_host url of None \<Rightarrow> None | Some h \<Rightarrow>
       (let authority = (case url_port url of Some p \<Rightarrow> h @ '':'' @ show_nat p | None \<Rightarrow> h) in
        if \<not> eq_ignore_ascii_case host authority then None
        else (case strip_prefix (trim_end_matches (CHR ''/'') (url_path url)) path_and_query of
                None \<Rightarrow> None
              | Some rest \<Rightarrow>
                  if rest = [] \<or> prefix ''/'' rest \<or> prefix ''?'' rest then Some (new @ rest)
                  else None))))"

definition redirect_target ::
  "(string \<Rightarrow> parsed_url option) \<Rightarrow> string option \<Rightarrow> string \<Rightarrow> string list \<Rightarrow> string \<Rightarrow> string option" where
  "redirect_target url_parse host_header path_and_query previous new =
     (case host_header of None \<Rightarrow> None
      | Some host \<Rightarrow> find_map (redirect_to url_parse host path_and_query new) previous)"

text \<open>\<open>split("://").nth(1)\<close> cut at its first slash, or the whole string.\<close>

fun split_str_once :: "string \<Rightarrow> string \<Rightarrow> (string \<times> string) option" where
  "split_str_once pat [] = (if pat = [] then Some ([], []) else None)"
| "split_str_once pat (x # xs) =
     (if prefix pat (x # xs) then Some ([], drop (length pat) (x # xs))
      else map_option (\<lambda>(a, b). (x # a, b)) (split_str_once pat xs))"

definition until_str :: "string \<Rightarrow> string \<Rightarrow> string" where
  "until_str pat s = (case split_str_once pat s of Some (a, _) \<Rightarrow> a | None \<Rightarrow> s)"

definition mentions :: "string \<Rightarrow> string \<Rightarrow> bool" where
  "mentions txt old =
     (let after = (case split_str_once ''://'' old of
                     Some (_, rest) \<Rightarrow> until_str ''://'' rest | None \<Rightarrow> old)
      in contains_str txt (hd (split_on (CHR ''/'') after)))"

record request =
  req_path :: string
  req_query :: "string option"
  req_host :: "string option"
  req_content_type :: string
  req_content_length :: "nat option"
  req_body :: string

datatype rebase_response = Redirect string | Forward request | Reject app_error

definition payload_too_large :: "nat \<Rightarrow> app_error" where
  "payload_too_large limit =
     with_detail (''the body exceeds '' @ show_nat limit @ '' bytes'')
       (new_error 413 ''payload-too-large'' ''Payload too large'')"

text \<open>
  \<open>translate\<close>. The arguments are the form codec, the URI check of the \<open>http\<close> crate, and
  \<open>std::str::from_utf8\<close> as a check on the bytes.
\<close>

definition translate ::
  "(string \<Rightarrow> (string \<times> string) list) \<Rightarrow> ((string \<times> string) list \<Rightarrow> string) \<Rightarrow>
   (string \<Rightarrow> bool) \<Rightarrow> (string \<Rightarrow> bool) \<Rightarrow>
   request \<Rightarrow> string list \<Rightarrow> string \<Rightarrow> nat \<Rightarrow> app_error + request" where
  "translate form_parse form_serialize uri_ok from_utf8 req previous new limit =
     (let req1 = (case req_query req of
                    None \<Rightarrow> req
                  | Some q \<Rightarrow>
                      if \<not> (\<exists>old \<in> set previous. mentions q old) then req
                      else let q' = rewrite_form form_parse form_serialize q previous new in
                           if uri_ok (req_path req @ ''?'' @ q') then req\<lparr>req_query := Some q'\<rparr> else req);
          ct = req_content_type req1;
          is_form = prefix ''application/x-www-form-urlencoded'' ct;
          is_text = contains_str ct ''json'' \<or> prefix ''application/sparql'' ct;
          body = req_body req1
      in if \<not> is_form \<and> \<not> is_text then Inr req1
         else if limit < length body then Inl (payload_too_large limit)
         else if \<not> from_utf8 body then Inr req1
         else if \<not> (\<exists>old \<in> set previous. mentions body old) then Inr req1
         else let txt = (if is_form then rewrite_form form_parse form_serialize body previous new
                         else fold (\<lambda>old t. rewrite_text t old new) previous body)
              in Inr (req1\<lparr>req_content_length := Some (length txt), req_body := txt\<rparr>))"

definition rebase_middleware ::
  "(string \<Rightarrow> parsed_url option) \<Rightarrow> (string \<Rightarrow> bool) \<Rightarrow>
   (string \<Rightarrow> (string \<times> string) list) \<Rightarrow> ((string \<times> string) list \<Rightarrow> string) \<Rightarrow>
   (string \<Rightarrow> bool) \<Rightarrow> (string \<Rightarrow> bool) \<Rightarrow>
   string list \<Rightarrow> string \<Rightarrow> nat \<Rightarrow> request \<Rightarrow> rebase_response" where
  "rebase_middleware url_parse header_ok form_parse form_serialize uri_ok from_utf8
       previous base_iri limit req =
     (if previous = [] then Forward req
      else let new = trim_end_matches (CHR ''/'') base_iri;
               path_and_query = req_path req @ (case req_query req of None \<Rightarrow> [] | Some q \<Rightarrow> ''?'' @ q)
           in case redirect_target url_parse (req_host req) path_and_query previous new of
                Some location \<Rightarrow> if header_ok location then Redirect location else Forward req
              | None \<Rightarrow>
                  (case translate form_parse form_serialize uri_ok from_utf8 req previous new limit of
                     Inr req' \<Rightarrow> Forward req' | Inl e \<Rightarrow> Reject e))"

section \<open>Lemmas\<close>

lemma check_bases_Inr:
  "check_bases old new = Inr u \<longleftrightarrow>
     (let o' = trim_end_matches (CHR ''/'') old; n' = trim_end_matches (CHR ''/'') new in
      is_http_url o' \<and> o' \<noteq> n' \<and> \<not> is_under n' o' \<and> \<not> is_under o' n')"
  by (auto simp: check_bases_def Let_def)

lemma is_under_iff: "is_under iri base \<longleftrightarrow> (\<exists>r. iri = base @ ''/'' @ r)"
  by (auto simp: is_under_def strip_prefix_Some prefix_def split: option.splits)

lemma rewrite_iri_Some:
  "rewrite_iri iri old new = Some iri' \<longleftrightarrow>
     (iri = old \<and> iri' = new) \<or> (\<exists>r. iri = old @ ''/'' @ r \<and> iri' = new @ ''/'' @ r)"
  by (auto simp: rewrite_iri_def strip_prefix_Some split: option.splits if_splits)

lemma rewrite_iri_None:
  "rewrite_iri iri old new = None \<longleftrightarrow> iri \<noteq> old \<and> \<not> is_under iri old"
  by (metis is_under_iff not_Some_eq rewrite_iri_Some)

text \<open>
  Two bases, neither a prefix of the other up to a slash: nothing under one is under the other.
\<close>

lemma disjoint_bases:
  assumes "old \<noteq> new" "\<not> is_under new old" "\<not> is_under old new"
  shows "old @ ''/'' @ r \<noteq> new @ ''/'' @ s"
proof
  assume eq: "old @ ''/'' @ r = new @ ''/'' @ s"
  then obtain us where "old = new @ us \<and> us @ ''/'' @ r = ''/'' @ s \<or>
      old @ us = new \<and> ''/'' @ r = us @ ''/'' @ s"
    by (auto simp: append_eq_append_conv2)
  then show False
  proof (elim disjE conjE)
    assume *: "old = new @ us" "us @ ''/'' @ r = ''/'' @ s"
    with assms(1) have "us \<noteq> []" by auto
    with *(2) obtain us' where "us = CHR ''/'' # us'" by (cases us) auto
    with *(1) assms(3) show False by (auto simp: is_under_iff)
  next
    assume *: "old @ us = new" "''/'' @ r = us @ ''/'' @ s"
    with assms(1) have "us \<noteq> []" by auto
    with *(2) obtain us' where "us = CHR ''/'' # us'" by (cases us) auto
    with *(1) assms(2) show False by (auto simp: is_under_iff)
  qed
qed

lemma rewrite_iri_once:
  assumes "old \<noteq> new" "\<not> is_under new old" "\<not> is_under old new"
    and "rewrite_iri iri old new = Some iri'"
  shows "rewrite_iri iri' old new = None"
  using assms disjoint_bases [OF assms(1-3)] disjoint_bases [OF assms(1-3), THEN not_sym]
  by (auto simp: rewrite_iri_Some rewrite_iri_None is_under_iff)


section \<open>A finished store\<close>

definition node_settled :: "string \<Rightarrow> string \<Rightarrow> node \<Rightarrow> bool" where
  "node_settled old new n = (case n of NamedNode i \<Rightarrow> rewrite_iri i old new = None | BlankNode _ \<Rightarrow> True)"

definition quad_settled :: "string \<Rightarrow> string \<Rightarrow> quad \<Rightarrow> bool" where
  "quad_settled old new q \<longleftrightarrow> node_settled old new (q_subject q)
     \<and> rewrite_iri (q_predicate q) old new = None
     \<and> (case q_object q of Node n \<Rightarrow> node_settled old new n | Literal _ _ _ \<Rightarrow> True)"

lemma rewrite_quad_unchanged:
  "\<not> snd (rewrite_quad old new g q) \<longleftrightarrow> quad_settled old new q"
  by (auto simp: rewrite_quad_def quad_settled_def node_settled_def rename_node_def Let_def
      split: node.splits rdf_term.splits option.splits prod.splits)

lemma rewrite_quad_settled:
  "quad_settled old new q \<Longrightarrow> q_graph q = g \<Longrightarrow> fst (rewrite_quad old new g q) = q"
  by (cases q) (auto simp: rewrite_quad_def quad_settled_def node_settled_def rename_node_def Let_def
      split: node.splits rdf_term.splits)

lemma rename_node_settled:
  assumes "old \<noteq> new" "\<not> is_under new old" "\<not> is_under old new"
  shows "rewrite_iri (fst (rename_node old new i)) old new = None"
  using rewrite_iri_once [OF assms] by (auto simp: rename_node_def split: option.splits)

lemma rewrite_quad_result_settled:
  assumes "old \<noteq> new" "\<not> is_under new old" "\<not> is_under old new"
  shows "quad_settled old new (fst (rewrite_quad old new g q))"
proof -
  have *: "rename_node old new i = (a, b) \<Longrightarrow> rewrite_iri a old new = None" for i a b
    using rename_node_settled [OF assms, of i] by simp
  show ?thesis
    by (auto simp: rewrite_quad_def quad_settled_def node_settled_def Let_def apfst_def
        map_prod_def dest: * split: node.splits rdf_term.splits prod.splits)
qed

lemma rewrite_quad_graph [simp]: "q_graph (fst (rewrite_quad old new g q)) = g"
  by (simp add: rewrite_quad_def Let_def split: prod.splits)

text \<open>The columns. Rewriting a cell leaves nothing of the old base in it.\<close>

lemma incompatible_slash:
  assumes "old \<noteq> new" "\<not> is_under new old" "\<not> is_under old new"
  shows "incompatible (old @ ''/'') (new @ ''/'')"
  using disjoint_bases [OF assms, of "[]"] disjoint_bases [OF assms, of _ "[]", THEN not_sym]
  by (auto simp: incompatible_def prefix_def)

lemma overlap_free_quoted:
  assumes "incompatible a b" "CHR 0x22 \<notin> set a" "CHR 0x22 \<notin> set b"
  shows "overlap_free (CHR 0x22 # a) (CHR 0x22 # b)"
proof -
  have head: "incompatible (drop k x) (CHR 0x22 # y)"
    if "CHR 0x22 \<notin> set x" "k < length x" for k x y
  proof -
    from that obtain c cs where "drop k x = c # cs" by (cases "drop k x") auto
    moreover from this that have "c \<noteq> CHR 0x22" by (metis in_set_dropD list.set_intros(1))
    ultimately show ?thesis by (auto simp: incompatible_def)
  qed
  show ?thesis
  proof (rule overlap_freeI)
    fix k assume "0 < k" "k < length (CHR 0x22 # a)"
    then show "incompatible (drop k (CHR 0x22 # a)) (CHR 0x22 # b)"
      using head [of a "k - 1" b] assms(2) by (cases k) auto
  next
    fix j assume "j < length (CHR 0x22 # b)"
    then show "incompatible (drop j (CHR 0x22 # b)) (CHR 0x22 # a)"
      using head [of b "j - 1" a] assms(1,3) by (cases j) (auto simp: incompatible_def)
  qed
qed

text \<open>
  What a rebase needs of its two bases besides \<open>check_bases\<close>: no quotation mark in either, and
  no part of the new base that could complete the old one in joined text.
\<close>

definition plain_bases :: "string \<Rightarrow> string \<Rightarrow> bool" where
  "plain_bases old new \<longleftrightarrow> CHR 0x22 \<notin> set old \<and> CHR 0x22 \<notin> set new
     \<and> overlap_free (old @ ''/'') (new @ ''/'')"

lemma column_new_no_hit:
  assumes "old \<noteq> new" "\<not> is_under new old" "\<not> is_under old new" "plain_bases old new"
    and "column_hit h (column_from h old) v"
  shows "\<not> column_hit h (column_from h old) (column_new h (column_from h old) (column_from h new) v)"
proof (cases h)
  case Iri
  have "\<not> prefix (old @ ''/'') ((new @ ''/'') @ r)" for r
    using incompatible_slash [OF assms(1-3)] by (rule incompatible_append)
  with Iri show ?thesis by (simp add: column_hit_def column_new_def column_from_def)
next
  case Json
  have "overlap_free (CHR 0x22 # old @ ''/'') (CHR 0x22 # new @ ''/'')"
    using assms(4) by (intro overlap_free_quoted incompatible_slash [OF assms(1-3)])
      (auto simp: plain_bases_def)
  from replace_str_none_left [OF this] Json show ?thesis
    by (simp add: column_hit_def column_new_def column_from_def contains_str_def)
next
  case Joined
  have "overlap_free (old @ ''/'') (new @ ''/'')" using assms(4) by (simp add: plain_bases_def)
  from replace_str_none_left [OF this] Joined show ?thesis
    by (simp add: column_hit_def column_new_def column_from_def contains_str_def)
qed

lemma column_count_zero:
  "column_count h old cells = 0 \<longleftrightarrow>
     (\<forall>v. Some v \<in> set cells \<longrightarrow> \<not> column_hit h (column_from h old) v)"
  by (auto simp: column_count_def filter_empty_conv split: option.splits)

lemma rewrite_cells_none_left:
  assumes "old \<noteq> new" "\<not> is_under new old" "\<not> is_under old new" "plain_bases old new"
  shows "column_count h old (map (rewrite_cell h old new) cells) = 0"
proof -
  have "\<not> column_hit h (column_from h old) v" if v: "Some v \<in> set (map (rewrite_cell h old new) cells)" for v
  proof -
    from v obtain w where w: "v = (if column_hit h (column_from h old) w
        then column_new h (column_from h old) (column_from h new) w else w)"
    proof -
      from v obtain cell where "Some v = rewrite_cell h old new cell" by auto
      then obtain w where "Some v = rewrite_cell h old new (Some w)"
        by (cases cell) (auto simp: rewrite_cell_def)
      then show ?thesis unfolding rewrite_cell_def option.map option.inject by (rule that)
    qed
    show ?thesis
    proof (cases "column_hit h (column_from h old) w")
      case True
      then have "v = column_new h (column_from h old) (column_from h new) w" using w by simp
      then show ?thesis using column_new_no_hit [OF assms True] by simp
    next
      case False
      then show ?thesis using w by simp
    qed
  qed
  then show ?thesis unfolding column_count_zero by blast
qed

lemma rewrite_cells_none_hit:
  "column_count h old cells = 0 \<Longrightarrow> map (rewrite_cell h old new) cells = cells"
  by (rule map_idI) (auto simp: column_count_zero rewrite_cell_def split: option.splits intro!: option.map_ident_strong)


lemma rebase_column_step:
  "rebase_column old new dry (t, c, h) (db, rows) =
     (if column_count h old (db (t, c)) = 0 then (db, rows)
      else (if dry then db else db((t, c) := map (rewrite_cell h old new) (db (t, c))),
            rows @ [(t @ ''.'' @ c, column_count h old (db (t, c)))]))"
  by (simp add: rebase_column_def Let_def)

lemma rebase_columns_db:
  "distinct (map (\<lambda>(t, c, h). (t, c)) cols) \<Longrightarrow>
   fst (fold (rebase_column old new dry) cols (db, rows)) =
     (if dry then db
      else (\<lambda>key. case find (\<lambda>(t, c, h). (t, c) = key) cols of
                   None \<Rightarrow> db key
                 | Some (t, c, h) \<Rightarrow> map (rewrite_cell h old new) (db key)))"
proof (induction cols arbitrary: db rows)
  case (Cons x cols)
  obtain t c h where x: "x = (t, c, h)" by (cases x)
  let ?n = "column_count h old (db (t, c))"
  have key: "find (\<lambda>(t', c', h). (t', c') = (t, c)) cols = None"
    using Cons.prems by (force simp: x find_None_iff)
  let ?db = "if dry then db else db((t, c) := map (rewrite_cell h old new) (db (t, c)))"
  have "\<exists>rows'. rebase_column old new dry x (db, rows) = (?db, rows')"
    using rewrite_cells_none_hit [of h old "db (t, c)" new]
    by (auto simp: rebase_column_step x)
  then obtain rows' where "rebase_column old new dry x (db, rows) = (?db, rows')" ..
  with Cons have "fst (fold (rebase_column old new dry) (x # cols) (db, rows)) =
     (if dry then ?db
      else (\<lambda>key. case find (\<lambda>(t, c, h). (t, c) = key) cols of
                   None \<Rightarrow> ?db key
                 | Some (t, c, h) \<Rightarrow> map (rewrite_cell h old new) (?db key)))"
    by simp
  also have "\<dots> = (if dry then db
      else (\<lambda>key. case find (\<lambda>(t, c, h). (t, c) = key) (x # cols) of
                   None \<Rightarrow> db key
                 | Some (t, c, h) \<Rightarrow> map (rewrite_cell h old new) (db key)))"
    using key by (auto simp: x fun_eq_iff split: option.splits)
  finally show ?case .
qed simp

lemma rebase_columns_untouched:
  assumes "\<And>t c h. (t, c, h) \<in> set cols \<Longrightarrow> column_count h old (db (t, c)) = 0"
  shows "fold (rebase_column old new dry) cols (db, rows) = (db, rows)"
  using assms
proof (induction cols)
  case (Cons x cols)
  obtain t c h where x: "x = (t, c, h)" by (cases x)
  then have "column_count h old (db (t, c)) = 0" using Cons.prems by simp
  then have "rebase_column old new dry x (db, rows) = (db, rows)"
    by (simp add: rebase_column_step x)
  then show ?case using Cons by simp
qed simp

lemma OPS_COLUMNS_distinct: "distinct (map (\<lambda>(t, c, h). (t, c)) OPS_COLUMNS)"
  by (simp add: OPS_COLUMNS_def)

lemma find_column:
  assumes "distinct (map (\<lambda>(t, c, h). (t, c)) cols)" "(t, c, h) \<in> set cols"
  shows "find (\<lambda>(t', c', h). (t', c') = (t, c)) cols = Some (t, c, h)"
  using assms by (induction cols) force+

text \<open>The count a dry run reports is the count of a real run.\<close>

lemma rebase_columns_rows:
  "distinct (map (\<lambda>(t, c, h). (t, c)) cols) \<Longrightarrow>
   (\<And>t c h. (t, c, h) \<in> set cols \<Longrightarrow> db (t, c) = db' (t, c)) \<Longrightarrow>
   snd (fold (rebase_column old new True) cols (db, rows)) =
   snd (fold (rebase_column old new False) cols (db', rows))"
proof (induction cols arbitrary: db db' rows)
  case (Cons x cols)
  obtain t c h where x: "x = (t, c, h)" by (cases x)
  have same: "db (t, c) = db' (t, c)" using Cons.prems(2) [of t c h] x by simp
  have other: "db (t', c') = (db'((t, c) := v)) (t', c')" if "(t', c', h') \<in> set cols" for t' c' h' v
    using Cons.prems that by (force simp: x)
  have other0: "db (t', c') = db' (t', c')" if "(t', c', h') \<in> set cols" for t' c' h'
    using Cons.prems that by force
  show ?case
  proof (cases "column_count h old (db (t, c)) = 0")
    case True
    with Cons.IH [of db db' rows] Cons.prems(1) other0 same show ?thesis
      by (simp add: rebase_column_step x)
  next
    case False
    with Cons.IH [of db "db'((t, c) := map (rewrite_cell h old new) (db' (t, c)))"] Cons.prems(1) other same
    show ?thesis by (simp add: rebase_column_step x fun_upd_def)
  qed
qed simp


abbreviation trimmed :: "string \<Rightarrow> string" where
  "trimmed \<equiv> trim_end_matches (CHR ''/'')"

definition local_quads :: "store \<Rightarrow> quad list" where
  "local_quads st = filter (\<lambda>q. q_graph q = G_LOCAL) st"

definition rebase_tx :: "string \<Rightarrow> string \<Rightarrow> store \<Rightarrow> graph_tx" where
  "rebase_tx old new st =
     tx_extend (map (fst \<circ> rewrite_quad old new G_LOCAL) (local_quads st)) (new_tx\<lparr>clear_graphs := [G_LOCAL]\<rparr>)"

lemma rebase_run_unfold:
  "rebase_run valid_iri new0 old0 dry st db =
     and_then (check_bases (trimmed old0) (trimmed new0)) (\<lambda>_.
       let old = trimmed old0; new = trimmed new0;
           n = length (filter (\<lambda>q. \<not> quad_settled old new q) (local_quads st)) in
       case (if n > 0 \<and> \<not> dry then apply_tx valid_iri (rebase_tx old new st) st else Inr st) of
         Inl bad \<Rightarrow> Inl (Graph_Write_Failed bad)
       | Inr st' \<Rightarrow>
           Inr (st', fst (fold (rebase_column old new dry) OPS_COLUMNS (db, [])),
                \<lparr>statements = n,
                 changed_rows = snd (fold (rebase_column old new dry) OPS_COLUMNS (db, []))\<rparr>))"
proof -
  have "filter snd (map (rewrite_quad old new G_LOCAL) qs) =
      map (rewrite_quad old new G_LOCAL) (filter (\<lambda>q. \<not> quad_settled old new q) qs)" for old new qs
  proof -
    have "snd (rewrite_quad old new G_LOCAL q) = (\<not> quad_settled old new q)" for q
      using rewrite_quad_unchanged by blast
    then show ?thesis by (simp add: filter_map comp_def)
  qed
  then show ?thesis
    by (simp add: rebase_run_def Let_def rebase_tx_def local_quads_def comp_def case_prod_beta
        split del: if_split cong: if_cong sum.case_cong)
qed

lemma apply_rebase_tx:
  assumes "apply_tx valid_iri (rebase_tx old new st) st = Inr st'"
  shows "set st' = {q \<in> set st. q_graph q \<noteq> G_LOCAL}
     \<union> (fst \<circ> rewrite_quad old new G_LOCAL) ` set (local_quads st)"
  using assms by (auto simp: apply_tx_def rebase_tx_def tx_extend_def new_tx_def split: option.splits)

lemma bases_of_check:
  assumes "check_bases (trimmed old) (trimmed new) = Inr u"
  shows "trimmed old \<noteq> trimmed new" "\<not> is_under (trimmed new) (trimmed old)"
    "\<not> is_under (trimmed old) (trimmed new)"
  using assms by (auto simp: check_bases_Inr Let_def)

lemma rebase_graph_settled:
  assumes "rebase_run valid_iri new old False st db = Inr (st', db', r)"
  shows "\<forall>q \<in> set (local_quads st'). quad_settled (trimmed old) (trimmed new) q"
proof -
  let ?o = "trimmed old" and ?n = "trimmed new"
  from assms obtain u where chk: "check_bases ?o ?n = Inr u"
    by (auto simp: rebase_run_unfold res_simps)
  note bases = bases_of_check [OF chk]
  show ?thesis
  proof (cases "filter (\<lambda>q. \<not> quad_settled ?o ?n q) (local_quads st) = []")
    case True
    with assms chk have "st' = st" by (auto simp: rebase_run_unfold Let_def)
    with True show ?thesis by (auto simp: filter_empty_conv)
  next
    case False
    with assms chk have "apply_tx valid_iri (rebase_tx ?o ?n st) st = Inr st'"
      by (auto simp: rebase_run_unfold Let_def split: sum.splits)
    from apply_rebase_tx [OF this] show ?thesis
      using rewrite_quad_result_settled [OF bases] by (auto simp: local_quads_def)
  qed
qed

lemma rebase_columns_settled:
  assumes "rebase_run valid_iri new old False st db = Inr (st', db', r)"
    and "plain_bases (trimmed old) (trimmed new)" and "(t, c, h) \<in> set OPS_COLUMNS"
  shows "column_count h (trimmed old) (db' (t, c)) = 0"
proof -
  let ?o = "trimmed old" and ?n = "trimmed new"
  from assms(1) obtain u where chk: "check_bases ?o ?n = Inr u"
    by (auto simp: rebase_run_unfold res_simps)
  from assms(1) chk have "db' = fst (fold (rebase_column ?o ?n False) OPS_COLUMNS (db, []))"
    by (auto simp: rebase_run_unfold Let_def split: sum.splits)
  then have "db' (t, c) = map (rewrite_cell h ?o ?n) (db (t, c))"
    using find_column [OF OPS_COLUMNS_distinct assms(3)]
    by (simp add: rebase_columns_db [OF OPS_COLUMNS_distinct])
  then show ?thesis
    by (simp only: rewrite_cells_none_left [OF bases_of_check [OF chk] assms(2)])
qed

text \<open>
  \<open>tar rebase\<close> is safe to run again: after a run has finished, a second run of the same
  rebase reports nothing to change and leaves the graph store and every ops column as they are.
\<close>

theorem rebase_again_changes_nothing:
  assumes "rebase_run valid_iri new old False st db = Inr (st', db', r)"
    and "plain_bases (trimmed old) (trimmed new)"
  shows "rebase_run valid_iri new old False st' db' =
     Inr (st', db', \<lparr>statements = 0, changed_rows = []\<rparr>)"
proof -
  from assms(1) obtain u where chk: "check_bases (trimmed old) (trimmed new) = Inr u"
    by (auto simp: rebase_run_unfold res_simps)
  have "filter (\<lambda>q. \<not> quad_settled (trimmed old) (trimmed new) q) (local_quads st') = []"
    using rebase_graph_settled [OF assms(1)] by (auto simp: filter_empty_conv)
  moreover have "fold (rebase_column (trimmed old) (trimmed new) False) OPS_COLUMNS (db', []) = (db', [])"
    using rebase_columns_settled [OF assms] by (rule rebase_columns_untouched)
  ultimately show ?thesis using chk by (simp add: rebase_run_unfold Let_def)
qed


theorem rebase_again_changes_nothing_witness:
  "\<exists>st' db' r.
     rebase_run (\<lambda>_. True) ''https://new.org'' ''https://old.org/'' False
       [\<lparr>q_subject = NamedNode ''https://old.org/run/1'', q_predicate = ''p'',
         q_object = Node (NamedNode ''https://old.org''), q_graph = G_LOCAL\<rparr>]
       (\<lambda>_. [Some ''https://old.org/run/1|https://old.org/artifact/2|produced'']) = Inr (st', db', r)
     \<and> rebase_run (\<lambda>_. True) ''https://new.org'' ''https://old.org/'' False st' db' =
         Inr (st', db', \<lparr>statements = 0, changed_rows = []\<rparr>)"
proof -
  let ?st = "[\<lparr>q_subject = NamedNode ''https://old.org/run/1'', q_predicate = ''p'',
      q_object = Node (NamedNode ''https://old.org''), q_graph = G_LOCAL\<rparr>]"
    and ?db = "\<lambda>_. [Some ''https://old.org/run/1|https://old.org/artifact/2|produced'']"
  have "is_ok (rebase_run (\<lambda>_. True) ''https://new.org'' ''https://old.org/'' False ?st ?db)"
    by code_simp
  then obtain st' db' r where
    run: "rebase_run (\<lambda>_. True) ''https://new.org'' ''https://old.org/'' False ?st ?db = Inr (st', db', r)"
    by (auto simp: is_ok_iff)
  have "plain_bases (trimmed ''https://old.org/'') (trimmed ''https://new.org'')" by code_simp
  from rebase_again_changes_nothing [OF run this] run show ?thesis by blast
qed

text \<open>
  C1. What a finished rebase leaves in the graph store: no quad of the local graph names an IRI
  under the old base, every local quad is the rewriting of one that was there, and no quad of
  another graph (a peer's stub, the reference data) is touched.
\<close>

theorem rebase_graph_result:
  assumes "rebase_run valid_iri new old False st db = Inr (st', db', r)"
  shows "(\<forall>q \<in> set st'. q_graph q = G_LOCAL \<longrightarrow> quad_settled (trimmed old) (trimmed new) q)
     \<and> {q \<in> set st'. q_graph q \<noteq> G_LOCAL} = {q \<in> set st. q_graph q \<noteq> G_LOCAL}
     \<and> set (local_quads st') =
         (\<lambda>q. fst (rewrite_quad (trimmed old) (trimmed new) G_LOCAL q)) ` set (local_quads st)"
proof -
  let ?o = "trimmed old" and ?n = "trimmed new"
  let ?rw = "\<lambda>q. fst (rewrite_quad ?o ?n G_LOCAL q)"
  from assms obtain u where chk: "check_bases ?o ?n = Inr u"
    by (auto simp: rebase_run_unfold res_simps)
  have whole: "set st' = {q \<in> set st. q_graph q \<noteq> G_LOCAL} \<union> ?rw ` set (local_quads st)"
  proof (cases "filter (\<lambda>q. \<not> quad_settled ?o ?n q) (local_quads st) = []")
    case True
    with assms chk have "st' = st" by (auto simp: rebase_run_unfold Let_def)
    moreover have "?rw ` set (local_quads st) = set (local_quads st)"
      using True by (force simp: filter_empty_conv local_quads_def rewrite_quad_settled image_iff)
    ultimately show ?thesis by (auto simp: local_quads_def)
  next
    case False
    with assms chk have "apply_tx valid_iri (rebase_tx ?o ?n st) st = Inr st'"
      by (auto simp: rebase_run_unfold Let_def split: sum.splits)
    from apply_rebase_tx [OF this] show ?thesis by (simp add: comp_def)
  qed
  have loc: "q_graph q = G_LOCAL" if "q \<in> ?rw ` set (local_quads st)" for q
    using that by auto
  have "\<forall>q \<in> set st'. q_graph q = G_LOCAL \<longrightarrow> quad_settled ?o ?n q"
    using rebase_graph_settled [OF assms] by (simp add: local_quads_def)
  moreover have "{q \<in> set st'. q_graph q \<noteq> G_LOCAL} = {q \<in> set st. q_graph q \<noteq> G_LOCAL}"
    unfolding whole using loc by blast
  moreover have "set (local_quads st') = ?rw ` set (local_quads st)"
    using loc unfolding local_quads_def [of st'] set_filter whole by blast
  ultimately show ?thesis by blast
qed

theorem rebase_graph_result_witness:
  "\<exists>st' db' r.
     rebase_run (\<lambda>_. True) ''https://new.org'' ''https://old.org'' False
       [\<lparr>q_subject = NamedNode ''https://old.org/run/1'', q_predicate = ''p'',
         q_object = Literal ''x'' ''t'' None, q_graph = G_LOCAL\<rparr>] (\<lambda>_. []) = Inr (st', db', r)
     \<and> (\<forall>q \<in> set st'. q_graph q = G_LOCAL \<longrightarrow>
          quad_settled (trimmed ''https://old.org'') (trimmed ''https://new.org'') q)"
proof -
  let ?st = "[\<lparr>q_subject = NamedNode ''https://old.org/run/1'', q_predicate = ''p'',
      q_object = Literal ''x'' ''t'' None, q_graph = G_LOCAL\<rparr>]"
  have "is_ok (rebase_run (\<lambda>_. True) ''https://new.org'' ''https://old.org'' False ?st (\<lambda>_. []))"
    by code_simp
  then obtain st' db' r where
    run: "rebase_run (\<lambda>_. True) ''https://new.org'' ''https://old.org'' False ?st (\<lambda>_. []) = Inr (st', db', r)"
    by (auto simp: is_ok_iff)
  from rebase_graph_result [OF run] run show ?thesis by blast
qed

text \<open>
  C25. A dry run changes nothing and reports what the real run on the same stores reports.
\<close>

theorem rebase_dry_run_agrees:
  assumes "rebase_run valid_iri new old True st db = Inr (st1, db1, r1)"
    and "rebase_run valid_iri new old False st db = Inr (st2, db2, r2)"
  shows "st1 = st \<and> db1 = db \<and> r1 = r2"
proof -
  from assms obtain u where chk: "check_bases (trimmed old) (trimmed new) = Inr u"
    by (auto simp: rebase_run_unfold res_simps)
  have "st1 = st \<and> db1 = db"
    using assms(1) chk by (auto simp: rebase_run_unfold Let_def rebase_columns_db [OF OPS_COLUMNS_distinct])
  moreover have "r1 = r2"
    using assms chk rebase_columns_rows [OF OPS_COLUMNS_distinct, of db db "trimmed old" "trimmed new" "[]"]
    by (auto simp: rebase_run_unfold Let_def split: sum.splits)
  ultimately show ?thesis by simp
qed

theorem rebase_dry_run_agrees_witness:
  "\<exists>st1 db1 r1 st2 db2 r2.
     rebase_run (\<lambda>_. True) ''https://new.org'' ''https://old.org'' True [] (\<lambda>_. [Some ''https://old.org/x''])
       = Inr (st1, db1, r1)
     \<and> rebase_run (\<lambda>_. True) ''https://new.org'' ''https://old.org'' False [] (\<lambda>_. [Some ''https://old.org/x''])
       = Inr (st2, db2, r2)
     \<and> r1 = r2 \<and> changed_rows r1 \<noteq> []"
proof -
  let ?run = "\<lambda>d. rebase_run (\<lambda>_. True) ''https://new.org'' ''https://old.org'' d [] (\<lambda>_. [Some ''https://old.org/x''])"
  have ok: "is_ok (?run True)" "is_ok (?run False)" by code_simp+
  have ne: "case ?run True of Inl _ \<Rightarrow> False | Inr (_, _, r) \<Rightarrow> changed_rows r \<noteq> []" by code_simp
  from ok obtain st1 db1 r1 st2 db2 r2 where
    runs: "?run True = Inr (st1, db1, r1)" "?run False = Inr (st2, db2, r2)"
    by (auto simp: is_ok_iff)
  from rebase_dry_run_agrees [OF runs] runs ne show ?thesis by auto
qed

end
