(* ===== verification/Principals.thy ===== *)
theory Principals
  imports Errors "HOL-Library.Char_ord" "HOL-Library.List_Lexorder"
begin

text \<open>
  The first half of \<open>src/auth/mod.rs\<close>: scopes, roles, the principal a credential is turned
  into, and the guards a handler calls on it. A \<open>BTreeSet\<close> is a set; where its order shows
  (the scopes listed in a refusal) it is the sorted list, in the bytewise order of Rust's
  \<open>String\<close>. The guards share a contract, the locale \<open>guard\<close>, which is interpreted on each.
\<close>

definition SCOPE_ADVERTISE_PRODUCE :: string where
  "SCOPE_ADVERTISE_PRODUCE = ''advertise:produce''"
definition SCOPE_ADVERTISE_CONSUME :: string where
  "SCOPE_ADVERTISE_CONSUME = ''advertise:consume''"
definition SCOPE_REGISTER_SOFTWARE :: string where
  "SCOPE_REGISTER_SOFTWARE = ''register:software''"
definition SCOPE_REGISTER_INSTANCE :: string where
  "SCOPE_REGISTER_INSTANCE = ''register:instance''"
definition SCOPE_READ_PRIVATE :: string where
  "SCOPE_READ_PRIVATE = ''read:private''"
definition SCOPE_SUBSCRIBE_ARTIFACTS :: string where
  "SCOPE_SUBSCRIBE_ARTIFACTS = ''subscribe:artifacts''"
definition SCOPE_ADMIN :: string where
  "SCOPE_ADMIN = ''admin:*''"

lemmas scope_defs = SCOPE_ADVERTISE_PRODUCE_def SCOPE_ADVERTISE_CONSUME_def
  SCOPE_REGISTER_SOFTWARE_def SCOPE_REGISTER_INSTANCE_def SCOPE_READ_PRIVATE_def
  SCOPE_SUBSCRIBE_ARTIFACTS_def SCOPE_ADMIN_def

definition ALL_SCOPES :: "string list" where
  "ALL_SCOPES = [SCOPE_ADVERTISE_PRODUCE, SCOPE_ADVERTISE_CONSUME, SCOPE_REGISTER_SOFTWARE,
     SCOPE_REGISTER_INSTANCE, SCOPE_READ_PRIVATE, SCOPE_SUBSCRIBE_ARTIFACTS, SCOPE_ADMIN]"

datatype credential_kind = NoCredential | LocalToken | OidcWorkload | OidcHuman | RootToken

datatype role = Reader | Curator | Admin

text \<open>\<open>Role\<close> derives \<open>Ord\<close>: the declaration order.\<close>

fun role_rank :: "role \<Rightarrow> nat" where
  "role_rank Reader = 0" | "role_rank Curator = 1" | "role_rank Admin = 2"

lemma role_rank_inject: "role_rank a = role_rank b \<longleftrightarrow> a = b"
  by (cases a; cases b) simp_all

instantiation role :: linorder
begin

definition less_eq_role :: "role \<Rightarrow> role \<Rightarrow> bool" where
  "less_eq_role a b \<longleftrightarrow> role_rank a \<le> role_rank b"

definition less_role :: "role \<Rightarrow> role \<Rightarrow> bool" where
  "less_role a b \<longleftrightarrow> role_rank a < role_rank b"

instance
  by standard (auto simp: less_eq_role_def less_role_def role_rank_inject)

end

definition parse_role :: "string \<Rightarrow> role option" where
  "parse_role s =
     (let t = to_ascii_lowercase (trim s) in
      if t \<in> {''reader'', ''tar-reader'', ''tar_reader''} then Some Reader
      else if t \<in> {''curator'', ''tar-curator'', ''tar_curator''} then Some Curator
      else if t \<in> {''admin'', ''tar-admin'', ''tar_admin''} then Some Admin
      else None)"

record principal =
  credential :: credential_kind
  instance_iri :: "string option"
  software_iri :: "string option"
  subject :: string
  display_name :: "string option"
  scopes :: "string set"
  roles :: "role set"
  issuer :: "string option"

definition anonymous :: principal where
  "anonymous =
     \<lparr>credential = NoCredential, instance_iri = None, software_iri = None,
      subject = ''anonymous'', display_name = None, scopes = {}, roles = {}, issuer = None\<rparr>"

definition is_anonymous :: "principal \<Rightarrow> bool" where
  "is_anonymous p \<longleftrightarrow> credential p = NoCredential"

definition is_admin :: "principal \<Rightarrow> bool" where
  "is_admin p \<longleftrightarrow> Admin \<in> roles p \<or> SCOPE_ADMIN \<in> scopes p"

definition is_curator :: "principal \<Rightarrow> bool" where
  "is_curator p \<longleftrightarrow> is_admin p \<or> Curator \<in> roles p"

definition is_subscribe_only :: "principal \<Rightarrow> bool" where
  "is_subscribe_only p \<longleftrightarrow>
     scopes p \<noteq> {} \<and> (\<forall>s \<in> scopes p. s = SCOPE_SUBSCRIBE_ARTIFACTS)"

definition acts_for_instance :: "principal \<Rightarrow> string \<Rightarrow> bool" where
  "acts_for_instance p iri \<longleftrightarrow> instance_iri p = Some iri \<and> \<not> is_subscribe_only p"

definition has_scope :: "principal \<Rightarrow> string \<Rightarrow> bool" where
  "has_scope p s \<longleftrightarrow> is_admin p \<or> s \<in> scopes p"

definition actor_kind :: "principal \<Rightarrow> string" where
  "actor_kind p =
     (case credential p of
        NoCredential \<Rightarrow> ''anonymous'' | LocalToken \<Rightarrow> ''instance-token''
      | OidcWorkload \<Rightarrow> ''oidc-workload'' | OidcHuman \<Rightarrow> ''oidc-human''
      | RootToken \<Rightarrow> ''root-token'')"

section \<open>Guards\<close>

definition require_authenticated :: "principal \<Rightarrow> app_error + unit" where
  "require_authenticated p =
     (if is_anonymous p then
        Inl (unauthorized
          ''this endpoint needs a credential: an OIDC token from a trusted issuer, or a registry API token'')
      else Inr ())"

definition require_scope :: "string \<Rightarrow> principal \<Rightarrow> app_error + unit" where
  "require_scope s p =
     and_then (require_authenticated p) (\<lambda>_.
       if has_scope p s then Inr ()
       else Inl (forbidden (''credential lacks the '' @ s @ '' scope (has: '' @
              (if scopes p = {} then ''none''
               else join '' '' (sorted_list_of_set (scopes p))) @ '')'')))"

definition require_curator :: "principal \<Rightarrow> app_error + unit" where
  "require_curator p =
     and_then (require_authenticated p) (\<lambda>_.
       if is_curator p \<or> has_scope p SCOPE_REGISTER_SOFTWARE then Inr ()
       else Inl (forbidden ''curator role required''))"

definition require_admin :: "principal \<Rightarrow> app_error + unit" where
  "require_admin p =
     and_then (require_authenticated p) (\<lambda>_.
       if is_admin p then Inr () else Inl (forbidden ''admin role required''))"

text \<open>The refusal's last words carry a paragraph sign, two bytes in UTF-8.\<close>

definition require_instance :: "principal \<Rightarrow> app_error + string" where
  "require_instance p =
     and_then (require_authenticated p) (\<lambda>_.
       ok_or (forbidden (''this credential does not act as an Instance; advertisement must be '' @
                ''authenticated as the deployment that performed the run (spec '' @
                [CHR 0xC2, CHR 0xA7] @ ''8.3)''))
             (instance_iri p))"

section \<open>What every guard promises\<close>

text \<open>
  A guard refuses an anonymous caller with 401, lets a caller through exactly when it is
  allowed, and refuses any other with 403.
\<close>

locale guard =
  fixes allowed :: "principal \<Rightarrow> bool"
    and check :: "principal \<Rightarrow> app_error + 'v"
  assumes anonymous_refused: "is_anonymous p \<Longrightarrow> \<exists>d. check p = Inl (unauthorized d)"
    and allowed_passes: "\<not> is_anonymous p \<Longrightarrow> allowed p \<Longrightarrow> is_ok (check p)"
    and others_refused: "\<not> is_anonymous p \<Longrightarrow> \<not> allowed p \<Longrightarrow> \<exists>d. check p = Inl (forbidden d)"
begin

lemma ok_iff: "is_ok (check p) \<longleftrightarrow> \<not> is_anonymous p \<and> allowed p"
  using anonymous_refused [of p] allowed_passes [of p] others_refused [of p] by force

lemma refusal_status:
  assumes "check p = Inl e"
  shows "status e = (if is_anonymous p then 401 else 403)"
proof (cases "is_anonymous p")
  case True
  with anonymous_refused [OF this] assms show ?thesis by auto
next
  case False
  with assms allowed_passes [OF False] have "\<not> allowed p" by auto
  with others_refused [OF False] assms False show ?thesis by auto
qed

text \<open>A refusal carries a challenge exactly when the caller sent no credential.\<close>

lemma refusal_challenges:
  assumes "check p = Inl e"
  shows "resp_headers (into_response e) ''www-authenticate'' = Some ''Bearer'' \<longleftrightarrow> is_anonymous p"
  using refusal_status [OF assms] by (simp add: into_response_challenge)

lemma total: "is_ok (check p) \<or> (\<exists>e. check p = Inl e \<and> status e \<in> {401, 403})"
  using ok_iff [of p] refusal_status [of p] by (cases "check p") auto

end

text \<open>A guard an administrator always passes.\<close>

locale admin_guard = guard +
  assumes admin_allowed: "is_admin p \<Longrightarrow> allowed p"
begin

lemma admin_passes: "is_admin p \<Longrightarrow> \<not> is_anonymous p \<Longrightarrow> is_ok (check p)"
  using ok_iff admin_allowed by blast

end

lemmas principal_defs = is_admin_def is_curator_def has_scope_def is_subscribe_only_def
  acts_for_instance_def is_anonymous_def

interpretation ga: admin_guard "\<lambda>_. True" require_authenticated
  by unfold_locales (auto simp: require_authenticated_def)

interpretation gs: admin_guard "\<lambda>p. has_scope p s" "require_scope s" for s
  by unfold_locales (auto simp: require_scope_def require_authenticated_def has_scope_def)

interpretation gc: admin_guard "\<lambda>p. is_curator p \<or> has_scope p SCOPE_REGISTER_SOFTWARE" require_curator
  by unfold_locales (auto simp: require_curator_def require_authenticated_def is_curator_def)

interpretation gadm: admin_guard is_admin require_admin
  by unfold_locales (auto simp: require_admin_def require_authenticated_def)

interpretation gi: guard "\<lambda>p. instance_iri p \<noteq> None" require_instance
  by unfold_locales (auto simp: require_instance_def require_authenticated_def)

lemma anonymous_is_anonymous [simp]: "is_anonymous anonymous"
  by (simp add: anonymous_def is_anonymous_def)

lemma require_instance_Inr:
  "require_instance p = Inr iri \<longleftrightarrow> \<not> is_anonymous p \<and> instance_iri p = Some iri"
  by (auto simp: require_instance_def require_authenticated_def ok_or_def split: option.splits)

end
