(* ===== verification/Tokens.thy ===== *)
theory Tokens
  imports Tar_Prelude
begin

text \<open>
  API tokens in the ops database (\<open>src/ops/mod.rs\<close>, the tokens section). The table is the
  list of its rows; \<open>id\<close> is its primary key and \<open>prefix\<close> is unique. Times are integers (the
  database holds their RFC 3339 texts, whose order is the order of the times). Argon2id is
  two arguments: \<open>hash_secret\<close>, which hashes under the salt it draws, and \<open>verify_secret\<close>.
  The random id, prefix and secret of a new token are arguments too; adding a lifetime to a
  time is \<open>add_time\<close>, which has no result past \<open>chrono\<close>'s last representable instant, where
  the code panics.
\<close>

datatype token_subject = SubjectInstance string | SubjectSoftware string

datatype ops_error = Unique_Violation string | Hash_Failed | Time_Overflow

record token_row =
  row_id :: string
  row_prefix :: string
  row_hash :: string
  row_instance_iri :: "string option"
  row_software_iri :: "string option"
  row_subject_kind :: string
  row_scopes :: string
  row_label :: "string option"
  row_created_at :: int
  row_created_by :: "string option"
  row_expires_at :: "int option"
  row_last_used_at :: "int option"
  row_revoked_at :: "int option"

record token_record =
  tok_id :: string
  tok_prefix :: string
  tok_instance_iri :: "string option"
  tok_software_iri :: "string option"
  tok_subject_kind :: string
  tok_scopes :: "string list"
  tok_label :: "string option"
  tok_created_at :: int
  tok_created_by :: "string option"
  tok_expires_at :: "int option"
  tok_last_used_at :: "int option"
  tok_revoked_at :: "int option"

definition token_from_row :: "token_row \<Rightarrow> token_record" where
  "token_from_row r =
     \<lparr>tok_id = row_id r, tok_prefix = row_prefix r, tok_instance_iri = row_instance_iri r,
      tok_software_iri = row_software_iri r, tok_subject_kind = row_subject_kind r,
      tok_scopes = split_whitespace (row_scopes r), tok_label = row_label r,
      tok_created_at = row_created_at r, tok_created_by = row_created_by r,
      tok_expires_at = row_expires_at r, tok_last_used_at = row_last_used_at r,
      tok_revoked_at = row_revoked_at r\<rparr>"

section \<open>Operations\<close>

definition subject_columns :: "token_subject \<Rightarrow> string option \<times> string option \<times> string" where
  "subject_columns s =
     (case s of SubjectInstance iri \<Rightarrow> (Some iri, None, ''instance'')
      | SubjectSoftware iri \<Rightarrow> (None, Some iri, ''software''))"

definition token_plaintext :: "string \<Rightarrow> string \<Rightarrow> string" where
  "token_plaintext pre secret = ''tar_'' @ pre @ ''_'' @ secret"

definition mint_token ::
  "(string \<Rightarrow> string option) \<Rightarrow> (int \<Rightarrow> int \<Rightarrow> int option) \<Rightarrow>
   string \<Rightarrow> string \<Rightarrow> string \<Rightarrow> int \<Rightarrow> token_subject \<Rightarrow> string list \<Rightarrow> string option \<Rightarrow>
   string option \<Rightarrow> int option \<Rightarrow> token_row list \<Rightarrow>
   ops_error + (token_row list \<times> token_record \<times> string)" where
  "mint_token hash_secret add_time new_id pre secret now subj scps label created_by ttl tbl =
     (let (inst, soft, skind) = subject_columns subj;
          plaintext = token_plaintext pre secret
      in case hash_secret plaintext of
           None \<Rightarrow> Inl Hash_Failed
         | Some h \<Rightarrow>
             and_then (case ttl of None \<Rightarrow> Inr None
                       | Some d \<Rightarrow> (case add_time now d of
                                     None \<Rightarrow> Inl Time_Overflow | Some t \<Rightarrow> Inr (Some t)))
             (\<lambda>expires.
               let row = \<lparr>row_id = new_id, row_prefix = pre, row_hash = h,
                          row_instance_iri = inst, row_software_iri = soft,
                          row_subject_kind = skind, row_scopes = join '' '' scps,
                          row_label = label, row_created_at = now, row_created_by = created_by,
                          row_expires_at = expires, row_last_used_at = None, row_revoked_at = None\<rparr>
               in if \<exists>r \<in> set tbl. row_id r = new_id \<or> row_prefix r = pre
                  then Inl (Unique_Violation ''api_tokens'')
                  else Inr (tbl @ [row],
                    \<lparr>tok_id = new_id, tok_prefix = pre, tok_instance_iri = inst,
                     tok_software_iri = soft, tok_subject_kind = skind, tok_scopes = scps,
                     tok_label = label, tok_created_at = now, tok_created_by = created_by,
                     tok_expires_at = expires, tok_last_used_at = None, tok_revoked_at = None\<rparr>,
                    plaintext)))"

text \<open>\<open>verify_token\<close>: the record, read before the last use is noted, and the table after.\<close>

definition expired :: "int \<Rightarrow> int option \<Rightarrow> bool" where
  "expired now e = (case e of None \<Rightarrow> False | Some t \<Rightarrow> t < now)"

definition verify_token ::
  "(string \<Rightarrow> string \<Rightarrow> bool) \<Rightarrow> int \<Rightarrow> string \<Rightarrow> token_row list \<Rightarrow>
   token_record option \<times> token_row list" where
  "verify_token verify_secret now presented tbl =
     (case strip_prefix ''tar_'' presented of
        None \<Rightarrow> (None, tbl)
      | Some rest \<Rightarrow>
          (case split_once (CHR ''_'') rest of
             None \<Rightarrow> (None, tbl)
           | Some (pre, _) \<Rightarrow>
               (case find (\<lambda>r. row_prefix r = pre) tbl of
                  None \<Rightarrow> (None, tbl)
                | Some row \<Rightarrow>
                    if \<not> verify_secret presented (row_hash row) then (None, tbl)
                    else let rec = token_from_row row in
                      if tok_revoked_at rec \<noteq> None then (None, tbl)
                      else if expired now (tok_expires_at rec) then (None, tbl)
                      else (Some rec,
                            update_where (\<lambda>r. row_id r = tok_id rec)
                              (\<lambda>r. r\<lparr>row_last_used_at := Some now\<rparr>) tbl))))"

definition list_tokens :: "string \<Rightarrow> token_row list \<Rightarrow> token_record list" where
  "list_tokens subject_iri tbl =
     map token_from_row
       (order_by_desc row_created_at
         (filter (\<lambda>r. row_instance_iri r = Some subject_iri \<or> row_software_iri r = Some subject_iri) tbl))"

definition revoke_token :: "int \<Rightarrow> string \<Rightarrow> token_row list \<Rightarrow> bool \<times> token_row list" where
  "revoke_token now ident tbl =
     (let P = (\<lambda>r. row_id r = ident \<and> row_revoked_at r = None)
      in (0 < rows_where P tbl, update_where P (\<lambda>r. r\<lparr>row_revoked_at := Some now\<rparr>) tbl))"

definition get_token :: "string \<Rightarrow> token_row list \<Rightarrow> token_record option" where
  "get_token ident tbl = map_option token_from_row (find (\<lambda>r. row_id r = ident) tbl)"

section \<open>The table over time\<close>

definition tokens_ok :: "token_row list \<Rightarrow> bool" where
  "tokens_ok tbl \<longleftrightarrow> distinct (map row_id tbl) \<and> distinct (map row_prefix tbl)"

text \<open>Any operation on the table, by anyone, at any time.\<close>

inductive token_step ::
  "(string \<Rightarrow> string option) \<Rightarrow> (int \<Rightarrow> int \<Rightarrow> int option) \<Rightarrow> (string \<Rightarrow> string \<Rightarrow> bool) \<Rightarrow>
   token_row list \<Rightarrow> token_row list \<Rightarrow> bool"
  for hash_secret add_time verify_secret where
  step_mint: "mint_token hash_secret add_time i p s now subj scps l by ttl tbl = Inr (tbl', rec, plain) \<Longrightarrow>
     token_step hash_secret add_time verify_secret tbl tbl'"
| step_verify: "verify_token verify_secret now presented tbl = (res, tbl') \<Longrightarrow>
     token_step hash_secret add_time verify_secret tbl tbl'"
| step_revoke: "revoke_token now i tbl = (changed, tbl') \<Longrightarrow>
     token_step hash_secret add_time verify_secret tbl tbl'"

lemma mint_token_Inr:
  "mint_token hsh add i p s now subj scps l by ttl tbl = Inr (tbl', rec, plain) \<Longrightarrow>
   \<exists>row. tbl' = tbl @ [row] \<and> row_id row = i \<and> row_prefix row = p
     \<and> hsh plain = Some (row_hash row) \<and> plain = token_plaintext p s
     \<and> row_scopes row = join '' '' scps \<and> row_revoked_at row = None
     \<and> (\<forall>t. row_expires_at row = Some t \<longrightarrow> (\<exists>d. ttl = Some d \<and> add now d = Some t))
     \<and> (\<forall>r \<in> set tbl. row_id r \<noteq> i \<and> row_prefix r \<noteq> p)
     \<and> rec = (token_from_row row)\<lparr>tok_scopes := scps\<rparr>
     \<and> (row_instance_iri row, row_software_iri row, row_subject_kind row) = subject_columns subj"
  by (auto simp: mint_token_def Let_def token_from_row_def res_simps
      split: option.splits prod.splits if_splits)

lemma mint_token_subject:
  "mint_token hsh add i p s now subj scps l cb ttl tbl = Inr (tbl', rec, plain) \<Longrightarrow>
   (tok_instance_iri rec, tok_software_iri rec, tok_subject_kind rec) = subject_columns subj"
  by (auto simp: mint_token_def Let_def res_simps split: option.splits prod.splits if_splits)

text \<open>A step keeps a row's identity, and never takes a revocation back.\<close>

definition kept_row :: "token_row \<Rightarrow> token_row \<Rightarrow> bool" where
  "kept_row r r' \<longleftrightarrow> row_id r' = row_id r \<and> row_prefix r' = row_prefix r
     \<and> row_hash r' = row_hash r \<and> row_scopes r' = row_scopes r
     \<and> row_instance_iri r' = row_instance_iri r \<and> row_software_iri r' = row_software_iri r
     \<and> row_expires_at r' = row_expires_at r
     \<and> (row_revoked_at r \<noteq> None \<longrightarrow> row_revoked_at r' = row_revoked_at r)"

definition kept_rows :: "token_row list \<Rightarrow> token_row list \<Rightarrow> bool" where
  "kept_rows tbl tbl' \<longleftrightarrow> length tbl \<le> length tbl' \<and> list_all2 kept_row tbl (take (length tbl) tbl')"

lemma kept_row_refl [simp]: "kept_row r r"
  by (simp add: kept_row_def)

lemma kept_rows_update:
  assumes "\<And>r. r \<in> set tbl \<Longrightarrow> P r \<Longrightarrow> kept_row r (f r)"
  shows "kept_rows tbl (update_where P f tbl)"
  using assms by (auto simp: kept_rows_def update_where_def list_all2_conv_all_nth)

lemma kept_rows_refl [simp]: "kept_rows tbl tbl"
  by (simp add: kept_rows_def list_all2_refl)

lemma token_step_keeps: "token_step h a v tbl tbl' \<Longrightarrow> kept_rows tbl tbl'"
proof (induction rule: token_step.induct)
  case (step_mint i p s now subj scps l cb ttl tbl tbl' rec plain)
  then show ?case by (auto dest!: mint_token_Inr simp: kept_rows_def list_all2_refl)
next
  case (step_verify now presented tbl res tbl')
  have "kept_rows tbl (update_where (\<lambda>r. row_id r = i) (\<lambda>r. r\<lparr>row_last_used_at := Some now\<rparr>) tbl)" for i
    by (rule kept_rows_update) (simp add: kept_row_def)
  with step_verify show ?case
    by (auto simp: verify_token_def Let_def split: option.splits prod.splits if_splits)
next
  case (step_revoke now i tbl changed tbl')
  then show ?case
    by (auto simp: revoke_token_def Let_def kept_row_def intro!: kept_rows_update)
qed

lemma token_step_ok: "token_step h a v tbl tbl' \<Longrightarrow> tokens_ok tbl \<Longrightarrow> tokens_ok tbl'"
proof (induction rule: token_step.induct)
  case (step_mint i p s now subj scps l cb ttl tbl tbl' rec plain)
  then obtain row where "tbl' = tbl @ [row]" "row_id row = i" "row_prefix row = p"
    and new: "\<forall>r \<in> set tbl. row_id r \<noteq> i \<and> row_prefix r \<noteq> p"
    using mint_token_Inr [OF step_mint.hyps] by metis
  with step_mint.prems show ?case by (force simp: tokens_ok_def)
next
  case (step_verify now presented tbl res tbl')
  have "tokens_ok (update_where (\<lambda>r. row_id r = i) (\<lambda>r. r\<lparr>row_last_used_at := Some now\<rparr>) tbl)"
    if "tokens_ok tbl" for i
    using that by (simp add: tokens_ok_def map_update_where)
  with step_verify show ?case
    by (auto simp: verify_token_def Let_def split: option.splits prod.splits if_splits)
next
  case (step_revoke now i tbl changed tbl')
  then show ?case by (auto simp: revoke_token_def Let_def tokens_ok_def map_update_where)
qed

definition token_runs ::
  "(string \<Rightarrow> string option) \<Rightarrow> (int \<Rightarrow> int \<Rightarrow> int option) \<Rightarrow> (string \<Rightarrow> string \<Rightarrow> bool) \<Rightarrow>
   token_row list \<Rightarrow> token_row list \<Rightarrow> bool" where
  "token_runs h a v = (token_step h a v)\<^sup>*\<^sup>*"

lemma kept_row_trans: "kept_row r s \<Longrightarrow> kept_row s t \<Longrightarrow> kept_row r t"
  by (auto simp: kept_row_def)

lemma kept_rows_trans: "kept_rows a b \<Longrightarrow> kept_rows b c \<Longrightarrow> kept_rows a c"
proof -
  assume ab: "kept_rows a b" and bc: "kept_rows b c"
  have "kept_row (a ! i) (c ! i)" if "i < length a" for i
    using ab bc that kept_row_trans [of "a ! i" "b ! i" "c ! i"]
    by (auto simp: kept_rows_def list_all2_conv_all_nth)
  with ab bc show ?thesis by (auto simp: kept_rows_def list_all2_conv_all_nth)
qed

lemma token_runs_keep: "token_runs h a v tbl tbl' \<Longrightarrow> kept_rows tbl tbl'"
  unfolding token_runs_def
  by (induction rule: rtranclp.induct) (auto intro: kept_rows_trans token_step_keeps)

lemma token_runs_ok: "token_runs h a v tbl tbl' \<Longrightarrow> tokens_ok tbl \<Longrightarrow> tokens_ok tbl'"
  unfolding token_runs_def
  by (induction rule: rtranclp.induct) (auto intro: token_step_ok)

lemma kept_rows_in:
  assumes "kept_rows tbl tbl'" "r \<in> set tbl"
  shows "\<exists>r' \<in> set tbl'. kept_row r r'"
proof -
  from assms(2) obtain i where i: "i < length tbl" "r = tbl ! i" by (auto simp: in_set_conv_nth)
  with assms(1) have "kept_row r (tbl' ! i)" "i < length tbl'"
    by (auto simp: kept_rows_def list_all2_conv_all_nth)
  then show ?thesis by auto
qed


lemma verify_token_Some:
  assumes "verify_token verify now presented tbl = (Some rec, tbl')"
  shows "\<exists>pre secret row. presented = ''tar_'' @ pre @ ''_'' @ secret \<and> CHR ''_'' \<notin> set pre
     \<and> row \<in> set tbl \<and> row_prefix row = pre \<and> verify presented (row_hash row)
     \<and> row_revoked_at row = None \<and> \<not> expired now (row_expires_at row)
     \<and> rec = token_from_row row
     \<and> tbl' = update_where (\<lambda>r. row_id r = row_id row) (\<lambda>r. r\<lparr>row_last_used_at := Some now\<rparr>) tbl"
proof -
  from assms obtain rest pre secret row where
    parts: "strip_prefix ''tar_'' presented = Some rest" "split_once (CHR ''_'') rest = Some (pre, secret)"
      "find (\<lambda>r. row_prefix r = pre) tbl = Some row"
    and live: "verify presented (row_hash row)" "tok_revoked_at (token_from_row row) = None"
      "\<not> expired now (tok_expires_at (token_from_row row))"
    and res: "rec = token_from_row row"
      "tbl' = update_where (\<lambda>r. row_id r = tok_id (token_from_row row)) (\<lambda>r. r\<lparr>row_last_used_at := Some now\<rparr>) tbl"
    by (auto simp: verify_token_def Let_def split: option.splits prod.splits if_splits)
  from parts have "presented = ''tar_'' @ pre @ ''_'' @ secret" "CHR ''_'' \<notin> set pre"
    by (auto simp: strip_prefix_Some split_once_Some)
  moreover from find_SomeD [OF parts(3)] have "row \<in> set tbl" "row_prefix row = pre" by auto
  ultimately show ?thesis using live res
    by (intro exI [of _ pre] exI [of _ secret] exI [of _ row]) (simp add: token_from_row_def)
qed

lemma verify_token_row:
  assumes "tokens_ok tbl" "row \<in> set tbl" "CHR ''_'' \<notin> set (row_prefix row)"
  shows "verify_token verify now (token_plaintext (row_prefix row) s) tbl =
     (if verify (token_plaintext (row_prefix row) s) (row_hash row) \<and> row_revoked_at row = None
         \<and> \<not> expired now (row_expires_at row)
      then (Some (token_from_row row),
            update_where (\<lambda>r. row_id r = row_id row) (\<lambda>r. r\<lparr>row_last_used_at := Some now\<rparr>) tbl)
      else (None, tbl))"
proof -
  have f: "find (\<lambda>r. row_prefix r = row_prefix row) tbl = Some row"
    using assms(1,2) by (intro find_key_distinct) (auto simp: tokens_ok_def)
  have "split_once (CHR ''_'') (row_prefix row @ CHR ''_'' # s) = Some (row_prefix row, s)"
    using assms(3) by simp
  with f show ?thesis
    by (simp add: verify_token_def token_plaintext_def Let_def token_from_row_def)
qed

section \<open>Properties\<close>

text \<open>
  A freshly minted token verifies until it expires, whatever else has happened to the table
  since, as long as the token itself was not revoked: the caller gets back exactly the scopes
  and the subject it was minted with. The scopes survive being stored as one string because no
  scope is empty or contains white space.
\<close>

theorem minted_token_verifies:
  assumes "tokens_ok tbl" and "CHR ''_'' \<notin> set pre"
    and "\<forall>s \<in> set scps. s \<noteq> [] \<and> ws_free s"
    and "\<And>s h. hash_secret s = Some h \<Longrightarrow> verify_secret s h"
    and "mint_token hash_secret add_time i pre secret now subj scps l cb ttl tbl = Inr (tbl1, rec, plain)"
    and "token_runs hash_secret add_time verify_secret tbl1 tbl2"
    and "\<forall>r \<in> set tbl2. row_id r = i \<longrightarrow> row_revoked_at r = None"
    and "\<not> expired later (tok_expires_at rec)"
  shows "\<exists>rec' tbl3. verify_token verify_secret later plain tbl2 = (Some rec', tbl3)
     \<and> tok_id rec' = i \<and> tok_scopes rec' = scps
     \<and> (tok_instance_iri rec', tok_software_iri rec') =
         (case subj of SubjectInstance iri \<Rightarrow> (Some iri, None) | SubjectSoftware iri \<Rightarrow> (None, Some iri))"
proof -
  from mint_token_Inr [OF assms(5)] obtain row where row: "tbl1 = tbl @ [row]" "row_id row = i"
      "row_prefix row = pre" "hash_secret plain = Some (row_hash row)" "plain = token_plaintext pre secret"
      "row_scopes row = join '' '' scps" "rec = (token_from_row row)\<lparr>tok_scopes := scps\<rparr>"
      "(row_instance_iri row, row_software_iri row, row_subject_kind row) = subject_columns subj"
    by blast
  have "token_step hash_secret add_time verify_secret tbl tbl1" using assms(5) by (rule step_mint)
  from token_step_ok [OF this assms(1)] have "tokens_ok tbl2" using token_runs_ok assms(6) by blast
  from row(1) obtain row' where row': "row' \<in> set tbl2" "kept_row row row'"
    using kept_rows_in [OF token_runs_keep [OF assms(6)], of row] by auto
  with row assms(7) have r': "row_id row' = i" "row_prefix row' = pre" "row_hash row' = row_hash row"
      "row_revoked_at row' = None" "row_scopes row' = join '' '' scps"
      "row_expires_at row' = tok_expires_at rec" "row_instance_iri row' = row_instance_iri row"
      "row_software_iri row' = row_software_iri row"
    by (auto simp: kept_row_def token_from_row_def)
  have "verify_secret plain (row_hash row)" using assms(4) row(4) .
  with verify_token_row [OF \<open>tokens_ok tbl2\<close> row'(1), of verify_secret later secret] r' assms(2,8) row(5)
  have "\<exists>tbl3. verify_token verify_secret later plain tbl2 = (Some (token_from_row row'), tbl3)"
    by simp
  moreover have "tok_scopes (token_from_row row') = scps"
    using r'(5) split_whitespace_join [OF assms(3)] by (simp add: token_from_row_def)
  ultimately show ?thesis using row(8) r'
    by (auto simp: token_from_row_def subject_columns_def split: token_subject.splits)
qed

theorem minted_token_verifies_witness:
  "\<exists>tbl1 rec plain rec' tbl3.
     mint_token (\<lambda>s. Some (''h'' @ s)) (\<lambda>t d. Some (t + d)) ''1'' ''ab'' ''cd'' 5
       (SubjectInstance ''i'') [''advertise:produce'', ''advertise:consume''] None None (Some 10) []
       = Inr (tbl1, rec, plain)
     \<and> verify_token (\<lambda>s h. h = ''h'' @ s) 15 plain tbl1 = (Some rec', tbl3)
     \<and> tok_scopes rec' = [''advertise:produce'', ''advertise:consume'']"
proof -
  let ?m = "mint_token (\<lambda>s. Some (''h'' @ s)) (\<lambda>t d. Some (t + d)) ''1'' ''ab'' ''cd'' 5
       (SubjectInstance ''i'') [''advertise:produce'', ''advertise:consume''] None None (Some 10) []"
  have chk: "case ?m of Inl _ \<Rightarrow> False | Inr (t1, r, p) \<Rightarrow>
      (\<forall>x \<in> set t1. row_id x = ''1'' \<longrightarrow> row_revoked_at x = None) \<and> \<not> expired 15 (tok_expires_at r)"
    by (simp add: mint_token_def subject_columns_def Let_def expired_def)
  then obtain t1 r p where m: "?m = Inr (t1, r, p)"
    and c: "\<forall>x \<in> set t1. row_id x = ''1'' \<longrightarrow> row_revoked_at x = None" "\<not> expired 15 (tok_expires_at r)"
    by (auto split: sum.splits)
  have sc: "\<forall>s \<in> set [''advertise:produce'', ''advertise:consume'']. s \<noteq> [] \<and> ws_free s"
    by code_simp
  have run: "token_runs (\<lambda>s. Some (''h'' @ s)) (\<lambda>t d. Some (t + d)) (\<lambda>s h. h = ''h'' @ s) t1 t1"
    by (simp add: token_runs_def)
  have ok: "tokens_ok []" by (simp add: tokens_ok_def)
  have p: "CHR ''_'' \<notin> set ''ab''" by simp
  from minted_token_verifies [OF ok p sc _ m run c] m show ?thesis by auto
qed

text \<open>
  C26. A revocation is final: once a token has been revoked, no later sequence of operations on
  the table makes any credential with its prefix verify again.
\<close>

theorem revoked_token_never_verifies:
  assumes "tokens_ok tbl" and "row \<in> set tbl" and "revoke_token now (row_id row) tbl = (changed, tbl1)"
    and "token_runs hash_secret add_time verify_secret tbl1 tbl2" and "CHR ''_'' \<notin> set (row_prefix row)"
  shows "verify_token verify_secret later (token_plaintext (row_prefix row) secret) tbl2 = (None, tbl2)"
proof -
  let ?row1 = "if row_revoked_at row = None then row\<lparr>row_revoked_at := Some now\<rparr> else row"
  have row1: "?row1 \<in> set tbl1"
    using assms(3) update_where_mem [OF assms(2), of "\<lambda>r. row_id r = row_id row \<and> row_revoked_at r = None"
        "\<lambda>r. r\<lparr>row_revoked_at := Some now\<rparr>"]
    by (simp add: revoke_token_def Let_def)
  have "token_step hash_secret add_time verify_secret tbl tbl1" using assms(3) by (rule step_revoke)
  from token_step_ok [OF this assms(1)] have ok2: "tokens_ok tbl2" using token_runs_ok assms(4) by blast
  from kept_rows_in [OF token_runs_keep [OF assms(4)] row1] obtain row2 where
    row2: "row2 \<in> set tbl2" "kept_row ?row1 row2" ..
  then have "row_revoked_at row2 \<noteq> None" "row_prefix row2 = row_prefix row"
    by (auto simp: kept_row_def split: if_splits)
  with verify_token_row [OF ok2 row2(1), of verify_secret later secret] assms(5) show ?thesis by auto
qed

theorem revoked_token_never_verifies_witness:
  "\<exists>tbl1. revoke_token 7 ''1'' [\<lparr>row_id = ''1'', row_prefix = ''ab'', row_hash = ''h'', row_instance_iri = None,
       row_software_iri = None, row_subject_kind = ''instance'', row_scopes = [], row_label = None,
       row_created_at = 0, row_created_by = None, row_expires_at = None, row_last_used_at = None,
       row_revoked_at = None\<rparr>] = (True, tbl1)
     \<and> verify_token (\<lambda>_ _. True) 8 (token_plaintext ''ab'' ''cd'') tbl1 = (None, tbl1)"
proof -
  let ?row = "\<lparr>row_id = ''1'', row_prefix = ''ab'', row_hash = ''h'', row_instance_iri = None,
       row_software_iri = None, row_subject_kind = ''instance'', row_scopes = [], row_label = None,
       row_created_at = 0, row_created_by = None, row_expires_at = None, row_last_used_at = None,
       row_revoked_at = None\<rparr>"
  obtain tbl1 where r: "revoke_token 7 (row_id ?row) [?row] = (True, tbl1)"
    by (simp add: revoke_token_def rows_where_def Let_def)
  have "verify_token (\<lambda>_ _. True) 8 (token_plaintext (row_prefix ?row) ''cd'') tbl1 = (None, tbl1)"
    by (rule revoked_token_never_verifies [OF _ _ r, where hash_secret = Some and add_time = "\<lambda>_ _. None"])
      (simp_all add: tokens_ok_def token_runs_def)
  with r show ?thesis by auto
qed

text \<open>
  Nothing but a live token verifies: a credential that is accepted is \<open>tar_<prefix>_<secret>\<close>
  for a row whose hash it satisfies, that is not revoked and not expired, and the record handed
  to the caller is that row's; the only change to the table is the row's last use.
\<close>

theorem verify_token_sound:
  assumes "tokens_ok tbl" and "verify_token verify_secret now presented tbl = (Some rec, tbl')"
  shows "\<exists>!row. row \<in> set tbl \<and> tok_id rec = row_id row \<and> verify_secret presented (row_hash row)
     \<and> row_revoked_at row = None \<and> \<not> expired now (row_expires_at row)
     \<and> rec = token_from_row row
     \<and> tbl' = map (\<lambda>r. if r = row then r\<lparr>row_last_used_at := Some now\<rparr> else r) tbl"
proof -
  from verify_token_Some [OF assms(2)] obtain row where row: "row \<in> set tbl"
      "verify_secret presented (row_hash row)" "row_revoked_at row = None"
      "\<not> expired now (row_expires_at row)" "rec = token_from_row row"
      "tbl' = update_where (\<lambda>r. row_id r = row_id row) (\<lambda>r. r\<lparr>row_last_used_at := Some now\<rparr>) tbl"
    by blast
  have uniq: "r = r'" if "r \<in> set tbl" "r' \<in> set tbl" "row_id r = row_id r'" for r r'
    using assms(1) that by (auto simp: tokens_ok_def distinct_map inj_on_def)
  have "tbl' = map (\<lambda>r. if r = row then r\<lparr>row_last_used_at := Some now\<rparr> else r) tbl"
    unfolding row(6) update_where_def using uniq [OF _ row(1)] by (intro map_cong) auto
  then have "row \<in> set tbl \<and> tok_id rec = row_id row \<and> verify_secret presented (row_hash row)
     \<and> row_revoked_at row = None \<and> \<not> expired now (row_expires_at row) \<and> rec = token_from_row row
     \<and> tbl' = map (\<lambda>r. if r = row then r\<lparr>row_last_used_at := Some now\<rparr> else r) tbl"
    using row by (simp add: token_from_row_def)
  moreover have "r = row" if "r \<in> set tbl" "tok_id rec = row_id r" for r
    using uniq [OF that(1) row(1)] that(2) row(5) by (simp add: token_from_row_def)
  ultimately show ?thesis by (intro ex1I [of _ row]) blast+
qed

theorem verify_token_sound_witness:
  "\<exists>rec tbl'. verify_token (\<lambda>s h. s = h) 3 ''tar_ab_cd'' [\<lparr>row_id = ''1'', row_prefix = ''ab'',
       row_hash = ''tar_ab_cd'', row_instance_iri = None, row_software_iri = None, row_subject_kind = ''instance'',
       row_scopes = [], row_label = None, row_created_at = 0, row_created_by = None, row_expires_at = Some 3,
       row_last_used_at = None, row_revoked_at = None\<rparr>] = (Some rec, tbl') \<and> tok_id rec = ''1''"
proof -
  let ?row = "\<lparr>row_id = ''1'', row_prefix = ''ab'', row_hash = ''tar_ab_cd'', row_instance_iri = None,
       row_software_iri = None, row_subject_kind = ''instance'', row_scopes = [], row_label = None,
       row_created_at = 0, row_created_by = None, row_expires_at = Some 3, row_last_used_at = None,
       row_revoked_at = None\<rparr>"
  obtain rec tbl' where v: "verify_token (\<lambda>s h. s = h) 3 ''tar_ab_cd'' [?row] = (Some rec, tbl')"
    by (simp add: verify_token_def Let_def expired_def token_from_row_def)
  have ok: "tokens_ok [?row]" by (simp add: tokens_ok_def)
  from verify_token_sound [OF ok v] obtain r where "r \<in> set [?row]" "tok_id rec = row_id r" by blast
  then have "tok_id rec = ''1''" by simp
  with v show ?thesis by blast
qed

end
