(* ===== verification/Authenticate.thy ===== *)
theory Authenticate
  imports Principals Tokens
begin

unbundle bit_operations_syntax

text \<open>
  The second half of \<open>src/auth/mod.rs\<close>: reading the bearer credential out of a request and
  turning it into a principal. The token lookup is the model's own \<open>verify_token\<close>; checking a
  JWT (\<open>auth::jwt\<close>) is an argument here.
\<close>

text \<open>\<open>constant_time_eq\<close>: the bytes' differences are collected with \<open>OR\<close>.\<close>

definition byte_word :: "char \<Rightarrow> 8 word" where
  "byte_word c = of_nat (byte c)"

definition constant_time_eq :: "string \<Rightarrow> string \<Rightarrow> bool" where
  "constant_time_eq a b =
     (if length a \<noteq> length b then False
      else fold (\<lambda>(x, y) acc. acc OR (byte_word x XOR byte_word y)) (zip a b) 0 = 0)"

text \<open>\<open>bearer\<close>, on the header's text; \<open>None\<close> is a missing or unreadable header.\<close>

definition bearer :: "string option \<Rightarrow> string option" where
  "bearer h =
     (case h of None \<Rightarrow> None
      | Some v \<Rightarrow> (case split_once (CHR '' '') v of
                    None \<Rightarrow> None
                  | Some (scheme, value) \<Rightarrow>
                      if eq_ignore_ascii_case scheme ''bearer'' then Some (trim value) else None))"

definition root_principal :: principal where
  "root_principal =
     \<lparr>credential = RootToken, instance_iri = None, software_iri = None, subject = ''urn:tar:root'',
      display_name = Some ''bootstrap admin'', scopes = set ALL_SCOPES, roles = {Admin}, issuer = None\<rparr>"

definition token_principal :: "token_record \<Rightarrow> principal" where
  "token_principal rec =
     \<lparr>credential = LocalToken, instance_iri = tok_instance_iri rec, software_iri = tok_software_iri rec,
      subject = (case tok_instance_iri rec of Some iri \<Rightarrow> iri | None \<Rightarrow> ''urn:tar:token:'' @ tok_id rec),
      display_name = tok_label rec, scopes = set (tok_scopes rec), roles = {}, issuer = None\<rparr>"

definition authenticate ::
  "(string \<Rightarrow> string \<Rightarrow> bool) \<Rightarrow> (string \<Rightarrow> app_error + principal) \<Rightarrow> string option \<Rightarrow> int \<Rightarrow>
   string \<Rightarrow> token_row list \<Rightarrow> (app_error + principal) \<times> token_row list" where
  "authenticate verify_secret authenticate_jwt root_token now raw tbl =
     (if (case root_token of None \<Rightarrow> False
          | Some root \<Rightarrow> length raw = length root \<and> constant_time_eq raw root)
      then (Inr root_principal, tbl)
      else if prefix ''tar_'' raw then
        (case verify_token verify_secret now raw tbl of
           (None, tbl') \<Rightarrow> (Inl (unauthorized ''token is unknown, revoked or expired''), tbl')
         | (Some rec, tbl') \<Rightarrow> (Inr (token_principal rec), tbl'))
      else if length (filter (\<lambda>c. c = CHR ''.'') raw) = 2 then (authenticate_jwt raw, tbl)
      else (Inl (unauthorized ''unrecognised credential format''), tbl))"

text \<open>
  The extractor: what the rate-limit middleware already resolved, or the anonymous principal
  when there is no credential, or the outcome of authenticating.
\<close>

definition extract_principal ::
  "(string \<Rightarrow> string \<Rightarrow> bool) \<Rightarrow> (string \<Rightarrow> app_error + principal) \<Rightarrow> string option \<Rightarrow> int \<Rightarrow>
   (app_error + principal) option \<Rightarrow> string option \<Rightarrow> token_row list \<Rightarrow>
   (app_error + principal) \<times> token_row list" where
  "extract_principal verify_secret authenticate_jwt root_token now resolved auth_header tbl =
     (case resolved of
        Some p \<Rightarrow> (p, tbl)
      | None \<Rightarrow> (case bearer auth_header of
                  None \<Rightarrow> (Inr anonymous, tbl)
                | Some raw \<Rightarrow> authenticate verify_secret authenticate_jwt root_token now raw tbl))"

section \<open>Lemmas\<close>

lemma byte_word_inject: "byte_word c = byte_word d \<longleftrightarrow> c = d"
proof
  assume "byte_word c = byte_word d"
  then have "unat (byte_word c) = unat (byte_word d)" by simp
  moreover have "unat (byte_word x) = byte x" for x
    by (simp add: byte_word_def byte_def unat_of_nat)
  ultimately show "c = d" by (simp add: byte_def)
qed simp

lemma or_zero_iff: "a OR b = 0 \<longleftrightarrow> a = 0 \<and> b = (0 :: 8 word)"
  by (auto simp: bit_eq_iff bit_or_iff)

lemma xor_zero_iff: "a XOR b = 0 \<longleftrightarrow> a = (b :: 8 word)"
  by (auto simp: bit_eq_iff bit_xor_iff)

lemma differences_zero:
  "fold (\<lambda>(x, y) acc. acc OR (byte_word x XOR byte_word y)) ps acc = 0 \<longleftrightarrow>
     acc = 0 \<and> (\<forall>(x, y) \<in> set ps. x = y)"
  by (induction ps arbitrary: acc) (auto simp: or_zero_iff xor_zero_iff byte_word_inject)

lemma constant_time_eq_iff: "constant_time_eq a b \<longleftrightarrow> a = b"
proof (cases "length a = length b")
  case True
  then have "(\<forall>(x, y) \<in> set (zip a b). x = y) \<longleftrightarrow> a = b"
    by (induction a b rule: list_induct2) auto
  with True show ?thesis by (simp add: constant_time_eq_def differences_zero)
qed (auto simp: constant_time_eq_def)

lemma root_is_admin [simp]: "is_admin root_principal" "\<not> is_anonymous root_principal"
  by (simp_all add: root_principal_def is_admin_def is_anonymous_def)

lemma token_principal_simps [simp]:
  "\<not> is_anonymous (token_principal rec)" "scopes (token_principal rec) = set (tok_scopes rec)"
  "instance_iri (token_principal rec) = tok_instance_iri rec"
  "software_iri (token_principal rec) = tok_software_iri rec" "roles (token_principal rec) = {}"
  by (simp_all add: token_principal_def is_anonymous_def)

text \<open>
  Who becomes what: a credential is accepted as root exactly when it is the configured root
  token; a \<open>tar_\<close> credential that is not the root token never reaches the JWT path and is
  accepted exactly when the token table verifies it; and an accepted credential is never the
  anonymous principal, given that the JWT path never returns it.
\<close>

theorem authenticate_outcome:
  assumes "\<And>raw p. jwt raw = Inr p \<Longrightarrow> \<not> is_anonymous p"
    and "authenticate verify_secret jwt root now raw tbl = (Inr p, tbl')"
  shows "\<not> is_anonymous p
     \<and> (root = Some raw \<longrightarrow> p = root_principal \<and> tbl' = tbl)
     \<and> (root \<noteq> Some raw \<and> prefix ''tar_'' raw \<longrightarrow>
          (\<exists>rec. verify_token verify_secret now raw tbl = (Some rec, tbl') \<and> p = token_principal rec))
     \<and> (root \<noteq> Some raw \<and> \<not> prefix ''tar_'' raw \<longrightarrow> jwt raw = Inr p \<and> tbl' = tbl)"
proof (cases "root = Some raw")
  case True
  with assms(2) show ?thesis by (simp add: authenticate_def constant_time_eq_iff)
next
  case False
  then have nr: "\<not> (case root of None \<Rightarrow> False | Some r \<Rightarrow> length raw = length r \<and> constant_time_eq raw r)"
    by (auto simp: constant_time_eq_iff split: option.splits)
  show ?thesis
  proof (cases "prefix ''tar_'' raw")
    case True
    with nr False assms(2) show ?thesis
      by (auto simp: authenticate_def split: prod.splits option.splits)
  next
    case nt: False
    with nr assms(2) have "jwt raw = Inr p" "tbl' = tbl"
      by (auto simp: authenticate_def split: if_splits)
    with assms(1) False nt show ?thesis by auto
  qed
qed

theorem authenticate_outcome_witness:
  "authenticate (\<lambda>_ _. False) (\<lambda>_. Inl (unauthorized [])) (Some ''a-long-root-token'') 0 ''a-long-root-token'' []
     = (Inr root_principal, []) \<and> \<not> is_anonymous root_principal"
proof -
  have a: "authenticate (\<lambda>_ _. False) (\<lambda>_. Inl (unauthorized [])) (Some ''a-long-root-token'') 0 ''a-long-root-token'' []
     = (Inr root_principal, [])"
    by (simp add: authenticate_def constant_time_eq_iff)
  from authenticate_outcome [OF _ a] a show ?thesis by auto
qed

end
