(* ===== verification/Ids.thy ===== *)
theory Ids
  imports Tar_Prelude
begin

text \<open>
  \<open>src/ids.rs\<close>: identifiers are \<open>{base}/{kind}/{id}\<close>. The random part of a minted IRI
  (a UUIDv7 from the \<open>uuid\<close> crate) is an argument of \<open>mint\<close>.
\<close>

datatype rec_kind =
    Software | Release | Instance | Artifact | ArtifactSeries | Run | Type
  | Distribution | Capability | Agent | Peer

fun segment :: "rec_kind \<Rightarrow> string" where
  "segment Software = ''software''"
| "segment Release = ''release''"
| "segment Instance = ''instance''"
| "segment Artifact = ''artifact''"
| "segment ArtifactSeries = ''artifact-series''"
| "segment Run = ''run''"
| "segment Type = ''type''"
| "segment Distribution = ''distribution''"
| "segment Capability = ''capability''"
| "segment Agent = ''agent''"
| "segment Peer = ''peer''"

definition from_segment :: "string \<Rightarrow> rec_kind option" where
  "from_segment s =
     (if s = ''software'' then Some Software
      else if s = ''release'' then Some Release
      else if s = ''instance'' \<or> s = ''instances'' then Some Instance
      else if s = ''artifact'' \<or> s = ''artifacts'' then Some Artifact
      else if s = ''artifact-series'' then Some ArtifactSeries
      else if s = ''run'' \<or> s = ''runs'' then Some Run
      else if s = ''type'' \<or> s = ''types'' then Some Type
      else if s = ''distribution'' then Some Distribution
      else if s = ''capability'' then Some Capability
      else if s = ''agent'' then Some Agent
      else if s = ''peer'' \<or> s = ''peers'' then Some Peer
      else None)"

definition mint :: "string \<Rightarrow> rec_kind \<Rightarrow> string \<Rightarrow> string" where
  "mint base_iri k new_id = trim_end_matches (CHR ''/'') base_iri @ ''/'' @ segment k @ ''/'' @ new_id"

definition iri_for :: "string \<Rightarrow> rec_kind \<Rightarrow> string \<Rightarrow> string" where
  "iri_for base_iri k ident =
     (if prefix ''http://'' ident \<or> prefix ''https://'' ident then ident
      else trim_end_matches (CHR ''/'') base_iri @ ''/'' @ segment k @ ''/'' @ ident)"

definition local_id :: "string \<Rightarrow> string \<Rightarrow> (rec_kind \<times> string) option" where
  "local_id base_iri iri =
     (case strip_prefix (trim_end_matches (CHR ''/'') base_iri) iri of
        None \<Rightarrow> None
      | Some r0 \<Rightarrow>
          (case strip_prefix ''/'' r0 of
             None \<Rightarrow> None
           | Some rest \<Rightarrow>
               (case split_once (CHR ''/'') rest of
                  None \<Rightarrow> None
                | Some (seg, ident) \<Rightarrow>
                    (case from_segment seg of
                       None \<Rightarrow> None
                     | Some k \<Rightarrow>
                         if ident = [] \<or> CHR ''/'' \<in> set ident then None
                         else Some (k, ident)))))"

definition is_local :: "string \<Rightarrow> string \<Rightarrow> bool" where
  "is_local base_iri iri \<longleftrightarrow> local_id base_iri iri \<noteq> None"

text \<open>\<open>rsplit(['#', '/']).find(non-empty)\<close>: the last non-empty piece, or the whole IRI.\<close>

fun split_on_any :: "char set \<Rightarrow> string \<Rightarrow> string list" where
  "split_on_any cs [] = [[]]"
| "split_on_any cs (x # xs) =
     (if x \<in> cs then [] # split_on_any cs xs
      else (case split_on_any cs xs of [] \<Rightarrow> [[x]] | p # ps \<Rightarrow> (x # p) # ps))"

definition iri_tail :: "string \<Rightarrow> string" where
  "iri_tail iri =
     (case find (\<lambda>s. s \<noteq> []) (rev (split_on_any {CHR ''#'', CHR ''/''} iri)) of
        Some s \<Rightarrow> s | None \<Rightarrow> iri)"

section \<open>Lemmas\<close>

lemma from_segment_segment [simp]: "from_segment (segment k) = Some k"
  by (cases k) (simp_all add: from_segment_def)

lemma segment_inject: "segment j = segment k \<longleftrightarrow> j = k"
  by (metis from_segment_segment option.inject)

lemma segment_no_slash [simp]: "CHR ''/'' \<notin> set (segment k)"
  by (cases k) simp_all

lemma local_id_Some:
  "local_id base iri = Some (k, i) \<longleftrightarrow>
     (\<exists>seg. iri = trim_end_matches (CHR ''/'') base @ ''/'' @ seg @ ''/'' @ i
        \<and> CHR ''/'' \<notin> set seg \<and> from_segment seg = Some k
        \<and> i \<noteq> [] \<and> CHR ''/'' \<notin> set i)"
    (is "?l \<longleftrightarrow> ?r")
proof
  assume ?l
  then show ?r
    by (auto simp: local_id_def strip_prefix_Some split_once_Some
        split: option.splits if_splits prod.splits)
next
  assume ?r
  then show ?l by (auto simp: local_id_def)
qed

lemma local_id_built:
  assumes "i \<noteq> []" "CHR ''/'' \<notin> set i"
  shows "local_id base (trim_end_matches (CHR ''/'') base @ ''/'' @ segment k @ ''/'' @ i) = Some (k, i)"
  unfolding local_id_Some using assms by (intro exI [of _ "segment k"]) simp

end
