(* ===== verification/Token_Api.thy ===== *)
theory Token_Api
  imports Authenticate Ids Settings
begin

text \<open>
  \<open>src/api/tokens.rs\<close>: minting, listing and revoking the tokens of one deployment or one
  software record. A handler returns its answer, a problem document, or panics, with the state
  it leaves. The graph store's \<open>exists\<close>, \<open>chrono\<close>'s conversion of a duration and the \<open>Debug\<close>
  rendering of a string are arguments, as are the random parts of a new token. Auditing is
  best-effort in the code and never fails here.
\<close>

record audit_row =
  audit_at :: int
  audit_actor :: "string option"
  audit_actor_kind :: string
  audit_action :: string
  audit_target :: "string option"
  audit_detail :: "string option"
  audit_remote :: "string option"

text \<open>\<open>Ops::audit\<close> appends; \<open>Ops::recent_audit\<close> reads newest first.\<close>

definition audit ::
  "int \<Rightarrow> string option \<Rightarrow> string \<Rightarrow> string \<Rightarrow> string option \<Rightarrow> string option \<Rightarrow> string option \<Rightarrow>
   audit_row list \<Rightarrow> audit_row list" where
  "audit now actor akind action target det remote log =
     log @ [\<lparr>audit_at = now, audit_actor = actor, audit_actor_kind = akind, audit_action = action,
             audit_target = target, audit_detail = det, audit_remote = remote\<rparr>]"

definition recent_audit :: "nat \<Rightarrow> audit_row list \<Rightarrow> audit_row list" where
  "recent_audit limit log = take limit (rev log)"

record token_state =
  ts_tokens :: "token_row list"
  ts_audit :: "audit_row list"

datatype fault = Refused app_error | Panicked

record mint_input =
  in_scopes :: "string list"
  in_label :: "string option"
  in_expires_in :: "string option"

text \<open>What the code draws at random, and the libraries it calls.\<close>

record token_world =
  w_new_id :: string
  w_prefix :: string
  w_secret :: string
  w_now :: int
  w_hash :: "string \<Rightarrow> string option"
  w_add_time :: "int \<Rightarrow> int \<Rightarrow> int option"
  w_from_std :: "nat \<Rightarrow> int option"
  w_exists :: "string \<Rightarrow> app_error + bool"
  w_debug :: "string \<Rightarrow> string"
  w_base :: string

section \<open>Handlers\<close>

definition may_manage :: "principal \<Rightarrow> string \<Rightarrow> app_error + unit" where
  "may_manage p iri =
     (if is_admin p \<or> is_curator p then Inr ()
      else if acts_for_instance p iri then Inr ()
      else Inl (forbidden ''only the instance owner, a curator or an admin may manage these tokens''))"

definition may_manage_software :: "principal \<Rightarrow> app_error + unit" where
  "may_manage_software p =
     (if is_admin p \<or> is_curator p then Inr ()
      else Inl (forbidden ''only a curator or an admin may issue an auto-registration key for a piece of software''))"

text \<open>The loop over the asked scopes: the first unknown one, or \<open>admin:*\<close> for a non-admin.\<close>

fun check_scopes :: "(string \<Rightarrow> string) \<Rightarrow> principal \<Rightarrow> string list \<Rightarrow> app_error + unit" where
  "check_scopes debug p [] = Inr ()"
| "check_scopes debug p (s # ss) =
     (if s \<notin> set ALL_SCOPES then
        Inl (bad_request (''unknown scope '' @ debug s @ ''; known: '' @ join '', '' ALL_SCOPES))
      else if s = SCOPE_ADMIN \<and> \<not> is_admin p then
        Inl (forbidden ''only an admin can mint an admin:* token'')
      else check_scopes debug p ss)"

definition token_ttl :: "token_world \<Rightarrow> string option \<Rightarrow> app_error + int option" where
  "token_ttl w e =
     (case e of
        None \<Rightarrow> Inr None
      | Some v \<Rightarrow>
          (case parse_duration v of
             Inl _ \<Rightarrow> Inl (bad_request (''bad duration '' @ w_debug w (trim v)))
           | Inr d \<Rightarrow>
               (case w_from_std w d of
                  None \<Rightarrow> Inl (bad_request ''Source duration value is out of range for the target type'')
                | Some t \<Rightarrow> Inr (Some t))))"

definition mint_and_audit ::
  "token_world \<Rightarrow> principal \<Rightarrow> token_subject \<Rightarrow> string \<Rightarrow> string \<Rightarrow> string list \<Rightarrow> mint_input \<Rightarrow>
   int option \<Rightarrow> token_state \<Rightarrow> (fault + token_record \<times> string) \<times> token_state" where
  "mint_and_audit w p subj iri action scps inp ttl st =
     (case mint_token (w_hash w) (w_add_time w) (w_new_id w) (w_prefix w) (w_secret w) (w_now w)
             subj scps (in_label inp) (Some (subject p)) ttl (ts_tokens st) of
        Inl Time_Overflow \<Rightarrow> (Inl Panicked, st)
      | Inl Hash_Failed \<Rightarrow> (Inl (Refused (internal ''argon2'')), st)
      | Inl (Unique_Violation t) \<Rightarrow> (Inl (Refused (internal (''UNIQUE constraint failed: '' @ t))), st)
      | Inr (tbl, rec, plain) \<Rightarrow>
          (Inr (rec, plain),
           \<lparr>ts_tokens = tbl,
            ts_audit = audit (w_now w) (Some (subject p)) (actor_kind p) action (Some iri)
                         (in_label inp) None (ts_audit st)\<rparr>))"

definition create_token ::
  "token_world \<Rightarrow> principal \<Rightarrow> string \<Rightarrow> mint_input \<Rightarrow> token_state \<Rightarrow>
   (fault + token_record \<times> string) \<times> token_state" where
  "create_token w p ident inp st =
     (let iri = iri_for (w_base w) Instance ident;
          scps = (if in_scopes inp = [] then [''advertise:produce'', ''advertise:consume'']
                  else in_scopes inp)
      in case and_then (may_manage p iri) (\<lambda>_.
              and_then (w_exists w iri) (\<lambda>ex.
                if \<not> ex then Inl (not_found (''no instance at '' @ iri)) else
                and_then (check_scopes (w_debug w) p scps) (\<lambda>_. token_ttl w (in_expires_in inp)))) of
           Inl e \<Rightarrow> (Inl (Refused e), st)
         | Inr ttl \<Rightarrow> mint_and_audit w p (SubjectInstance iri) iri ''token.mint'' scps inp ttl st)"

definition create_software_token ::
  "token_world \<Rightarrow> principal \<Rightarrow> string \<Rightarrow> mint_input \<Rightarrow> token_state \<Rightarrow>
   (fault + token_record \<times> string) \<times> token_state" where
  "create_software_token w p ident inp st =
     (let iri = iri_for (w_base w) Software ident;
          scps = (if in_scopes inp = []
                  then [''register:instance'', ''advertise:produce'', ''advertise:consume'']
                  else in_scopes inp)
      in case and_then (may_manage_software p) (\<lambda>_.
              and_then (w_exists w iri) (\<lambda>ex.
                if \<not> ex then Inl (not_found (''no software at '' @ iri)) else
                and_then (check_scopes (w_debug w) p scps) (\<lambda>_. token_ttl w (in_expires_in inp)))) of
           Inl e \<Rightarrow> (Inl (Refused e), st)
         | Inr ttl \<Rightarrow> mint_and_audit w p (SubjectSoftware iri) iri ''token.mint.software'' scps inp ttl st)"

definition list_instance_tokens ::
  "string \<Rightarrow> principal \<Rightarrow> string \<Rightarrow> token_state \<Rightarrow> app_error + token_record list" where
  "list_instance_tokens base p ident st =
     (let iri = iri_for base Instance ident in
      and_then (may_manage p iri) (\<lambda>_. Inr (list_tokens iri (ts_tokens st))))"

definition list_software_tokens ::
  "string \<Rightarrow> principal \<Rightarrow> string \<Rightarrow> token_state \<Rightarrow> app_error + token_record list" where
  "list_software_tokens base p ident st =
     and_then (may_manage_software p) (\<lambda>_.
       Inr (list_tokens (iri_for base Software ident) (ts_tokens st)))"

text \<open>
  Revoking, for the instance's own tokens and the software's: the addressed record must be the
  token's.
\<close>

definition revoke_and_audit ::
  "int \<Rightarrow> principal \<Rightarrow> string \<Rightarrow> string \<Rightarrow> token_record \<Rightarrow> token_state \<Rightarrow> (app_error + unit) \<times> token_state" where
  "revoke_and_audit now p iri token_id rec st =
     (Inr (), \<lparr>ts_tokens = snd (revoke_token now token_id (ts_tokens st)),
               ts_audit = audit now (Some (subject p)) (actor_kind p) ''token.revoke'' (Some iri)
                            (Some (tok_prefix rec)) None (ts_audit st)\<rparr>)"

definition revoke_instance_token ::
  "string \<Rightarrow> int \<Rightarrow> principal \<Rightarrow> string \<Rightarrow> string \<Rightarrow> token_state \<Rightarrow> (app_error + unit) \<times> token_state" where
  "revoke_instance_token base now p ident token_id st =
     (let iri = iri_for base Instance ident in
      case may_manage p iri of
        Inl e \<Rightarrow> (Inl e, st)
      | Inr _ \<Rightarrow>
          (case get_token token_id (ts_tokens st) of
             None \<Rightarrow> (Inl (not_found ''no such token''), st)
           | Some rec \<Rightarrow>
               if tok_instance_iri rec \<noteq> Some iri
               then (Inl (not_found ''no such token for this instance''), st)
               else revoke_and_audit now p iri token_id rec st))"

definition revoke_software_token ::
  "string \<Rightarrow> int \<Rightarrow> principal \<Rightarrow> string \<Rightarrow> string \<Rightarrow> token_state \<Rightarrow> (app_error + unit) \<times> token_state" where
  "revoke_software_token base now p ident token_id st =
     (case may_manage_software p of
        Inl e \<Rightarrow> (Inl e, st)
      | Inr _ \<Rightarrow>
          (let iri = iri_for base Software ident in
           case get_token token_id (ts_tokens st) of
             None \<Rightarrow> (Inl (not_found ''no such token''), st)
           | Some rec \<Rightarrow>
               if tok_software_iri rec \<noteq> Some iri
               then (Inl (not_found ''no such token for this software''), st)
               else revoke_and_audit now p iri token_id rec st))"

section \<open>Lemmas\<close>

lemma may_manage_Inr:
  "may_manage p iri = Inr u \<longleftrightarrow> is_curator p \<or> acts_for_instance p iri"
  by (auto simp: may_manage_def is_curator_def)

lemma check_scopes_Inr:
  "check_scopes debug p ss = Inr u \<longleftrightarrow> set ss \<subseteq> set ALL_SCOPES \<and> (SCOPE_ADMIN \<in> set ss \<longrightarrow> is_admin p)"
  by (induction ss) auto

lemma all_scopes_plain: "s \<in> set ALL_SCOPES \<Longrightarrow> s \<noteq> [] \<and> ws_free s"
proof -
  have "\<forall>s \<in> set ALL_SCOPES. s \<noteq> [] \<and> ws_free s" by code_simp
  then show "s \<in> set ALL_SCOPES \<Longrightarrow> s \<noteq> [] \<and> ws_free s" by blast
qed

lemma mint_and_audit_Inr:
  assumes "mint_and_audit w p subj iri action scps inp ttl st = (Inr (rec, plain), st')"
  shows "mint_token (w_hash w) (w_add_time w) (w_new_id w) (w_prefix w) (w_secret w) (w_now w)
           subj scps (in_label inp) (Some (subject p)) ttl (ts_tokens st) = Inr (ts_tokens st', rec, plain)
     \<and> tok_scopes rec = scps"
  using assms unfolding mint_and_audit_def
  by (auto split: sum.splits ops_error.splits prod.splits dest: mint_token_Inr)

lemma create_token_Inr:
  assumes "create_token w p ident inp st = (Inr (rec, plain), st')"
  shows "(is_curator p \<or> acts_for_instance p (iri_for (w_base w) Instance ident))
     \<and> set (tok_scopes rec) \<subseteq> set ALL_SCOPES \<and> (SCOPE_ADMIN \<in> set (tok_scopes rec) \<longrightarrow> is_admin p)
     \<and> (\<exists>ttl. mint_token (w_hash w) (w_add_time w) (w_new_id w) (w_prefix w) (w_secret w) (w_now w)
           (SubjectInstance (iri_for (w_base w) Instance ident)) (tok_scopes rec) (in_label inp)
           (Some (subject p)) ttl (ts_tokens st) = Inr (ts_tokens st', rec, plain))"
proof -
  let ?iri = "iri_for (w_base w) Instance ident"
  let ?scps = "if in_scopes inp = [] then [''advertise:produce'', ''advertise:consume''] else in_scopes inp"
  from assms obtain u v ttl where ok: "may_manage p ?iri = Inr u" "check_scopes (w_debug w) p ?scps = Inr v"
    and m: "mint_and_audit w p (SubjectInstance ?iri) ?iri ''token.mint'' ?scps inp ttl st = (Inr (rec, plain), st')"
    unfolding create_token_def Let_def
    by (auto split: sum.splits if_splits simp: and_then_eq_Inr simp del: check_scopes.simps)
  from mint_and_audit_Inr [OF m] ok show ?thesis
    by (auto simp: may_manage_Inr check_scopes_Inr)
qed


section \<open>Properties\<close>

text \<open>
  C19. What a successful mint proves about the caller and the token: the caller is a curator, an
  admin or the deployment itself; every scope of the token is one the registry knows; an
  \<open>admin:*\<close> token was asked for by an admin; and the token acts for the addressed deployment
  and for nothing else.
\<close>

theorem create_token_authority:
  assumes "create_token w p ident inp st = (Inr (rec, plain), st')"
  shows "(is_curator p \<or> acts_for_instance p (iri_for (w_base w) Instance ident))
     \<and> scopes (token_principal rec) \<subseteq> set ALL_SCOPES
     \<and> (is_admin (token_principal rec) \<longrightarrow> is_admin p)
     \<and> instance_iri (token_principal rec) = Some (iri_for (w_base w) Instance ident)
     \<and> software_iri (token_principal rec) = None"
proof -
  from create_token_Inr [OF assms] obtain ttl where c:
      "is_curator p \<or> acts_for_instance p (iri_for (w_base w) Instance ident)"
      "set (tok_scopes rec) \<subseteq> set ALL_SCOPES" "SCOPE_ADMIN \<in> set (tok_scopes rec) \<longrightarrow> is_admin p"
    and m: "mint_token (w_hash w) (w_add_time w) (w_new_id w) (w_prefix w) (w_secret w) (w_now w)
       (SubjectInstance (iri_for (w_base w) Instance ident)) (tok_scopes rec) (in_label inp)
       (Some (subject p)) ttl (ts_tokens st) = Inr (ts_tokens st', rec, plain)"
    by blast
  have "tok_instance_iri rec = Some (iri_for (w_base w) Instance ident)" "tok_software_iri rec = None"
    using mint_token_subject [OF m] by (simp_all add: subject_columns_def)
  with c show ?thesis by (simp add: is_admin_def)
qed

definition demo_world :: token_world where
  "demo_world = \<lparr>w_new_id = ''1'', w_prefix = ''ab'', w_secret = ''cd'', w_now = 0, w_hash = Some,
     w_add_time = (\<lambda>t d. Some (t + d)), w_from_std = (\<lambda>d. Some (int d)), w_exists = (\<lambda>_. Inr True),
     w_debug = id, w_base = ''https://r.org''\<rparr>"

definition demo_instance :: principal where
  "demo_instance = anonymous\<lparr>credential := LocalToken, instance_iri := Some ''https://r.org/instance/7'',
     scopes := {SCOPE_ADVERTISE_PRODUCE}\<rparr>"

definition demo_ask :: "string list \<Rightarrow> mint_input" where
  "demo_ask scps = \<lparr>in_scopes = scps, in_label = None, in_expires_in = Some ''90d''\<rparr>"

lemma demo_iri: "iri_for ''https://r.org'' Instance ''7'' = ''https://r.org/instance/7''"
  by code_simp

lemma demo_may_manage: "may_manage demo_instance ''https://r.org/instance/7'' = Inr ()"
proof -
  have "acts_for_instance demo_instance ''https://r.org/instance/7''"
    by (simp add: acts_for_instance_def is_subscribe_only_def demo_instance_def anonymous_def scope_defs)
  then show ?thesis by (simp add: may_manage_def)
qed

lemma demo_ttl: "token_ttl demo_world (Some ''90d'') = Inr (Some 7776000000000000)"
proof -
  have d: "digit_value CHR ''9'' = Some 9" "digit_value CHR ''0'' = Some 0" by code_simp+
  have "trim ''90'' = ''90''" by code_simp
  then have n: "parse_unsigned (2 ^ 64 - 1) (trim ''90'') = Some 90" by (simp add: parse_unsigned_def d)
  have "trim ''90d'' = ''90'' @ ''d''" by code_simp
  from parse_duration_with_unit [OF n this, of 86400]
  have "parse_duration ''90d'' = Inr 7776000000000000" by simp
  then show ?thesis by (simp add: token_ttl_def demo_world_def)
qed

lemma demo_world_fields [simp]:
  "w_base demo_world = ''https://r.org''" "w_debug demo_world = id" "w_now demo_world = 0"
  "w_hash demo_world = Some" "w_new_id demo_world = ''1''" "w_prefix demo_world = ''ab''"
  "w_secret demo_world = ''cd''" "w_add_time demo_world = (\<lambda>t d. Some (t + d))"
  "w_exists demo_world = (\<lambda>_. Inr True)"
  by (simp_all add: demo_world_def)

lemma demo_ask_fields [simp]:
  "in_scopes (demo_ask scps) = scps" "in_label (demo_ask scps) = None"
  "in_expires_in (demo_ask scps) = Some ''90d''"
  by (simp_all add: demo_ask_def)

lemma demo_mint_and_audit:
  "\<exists>rec plain st'. mint_and_audit demo_world p (SubjectInstance iri) iri action scps (demo_ask scps')
       (Some ttl) \<lparr>ts_tokens = [], ts_audit = []\<rparr> = (Inr (rec, plain), st') \<and> tok_scopes rec = scps"
  by (simp add: mint_and_audit_def mint_token_def subject_columns_def Let_def)

lemma demo_mint:
  assumes "s \<in> set ALL_SCOPES" "s \<noteq> SCOPE_ADMIN"
  shows "\<exists>rec plain st'. create_token demo_world demo_instance ''7'' (demo_ask [s]) \<lparr>ts_tokens = [], ts_audit = []\<rparr>
     = (Inr (rec, plain), st') \<and> tok_scopes rec = [s]"
proof -
  have "check_scopes id demo_instance [s] = Inr ()" using assms by simp
  then show ?thesis
    using demo_mint_and_audit [of demo_instance "''https://r.org/instance/7''" "''token.mint''" "[s]" "[s]" 7776000000000000]
    by (simp add: create_token_def demo_iri demo_may_manage demo_ttl Let_def del: check_scopes.simps)
qed

theorem create_token_authority_witness:
  "\<exists>rec plain st'. create_token demo_world demo_instance ''7'' (demo_ask [SCOPE_ADVERTISE_CONSUME])
       \<lparr>ts_tokens = [], ts_audit = []\<rparr> = (Inr (rec, plain), st')
     \<and> instance_iri (token_principal rec) = Some ''https://r.org/instance/7''"
proof -
  from demo_mint [of SCOPE_ADVERTISE_CONSUME] obtain rec plain st' where
    c: "create_token demo_world demo_instance ''7'' (demo_ask [SCOPE_ADVERTISE_CONSUME])
       \<lparr>ts_tokens = [], ts_audit = []\<rparr> = (Inr (rec, plain), st')"
    by (auto simp: ALL_SCOPES_def scope_defs)
  moreover have "iri_for (w_base demo_world) Instance ''7'' = ''https://r.org/instance/7''" by code_simp
  ultimately show ?thesis using create_token_authority [OF c] by auto
qed

text \<open>
  A subscribe-only credential stays narrow: unless it is also a curator's, it can neither
  mint a token for its own deployment nor revoke one, and the attempt leaves the token table
  and the audit log as they were.
\<close>

theorem subscribe_only_cannot_touch_tokens:
  assumes "is_subscribe_only p" and "\<not> is_curator p"
  shows "(\<exists>e. create_token w p ident inp st = (Inl (Refused e), st) \<and> status e = 403)
     \<and> (\<exists>e. create_software_token w p ident inp st = (Inl (Refused e), st) \<and> status e = 403)
     \<and> (\<exists>e. revoke_instance_token base now p ident token_id st = (Inl e, st) \<and> status e = 403)
     \<and> (\<exists>e. revoke_software_token base now p ident token_id st = (Inl e, st) \<and> status e = 403)"
proof -
  have "\<not> is_admin p" "\<not> acts_for_instance p iri" for iri
    using assms by (auto simp: is_curator_def acts_for_instance_def)
  with assms show ?thesis
    by (simp add: create_token_def create_software_token_def revoke_instance_token_def
        revoke_software_token_def may_manage_def may_manage_software_def Let_def)
qed

theorem subscribe_only_cannot_touch_tokens_witness:
  "is_subscribe_only (demo_instance\<lparr>scopes := {SCOPE_SUBSCRIBE_ARTIFACTS}\<rparr>)
   \<and> (\<exists>e. create_token demo_world (demo_instance\<lparr>scopes := {SCOPE_SUBSCRIBE_ARTIFACTS}\<rparr>) ''7'' (demo_ask [])
         \<lparr>ts_tokens = [], ts_audit = []\<rparr> = (Inl (Refused e), \<lparr>ts_tokens = [], ts_audit = []\<rparr>) \<and> status e = 403)"
proof -
  let ?p = "demo_instance\<lparr>scopes := {SCOPE_SUBSCRIBE_ARTIFACTS}\<rparr>"
  have s: "is_subscribe_only ?p" by (simp add: is_subscribe_only_def)
  have c: "\<not> is_curator ?p"
    by (simp add: is_curator_def is_admin_def demo_instance_def anonymous_def scope_defs)
  from subscribe_only_cannot_touch_tokens [OF s c] s show ?thesis by blast
qed

text \<open>
  C39. A deployment can widen its own authority: whoever acts for a deployment the registry knows is
  given a token for it with any known scopes but \<open>admin:*\<close>, whatever scopes the credential it
  comes with has. One that asks for \<open>register:software\<close> passes the curator guard.
\<close>

theorem instance_token_widens_itself:
  assumes "acts_for_instance p (iri_for (w_base w) Instance ident)" "w_exists w (iri_for (w_base w) Instance ident) = Inr True"
    and "set (in_scopes inp) \<subseteq> set ALL_SCOPES - {SCOPE_ADMIN}" "SCOPE_REGISTER_SOFTWARE \<in> set (in_scopes inp)"
    and "in_expires_in inp = None" "w_hash w (token_plaintext (w_prefix w) (w_secret w)) = Some h"
    and "\<forall>r \<in> set (ts_tokens st). row_id r \<noteq> w_new_id w \<and> row_prefix r \<noteq> w_prefix w"
  shows "\<exists>rec plain st'. create_token w p ident inp st = (Inr (rec, plain), st')
     \<and> acts_for_instance (token_principal rec) (iri_for (w_base w) Instance ident)
     \<and> is_ok (require_curator (token_principal rec))"
proof -
  let ?iri = "iri_for (w_base w) Instance ident"
  have "in_scopes inp \<noteq> []" using assms(4) by auto
  moreover have "may_manage p ?iri = Inr ()" using may_manage_Inr [of p ?iri "()"] assms(1) by simp
  moreover have "check_scopes (w_debug w) p (in_scopes inp) = Inr ()"
    using check_scopes_Inr [of "w_debug w" p "in_scopes inp" "()"] assms(3) by auto
  moreover obtain rec plain st' where m: "mint_and_audit w p (SubjectInstance ?iri) ?iri ''token.mint'' (in_scopes inp) inp None st
      = (Inr (rec, plain), st')" "tok_scopes rec = in_scopes inp" "tok_instance_iri rec = Some ?iri"
    using assms(6,7) by (auto simp: mint_and_audit_def mint_token_def subject_columns_def Let_def)
  ultimately have "create_token w p ident inp st = (Inr (rec, plain), st')"
    using assms(2,5) by (simp add: create_token_def token_ttl_def)
  moreover have "is_ok (require_curator (token_principal rec))"
    using m assms(4) by (simp add: gc.ok_iff has_scope_def)
  moreover have "acts_for_instance (token_principal rec) ?iri"
    using m assms(4) by (auto simp: acts_for_instance_def is_subscribe_only_def scope_defs)
  ultimately show ?thesis by blast
qed

theorem instance_token_widens_itself_witness:
  "\<exists>rec plain st'. create_token demo_world demo_instance ''7'' ((demo_ask [SCOPE_REGISTER_SOFTWARE])\<lparr>in_expires_in := None\<rparr>)
       \<lparr>ts_tokens = [], ts_audit = []\<rparr> = (Inr (rec, plain), st')
     \<and> \<not> is_ok (require_curator demo_instance) \<and> is_ok (require_curator (token_principal rec))"
proof -
  let ?inp = "(demo_ask [SCOPE_REGISTER_SOFTWARE])\<lparr>in_expires_in := None\<rparr>"
  have a: "acts_for_instance demo_instance (iri_for (w_base demo_world) Instance ''7'')"
    by (simp add: demo_iri acts_for_instance_def is_subscribe_only_def demo_instance_def anonymous_def scope_defs)
  have "set (in_scopes ?inp) \<subseteq> set ALL_SCOPES - {SCOPE_ADMIN}"
    by (simp add: ALL_SCOPES_def scope_defs)
  from instance_token_widens_itself [OF a _ this, of "token_plaintext ''ab'' ''cd''" "\<lparr>ts_tokens = [], ts_audit = []\<rparr>"]
  obtain rec plain st' where "create_token demo_world demo_instance ''7'' ?inp \<lparr>ts_tokens = [], ts_audit = []\<rparr> = (Inr (rec, plain), st')"
    "is_ok (require_curator (token_principal rec))"
    by auto
  moreover have "\<not> is_ok (require_curator demo_instance)"
    by (simp add: gc.ok_iff is_curator_def is_admin_def has_scope_def demo_instance_def anonymous_def scope_defs)
  ultimately show ?thesis by blast
qed

end
