(* ===== verification/Rdf_Build.thy ===== *)
theory Rdf_Build
  imports Graph_Store
begin

text \<open>
  Building the statements of a record (\<open>src/rdf/build.rs\<close>) and reading them back
  (\<open>src/rdf/props.rs\<close>), with the vocabulary constants of \<open>src/ns.rs\<close>. Which strings are IRIs, how
  a date is parsed and printed, how a literal is displayed and what time it is are arguments.
\<close>

definition TAR :: string where "TAR = ''https://w3id.org/tar/ns#''"
definition DCAT :: string where "DCAT = ''http://www.w3.org/ns/dcat#''"
definition DCT :: string where "DCT = ''http://purl.org/dc/terms/''"
definition PROV :: string where "PROV = ''http://www.w3.org/ns/prov#''"
definition SCHEMA :: string where "SCHEMA = ''https://schema.org/''"
definition RDF :: string where "RDF = ''http://www.w3.org/1999/02/22-rdf-syntax-ns#''"
definition RDFS :: string where "RDFS = ''http://www.w3.org/2000/01/rdf-schema#''"
definition SKOS :: string where "SKOS = ''http://www.w3.org/2004/02/skos/core#''"
definition SPDX :: string where "SPDX = ''http://spdx.org/rdf/terms#''"
definition XSD :: string where "XSD = ''http://www.w3.org/2001/XMLSchema#''"
definition FOAF :: string where "FOAF = ''http://xmlns.com/foaf/0.1/''"
definition CODEMETA :: string where "CODEMETA = ''https://w3id.org/codemeta/terms/''"
definition ADMS :: string where "ADMS = ''http://www.w3.org/ns/adms#''"
definition EU_ACCESS_RIGHT :: string where
  "EU_ACCESS_RIGHT = ''http://publications.europa.eu/resource/authority/access-right/''"
definition EU_DATASET_STATUS :: string where
  "EU_DATASET_STATUS = ''http://publications.europa.eu/resource/authority/dataset-status/''"
definition G_PEER_PREFIX :: string where "G_PEER_PREFIX = ''urn:tar:peer:''"

definition peer_graph :: "string \<Rightarrow> string" where
  "peer_graph i = G_PEER_PREFIX @ i"

text \<open>\<open>NamedNode::new\<close>, \<open>parse_from_rfc3339\<close> printed again in UTC to the second, \<open>Utc::now\<close>,
  and \<open>Term::to_string\<close>.\<close>

record rdf_world =
  rw_valid_iri :: "string \<Rightarrow> bool"
  rw_datetime :: "string \<Rightarrow> string option"
  rw_now :: string
  rw_show :: "rdf_term \<Rightarrow> string"

definition simple_literal :: "string \<Rightarrow> rdf_term" where
  "simple_literal v = Literal v (XSD @ ''string'') None"

definition rdf_type :: string where
  "rdf_type = RDF @ ''type''"

section \<open>Nodes\<close>

record rdf_node =
  rn_subject :: node
  rn_graph :: string
  rn_quads :: "quad list"

definition iri_node :: "string \<Rightarrow> string \<Rightarrow> rdf_node" where
  "iri_node iri g = \<lparr>rn_subject = NamedNode iri, rn_graph = g, rn_quads = []\<rparr>"

definition local_node :: "string \<Rightarrow> rdf_node" where
  "local_node iri = iri_node iri G_LOCAL"

text \<open>\<open>BlankNode::default\<close> draws a fresh label, which is the argument \<open>b\<close>.\<close>

definition blank_node :: "string \<Rightarrow> string \<Rightarrow> rdf_node" where
  "blank_node b g = \<lparr>rn_subject = BlankNode b, rn_graph = g, rn_quads = []\<rparr>"

definition node_term :: "rdf_node \<Rightarrow> rdf_term" where
  "node_term n = Node (rn_subject n)"

definition push_quad :: "string \<Rightarrow> rdf_term \<Rightarrow> rdf_node \<Rightarrow> rdf_node" where
  "push_quad p v n =
     n\<lparr>rn_quads := rn_quads n @ [\<lparr>q_subject = rn_subject n, q_predicate = p, q_object = v, q_graph = rn_graph n\<rparr>]\<rparr>"

definition add_type :: "string \<Rightarrow> rdf_node \<Rightarrow> rdf_node" where
  "add_type t n = push_quad rdf_type (Node (NamedNode t)) n"

definition link_term :: "rdf_world \<Rightarrow> string \<Rightarrow> rdf_term" where
  "link_term w target = (if rw_valid_iri w target then Node (NamedNode target) else simple_literal target)"

definition add_link :: "rdf_world \<Rightarrow> string \<Rightarrow> string \<Rightarrow> string \<Rightarrow> rdf_node \<Rightarrow> rdf_node" where
  "add_link w ns l target n = (if target = [] then n else push_quad (ns @ l) (link_term w target) n)"

definition opt_link :: "rdf_world \<Rightarrow> string \<Rightarrow> string \<Rightarrow> string option \<Rightarrow> rdf_node \<Rightarrow> rdf_node" where
  "opt_link w ns l target n = (case target of Some t \<Rightarrow> if t \<noteq> [] then add_link w ns l t n else n | None \<Rightarrow> n)"

definition add_links :: "rdf_world \<Rightarrow> string \<Rightarrow> string \<Rightarrow> string list \<Rightarrow> rdf_node \<Rightarrow> rdf_node" where
  "add_links w ns l targets n = fold (add_link w ns l) targets n"

definition add_text :: "string \<Rightarrow> string \<Rightarrow> string \<Rightarrow> rdf_node \<Rightarrow> rdf_node" where
  "add_text ns l v n = (if v = [] then n else push_quad (ns @ l) (simple_literal v) n)"

definition add_opt_text :: "string \<Rightarrow> string \<Rightarrow> string option \<Rightarrow> rdf_node \<Rightarrow> rdf_node" where
  "add_opt_text ns l v n = (case v of Some s \<Rightarrow> if s \<noteq> [] then add_text ns l s n else n | None \<Rightarrow> n)"

definition add_texts :: "string \<Rightarrow> string \<Rightarrow> string list \<Rightarrow> rdf_node \<Rightarrow> rdf_node" where
  "add_texts ns l vs n = fold (add_text ns l) vs n"

definition add_int :: "string \<Rightarrow> string \<Rightarrow> int \<Rightarrow> rdf_node \<Rightarrow> rdf_node" where
  "add_int ns l v n = push_quad (ns @ l) (Literal (show_int v) (XSD @ ''integer'') None) n"

definition add_opt_int :: "string \<Rightarrow> string \<Rightarrow> int option \<Rightarrow> rdf_node \<Rightarrow> rdf_node" where
  "add_opt_int ns l v n = (case v of Some i \<Rightarrow> add_int ns l i n | None \<Rightarrow> n)"

definition add_boolean :: "string \<Rightarrow> string \<Rightarrow> bool \<Rightarrow> rdf_node \<Rightarrow> rdf_node" where
  "add_boolean ns l v n = push_quad (ns @ l) (Literal (if v then ''true'' else ''false'') (XSD @ ''boolean'') None) n"

definition add_datetime :: "rdf_world \<Rightarrow> string \<Rightarrow> string \<Rightarrow> string \<Rightarrow> rdf_node \<Rightarrow> rdf_node" where
  "add_datetime w ns l v n =
     (if v = [] then n
      else case rw_datetime w v of
             Some utc \<Rightarrow> push_quad (ns @ l) (Literal utc (XSD @ ''dateTime'') None) n
           | None \<Rightarrow> add_text ns l v n)"

definition add_opt_datetime :: "rdf_world \<Rightarrow> string \<Rightarrow> string \<Rightarrow> string option \<Rightarrow> rdf_node \<Rightarrow> rdf_node" where
  "add_opt_datetime w ns l v n = (case v of Some s \<Rightarrow> if s \<noteq> [] then add_datetime w ns l s n else n | None \<Rightarrow> n)"

definition add_child :: "string \<Rightarrow> string \<Rightarrow> rdf_node \<Rightarrow> rdf_node \<Rightarrow> rdf_node" where
  "add_child ns l child n =
     (let n' = push_quad (ns @ l) (node_term child) n in n'\<lparr>rn_quads := rn_quads n' @ rn_quads child\<rparr>)"

definition finish :: "rdf_node \<Rightarrow> quad list" where
  "finish n = rn_quads n"

definition attribution_at :: "rdf_world \<Rightarrow> string \<Rightarrow> string option \<Rightarrow> rdf_node \<Rightarrow> rdf_node" where
  "attribution_at w actor modified n =
     add_datetime w DCT ''modified'' (case modified of Some m \<Rightarrow> m | None \<Rightarrow> rw_now w)
       (add_link w PROV ''wasAttributedTo'' actor n)"

definition attribution :: "rdf_world \<Rightarrow> string \<Rightarrow> rdf_node \<Rightarrow> rdf_node" where
  "attribution w actor n = attribution_at w actor None n"

text \<open>The statements of a builder in the order the code makes its calls.\<close>

definition build :: "(rdf_node \<Rightarrow> rdf_node) list \<Rightarrow> rdf_node \<Rightarrow> rdf_node" where
  "build steps n = fold (\<lambda>f n. f n) steps n"

section \<open>Property maps\<close>

definition term_value :: "rdf_term \<Rightarrow> string" where
  "term_value t = (case t of Literal v d l \<Rightarrow> v | Node (NamedNode n) \<Rightarrow> n | Node (BlankNode b) \<Rightarrow> ''_:'' @ b)"

definition subject_key :: "node \<Rightarrow> string" where
  "subject_key s = (case s of NamedNode n \<Rightarrow> n | BlankNode b \<Rightarrow> ''_:'' @ b)"

definition term_key :: "rdf_world \<Rightarrow> rdf_term \<Rightarrow> string" where
  "term_key w t = (case t of Node n \<Rightarrow> subject_key n | Literal v d l \<Rightarrow> rw_show w t)"

text \<open>
  A subject with its statements in order; the map of a predicate to its objects is a filter.
  The property maps of nested nodes have no nested nodes of their own.
\<close>

record node_props =
  np_subject :: string
  np_pairs :: "(string \<times> rdf_term) list"
  np_graph :: "string option"

record props = node_props +
  pr_nested :: "(string \<times> node_props) list"

definition quads_about :: "string \<Rightarrow> quad list \<Rightarrow> quad list" where
  "quads_about s qs = filter (\<lambda>q. subject_key (q_subject q) = s) qs"

definition props_of :: "string \<Rightarrow> quad list \<Rightarrow> node_props" where
  "props_of s qs =
     \<lparr>np_subject = s, np_pairs = map (\<lambda>q. (q_predicate q, q_object q)) (quads_about s qs),
      np_graph = (case quads_about s qs of [] \<Rightarrow> None | q # _ \<Rightarrow> Some (q_graph q))\<rparr>"

definition from_quads :: "string \<Rightarrow> quad list \<Rightarrow> props" where
  "from_quads s qs =
     node_props.extend (props_of s qs)
       \<lparr>pr_nested = map (\<lambda>k. (k, props_of k qs)) (dedup (map (\<lambda>q. subject_key (q_subject q)) qs))\<rparr>"

definition props_is_empty :: "'a node_props_scheme \<Rightarrow> bool" where
  "props_is_empty p \<longleftrightarrow> np_pairs p = []"

definition nested_for :: "props \<Rightarrow> string \<Rightarrow> node_props option" where
  "nested_for p k = map_of (pr_nested p) k"

definition terms :: "'a node_props_scheme \<Rightarrow> string \<Rightarrow> string \<Rightarrow> rdf_term list" where
  "terms p ns l = map snd (filter (\<lambda>x. fst x = ns @ l) (np_pairs p))"

definition one :: "'a node_props_scheme \<Rightarrow> string \<Rightarrow> string \<Rightarrow> rdf_term option" where
  "one p ns l = (case terms p ns l of [] \<Rightarrow> None | t # _ \<Rightarrow> Some t)"

definition get_str :: "'a node_props_scheme \<Rightarrow> string \<Rightarrow> string \<Rightarrow> string option" where
  "get_str p ns l = map_option term_value (one p ns l)"

definition get_strs :: "'a node_props_scheme \<Rightarrow> string \<Rightarrow> string \<Rightarrow> string list" where
  "get_strs p ns l = map term_value (terms p ns l)"

definition named :: "rdf_term \<Rightarrow> string option" where
  "named t = (case t of Node (NamedNode n) \<Rightarrow> Some n | _ \<Rightarrow> None)"

definition get_iri :: "'a node_props_scheme \<Rightarrow> string \<Rightarrow> string \<Rightarrow> string option" where
  "get_iri p ns l = Option.bind (one p ns l) named"

definition get_iris :: "'a node_props_scheme \<Rightarrow> string \<Rightarrow> string \<Rightarrow> string list" where
  "get_iris p ns l = List.map_filter named (terms p ns l)"

definition node_keys :: "rdf_world \<Rightarrow> 'a node_props_scheme \<Rightarrow> string \<Rightarrow> string \<Rightarrow> string list" where
  "node_keys w p ns l = map (term_key w) (terms p ns l)"

definition get_i64 :: "'a node_props_scheme \<Rightarrow> string \<Rightarrow> string \<Rightarrow> int option" where
  "get_i64 p ns l = Option.bind (get_str p ns l) parse_i64"

definition get_bool :: "'a node_props_scheme \<Rightarrow> string \<Rightarrow> string \<Rightarrow> bool option" where
  "get_bool p ns l =
     (case get_str p ns l of
        None \<Rightarrow> None
      | Some s \<Rightarrow> if s = ''true'' \<or> s = ''1'' then Some True else if s = ''false'' \<or> s = ''0'' then Some False else None)"

definition types_of :: "'a node_props_scheme \<Rightarrow> string list" where
  "types_of p = get_iris p RDF ''type''"

definition has_type :: "'a node_props_scheme \<Rightarrow> string \<Rightarrow> bool" where
  "has_type p t \<longleftrightarrow> t \<in> set (types_of p)"

section \<open>Patterns the queries share\<close>

text \<open>The values of a subject in the local graph, an optional pattern, and what counts as withdrawn.\<close>

definition local_values :: "store \<Rightarrow> node \<Rightarrow> string \<Rightarrow> rdf_term list" where
  "local_values st n p = map q_object (filter (\<lambda>q. q_subject q = n \<and> q_predicate q = p \<and> q_graph q = G_LOCAL) st)"

definition optional :: "rdf_term list \<Rightarrow> rdf_term option list" where
  "optional vs = (if vs = [] then [None] else map Some vs)"

definition is_literal :: "rdf_term \<Rightarrow> bool" where
  "is_literal t = (case t of Literal _ _ _ \<Rightarrow> True | _ \<Rightarrow> False)"

definition iri_of :: "node \<Rightarrow> string option" where
  "iri_of n = (case n of NamedNode i \<Rightarrow> Some i | BlankNode _ \<Rightarrow> None)"

definition is_tombstoned :: "store \<Rightarrow> node \<Rightarrow> bool" where
  "is_tombstoned st n \<longleftrightarrow>
     (\<exists>q \<in> set st. q_subject q = n \<and> q_predicate q = TAR @ ''tombstoned'' \<and> q_object q = Literal ''true'' (XSD @ ''boolean'') None)"

lemma iri_of_Some [simp]: "iri_of n = Some i \<longleftrightarrow> n = NamedNode i"
  by (cases n) (auto simp: iri_of_def)

lemma set_optional: "x \<in> set (optional vs) \<longleftrightarrow> (case x of None \<Rightarrow> vs = [] | Some v \<Rightarrow> v \<in> set vs)"
  by (auto simp: optional_def split: option.split)

end
