(* ===== verification/Json.thy ===== *)
theory Json
  imports Tar_Prelude
begin

text \<open>
  JSON values as the handlers build and read them (\<open>serde_json::Value\<close>). A text column that
  holds JSON is modelled by the value it holds. The order of an object's members is not
  observed by the code; inserting replaces the member of that name.
\<close>

datatype json =
    JNull
  | JBool bool
  | JInt int
  | JText string
  | JArray "json list"
  | JObject "(string \<times> json) list"

definition members_insert :: "string \<Rightarrow> json \<Rightarrow> (string \<times> json) list \<Rightarrow> (string \<times> json) list" where
  "members_insert k v ms = filter (\<lambda>m. fst m \<noteq> k) ms @ [(k, v)]"

text \<open>\<open>as_object_mut\<close> with \<open>insert\<close>: nothing happens to a value that is not an object.\<close>

definition obj_insert :: "string \<Rightarrow> json \<Rightarrow> json \<Rightarrow> json" where
  "obj_insert k v j = (case j of JObject ms \<Rightarrow> JObject (members_insert k v ms) | _ \<Rightarrow> j)"

definition get_member :: "string \<Rightarrow> json \<Rightarrow> json option" where
  "get_member k j = (case j of JObject ms \<Rightarrow> map_of ms k | _ \<Rightarrow> None)"

definition opt_text :: "string option \<Rightarrow> json" where
  "opt_text s = (case s of None \<Rightarrow> JNull | Some t \<Rightarrow> JText t)"

definition as_text :: "json \<Rightarrow> string option" where
  "as_text j = (case j of JText s \<Rightarrow> Some s | _ \<Rightarrow> None)"

lemma get_obj_insert [simp]:
  "get_member k (obj_insert k' v j) =
     (case j of JObject _ \<Rightarrow> if k = k' then Some v else get_member k j | _ \<Rightarrow> None)"
proof (cases j)
  case (JObject ms)
  have "map_of (members_insert k' v ms) k = (if k = k' then Some v else map_of ms k)"
    by (induction ms) (auto simp: members_insert_def)
  with JObject show ?thesis by (simp add: obj_insert_def get_member_def)
qed (simp_all add: obj_insert_def get_member_def)

end
