(* ===== verification/Jwt.thy ===== *)
theory Jwt
  imports Authenticate Settings Rdf_Build Json
begin

text \<open>
  OIDC tokens (\<open>src/auth/jwt.rs\<close>): finding the key of an issuer, what a token is checked for, and
  mapping a verified claim set onto a principal. Signatures, base64, the JSON parser and HTTP are
  arguments; the three queries are the rows they select, in the order of the store.
\<close>

datatype algorithm = RS256 | RS384 | RS512 | PS256 | ES256 | ES384

record jwk =
  jk_kty :: string
  jk_kid :: "string option"
  jk_alg :: "string option"
  jk_n :: "string option"
  jk_e :: "string option"
  jk_x :: "string option"
  jk_y :: "string option"
  jk_crv :: "string option"

text \<open>A validation as the code configures it; \<open>None\<close> for the audience is a check that is off.\<close>

record validation =
  va_algorithm :: algorithm
  va_issuers :: "string list"
  va_audience :: "string list option"
  va_required :: "string list"

record 'k jwt_world =
  jw_oidc :: oidc_config
  jw_base :: string
  jw_previous_bases :: "string list"
  jw_base64 :: "string \<Rightarrow> string option"
  jw_json :: "string \<Rightarrow> json option"
  jw_header :: "string \<Rightarrow> string + string option"
  jw_get :: "bool \<Rightarrow> string \<Rightarrow> string + json"
  jw_rsa :: "string \<Rightarrow> string \<Rightarrow> string + 'k"
  jw_ec :: "string \<Rightarrow> string \<Rightarrow> string + 'k"
  jw_decode :: "string \<Rightarrow> 'k \<Rightarrow> validation \<Rightarrow> string + json"
  jw_static_keys :: "string \<rightharpoonup> algorithm \<times> 'k"
  jw_clock :: int
  jw_show :: "string \<Rightarrow> string"
  jw_query_error :: string

type_synonym jwks_cache = "string \<rightharpoonup> jwk list \<times> int"

definition JWKS_TTL :: int where
  "JWKS_TTL = 3600 * 10 ^ 9"

definition with_static_key :: "string \<Rightarrow> algorithm \<Rightarrow> 'k \<Rightarrow> 'k jwt_world \<Rightarrow> 'k jwt_world" where
  "with_static_key kid alg key w = w\<lparr>jw_static_keys := (jw_static_keys w)(kid \<mapsto> (alg, key))\<rparr>"

section \<open>Keys\<close>

definition jwks_uri :: "'k jwt_world \<Rightarrow> bool \<Rightarrow> string \<Rightarrow> string + string" where
  "jwks_uri w force iss =
     (let disco = trim_end_matches (CHR ''/'') iss @ ''/.well-known/openid-configuration'' in
      and_then (jw_get w force disco) (\<lambda>doc.
        ok_or (disco @ '' has no jwks_uri'') (Option.bind (get_member ''jwks_uri'' doc) as_text)))"

text \<open>The \<open>serde\<close> shape of a key: the type is required, the rest may be missing or null.\<close>

definition optional_text :: "string \<Rightarrow> json \<Rightarrow> string option option" where
  "optional_text k j =
     (case get_member k j of
        None \<Rightarrow> Some None | Some JNull \<Rightarrow> Some None | Some (JText s) \<Rightarrow> Some (Some s) | Some _ \<Rightarrow> None)"

definition jwk_from_json :: "json \<Rightarrow> jwk option" where
  "jwk_from_json j =
     (case (Option.bind (get_member ''kty'' j) as_text, optional_text ''kid'' j, optional_text ''alg'' j, optional_text ''n'' j,
            optional_text ''e'' j, optional_text ''x'' j, optional_text ''y'' j, optional_text ''crv'' j) of
        (Some kty, Some kid, Some alg, Some n, Some e, Some x, Some y, Some crv) \<Rightarrow>
          Some \<lparr>jk_kty = kty, jk_kid = kid, jk_alg = alg, jk_n = n, jk_e = e, jk_x = x, jk_y = y, jk_crv = crv\<rparr>
      | _ \<Rightarrow> None)"

definition jwk_set_from_json :: "json \<Rightarrow> jwk list option" where
  "jwk_set_from_json j =
     (case get_member ''keys'' j of
        Some (JArray ks) \<Rightarrow> those (map jwk_from_json ks)
      | _ \<Rightarrow> None)"

definition cached_keys :: "int \<Rightarrow> string \<Rightarrow> jwks_cache \<Rightarrow> jwk list option" where
  "cached_keys now iss cache =
     (case cache iss of Some (ks, t) \<Rightarrow> if now - t < JWKS_TTL then Some ks else None | None \<Rightarrow> None)"

definition keys_for :: "'k jwt_world \<Rightarrow> string \<Rightarrow> bool \<Rightarrow> jwks_cache \<Rightarrow> (string + jwk list) \<times> jwks_cache" where
  "keys_for w iss force cache =
     (case (if force then None else cached_keys (jw_clock w) iss cache) of
        Some ks \<Rightarrow> (Inr ks, cache)
      | None \<Rightarrow>
          (case and_then (jwks_uri w force iss) (\<lambda>uri. and_then (jw_get w force uri) (\<lambda>doc.
                  ok_or ''not a JWK set'' (jwk_set_from_json doc))) of
             Inl e \<Rightarrow> (Inl e, cache)
           | Inr ks \<Rightarrow> (Inr ks, cache(iss \<mapsto> (ks, jw_clock w)))))"

definition unwrap_or_empty :: "string option \<Rightarrow> string" where
  "unwrap_or_empty v = (case v of Some s \<Rightarrow> s | None \<Rightarrow> [])"

definition decoding_key :: "'k jwt_world \<Rightarrow> jwk \<Rightarrow> string + algorithm \<times> 'k" where
  "decoding_key w k =
     (if jk_kty k = ''RSA'' then
        and_then (jw_rsa w (unwrap_or_empty (jk_n k)) (unwrap_or_empty (jk_e k))) (\<lambda>key.
          Inr (if jk_alg k = Some ''RS384'' then RS384 else if jk_alg k = Some ''RS512'' then RS512
               else if jk_alg k = Some ''PS256'' then PS256 else RS256, key))
      else if jk_kty k = ''EC'' then
        and_then (jw_ec w (unwrap_or_empty (jk_x k)) (unwrap_or_empty (jk_y k))) (\<lambda>key.
          Inr (if jk_crv k = Some ''P-384'' then ES384 else ES256, key))
      else Inl (''unsupported JWK key type '' @ jk_kty k))"

definition key_named :: "string \<Rightarrow> jwk list \<Rightarrow> jwk option" where
  "key_named kid ks = find (\<lambda>k. jk_kid k = Some kid \<or> (kid = [] \<and> length ks = 1)) ks"

fun find_key :: "'k jwt_world \<Rightarrow> string \<Rightarrow> string \<Rightarrow> bool list \<Rightarrow> jwks_cache \<Rightarrow> (app_error + algorithm \<times> 'k) \<times> jwks_cache" where
  "find_key w iss kid [] cache = (Inl (unauthorized (''no JWKS key matches kid '' @ jw_show w kid)), cache)"
| "find_key w iss kid (force # rest) cache =
     (case keys_for w iss force cache of
        (Inl e, cache') \<Rightarrow> (Inl (unauthorized (''cannot fetch JWKS for '' @ iss @ '': '' @ e)), cache')
      | (Inr ks, cache') \<Rightarrow>
          (case key_named kid ks of
             None \<Rightarrow> find_key w iss kid rest cache'
           | Some k \<Rightarrow> ((case decoding_key w k of Inl e \<Rightarrow> Inl (unauthorized e) | Inr key \<Rightarrow> Inr key), cache')))"

section \<open>Claims\<close>

definition unverified_issuer :: "'k jwt_world \<Rightarrow> string \<Rightarrow> string option" where
  "unverified_issuer w token =
     (case split_on (CHR ''.'') token of
        _ # payload # _ \<Rightarrow>
          Option.bind (Option.bind (Option.bind (jw_base64 w payload) (jw_json w)) (get_member ''iss'')) (\<lambda>v.
            map_option (trim_end_matches (CHR ''/'')) (as_text v))
      | _ \<Rightarrow> None)"

fun walk_claims :: "json \<Rightarrow> string list \<Rightarrow> json option" where
  "walk_claims j [] = Some j"
| "walk_claims j (k # ks) = (case get_member k j of None \<Rightarrow> None | Some v \<Rightarrow> walk_claims v ks)"

definition claim_path :: "json \<Rightarrow> string \<Rightarrow> json option" where
  "claim_path claims path = walk_claims claims (split_on (CHR ''.'') path)"

definition string_list :: "json \<Rightarrow> string list" where
  "string_list v =
     (case v of JText s \<Rightarrow> split_whitespace s | JArray xs \<Rightarrow> List.map_filter as_text xs | _ \<Rightarrow> [])"

definition claim_strings :: "json \<Rightarrow> string \<Rightarrow> string list" where
  "claim_strings claims path = (case claim_path claims path of Some v \<Rightarrow> string_list v | None \<Rightarrow> [])"

definition from_home :: "oidc_config \<Rightarrow> string \<Rightarrow> bool" where
  "from_home c iss \<longleftrightarrow> map_option (trim_end_matches (CHR ''/'')) (oidc_issuer c) = Some iss"

definition claimed_clients :: "oidc_config \<Rightarrow> json \<Rightarrow> string list" where
  "claimed_clients c claims =
     fold (\<lambda>path found. case Option.bind (claim_path claims path) as_text of
             Some v \<Rightarrow> if v \<noteq> [] \<and> v \<notin> set found then found @ [v] else found | None \<Rightarrow> found)
       [client_claim c, ''azp'', ''client_id'', ''clientId''] []"

definition claimed_sub :: "json \<Rightarrow> string" where
  "claimed_sub claims = (case Option.bind (get_member ''sub'' claims) as_text of Some s \<Rightarrow> s | None \<Rightarrow> [])"

definition claimed_name :: "json \<Rightarrow> string option" where
  "claimed_name claims =
     Option.bind (first_some (first_some (get_member ''preferred_username'' claims) (get_member ''name'' claims))
       (get_member ''email'' claims)) as_text"

definition is_ui_client :: "oidc_config \<Rightarrow> string \<Rightarrow> json \<Rightarrow> bool" where
  "is_ui_client c iss claims \<longleftrightarrow>
     from_home c iss \<and>
     (case client_id c of None \<Rightarrow> False | Some ui \<Rightarrow> (case claimed_clients c claims of [] \<Rightarrow> False | f # _ \<Rightarrow> f = ui))"

text \<open>The workload identities, most specific first; none when the token is a browser sign-in.\<close>

definition identities :: "oidc_config \<Rightarrow> string \<Rightarrow> json \<Rightarrow> string list" where
  "identities c iss claims =
     (if is_ui_client c iss claims then []
      else if claimed_sub claims \<noteq> [] then claimed_clients c claims @ [claimed_sub claims]
      else claimed_clients c claims)"

definition claimed_roles :: "oidc_config \<Rightarrow> string \<Rightarrow> json \<Rightarrow> role set" where
  "claimed_roles c iss claims =
     (if from_home c iss then
        set (List.map_filter parse_role
          (claim_strings claims (roles_claim c)
           @ (case client_id c of Some client \<Rightarrow> claim_strings claims (''resource_access.'' @ client @ ''.roles'') | None \<Rightarrow> [])
           @ (case get_member ''roles'' claims of Some v \<Rightarrow> string_list v | None \<Rightarrow> [])))
      else {})"

definition claimed_scopes :: "oidc_config \<Rightarrow> json \<Rightarrow> string set" where
  "claimed_scopes c claims =
     set (filter (\<lambda>s. s \<in> set ALL_SCOPES) (concat (map (claim_strings claims) [scope_claim c, ''scope'', ''scp''])))"
section \<open>Bindings\<close>

record instance_binding =
  ib_instance :: string
  ib_label :: "string option"
  ib_scopes :: "string list"
  ib_software :: "string option"

definition issuer_admits :: "oidc_config \<Rightarrow> string option \<Rightarrow> string \<Rightarrow> bool" where
  "issuer_admits c declared iss =
     (case declared of
        Some d \<Rightarrow> trim_end_matches (CHR ''/'') d = iss
      | None \<Rightarrow> default_binding_issuer c = Some iss)"

text \<open>
  The rows of the three queries. A subject is selected by a literal equal to one of the
  identities; an optional property gives one row for each value, or one without it.
\<close>

record binding_row =
  br_subject :: node
  br_label :: "rdf_term option"
  br_software :: "rdf_term option"
  br_issuer :: "rdf_term option"
  br_scopes :: "string option"

definition subjects_naming :: "store \<Rightarrow> string \<Rightarrow> string list \<Rightarrow> node list" where
  "subjects_naming st p ids =
     dedup (map q_subject (filter (\<lambda>q. q_predicate q = p \<and> q_graph q = G_LOCAL \<and> q_object q \<in> simple_literal ` set ids) st))"

definition joined_scopes :: "store \<Rightarrow> node \<Rightarrow> string option" where
  "joined_scopes st n =
     (let vs = dedup (local_values st n (TAR @ ''allowedScope''))
      in if list_all is_literal vs then Some (join '' '' (map term_value vs)) else None)"

definition binding_rows :: "store \<Rightarrow> bool \<Rightarrow> string \<Rightarrow> node \<Rightarrow> binding_row list" where
  "binding_rows st with_software issuer_property n =
     dedup (concat (map (\<lambda>l. concat (map (\<lambda>sw. map (\<lambda>i.
         \<lparr>br_subject = n, br_label = l, br_software = sw, br_issuer = i, br_scopes = joined_scopes st n\<rparr>)
       (optional (local_values st n issuer_property)))
       (if with_software then optional (local_values st n (TAR @ ''instanceOf'')) else [None])))
       (optional (local_values st n (RDFS @ ''label'')))))"

definition client_rows :: "store \<Rightarrow> string list \<Rightarrow> binding_row list" where
  "client_rows st ids =
     concat (map (binding_rows st False (TAR @ ''oidcIssuer'')) (subjects_naming st (TAR @ ''oidcClientId'') ids))"

definition self_registered_rows :: "store \<Rightarrow> string list \<Rightarrow> binding_row list" where
  "self_registered_rows st ids =
     concat (map (binding_rows st True (TAR @ ''selfRegisteredIssuer''))
       (filter (\<lambda>n. \<not> is_tombstoned st n) (subjects_naming st (TAR @ ''selfRegisteredBy'') ids)))"

definition software_rows :: "store \<Rightarrow> string list \<Rightarrow> (node \<times> rdf_term option) list" where
  "software_rows st ids =
     concat (map (\<lambda>n. map (Pair n) (optional (local_values st n (TAR @ ''registrationIssuer''))))
       (subjects_naming st (TAR @ ''registrationClient'') ids))"

text \<open>A line break in an identity breaks the string literal it is put into, and with it the query.\<close>

definition query_parses :: "string list \<Rightarrow> bool" where
  "query_parses ids \<longleftrightarrow> list_all (\<lambda>c. CHR 0x0A \<notin> set c \<and> CHR 0x0D \<notin> set c) ids"

definition select_rows :: "'k jwt_world \<Rightarrow> string list \<Rightarrow> 'r list \<Rightarrow> app_error + 'r list" where
  "select_rows w ids rows = (if query_parses ids then Inr rows else Inl (internal (jw_query_error w)))"

definition binding_of :: "binding_row \<Rightarrow> string \<Rightarrow> string option \<Rightarrow> instance_binding" where
  "binding_of r i sw =
     \<lparr>ib_instance = i, ib_label = map_option term_value (br_label r),
      ib_scopes = (case br_scopes r of Some s \<Rightarrow> split_whitespace s | None \<Rightarrow> []), ib_software = sw\<rparr>"

definition find_instance_for_client ::
  "'k jwt_world \<Rightarrow> store \<Rightarrow> string \<Rightarrow> string list \<Rightarrow> app_error + instance_binding option" where
  "find_instance_for_client w st iss ids =
     (if ids = [] then Inr None
      else and_then (select_rows w ids (client_rows st ids)) (\<lambda>rows.
        Inr (find_map (\<lambda>r. if issuer_admits (jw_oidc w) (map_option term_value (br_issuer r)) iss
                           then map_option (\<lambda>i. binding_of r i None) (iri_of (br_subject r)) else None) rows)))"

definition find_software_for_client :: "'k jwt_world \<Rightarrow> store \<Rightarrow> string \<Rightarrow> string list \<Rightarrow> app_error + string option" where
  "find_software_for_client w st iss ids =
     (if ids = [] then Inr None
      else and_then (select_rows w ids (software_rows st ids)) (\<lambda>rows.
        Inr (find_map (\<lambda>(n, i). if issuer_admits (jw_oidc w) (map_option term_value i) iss then iri_of n else None) rows)))"

definition find_self_registered_instance ::
  "'k jwt_world \<Rightarrow> store \<Rightarrow> string \<Rightarrow> string list \<Rightarrow> app_error + instance_binding option" where
  "find_self_registered_instance w st iss ids =
     (if ids = [] then Inr None
      else and_then (select_rows w ids (self_registered_rows st ids)) (\<lambda>rows.
        case filter (\<lambda>r. issuer_admits (jw_oidc w) (map_option term_value (br_issuer r)) iss) rows of
          [r] \<Rightarrow> Inr (map_option (\<lambda>i. binding_of r i (Option.bind (br_software r) named)) (iri_of (br_subject r)))
        | _ \<Rightarrow> Inr None))"

section \<open>Principals\<close>

definition first_or :: "string \<Rightarrow> string list \<Rightarrow> string" where
  "first_or d xs = (case xs of [] \<Rightarrow> d | x # _ \<Rightarrow> x)"

definition bound_principal :: "oidc_config \<Rightarrow> string \<Rightarrow> json \<Rightarrow> instance_binding \<Rightarrow> principal" where
  "bound_principal c iss claims b =
     \<lparr>credential = OidcWorkload, instance_iri = Some (ib_instance b), software_iri = ib_software b,
      subject = first_or (claimed_sub claims) (identities c iss claims),
      display_name = first_some (ib_label b) (claimed_name claims),
      scopes = (if claimed_scopes c claims \<noteq> {} then claimed_scopes c claims
                else if ib_scopes b \<noteq> [] then set (ib_scopes b)
                else {SCOPE_ADVERTISE_PRODUCE, SCOPE_ADVERTISE_CONSUME}),
      roles = claimed_roles c iss claims, issuer = Some iss\<rparr>"

definition is_person :: "oidc_config \<Rightarrow> string \<Rightarrow> json \<Rightarrow> bool" where
  "is_person c iss claims \<longleftrightarrow>
     claimed_roles c iss claims \<noteq> {} \<or>
     (from_home c iss \<and> (is_ui_client c iss claims \<or> get_member ''sid'' claims \<noteq> None))"

definition unbound_principal :: "oidc_config \<Rightarrow> string \<Rightarrow> json \<Rightarrow> string option \<Rightarrow> principal" where
  "unbound_principal c iss claims sw =
     \<lparr>credential = (if is_person c iss claims then OidcHuman else OidcWorkload), instance_iri = None, software_iri = sw,
      subject = (if is_person c iss claims
                 then (if claimed_sub claims = [] then first_or [] (identities c iss claims) else claimed_sub claims)
                 else (case identities c iss claims of [] \<Rightarrow> claimed_sub claims | f # _ \<Rightarrow> if f \<noteq> [] then f else claimed_sub claims)),
      display_name = claimed_name claims, scopes = claimed_scopes c claims,
      roles = claimed_roles c iss claims, issuer = Some iss\<rparr>"

definition principal_from_claims :: "'k jwt_world \<Rightarrow> string \<Rightarrow> json \<Rightarrow> store \<Rightarrow> app_error + principal" where
  "principal_from_claims w iss claims st =
     (let c = jw_oidc w; ids = identities c iss claims in
      and_then (find_instance_for_client w st iss ids) (\<lambda>declared.
      and_then (case declared of Some b \<Rightarrow> Inr (Some b) | None \<Rightarrow> find_self_registered_instance w st iss ids) (\<lambda>bound.
      case bound of
        Some b \<Rightarrow> Inr (bound_principal c iss claims b)
      | None \<Rightarrow>
          and_then (if is_person c iss claims then Inr None else find_software_for_client w st iss ids) (\<lambda>sw.
            Inr (unbound_principal c iss claims sw)))))"

section \<open>Tokens\<close>

definition accepted_audiences :: "'k jwt_world \<Rightarrow> string \<Rightarrow> string list" where
  "accepted_audiences w aud = aud # (if aud = jw_base w then jw_previous_bases w else [])"

definition validation_for :: "'k jwt_world \<Rightarrow> string \<Rightarrow> algorithm \<Rightarrow> validation" where
  "validation_for w iss alg =
     (case (audience (jw_oidc w), require_audience (jw_oidc w)) of
        (Some aud, True) \<Rightarrow>
          \<lparr>va_algorithm = alg, va_issuers = [iss], va_audience = Some (accepted_audiences w aud), va_required = [''exp'', ''aud'']\<rparr>
      | _ \<Rightarrow> \<lparr>va_algorithm = alg, va_issuers = [iss], va_audience = None, va_required = [''exp'']\<rparr>)"

definition token_key :: "'k jwt_world \<Rightarrow> string \<Rightarrow> string \<Rightarrow> jwks_cache \<Rightarrow> (app_error + algorithm \<times> 'k) \<times> jwks_cache" where
  "token_key w iss kid cache =
     (case jw_static_keys w kid of Some ak \<Rightarrow> (Inr ak, cache) | None \<Rightarrow> find_key w iss kid [False, True] cache)"

definition authenticate_jwt :: "'k jwt_world \<Rightarrow> store \<Rightarrow> string \<Rightarrow> jwks_cache \<Rightarrow> (app_error + principal) \<times> jwks_cache" where
  "authenticate_jwt w st token cache =
     (if \<not> oidc_enabled (jw_oidc w) then
        (Inl (unauthorized (''this registry accepts registry API tokens only '' @ [CHR 0xE2, CHR 0x80, CHR 0x94] @
           '' no OIDC issuer is configured (set TAR_OIDC_ISSUER / TAR_WORKLOAD_ISSUERS to accept Keycloak or Kubernetes tokens)'')), cache)
      else case unverified_issuer w token of
        None \<Rightarrow> (Inl (unauthorized ''token is not a readable JWT''), cache)
      | Some iss \<Rightarrow>
          (let accepted = accepted_issuers (jw_oidc w) in
           if iss \<notin> set accepted then
             (Inl (unauthorized (''issuer '' @ iss @ '' is not trusted by this registry (trusted: '' @ join '', '' accepted @ '')'')), cache)
           else case jw_header w token of
             Inl e \<Rightarrow> (Inl (unauthorized (''bad JWT header: '' @ e)), cache)
           | Inr named_kid \<Rightarrow>
               (let (found, cache') = token_key w iss (unwrap_or_empty named_kid) cache
                in (and_then found (\<lambda>(alg, key).
                      case jw_decode w token key (validation_for w iss alg) of
                        Inl e \<Rightarrow> Inl (unauthorized (''JWT rejected: '' @ e))
                      | Inr claims \<Rightarrow> principal_from_claims w iss claims st),
                    cache'))))"

section \<open>What a binding rests on\<close>

definition names_client :: "store \<Rightarrow> string \<Rightarrow> string \<Rightarrow> node \<Rightarrow> bool" where
  "names_client st p cid n \<longleftrightarrow>
     (\<exists>q \<in> set st. q_subject q = n \<and> q_predicate q = p \<and> q_graph q = G_LOCAL \<and> q_object q = simple_literal cid)"

text \<open>The record pins this issuer, or pins none where the registry has only one to mean.\<close>

definition pinned_to :: "oidc_config \<Rightarrow> store \<Rightarrow> string \<Rightarrow> node \<Rightarrow> string \<Rightarrow> bool" where
  "pinned_to c st p n iss \<longleftrightarrow>
     (\<exists>t \<in> set (local_values st n p). trim_end_matches (CHR ''/'') (term_value t) = iss) \<or>
     (local_values st n p = [] \<and> default_binding_issuer c = Some iss)"

lemma optional_nonempty: "\<exists>x. x \<in> set (optional vs)"
  by (cases vs) (auto simp: optional_def)

lemma subjects_naming_iff: "n \<in> set (subjects_naming st p ids) \<longleftrightarrow> (\<exists>cid \<in> set ids. names_client st p cid n)"
  by (auto simp: subjects_naming_def names_client_def)

lemma binding_rows_iff:
  "r \<in> set (binding_rows st b p n) \<longleftrightarrow>
     br_subject r = n \<and> br_scopes r = joined_scopes st n \<and> br_label r \<in> set (optional (local_values st n (RDFS @ ''label''))) \<and>
     br_software r \<in> set (if b then optional (local_values st n (TAR @ ''instanceOf'')) else [None]) \<and>
     br_issuer r \<in> set (optional (local_values st n p))"
  by (cases r) (auto simp: binding_rows_def)

lemma admitted_issuer:
  "(\<exists>i \<in> set (optional (local_values st n p)). issuer_admits c (map_option term_value i) iss) \<longleftrightarrow> pinned_to c st p n iss"
proof -
  have "(\<exists>i \<in> set (optional vs). issuer_admits c (map_option term_value i) iss) \<longleftrightarrow>
      (\<exists>t \<in> set vs. trim_end_matches (CHR ''/'') (term_value t) = iss) \<or> (vs = [] \<and> default_binding_issuer c = Some iss)" for vs
    by (cases vs) (auto simp: optional_def issuer_admits_def)
  then show ?thesis by (simp add: pinned_to_def)
qed

lemma admitted_row:
  "(\<exists>r \<in> set (binding_rows st b p n). issuer_admits c (map_option term_value (br_issuer r)) iss) \<longleftrightarrow> pinned_to c st p n iss"
proof
  assume "\<exists>r \<in> set (binding_rows st b p n). issuer_admits c (map_option term_value (br_issuer r)) iss"
  then show "pinned_to c st p n iss" using admitted_issuer [of st n p c iss] by (auto simp: binding_rows_iff)
next
  assume "pinned_to c st p n iss"
  then obtain i where i: "i \<in> set (optional (local_values st n p))" "issuer_admits c (map_option term_value i) iss"
    using admitted_issuer by blast
  obtain l where l: "l \<in> set (optional (local_values st n (RDFS @ ''label'')))" using optional_nonempty by blast
  have "\<exists>sw. sw \<in> set (if b then optional (local_values st n (TAR @ ''instanceOf'')) else [None])"
    by (cases b) (simp_all add: optional_nonempty)
  then obtain sw where "sw \<in> set (if b then optional (local_values st n (TAR @ ''instanceOf'')) else [None])" by blast
  with i l have "\<lparr>br_subject = n, br_label = l, br_software = sw, br_issuer = i, br_scopes = joined_scopes st n\<rparr> \<in> set (binding_rows st b p n)"
    by (simp only: binding_rows_iff binding_row.simps simp_thms)
  from bexI [OF _ this] i(2) show "\<exists>r \<in> set (binding_rows st b p n). issuer_admits c (map_option term_value (br_issuer r)) iss"
    by simp
qed

lemma select_rows_Inr: "select_rows w ids rows = Inr rs \<longleftrightarrow> query_parses ids \<and> rs = rows"
  by (auto simp: select_rows_def)

lemma declared_binding:
  assumes "find_instance_for_client w st iss ids = Inr (Some b)"
  shows "\<exists>cid \<in> set ids. names_client st (TAR @ ''oidcClientId'') cid (NamedNode (ib_instance b)) \<and>
     pinned_to (jw_oidc w) st (TAR @ ''oidcIssuer'') (NamedNode (ib_instance b)) iss"
proof -
  let ?f = "\<lambda>r. if issuer_admits (jw_oidc w) (map_option term_value (br_issuer r)) iss
                 then map_option (\<lambda>i. binding_of r i None) (iri_of (br_subject r)) else None"
  from assms have "find_map ?f (client_rows st ids) = Some b"
    by (cases "query_parses ids"; cases "ids = []") (simp_all add: find_instance_for_client_def select_rows_def and_then_def)
  from find_map_Some [OF this] obtain r where "r \<in> set (client_rows st ids)" "?f r = Some b" by (elim bexE)
  then have r: "r \<in> set (client_rows st ids)" "issuer_admits (jw_oidc w) (map_option term_value (br_issuer r)) iss"
    "br_subject r = NamedNode (ib_instance b)" by (auto simp: binding_of_def split: if_splits)
  then obtain n where "n \<in> set (subjects_naming st (TAR @ ''oidcClientId'') ids)" "r \<in> set (binding_rows st False (TAR @ ''oidcIssuer'') n)"
    by (auto simp: client_rows_def)
  with r show ?thesis using admitted_row [of st False "TAR @ ''oidcIssuer''" n "jw_oidc w" iss]
    by (auto simp: subjects_naming_iff binding_rows_iff)
qed

lemma self_registered_binding:
  assumes "find_self_registered_instance w st iss ids = Inr (Some b)"
  shows "\<exists>cid \<in> set ids. names_client st (TAR @ ''selfRegisteredBy'') cid (NamedNode (ib_instance b)) \<and>
     pinned_to (jw_oidc w) st (TAR @ ''selfRegisteredIssuer'') (NamedNode (ib_instance b)) iss \<and>
     \<not> is_tombstoned st (NamedNode (ib_instance b))"
    and "\<forall>cid' \<in> set ids. \<forall>n. names_client st (TAR @ ''selfRegisteredBy'') cid' n \<and> \<not> is_tombstoned st n \<and>
       pinned_to (jw_oidc w) st (TAR @ ''selfRegisteredIssuer'') n iss \<longrightarrow> n = NamedNode (ib_instance b)"
proof -
  let ?P = "\<lambda>r. issuer_admits (jw_oidc w) (map_option term_value (br_issuer r)) iss"
  from assms obtain r where only: "filter ?P (self_registered_rows st ids) = [r]" and b: "br_subject r = NamedNode (ib_instance b)"
    by (cases "query_parses ids"; cases "ids = []")
      (auto simp: find_self_registered_instance_def select_rows_def and_then_def binding_of_def split: list.splits)
  have rows: "x \<in> set (self_registered_rows st ids) \<longleftrightarrow> (\<exists>n cid. cid \<in> set ids \<and> names_client st (TAR @ ''selfRegisteredBy'') cid n \<and>
      \<not> is_tombstoned st n \<and> x \<in> set (binding_rows st True (TAR @ ''selfRegisteredIssuer'') n))" for x
    by (auto simp: self_registered_rows_def subjects_naming_iff)
  have "r \<in> set (self_registered_rows st ids)" "?P r" using arg_cong [OF only, of set] by auto
  with b admitted_row [of st True "TAR @ ''selfRegisteredIssuer''" "NamedNode (ib_instance b)" "jw_oidc w" iss]
  show "\<exists>cid \<in> set ids. names_client st (TAR @ ''selfRegisteredBy'') cid (NamedNode (ib_instance b)) \<and>
     pinned_to (jw_oidc w) st (TAR @ ''selfRegisteredIssuer'') (NamedNode (ib_instance b)) iss \<and>
     \<not> is_tombstoned st (NamedNode (ib_instance b))" by (auto simp: rows binding_rows_iff)
  show "\<forall>cid' \<in> set ids. \<forall>n. names_client st (TAR @ ''selfRegisteredBy'') cid' n \<and> \<not> is_tombstoned st n \<and>
       pinned_to (jw_oidc w) st (TAR @ ''selfRegisteredIssuer'') n iss \<longrightarrow> n = NamedNode (ib_instance b)"
  proof (intro ballI allI impI, elim conjE)
    fix cid' n
    assume "cid' \<in> set ids" "names_client st (TAR @ ''selfRegisteredBy'') cid' n" "\<not> is_tombstoned st n"
      and "pinned_to (jw_oidc w) st (TAR @ ''selfRegisteredIssuer'') n iss"
    moreover from this obtain x where x: "x \<in> set (binding_rows st True (TAR @ ''selfRegisteredIssuer'') n)" "?P x"
      using admitted_row [of st True "TAR @ ''selfRegisteredIssuer''" n "jw_oidc w" iss] by blast
    ultimately have "x \<in> set (self_registered_rows st ids)" unfolding rows by blast
    moreover have "br_subject x = n" using x(1) by (simp add: binding_rows_iff)
    moreover have "x \<in> set (filter ?P (self_registered_rows st ids))" using calculation(1) x(2) by simp
    then have "x = r" by (simp add: only)
    ultimately show "n = NamedNode (ib_instance b)" using b by simp
  qed
qed

section \<open>Properties\<close>

text \<open>
  C6. A verified token speaks for a deployment only if the registry's own graph says so: the
  deployment names one of the token's identities as its client, or was registered by one of them and is
  the only such deployment that is left, and in both cases it accepts this issuer: it pins the issuer, or
  it pins none and the issuer is the one the registry takes by default. A browser sign-in never
  becomes a deployment.
\<close>

theorem workload_is_a_declared_deployment:
  assumes "principal_from_claims w iss claims st = Inr p" "instance_iri p = Some i"
  defines "c \<equiv> jw_oidc w" and "ids \<equiv> identities (jw_oidc w) iss claims"
  shows "\<not> is_ui_client c iss claims \<and>
     (\<exists>cid \<in> set ids.
        (names_client st (TAR @ ''oidcClientId'') cid (NamedNode i) \<and> pinned_to c st (TAR @ ''oidcIssuer'') (NamedNode i) iss) \<or>
        (names_client st (TAR @ ''selfRegisteredBy'') cid (NamedNode i) \<and>
         pinned_to c st (TAR @ ''selfRegisteredIssuer'') (NamedNode i) iss \<and> \<not> is_tombstoned st (NamedNode i) \<and>
         (\<forall>cid' \<in> set ids. \<forall>n. names_client st (TAR @ ''selfRegisteredBy'') cid' n \<and> \<not> is_tombstoned st n \<and>
            pinned_to c st (TAR @ ''selfRegisteredIssuer'') n iss \<longrightarrow> n = NamedNode i)))"
proof -
  obtain declared where d: "find_instance_for_client w st iss ids = Inr declared"
    using assms(1) by (auto simp: principal_from_claims_def Let_def and_then_def ids_def split: sum.splits)
  have "\<exists>b. ib_instance b = i \<and>
      (find_instance_for_client w st iss ids = Inr (Some b) \<or> find_self_registered_instance w st iss ids = Inr (Some b))"
  proof (cases declared)
    case (Some b)
    with d assms(1,2) have "ib_instance b = i"
      by (auto simp: principal_from_claims_def Let_def and_then_def ids_def [symmetric] bound_principal_def)
    with d Some show ?thesis by blast
  next
    case None
    then obtain bound where s: "find_self_registered_instance w st iss ids = Inr bound"
      using d assms(1) by (auto simp: principal_from_claims_def Let_def and_then_def ids_def [symmetric] split: sum.splits)
    then obtain b where "bound = Some b" using None d assms(1,2)
      by (cases bound) (auto simp: principal_from_claims_def Let_def and_then_def ids_def [symmetric] unbound_principal_def split: sum.splits if_splits)
    with s d None assms(1,2) have "ib_instance b = i"
      by (auto simp: principal_from_claims_def Let_def and_then_def ids_def [symmetric] bound_principal_def)
    with s \<open>bound = Some b\<close> show ?thesis by blast
  qed
  then obtain b where b: "ib_instance b = i"
    and found: "find_instance_for_client w st iss ids = Inr (Some b) \<or> find_self_registered_instance w st iss ids = Inr (Some b)" by blast
  then have "ids \<noteq> []" by (auto simp: find_instance_for_client_def find_self_registered_instance_def)
  then have "\<not> is_ui_client c iss claims" by (simp add: ids_def identities_def c_def split: if_splits)
  with found declared_binding [of w st iss ids b] self_registered_binding [of w st iss ids b] show ?thesis
    unfolding c_def b by blast
qed

definition demo_oidc :: oidc_config where
  "demo_oidc =
     \<lparr>oidc_issuer = Some ''https://kc.org/realms/ids'', client_id = Some ''tar-ui'', client_secret = None,
      workload_issuers = [''https://token.partner.org''], audience = None, require_audience = False,
      client_claim = ''azp'', roles_claim = ''realm_access.roles'', scope_claim = ''scope'',
      auto_register_instances = False, dev_insecure = False\<rparr>"

text \<open>A registry whose two issuers sign with one key each; a token is its claim set behind a header.\<close>

definition demo_claims :: json where
  "demo_claims = JObject [(''iss'', JText ''https://token.partner.org''), (''sub'', JText ''job-7''), (''scope'', JText ''openid admin:*'')]"

definition demo_jwt_world :: "nat jwt_world" where
  "demo_jwt_world =
     \<lparr>jw_oidc = demo_oidc, jw_base = ''https://reg.org'', jw_previous_bases = [], jw_base64 = Some,
      jw_json = (\<lambda>s. if s = ''partner'' then Some demo_claims else None), jw_header = (\<lambda>_. Inr (Some ''k1'')),
      jw_get = (\<lambda>_ _. Inl ''unreachable''), jw_rsa = (\<lambda>_ _. Inl ''none''), jw_ec = (\<lambda>_ _. Inl ''none''),
      jw_decode = (\<lambda>tok key v. if key = 7 \<and> va_algorithm v = RS256 \<and> tok = ''h.partner.s'' then Inr demo_claims else Inl ''InvalidSignature''),
      jw_static_keys = [''k1'' \<mapsto> (RS256, 7)], jw_clock = 0, jw_show = id, jw_query_error = ''bad query''\<rparr>"

definition demo_deployments :: store where
  "demo_deployments =
     [\<lparr>q_subject = NamedNode ''https://reg.org/instance/3'', q_predicate = TAR @ ''oidcClientId'', q_object = simple_literal ''job-7'', q_graph = G_LOCAL\<rparr>,
      \<lparr>q_subject = NamedNode ''https://reg.org/instance/3'', q_predicate = TAR @ ''oidcIssuer'',
       q_object = simple_literal ''https://token.partner.org'', q_graph = G_LOCAL\<rparr>]"

theorem workload_is_a_declared_deployment_witness:
  "\<exists>p. principal_from_claims demo_jwt_world ''https://token.partner.org'' demo_claims demo_deployments = Inr p
     \<and> instance_iri p = Some ''https://reg.org/instance/3''
     \<and> \<not> is_ui_client demo_oidc ''https://token.partner.org'' demo_claims"
proof -
  have "(case principal_from_claims demo_jwt_world ''https://token.partner.org'' demo_claims demo_deployments of
      Inr p \<Rightarrow> instance_iri p = Some ''https://reg.org/instance/3'' | Inl _ \<Rightarrow> False)" by code_simp
  then obtain p where p: "principal_from_claims demo_jwt_world ''https://token.partner.org'' demo_claims demo_deployments = Inr p"
    "instance_iri p = Some ''https://reg.org/instance/3''" by (auto split: sum.splits)
  from workload_is_a_declared_deployment [OF p] p show ?thesis by (auto simp: demo_jwt_world_def)
qed

lemma claims_principal:
  assumes "principal_from_claims w iss claims st = Inr p"
  shows "roles p = claimed_roles (jw_oidc w) iss claims" "issuer p = Some iss" "credential p \<in> {OidcWorkload, OidcHuman}"
    "claimed_scopes (jw_oidc w) claims \<subseteq> scopes p" "\<not> from_home (jw_oidc w) iss \<Longrightarrow> credential p = OidcWorkload"
proof -
  let ?c = "jw_oidc w"
  have p: "(\<exists>b. p = bound_principal ?c iss claims b) \<or> (\<exists>sw. p = unbound_principal ?c iss claims sw)"
    using assms unfolding principal_from_claims_def Let_def by (auto simp: and_then_eq_Inr split: option.splits)
  then show "roles p = claimed_roles ?c iss claims" "issuer p = Some iss" "credential p \<in> {OidcWorkload, OidcHuman}"
    "claimed_scopes ?c claims \<subseteq> scopes p"
    by (auto simp: bound_principal_def unbound_principal_def)
  show "credential p = OidcWorkload" if "\<not> from_home ?c iss"
    using p that by (auto simp: bound_principal_def unbound_principal_def is_person_def claimed_roles_def)
qed

lemma jwt_parts:
  assumes "authenticate_jwt w st token cache = (Inr p, cache')"
  obtains iss kid alg key claims where "unverified_issuer w token = Some iss" "iss \<in> set (accepted_issuers (jw_oidc w))"
    "fst (token_key w iss kid cache) = Inr (alg, key)" "jw_decode w token key (validation_for w iss alg) = Inr claims"
    "principal_from_claims w iss claims st = Inr p"
proof -
  have on: "oidc_enabled (jw_oidc w)" using assms by (cases "oidc_enabled (jw_oidc w)") (simp_all add: authenticate_jwt_def)
  obtain iss where iss: "unverified_issuer w token = Some iss"
    using assms on by (cases "unverified_issuer w token") (simp_all add: authenticate_jwt_def)
  have acc: "iss \<in> set (accepted_issuers (jw_oidc w))"
    using assms on iss by (cases "iss \<in> set (accepted_issuers (jw_oidc w))") (simp_all add: authenticate_jwt_def Let_def)
  obtain kid where kid: "jw_header w token = Inr kid"
    using assms on iss acc by (cases "jw_header w token") (simp_all add: authenticate_jwt_def Let_def)
  obtain found c where found: "token_key w iss (unwrap_or_empty kid) cache = (found, c)" by fastforce
  have "and_then found (\<lambda>(alg, key). case jw_decode w token key (validation_for w iss alg) of
      Inl e \<Rightarrow> Inl (unauthorized (''JWT rejected: '' @ e)) | Inr claims \<Rightarrow> principal_from_claims w iss claims st) = Inr p"
    using assms on iss acc kid found by (simp add: authenticate_jwt_def Let_def)
  then obtain alg key where ak: "found = Inr (alg, key)"
    and dec: "(case jw_decode w token key (validation_for w iss alg) of
      Inl e \<Rightarrow> Inl (unauthorized (''JWT rejected: '' @ e)) | Inr claims \<Rightarrow> principal_from_claims w iss claims st) = Inr p"
    by (auto simp: and_then_eq_Inr)
  then obtain claims where "jw_decode w token key (validation_for w iss alg) = Inr claims" "principal_from_claims w iss claims st = Inr p"
    by (cases "jw_decode w token key (validation_for w iss alg)") simp_all
  from that [of iss "unwrap_or_empty kid" alg key claims, OF iss acc _ this] found ak show ?thesis by simp
qed

lemma token_key_origin:
  assumes "fst (token_key w iss kid cache) = Inr (alg, key)"
  shows "jw_static_keys w kid = Some (alg, key) \<or> (\<exists>k. decoding_key w k = Inr (alg, key))"
proof -
  have "\<exists>k. decoding_key w k = Inr ak" if "find_key w iss kid fs cache = (Inr ak, cache')" for fs cache cache' ak
    using that by (induction w iss kid fs cache rule: find_key.induct) (auto split: prod.splits sum.splits option.splits)
  from this [of "[False, True]" cache "(alg, key)" "snd (find_key w iss kid [False, True] cache)"] assms show ?thesis
    by (cases "jw_static_keys w kid") (auto simp: token_key_def prod_eq_iff simp del: find_key.simps)
qed

text \<open>
  C5. An OIDC token is accepted only from a trusted issuer, whose name the verified claims are checked
  against, and it makes an OIDC principal of that issuer; roles, and being a person, come from the registry's
  own provider only. No key was made up: it is a pinned key, or one the issuer published.
\<close>

theorem jwt_principal_is_vouched_for:
  assumes "authenticate_jwt w st token cache = (Inr p, cache')"
  shows "\<exists>iss alg key claims. unverified_issuer w token = Some iss \<and> iss \<in> set (accepted_issuers (jw_oidc w)) \<and> issuer p = Some iss
     \<and> jw_decode w token key (validation_for w iss alg) = Inr claims \<and> va_issuers (validation_for w iss alg) = [iss]
     \<and> (audience (jw_oidc w) \<noteq> None \<and> require_audience (jw_oidc w) \<longrightarrow> ''aud'' \<in> set (va_required (validation_for w iss alg)))
     \<and> principal_from_claims w iss claims st = Inr p \<and> \<not> is_anonymous p
     \<and> (roles p \<noteq> {} \<or> credential p = OidcHuman \<longrightarrow> from_home (jw_oidc w) iss)
     \<and> (jw_static_keys w = Map.empty \<longrightarrow> (\<exists>k. decoding_key w k = Inr (alg, key)))"
proof -
  from assms obtain iss kid alg key claims where parts: "unverified_issuer w token = Some iss" "iss \<in> set (accepted_issuers (jw_oidc w))"
    "jw_decode w token key (validation_for w iss alg) = Inr claims"
    and key: "fst (token_key w iss kid cache) = Inr (alg, key)" and p: "principal_from_claims w iss claims st = Inr p" by (rule jwt_parts)
  have "jw_static_keys w = Map.empty \<longrightarrow> (\<exists>k. decoding_key w k = Inr (alg, key))" using token_key_origin [OF key] by auto
  moreover have "va_issuers (validation_for w iss alg) = [iss]"
    "audience (jw_oidc w) \<noteq> None \<and> require_audience (jw_oidc w) \<longrightarrow> ''aud'' \<in> set (va_required (validation_for w iss alg))"
    by (auto simp: validation_for_def split: option.split bool.split)
  moreover have "\<not> is_anonymous p" "roles p \<noteq> {} \<or> credential p = OidcHuman \<longrightarrow> from_home (jw_oidc w) iss"
    using claims_principal [OF p] by (auto simp: is_anonymous_def claimed_roles_def split: if_splits)
  ultimately show ?thesis using parts p claims_principal(2) [OF p] by blast
qed

lemma demo_partner_token:
  "(case authenticate_jwt demo_jwt_world [] ''h.partner.s'' Map.empty of
      (Inr p, _) \<Rightarrow> is_admin p \<and> issuer p = Some ''https://token.partner.org'' | _ \<Rightarrow> False)"
  by code_simp

theorem jwt_principal_is_vouched_for_witness:
  "\<exists>p cache'. authenticate_jwt demo_jwt_world [] ''h.partner.s'' Map.empty = (Inr p, cache') \<and> \<not> is_anonymous p"
proof -
  obtain p cache' where p: "authenticate_jwt demo_jwt_world [] ''h.partner.s'' Map.empty = (Inr p, cache')"
    using demo_partner_token by (auto split: prod.splits sum.splits)
  from jwt_principal_is_vouched_for [OF p] p show ?thesis by blast
qed

text \<open>
  C7. The scope claim is not held to the registry's own provider: a verified token of any trusted issuer that asks
  for \<open>admin:*\<close> makes its bearer an administrator, even where the issuer's roles are ignored.
\<close>

theorem foreign_scope_makes_admin:
  assumes "authenticate_jwt w st token cache = (Inr p, cache')" "issuer p = Some iss" "\<not> from_home (jw_oidc w) iss"
    and "\<And>key v claims. jw_decode w token key v = Inr claims \<Longrightarrow> SCOPE_ADMIN \<in> set (claim_strings claims ''scope'')"
  shows "is_admin p \<and> roles p = {} \<and> credential p = OidcWorkload"
proof -
  from assms(1) obtain iss' kid alg key claims where dec: "jw_decode w token key (validation_for w iss' alg) = Inr claims"
    and p: "principal_from_claims w iss' claims st = Inr p" by (rule jwt_parts)
  have iss: "iss' = iss" using claims_principal(2) [OF p] assms(2) by simp
  have "SCOPE_ADMIN \<in> claimed_scopes (jw_oidc w) claims"
    using assms(4) [OF dec] by (auto simp: claimed_scopes_def ALL_SCOPES_def)
  then have "is_admin p" using claims_principal(4) [OF p] by (auto simp: is_admin_def)
  with claims_principal(1,5) [OF p] assms(3) show ?thesis by (simp add: iss claimed_roles_def)
qed

theorem foreign_scope_makes_admin_witness:
  "\<exists>p cache'. authenticate_jwt demo_jwt_world [] ''h.partner.s'' Map.empty = (Inr p, cache')
     \<and> \<not> from_home demo_oidc ''https://token.partner.org'' \<and> is_admin p"
proof -
  obtain p cache' where p: "authenticate_jwt demo_jwt_world [] ''h.partner.s'' Map.empty = (Inr p, cache')"
    "issuer p = Some ''https://token.partner.org''"
    using demo_partner_token by (auto split: prod.splits sum.splits)
  have away: "\<not> from_home demo_oidc ''https://token.partner.org''" by code_simp
  have asks: "SCOPE_ADMIN \<in> set (claim_strings demo_claims ''scope'')" by code_simp
  have "SCOPE_ADMIN \<in> set (claim_strings claims ''scope'')" if "jw_decode demo_jwt_world ''h.partner.s'' key v = Inr claims" for key v claims
    using that asks by (simp add: demo_jwt_world_def split: if_splits)
  moreover have "\<not> from_home (jw_oidc demo_jwt_world) ''https://token.partner.org''" using away by (simp add: demo_jwt_world_def)
  ultimately have "is_admin p" using foreign_scope_makes_admin [OF p] by blast
  with p away show ?thesis by blast
qed

text \<open>
  The issuer is compared without its trailing slash but validated as it was read that way, so an issuer
  whose tokens carry the slash is never accepted, however it is configured.
\<close>

theorem slash_issuer_is_always_refused:
  assumes iss: "unverified_issuer w token = Some (trim_end_matches (CHR ''/'') (i @ ''/''))"
    and exact: "\<And>key v claims. jw_decode w token key v = Inr claims \<Longrightarrow> i @ ''/'' \<in> set (va_issuers v)"
  shows "\<exists>e. fst (authenticate_jwt w st token cache) = Inl e"
proof (rule ccontr)
  assume "\<not> ?thesis"
  then obtain p cache' where "authenticate_jwt w st token cache = (Inr p, cache')"
    by (cases "authenticate_jwt w st token cache"; cases "fst (authenticate_jwt w st token cache)") auto
  then obtain iss' kid alg key claims where "unverified_issuer w token = Some iss'"
    "jw_decode w token key (validation_for w iss' alg) = Inr claims" by (rule jwt_parts)
  with iss exact have "i @ ''/'' \<in> set (va_issuers (validation_for w (trim_end_matches (CHR ''/'') (i @ ''/'')) alg))" by auto
  then have "trim_end_matches (CHR ''/'') (i @ ''/'') = i @ ''/''"
    by (auto simp: validation_for_def split: option.splits bool.splits)
  moreover have "length (trim_end_matches (CHR ''/'') (i @ ''/'')) \<le> length i"
    using length_dropWhile_le [of "\<lambda>c. c = CHR ''/''" "rev i"] by (simp add: trim_end_matches_def)
  ultimately show False by simp
qed

theorem slash_issuer_is_always_refused_witness:
  "\<exists>e. fst (authenticate_jwt (demo_jwt_world\<lparr>jw_json := (\<lambda>_. Some (JObject [(''iss'', JText ''https://idp.org/'')])),
       jw_oidc := demo_oidc\<lparr>workload_issuers := [''https://idp.org/'']\<rparr>,
       jw_decode := (\<lambda>_ _ v. if ''https://idp.org/'' \<in> set (va_issuers v) then Inr JNull else Inl ''InvalidIssuer'')\<rparr>)
     [] ''h.p.s'' Map.empty) = Inl e"
proof (rule slash_issuer_is_always_refused)
  show "unverified_issuer (demo_jwt_world\<lparr>jw_json := (\<lambda>_. Some (JObject [(''iss'', JText ''https://idp.org/'')])),
       jw_oidc := demo_oidc\<lparr>workload_issuers := [''https://idp.org/'']\<rparr>,
       jw_decode := (\<lambda>_ _ v. if ''https://idp.org/'' \<in> set (va_issuers v) then Inr JNull else Inl ''InvalidIssuer'')\<rparr>) ''h.p.s''
     = Some (trim_end_matches (CHR ''/'') (''https://idp.org'' @ ''/''))" by code_simp
qed (auto split: if_splits)

end
