(* ===== verification/Subscriptions.thy ===== *)
theory Subscriptions
  imports Json Settings "HOL-Library.Option_ord" "HOL-Library.Product_Lexorder"
begin

text \<open>
  \<open>src/ops/subscriptions.rs\<close>: the matching rule, the subscription records and the delivery
  queue. The two tables are row lists in rowid order with their constraints written out (the
  foreign key, the unique index over subscription, artifact and role, the AUTOINCREMENT
  sequence number). Lowercasing text is an argument, since it needs the Unicode tables.
\<close>

section \<open>The matching rule\<close>

record sub_filter =
  f_conforms_to :: "string list"
  f_software :: "string list"
  f_instance :: "string list"
  f_keywords :: "string list"
  f_license :: "string list"
  f_availability :: "string list"
  f_q :: "string option"
  f_roles :: "string list"
  f_exclude_own :: bool

definition default_filter :: sub_filter where
  "default_filter = \<lparr>f_conforms_to = [], f_software = [], f_instance = [], f_keywords = [], f_license = [],
     f_availability = [], f_q = None, f_roles = [], f_exclude_own = True\<rparr>"

definition ROLE_PRODUCED :: string where
  "ROLE_PRODUCED = ''produced''"

definition ROLE_CONSUMED :: string where
  "ROLE_CONSUMED = ''consumed''"

definition AVAILABILITIES :: "string list" where
  "AVAILABILITIES = [''public'', ''restricted'', ''embargoed'', ''metadata-only'']"

definition effective_roles :: "sub_filter \<Rightarrow> string list" where
  "effective_roles f = (if f_roles f = [] then [ROLE_PRODUCED] else f_roles f)"

definition is_catch_all :: "sub_filter \<Rightarrow> bool" where
  "is_catch_all f \<longleftrightarrow>
     f_conforms_to f = [] \<and> f_software f = [] \<and> f_instance f = [] \<and> f_keywords f = [] \<and> f_license f = []
     \<and> f_availability f = [] \<and> (case f_q f of None \<Rightarrow> True | Some q \<Rightarrow> trim q = [])"

record candidate =
  c_artifact_iri :: string
  c_title :: "string option"
  c_description :: "string option"
  c_conforms_to :: "string option"
  c_license :: "string option"
  c_keywords :: "string list"
  c_availability :: string
  c_instance_iri :: "string option"
  c_software_iri :: "string option"
  c_role :: string

definition any_of :: "string list \<Rightarrow> string option \<Rightarrow> bool" where
  "any_of allowed v = (if allowed = [] then True
     else case v of Some x \<Rightarrow> list_ex (\<lambda>a. a = x) allowed | None \<Rightarrow> False)"

definition keyword_hit :: "string list \<Rightarrow> string list \<Rightarrow> bool" where
  "keyword_hit wants haves =
     list_ex (\<lambda>want. list_ex (\<lambda>have'. eq_ignore_ascii_case (trim have') (trim want)) haves) wants"

definition unwrap_or_empty :: "string option \<Rightarrow> string" where
  "unwrap_or_empty s = (case s of None \<Rightarrow> [] | Some x \<Rightarrow> x)"

definition text_hit :: "(string \<Rightarrow> string) \<Rightarrow> string option \<Rightarrow> candidate \<Rightarrow> bool" where
  "text_hit lower wanted c =
     (case wanted of None \<Rightarrow> True
      | Some q0 \<Rightarrow> (let q = trim q0 in
          q = [] \<or> contains_str (lower (unwrap_or_empty (c_title c) @ '' '' @ unwrap_or_empty (c_description c))) (lower q)))"

definition matches :: "(string \<Rightarrow> string) \<Rightarrow> sub_filter \<Rightarrow> string \<Rightarrow> candidate \<Rightarrow> bool" where
  "matches lower f owner_instance c =
     (if \<not> list_ex (\<lambda>r. r = c_role c) (effective_roles f) then False
      else if f_exclude_own f \<and> c_instance_iri c = Some owner_instance then False
      else if \<not> any_of (f_conforms_to f) (c_conforms_to c) then False
      else if \<not> any_of (f_software f) (c_software_iri c) then False
      else if \<not> any_of (f_instance f) (c_instance_iri c) then False
      else if \<not> any_of (f_license f) (c_license c) then False
      else if \<not> any_of (f_availability f) (Some (c_availability c)) then False
      else if f_keywords f \<noteq> [] \<and> \<not> keyword_hit (f_keywords f) (c_keywords c) then False
      else text_hit lower (f_q f) c)"

section \<open>Retry policy\<close>

record retry_policy =
  max_attempts :: int
  suspend_after :: int
  base_backoff :: int
  max_backoff :: int

definition default_policy :: retry_policy where
  "default_policy = \<lparr>max_attempts = 8, suspend_after = 12, base_backoff = 30, max_backoff = 6 * 3600\<rparr>"

definition policy_env_i64 :: "environment \<Rightarrow> string \<Rightarrow> int \<Rightarrow> int" where
  "policy_env_i64 e key dflt =
     (case e key of None \<Rightarrow> dflt | Some v \<Rightarrow> (case parse_i64 (trim v) of None \<Rightarrow> dflt | Some n \<Rightarrow> n))"

definition policy_from_env :: "environment \<Rightarrow> retry_policy" where
  "policy_from_env e =
     \<lparr>max_attempts = clamp 1 20 (policy_env_i64 e ''TAR_SUBSCRIPTION_MAX_ATTEMPTS'' (max_attempts default_policy)),
      suspend_after = clamp 1 500 (policy_env_i64 e ''TAR_SUBSCRIPTION_SUSPEND_AFTER'' (suspend_after default_policy)),
      base_backoff = clamp 1 3600 (policy_env_i64 e ''TAR_SUBSCRIPTION_BACKOFF_BASE'' (base_backoff default_policy)),
      max_backoff = clamp 1 (7 * 86400) (policy_env_i64 e ''TAR_SUBSCRIPTION_BACKOFF_MAX'' (max_backoff default_policy))\<rparr>"

definition backoff_secs :: "retry_policy \<Rightarrow> int \<Rightarrow> int" where
  "backoff_secs p attempts =
     (let shift = nat (min (max attempts 1 - 1) 20)
      in min (sat_i64 (base_backoff p * 2 ^ min shift 40)) (max_backoff p))"

section \<open>The tables\<close>

text \<open>
  The filter column is \<open>None\<close> when its text no longer parses. Times are the instants of the
  RFC 3339 texts, in nanoseconds; the order of the texts is the order of the instants.
\<close>

record sub_row =
  s_id :: string
  s_instance_iri :: string
  s_label :: "string option"
  s_filter :: "sub_filter option"
  s_webhook_url :: "string option"
  s_webhook_secret :: "string option"
  s_enabled :: bool
  s_delivery_state :: string
  s_failures :: int
  s_cursor :: int
  s_created_at :: int
  s_created_by :: "string option"
  s_updated_at :: "int option"
  s_last_match_at :: "int option"
  s_last_success_at :: "int option"
  s_last_error :: "string option"
  s_last_error_at :: "int option"
  s_last_polled_at :: "int option"

record delivery_row =
  d_seq :: int
  d_id :: string
  d_subscription :: string
  d_artifact :: string
  d_run :: "string option"
  d_role :: string
  d_payload :: json
  d_matched_at :: int
  d_status :: string
  d_attempts :: int
  d_last_attempt_at :: "int option"
  d_next_attempt_at :: "int option"
  d_last_error :: "string option"
  d_last_status :: "int option"
  d_delivered_at :: "int option"

record sub_db =
  sub_rows :: "sub_row list"
  del_rows :: "delivery_row list"
  next_seq :: int

definition of_sub :: "string \<Rightarrow> delivery_row \<Rightarrow> bool" where
  "of_sub sid d \<longleftrightarrow> d_subscription d = sid"

text \<open>A subscription as the API shows it: the row without its secret, and the queue counts.\<close>

record subscription =
  p_id :: string
  p_instance_iri :: string
  p_label :: "string option"
  p_filter :: sub_filter
  p_webhook_url :: "string option"
  p_webhook_signed :: bool
  p_enabled :: bool
  p_delivery_state :: string
  p_failures :: int
  p_cursor :: int
  p_created_at :: int
  p_created_by :: "string option"
  p_updated_at :: "int option"
  p_last_match_at :: "int option"
  p_last_success_at :: "int option"
  p_last_error :: "string option"
  p_last_error_at :: "int option"
  p_last_polled_at :: "int option"
  pending_count :: nat
  failed_count :: nat
  dead_count :: nat
  unacked_count :: nat

definition sub_from_row :: "sub_row \<Rightarrow> subscription" where
  "sub_from_row r =
     \<lparr>p_id = s_id r, p_instance_iri = s_instance_iri r, p_label = s_label r,
      p_filter = (case s_filter r of None \<Rightarrow> default_filter | Some f \<Rightarrow> f),
      p_webhook_url = s_webhook_url r, p_webhook_signed = (s_webhook_secret r \<noteq> None), p_enabled = s_enabled r,
      p_delivery_state = s_delivery_state r, p_failures = s_failures r, p_cursor = s_cursor r,
      p_created_at = s_created_at r, p_created_by = s_created_by r, p_updated_at = s_updated_at r,
      p_last_match_at = s_last_match_at r, p_last_success_at = s_last_success_at r,
      p_last_error = s_last_error r, p_last_error_at = s_last_error_at r, p_last_polled_at = s_last_polled_at r,
      pending_count = 0, failed_count = 0, dead_count = 0, unacked_count = 0\<rparr>"

definition attach_counts :: "sub_db \<Rightarrow> subscription \<Rightarrow> subscription" where
  "attach_counts db s =
     (let mine = filter (of_sub (p_id s)) (del_rows db)
      in s\<lparr>pending_count := rows_where (\<lambda>d. d_status d = ''pending'') mine,
           failed_count := rows_where (\<lambda>d. d_status d = ''failed'') mine,
           dead_count := rows_where (\<lambda>d. d_status d = ''dead'') mine,
           unacked_count := rows_where (\<lambda>d. p_cursor s < d_seq d) mine\<rparr>)"

definition is_pushable :: "subscription \<Rightarrow> bool" where
  "is_pushable s \<longleftrightarrow> p_enabled s \<and> p_delivery_state s = ''active'' \<and> p_webhook_url s \<noteq> None"

definition delivery_mode :: "subscription \<Rightarrow> string" where
  "delivery_mode s = (if p_webhook_url s \<noteq> None then ''webhook'' else ''pull'')"

section \<open>Store operations\<close>

definition MAX_PER_INSTANCE :: nat where
  "MAX_PER_INSTANCE = 32"

record new_subscription =
  n_instance_iri :: string
  n_label :: "string option"
  n_filter :: sub_filter
  n_webhook_url :: "string option"
  n_webhook_secret :: "string option"
  n_created_by :: "string option"

definition get_subscription :: "string \<Rightarrow> sub_db \<Rightarrow> subscription option" where
  "get_subscription i db =
     map_option (\<lambda>r. attach_counts db (sub_from_row r)) (find (\<lambda>r. s_id r = i) (sub_rows db))"

definition create_subscription ::
  "string \<Rightarrow> int \<Rightarrow> new_subscription \<Rightarrow> sub_db \<Rightarrow> db_error + (subscription \<times> sub_db)" where
  "create_subscription new_id now n db =
     (if list_ex (\<lambda>r. s_id r = new_id) (sub_rows db) then Inl (Constraint_Failed ''subscriptions.id'')
      else let row = \<lparr>s_id = new_id, s_instance_iri = n_instance_iri n, s_label = n_label n,
                 s_filter = Some (n_filter n), s_webhook_url = n_webhook_url n,
                 s_webhook_secret = n_webhook_secret n, s_enabled = True, s_delivery_state = ''active'',
                 s_failures = 0, s_cursor = 0, s_created_at = now, s_created_by = n_created_by n,
                 s_updated_at = Some now, s_last_match_at = None, s_last_success_at = None,
                 s_last_error = None, s_last_error_at = None, s_last_polled_at = None\<rparr>;
               db' = db\<lparr>sub_rows := sub_rows db @ [row]\<rparr>
           in case get_subscription new_id db' of None \<Rightarrow> Inl Row_Missing | Some s \<Rightarrow> Inr (s, db'))"

definition list_for_instance :: "string \<Rightarrow> sub_db \<Rightarrow> subscription list" where
  "list_for_instance iri db =
     map (\<lambda>r. attach_counts db (sub_from_row r))
       (order_by_desc s_created_at (filter (\<lambda>r. s_instance_iri r = iri) (sub_rows db)))"

definition count_for_instance :: "string \<Rightarrow> sub_db \<Rightarrow> nat" where
  "count_for_instance iri db = rows_where (\<lambda>r. s_instance_iri r = iri) (sub_rows db)"

definition active_subscriptions :: "sub_db \<Rightarrow> subscription list" where
  "active_subscriptions db = map sub_from_row (filter s_enabled (sub_rows db))"

record sub_patch =
  set_label :: "string option option"
  set_filter :: "sub_filter option"
  set_webhook_url :: "string option option"
  set_webhook_secret :: "string option option"
  set_enabled :: "bool option"
  resume :: bool

definition update_sub :: "string \<Rightarrow> (sub_row \<Rightarrow> sub_row) \<Rightarrow> sub_db \<Rightarrow> sub_db" where
  "update_sub i f db = db\<lparr>sub_rows := update_where (\<lambda>r. s_id r = i) f (sub_rows db)\<rparr>"

definition update_delivery :: "string \<Rightarrow> (delivery_row \<Rightarrow> delivery_row) \<Rightarrow> sub_db \<Rightarrow> sub_db" where
  "update_delivery i f db = db\<lparr>del_rows := update_where (\<lambda>d. d_id d = i) f (del_rows db)\<rparr>"

definition when_some :: "'a option \<Rightarrow> ('a \<Rightarrow> 's \<Rightarrow> 's) \<Rightarrow> 's \<Rightarrow> 's" where
  "when_some v f s = (case v of None \<Rightarrow> s | Some x \<Rightarrow> f x s)"

definition resume_subscription :: "int \<Rightarrow> string \<Rightarrow> sub_db \<Rightarrow> sub_db" where
  "resume_subscription now i db =
     (let db1 = update_sub i (\<lambda>r. r\<lparr>s_delivery_state := ''active'', s_failures := 0, s_last_error := None,
                                  s_last_error_at := None\<rparr>) db
      in db1\<lparr>del_rows := update_where (\<lambda>d. d_subscription d = i \<and> (d_status d = ''dead'' \<or> d_status d = ''failed''))
           (\<lambda>d. d\<lparr>d_status := ''pending'', d_attempts := 0, d_next_attempt_at := Some now, d_last_error := None\<rparr>)
           (del_rows db1)\<rparr>)"

definition update_subscription :: "int \<Rightarrow> string \<Rightarrow> sub_patch \<Rightarrow> sub_db \<Rightarrow> sub_db" where
  "update_subscription now i p db0 =
     (let db1 = when_some (set_label p) (\<lambda>v. update_sub i (\<lambda>r. r\<lparr>s_label := v\<rparr>)) db0;
          db2 = when_some (set_filter p) (\<lambda>v. update_sub i (\<lambda>r. r\<lparr>s_filter := Some v\<rparr>)) db1;
          db3 = when_some (set_webhook_url p) (\<lambda>v. update_sub i (\<lambda>r. r\<lparr>s_webhook_url := v\<rparr>)) db2;
          db4 = when_some (set_webhook_secret p) (\<lambda>v. update_sub i (\<lambda>r. r\<lparr>s_webhook_secret := v\<rparr>)) db3;
          db5 = when_some (set_enabled p) (\<lambda>v. update_sub i (\<lambda>r. r\<lparr>s_enabled := v\<rparr>)) db4;
          db6 = (if resume p then resume_subscription now i db5 else db5)
      in update_sub i (\<lambda>r. r\<lparr>s_updated_at := Some now\<rparr>) db6)"

definition delete_subscription :: "string \<Rightarrow> sub_db \<Rightarrow> bool \<times> sub_db" where
  "delete_subscription i db =
     (0 < rows_where (\<lambda>r. s_id r = i) (sub_rows db),
      db\<lparr>sub_rows := delete_where (\<lambda>r. s_id r = i) (sub_rows db),
         del_rows := delete_where (of_sub i) (del_rows db)\<rparr>)"

definition webhook_secret :: "string \<Rightarrow> sub_db \<Rightarrow> string option" where
  "webhook_secret i db =
     (case find (\<lambda>r. s_id r = i) (sub_rows db) of None \<Rightarrow> None | Some r \<Rightarrow> s_webhook_secret r)"

section \<open>The delivery queue\<close>

definition new_delivery ::
  "int \<Rightarrow> string \<Rightarrow> int \<Rightarrow> string \<Rightarrow> string \<Rightarrow> string option \<Rightarrow> string \<Rightarrow> json \<Rightarrow> delivery_row" where
  "new_delivery q new_id now sid artifact run role body =
     \<lparr>d_seq = q, d_id = new_id, d_subscription = sid, d_artifact = artifact, d_run = run, d_role = role,
      d_payload = body, d_matched_at = now, d_status = ''pending'', d_attempts = 0, d_last_attempt_at = None,
      d_next_attempt_at = Some now, d_last_error = None, d_last_status = None, d_delivered_at = None\<rparr>"

text \<open>\<open>INSERT OR IGNORE\<close>: a row that clashes with a unique index is not inserted; a missing subscription is an error.\<close>

definition enqueue ::
  "string \<Rightarrow> int \<Rightarrow> (int \<Rightarrow> string) \<Rightarrow> string \<Rightarrow> string \<Rightarrow> string option \<Rightarrow> string \<Rightarrow> json \<Rightarrow> sub_db \<Rightarrow>
   db_error + (int option \<times> sub_db)" where
  "enqueue new_id now rfc3339 sid artifact run role payload db =
     (let body = obj_insert ''matched_at'' (JText (rfc3339 now)) (obj_insert ''delivery'' (JText new_id) payload)
      in if list_ex (\<lambda>d. d_id d = new_id \<or> (d_subscription d = sid \<and> d_artifact d = artifact \<and> d_role d = role))
              (del_rows db)
         then Inr (None, db)
         else if \<not> list_ex (\<lambda>r. s_id r = sid) (sub_rows db)
         then Inl (Constraint_Failed ''FOREIGN KEY'')
         else let row = new_delivery (next_seq db) new_id now sid artifact run role body;
                  db1 = db\<lparr>del_rows := del_rows db @ [row], next_seq := next_seq db + 1\<rparr>;
                  db2 = update_sub sid (\<lambda>r. r\<lparr>s_last_match_at := Some now\<rparr>) db1
              in case find (\<lambda>d. d_id d = new_id) (del_rows db2) of
                   None \<Rightarrow> Inl Row_Missing
                 | Some d \<Rightarrow> Inr (Some (d_seq d), db2))"

record due_delivery =
  due_seq :: int
  due_id :: string
  due_subscription :: string
  due_url :: string
  due_secret :: "string option"
  due_payload :: json
  due_attempts :: int

definition is_due :: "int \<Rightarrow> sub_row \<Rightarrow> delivery_row \<Rightarrow> bool" where
  "is_due now s d \<longleftrightarrow>
     s_id s = d_subscription d \<and> (d_status d = ''pending'' \<or> d_status d = ''failed'')
     \<and> (case d_next_attempt_at d of None \<Rightarrow> True | Some t \<Rightarrow> t \<le> now)
     \<and> s_enabled s \<and> s_delivery_state s = ''active'' \<and> s_webhook_url s \<noteq> None"

definition due_pairs :: "int \<Rightarrow> sub_db \<Rightarrow> (delivery_row \<times> sub_row) list" where
  "due_pairs now db =
     concat (map (\<lambda>d. map (\<lambda>s. (d, s)) (filter (\<lambda>s. is_due now s d) (sub_rows db))) (del_rows db))"

definition due_deliveries :: "int \<Rightarrow> int \<Rightarrow> sub_db \<Rightarrow> due_delivery list" where
  "due_deliveries now lim db =
     map (\<lambda>(d, s). \<lparr>due_seq = d_seq d, due_id = d_id d, due_subscription = d_subscription d,
                     due_url = unwrap_or_empty (s_webhook_url s), due_secret = s_webhook_secret s,
                     due_payload = d_payload d, due_attempts = d_attempts d\<rparr>)
       (sql_limit lim (sort_key (\<lambda>(d, s). (d_next_attempt_at d, d_seq d)) (due_pairs now db)))"

definition mark_delivered :: "int \<Rightarrow> string \<Rightarrow> string \<Rightarrow> nat \<Rightarrow> int \<Rightarrow> sub_db \<Rightarrow> sub_db" where
  "mark_delivered now did sid status_code attempts db =
     update_sub sid (\<lambda>r. r\<lparr>s_failures := 0, s_last_success_at := Some now, s_last_error := None,
                          s_last_error_at := None\<rparr>)
       (update_delivery did (\<lambda>d. d\<lparr>d_status := ''delivered'', d_attempts := attempts, d_last_attempt_at := Some now,
                          d_delivered_at := Some now, d_last_status := Some (int status_code),
                          d_last_error := None, d_next_attempt_at := None\<rparr>) db)"

record failure_outcome =
  fo_attempts :: int
  fo_status :: string
  fo_retry_in :: "int option"
  fo_suspended :: bool

definition attempts_of :: "string \<Rightarrow> sub_db \<Rightarrow> int" where
  "attempts_of did db = (case find (\<lambda>d. d_id d = did) (del_rows db) of None \<Rightarrow> 0 | Some d \<Rightarrow> d_attempts d)"

definition failures_of :: "string \<Rightarrow> sub_db \<Rightarrow> int" where
  "failures_of sid db = (case find (\<lambda>r. s_id r = sid) (sub_rows db) of None \<Rightarrow> 0 | Some r \<Rightarrow> s_failures r)"

definition failed_row :: "int \<Rightarrow> int \<Rightarrow> int option \<Rightarrow> string \<Rightarrow> nat option \<Rightarrow> delivery_row \<Rightarrow> delivery_row" where
  "failed_row now attempts retry_in err status_code d =
     d\<lparr>d_status := (if retry_in = None then ''dead'' else ''failed''), d_attempts := attempts,
       d_last_attempt_at := Some now, d_next_attempt_at := map_option (\<lambda>s. now + s * 10 ^ 9) retry_in,
       d_last_error := Some err, d_last_status := map_option int status_code\<rparr>"

definition failed_sub :: "int \<Rightarrow> string \<Rightarrow> sub_row \<Rightarrow> sub_row" where
  "failed_sub now err r =
     r\<lparr>s_failures := s_failures r + 1, s_last_error := Some err, s_last_error_at := Some now\<rparr>"

text \<open>The webhook is suspended once its failures in a row reach the policy's bound.\<close>

definition suspend_failing :: "retry_policy \<Rightarrow> string \<Rightarrow> sub_db \<Rightarrow> bool \<times> sub_db" where
  "suspend_failing policy sid db =
     (let P = (\<lambda>r. s_id r = sid \<and> s_delivery_state r \<noteq> ''suspended'')
      in if suspend_after policy \<le> failures_of sid db
         then (0 < rows_where P (sub_rows db),
               db\<lparr>sub_rows := update_where P (\<lambda>r. r\<lparr>s_delivery_state := ''suspended''\<rparr>) (sub_rows db)\<rparr>)
         else (False, db))"

definition mark_failed ::
  "int \<Rightarrow> string \<Rightarrow> string \<Rightarrow> string \<Rightarrow> nat option \<Rightarrow> retry_policy \<Rightarrow> sub_db \<Rightarrow> failure_outcome \<times> sub_db" where
  "mark_failed now did sid error0 status_code policy db =
     (let attempts = attempts_of did db + 1;
          exhausted = (max_attempts policy \<le> attempts);
          retry_in = (if exhausted then None else Some (backoff_secs policy attempts));
          err = take_chars 400 error0;
          db1 = update_delivery did (failed_row now attempts retry_in err status_code) db;
          (suspended, db2) = suspend_failing policy sid (update_sub sid (failed_sub now err) db1)
      in (\<lparr>fo_attempts = attempts, fo_status = (if exhausted then ''dead'' else ''failed''),
           fo_retry_in = retry_in, fo_suspended = suspended\<rparr>, db2))"

section \<open>The pull path\<close>

definition seq_order :: "delivery_row list \<Rightarrow> delivery_row list" where
  "seq_order ds = sort_key d_seq ds"

definition deliveries_since :: "string \<Rightarrow> int \<Rightarrow> int \<Rightarrow> sub_db \<Rightarrow> delivery_row list" where
  "deliveries_since sid cursor lim db =
     sql_limit lim (seq_order (filter (\<lambda>d. d_subscription d = sid \<and> cursor < d_seq d) (del_rows db)))"

definition recent_deliveries :: "string \<Rightarrow> int \<Rightarrow> sub_db \<Rightarrow> delivery_row list" where
  "recent_deliveries sid lim db = sql_limit lim (order_by_desc d_seq (filter (of_sub sid) (del_rows db)))"

definition max_seq :: "string \<Rightarrow> sub_db \<Rightarrow> int" where
  "max_seq sid db =
     (case filter (of_sub sid) (del_rows db) of [] \<Rightarrow> 0
      | d # ds \<Rightarrow> fold (\<lambda>x m. max m (d_seq x)) ds (d_seq d))"

definition ack_cursor :: "int \<Rightarrow> string \<Rightarrow> int \<Rightarrow> sub_db \<Rightarrow> db_error + (int \<times> sub_db)" where
  "ack_cursor now sid cursor db =
     (let db' = update_sub sid (\<lambda>r. r\<lparr>s_cursor := max (s_cursor r) cursor, s_updated_at := Some now\<rparr>) db
      in case find (\<lambda>r. s_id r = sid) (sub_rows db') of
           None \<Rightarrow> Inl Row_Missing
         | Some r \<Rightarrow> Inr (s_cursor r, db'))"

definition touch_polled :: "int \<Rightarrow> string \<Rightarrow> sub_db \<Rightarrow> sub_db" where
  "touch_polled now sid db = update_sub sid (\<lambda>r. r\<lparr>s_last_polled_at := Some now\<rparr>) db"

section \<open>The steps of the system\<close>

text \<open>
  Everything that changes the two tables: the API's create, update and delete, a match, an
  acknowledgement, a poll, and the outcomes the worker records. The worker records an outcome
  for a delivery it picked up earlier, so the tables may have changed since: the arguments of
  the two outcome steps are arbitrary.
\<close>

definition empty_db :: sub_db where
  "empty_db = \<lparr>sub_rows = [], del_rows = [], next_seq = 1\<rparr>"

inductive sub_step :: "retry_policy \<Rightarrow> sub_db \<Rightarrow> sub_db \<Rightarrow> bool" for p :: retry_policy where
  created: "create_subscription i now n db = Inr (s, db') \<Longrightarrow> sub_step p db db'"
| updated: "sub_step p db (update_subscription now i pt db)"
| deleted: "sub_step p db (snd (delete_subscription i db))"
| queued: "enqueue i now fmt sid art run role body db = Inr (r, db') \<Longrightarrow> sub_step p db db'"
| delivered: "sub_step p db (mark_delivered now did sid code n db)"
| failed: "sub_step p db (snd (mark_failed now did sid err code p db))"
| acked: "ack_cursor now sid c db = Inr (r, db') \<Longrightarrow> sub_step p db db'"
| polled: "sub_step p db (touch_polled now sid db)"

inductive sub_reachable :: "retry_policy \<Rightarrow> sub_db \<Rightarrow> bool" for p :: retry_policy where
  start: "sub_reachable p empty_db"
| step: "sub_reachable p db \<Longrightarrow> sub_step p db db' \<Longrightarrow> sub_reachable p db'"

inductive_cases sub_stepE: "sub_step p db db'"

section \<open>Invariants\<close>

definition match_key :: "delivery_row \<Rightarrow> string \<times> string \<times> string" where
  "match_key d = (d_subscription d, d_artifact d, d_role d)"

definition queue_ok :: "sub_db \<Rightarrow> bool" where
  "queue_ok db \<longleftrightarrow>
     distinct (map s_id (sub_rows db)) \<and> distinct (map d_id (del_rows db))
     \<and> distinct (map match_key (del_rows db))
     \<and> sorted_wrt (<) (map d_seq (del_rows db)) \<and> (\<forall>q \<in> set (map d_seq (del_rows db)). 1 \<le> q \<and> q < next_seq db)
     \<and> 1 \<le> next_seq db
     \<and> set (map d_subscription (del_rows db)) \<subseteq> set (map s_id (sub_rows db))"

definition attempts_ok :: "retry_policy \<Rightarrow> sub_db \<Rightarrow> bool" where
  "attempts_ok p db \<longleftrightarrow>
     (\<forall>d \<in> set (del_rows db). d_status d = ''pending'' \<or> d_status d = ''failed'' \<longrightarrow> d_attempts d < max_attempts p)
     \<and> (\<forall>s \<in> set (sub_rows db). s_delivery_state s = ''active'' \<longrightarrow> s_failures s < suspend_after p)"

definition policy_ok :: "retry_policy \<Rightarrow> bool" where
  "policy_ok p \<longleftrightarrow> 1 \<le> max_attempts p \<and> 1 \<le> suspend_after p \<and> 1 \<le> base_backoff p \<and> 1 \<le> max_backoff p"

lemma policy_from_env_ok: "policy_ok (policy_from_env e)"
  by (simp add: policy_ok_def policy_from_env_def clamp_def)

lemma update_sub_fields [simp]:
  "del_rows (update_sub i f db) = del_rows db" "next_seq (update_sub i f db) = next_seq db"
  "sub_rows (update_sub i f db) = update_where (\<lambda>r. s_id r = i) f (sub_rows db)"
  by (simp_all add: update_sub_def)

lemma update_delivery_fields [simp]:
  "sub_rows (update_delivery i f db) = sub_rows db" "next_seq (update_delivery i f db) = next_seq db"
  "del_rows (update_delivery i f db) = update_where (\<lambda>d. d_id d = i) f (del_rows db)"
  by (simp_all add: update_delivery_def)

lemma map_projection:
  assumes "map k xs = map k ys" "\<And>d. g d = h (k d)"
  shows "map g xs = map g ys"
proof -
  have "g = (\<lambda>d. h (k d))" using assms(2) by (simp add: fun_eq_iff)
  with arg_cong [OF assms(1), of "map h"] show ?thesis by (simp add: comp_def)
qed

lemma queue_ok_cong:
  assumes "map s_id (sub_rows db') = map s_id (sub_rows db)" "next_seq db' = next_seq db"
    and "map (\<lambda>d. (d_id d, d_seq d, match_key d)) (del_rows db')
       = map (\<lambda>d. (d_id d, d_seq d, match_key d)) (del_rows db)"
  shows "queue_ok db' = queue_ok db"
proof -
  have "map d_id (del_rows db') = map d_id (del_rows db)" by (rule map_projection [OF assms(3), where h = fst]) simp
  moreover have q: "map d_seq (del_rows db') = map d_seq (del_rows db)"
    by (rule map_projection [OF assms(3), where h = "fst \<circ> snd"]) simp
  moreover have "map match_key (del_rows db') = map match_key (del_rows db)"
    by (rule map_projection [OF assms(3), where h = "snd \<circ> snd"]) simp
  moreover have s: "map d_subscription (del_rows db') = map d_subscription (del_rows db)"
    by (rule map_projection [OF assms(3), where h = "fst \<circ> snd \<circ> snd"]) (simp add: match_key_def)
  ultimately show ?thesis
    unfolding queue_ok_def assms(1,2) by (simp only:)
qed

lemma queue_ok_update_sub [simp]:
  "(\<And>r. s_id (f r) = s_id r) \<Longrightarrow> queue_ok (update_sub i f db) = queue_ok db"
  by (rule queue_ok_cong) (simp_all add: map_update_where)

lemma map_update_where_id:
  "(\<And>d. g (f d) = g d) \<Longrightarrow> map g (update_where P f rows) = map g rows"
  by (rule map_update_where)

lemma queue_ok_update_delivery [simp]:
  assumes "\<And>d. d_id (f d) = d_id d" "\<And>d. d_seq (f d) = d_seq d" "\<And>d. match_key (f d) = match_key d"
  shows "queue_ok (db\<lparr>del_rows := update_where P f (del_rows db)\<rparr>) = queue_ok db"
  by (rule queue_ok_cong) (simp_all add: map_update_where assms)

lemma queue_ok_update_rows [simp]:
  assumes "\<And>r. s_id (f r) = s_id r"
  shows "queue_ok (db\<lparr>sub_rows := update_where P f (sub_rows db)\<rparr>) = queue_ok db"
  by (rule queue_ok_cong) (simp_all add: map_update_where assms)

lemma when_some_cases: "(\<And>x s. P (f x s) = P s) \<Longrightarrow> P (when_some v f s) = P s"
  by (cases v) (simp_all add: when_some_def)

lemma queue_ok_mark_delivered: "queue_ok (mark_delivered now did sid code n db) = queue_ok db"
  by (simp add: mark_delivered_def update_delivery_def match_key_def)

lemma suspend_failing_cases:
  "snd (suspend_failing p sid db) = db \<and> failures_of sid db < suspend_after p \<or>
   snd (suspend_failing p sid db) = db\<lparr>sub_rows := update_where
       (\<lambda>r. s_id r = sid \<and> s_delivery_state r \<noteq> ''suspended'') (\<lambda>r. r\<lparr>s_delivery_state := ''suspended''\<rparr>) (sub_rows db)\<rparr>
     \<and> suspend_after p \<le> failures_of sid db"
  by (auto simp: suspend_failing_def Let_def)

lemma suspend_failing_frame [simp]:
  "map s_id (sub_rows (snd (suspend_failing p sid db))) = map s_id (sub_rows db)"
  "del_rows (snd (suspend_failing p sid db)) = del_rows db"
  "next_seq (snd (suspend_failing p sid db)) = next_seq db"
  by (simp_all add: suspend_failing_def Let_def map_update_where)

lemma snd_mark_failed:
  "snd (mark_failed now did sid err code p db) =
     snd (suspend_failing p sid (update_sub sid (failed_sub now (take_chars 400 err))
       (update_delivery did (failed_row now (attempts_of did db + 1)
          (if max_attempts p \<le> attempts_of did db + 1 then None else Some (backoff_secs p (attempts_of did db + 1)))
          (take_chars 400 err) code) db)))"
  by (simp add: mark_failed_def Let_def split: prod.splits)

lemma failed_row_fields [simp]:
  "d_id (failed_row now n r e c d) = d_id d" "d_seq (failed_row now n r e c d) = d_seq d"
  "match_key (failed_row now n r e c d) = match_key d" "d_attempts (failed_row now n r e c d) = n"
  "d_subscription (failed_row now n r e c d) = d_subscription d"
  "d_status (failed_row now n r e c d) = (if r = None then ''dead'' else ''failed'')"
  "d_next_attempt_at (failed_row now n r e c d) = map_option (\<lambda>s. now + s * 10 ^ 9) r"
  by (simp_all add: failed_row_def match_key_def)

lemma failed_sub_fields [simp]:
  "s_id (failed_sub now e r) = s_id r" "s_failures (failed_sub now e r) = s_failures r + 1"
  "s_cursor (failed_sub now e r) = s_cursor r" "s_delivery_state (failed_sub now e r) = s_delivery_state r"
  by (simp_all add: failed_sub_def)

lemma queue_ok_mark_failed: "queue_ok (snd (mark_failed now did sid err code p db)) = queue_ok db"
  unfolding snd_mark_failed by (rule queue_ok_cong) (simp_all add: map_update_where)

lemma queue_ok_resume: "queue_ok (resume_subscription now i db) = queue_ok db"
  by (rule queue_ok_cong) (simp_all add: resume_subscription_def Let_def match_key_def map_update_where)

lemma queue_ok_update: "queue_ok (update_subscription now i pt db) = queue_ok db"
  by (simp add: update_subscription_def Let_def queue_ok_resume
      when_some_cases [where P = queue_ok] if_distrib [of queue_ok])

lemma queue_ok_delete:
  assumes "queue_ok db" shows "queue_ok (snd (delete_subscription i db))"
proof -
  have "sorted_wrt (<) (map d_seq (filter P (del_rows db)))" for P
    using assms by (auto simp: queue_ok_def sorted_wrt_map intro: sorted_wrt_filter)
  with assms show ?thesis
    by (auto simp: delete_subscription_def queue_ok_def delete_where_def of_sub_def distinct_map_filter)
qed

lemma queue_ok_create:
  "queue_ok db \<Longrightarrow> create_subscription i now n db = Inr (s, db') \<Longrightarrow> queue_ok db'"
  by (auto simp: create_subscription_def queue_ok_def list_ex_iff Let_def split: if_splits option.splits) blast+

lemma new_delivery_fields [simp]:
  "d_id (new_delivery q i now sid art run role body) = i" "d_seq (new_delivery q i now sid art run role body) = q"
  "match_key (new_delivery q i now sid art run role body) = (sid, art, role)"
  "d_subscription (new_delivery q i now sid art run role body) = sid"
  "d_status (new_delivery q i now sid art run role body) = ''pending''"
  "d_attempts (new_delivery q i now sid art run role body) = 0"
  by (simp_all add: new_delivery_def match_key_def)

definition clashes :: "string \<Rightarrow> string \<times> string \<times> string \<Rightarrow> sub_db \<Rightarrow> bool" where
  "clashes i k db \<longleftrightarrow> i \<in> d_id ` set (del_rows db) \<or> k \<in> match_key ` set (del_rows db)"

definition queued_db ::
  "string \<Rightarrow> int \<Rightarrow> (int \<Rightarrow> string) \<Rightarrow> string \<Rightarrow> string \<Rightarrow> string option \<Rightarrow> string \<Rightarrow> json \<Rightarrow> sub_db \<Rightarrow> sub_db" where
  "queued_db i now fmt sid art run role payload db =
     update_sub sid (\<lambda>r. r\<lparr>s_last_match_at := Some now\<rparr>)
       (db\<lparr>del_rows := del_rows db @ [new_delivery (next_seq db) i now sid art run role
              (obj_insert ''matched_at'' (JText (fmt now)) (obj_insert ''delivery'' (JText i) payload))],
           next_seq := next_seq db + 1\<rparr>)"

lemma enqueue_eq:
  "enqueue i now fmt sid art run role payload db =
     (if clashes i (sid, art, role) db then Inr (None, db)
      else if sid \<notin> s_id ` set (sub_rows db) then Inl (Constraint_Failed ''FOREIGN KEY'')
      else Inr (Some (next_seq db), queued_db i now fmt sid art run role payload db))"
proof -
  have c: "list_ex (\<lambda>d. d_id d = i \<or> (d_subscription d = sid \<and> d_artifact d = art \<and> d_role d = role)) (del_rows db)
      = clashes i (sid, art, role) db"
    by (auto simp: list_ex_iff clashes_def match_key_def)
  have e: "list_ex (\<lambda>r. s_id r = sid) (sub_rows db) = (sid \<in> s_id ` set (sub_rows db))"
    by (auto simp: list_ex_iff)
  show ?thesis
  proof (cases "clashes i (sid, art, role) db")
    case False
    then have "find (\<lambda>d. d_id d = i) (del_rows db) = None"
      by (auto simp: clashes_def find_None_iff)
    with False show ?thesis
      by (simp add: enqueue_def c e Let_def find_append_new queued_db_def del: find.simps)
  qed (simp add: enqueue_def c Let_def)
qed

lemma queue_ok_queued:
  assumes "queue_ok db" "\<not> clashes i (sid, art, role) db" "sid \<in> s_id ` set (sub_rows db)"
  shows "queue_ok (queued_db i now fmt sid art run role payload db)"
  using assms unfolding queued_db_def
  by (subst queue_ok_update_sub) (auto simp: queue_ok_def clashes_def sorted_wrt_append)

lemma queue_ok_step:
  assumes "sub_step p db db'" "queue_ok db" shows "queue_ok db'"
  using assms
proof (cases rule: sub_step.cases)
  case (queued i now fmt sid art run role body r)
  with assms show ?thesis by (auto simp: enqueue_eq queue_ok_queued split: if_splits)
next
  case (acked now sid c r)
  with assms show ?thesis by (auto simp: ack_cursor_def Let_def split: option.splits)
qed (use assms in \<open>simp_all add: queue_ok_create queue_ok_update queue_ok_delete queue_ok_mark_delivered
      queue_ok_mark_failed touch_polled_def\<close>)

lemma queue_ok_reachable: "sub_reachable p db \<Longrightarrow> queue_ok db"
proof (induction rule: sub_reachable.induct)
  case start
  show ?case by (simp add: empty_db_def queue_ok_def)
qed (rule queue_ok_step)

section \<open>Bounded attempts\<close>

definition row_attempts_ok :: "retry_policy \<Rightarrow> delivery_row \<Rightarrow> bool" where
  "row_attempts_ok p d \<longleftrightarrow> (d_status d = ''pending'' \<or> d_status d = ''failed'' \<longrightarrow> d_attempts d < max_attempts p)"

definition sub_failures_ok :: "retry_policy \<Rightarrow> sub_row \<Rightarrow> bool" where
  "sub_failures_ok p s \<longleftrightarrow> (s_delivery_state s = ''active'' \<longrightarrow> s_failures s < suspend_after p)"

lemma attempts_ok_iff:
  "attempts_ok p db \<longleftrightarrow> (\<forall>d \<in> set (del_rows db). row_attempts_ok p d) \<and> (\<forall>s \<in> set (sub_rows db). sub_failures_ok p s)"
  by (simp add: attempts_ok_def row_attempts_ok_def sub_failures_ok_def)

lemma ball_update_where:
  "(\<forall>x \<in> set (update_where P f xs). Q x) \<longleftrightarrow> (\<forall>x \<in> set xs. if P x then Q (f x) else Q x)"
  by (auto simp: update_where_def)

lemma attempts_ok_update_sub:
  assumes "attempts_ok p db" "\<And>r. sub_failures_ok p r \<Longrightarrow> sub_failures_ok p (f r)"
  shows "attempts_ok p (update_sub i f db)"
  using assms by (auto simp: attempts_ok_iff ball_update_where)

lemma attempts_ok_when_some:
  assumes "attempts_ok p db" "\<And>x s. attempts_ok p s \<Longrightarrow> attempts_ok p (f x s)"
  shows "attempts_ok p (when_some v f db)"
  using assms by (cases v) (simp_all add: when_some_def)

lemma attempts_ok_resume:
  assumes "policy_ok p" "attempts_ok p db" shows "attempts_ok p (resume_subscription now i db)"
  using assms unfolding resume_subscription_def Let_def attempts_ok_iff
  by (auto simp: ball_update_where sub_failures_ok_def row_attempts_ok_def policy_ok_def)

lemma attempts_ok_update:
  assumes "policy_ok p" "attempts_ok p db" shows "attempts_ok p (update_subscription now i pt db)"
  unfolding update_subscription_def Let_def
  using assms
  by (auto intro!: attempts_ok_update_sub attempts_ok_when_some attempts_ok_resume simp: sub_failures_ok_def)

lemma attempts_ok_mark_delivered:
  "attempts_ok p db \<Longrightarrow> policy_ok p \<Longrightarrow> attempts_ok p (mark_delivered now did sid code n db)"
  unfolding mark_delivered_def
  by (rule attempts_ok_update_sub)
    (auto simp: attempts_ok_iff ball_update_where row_attempts_ok_def sub_failures_ok_def policy_ok_def)

lemma failures_of_find:
  assumes "distinct (map s_id (sub_rows db))" "r \<in> set (sub_rows db)" "s_id r = sid"
  shows "failures_of sid db = s_failures r"
  using find_key_distinct [OF assms] by (simp add: failures_of_def)

lemma attempts_ok_mark_failed:
  assumes "attempts_ok p db" "queue_ok db"
  shows "attempts_ok p (snd (mark_failed now did sid err code p db))"
proof -
  let ?db = "update_sub sid (failed_sub now (take_chars 400 err))
       (update_delivery did (failed_row now (attempts_of did db + 1)
          (if max_attempts p \<le> attempts_of did db + 1 then None else Some (backoff_secs p (attempts_of did db + 1)))
          (take_chars 400 err) code) db)"
  have d: "\<forall>d \<in> set (del_rows ?db). row_attempts_ok p d"
    using assms(1) by (auto simp: attempts_ok_iff row_attempts_ok_def update_where_def)
  have dist: "distinct (map s_id (sub_rows ?db))"
    using assms(2) by (simp add: queue_ok_def map_update_where)
  have other: "sub_failures_ok p s" if "s \<in> set (sub_rows ?db)" "s_id s \<noteq> sid" for s
    using that assms(1) by (auto simp: attempts_ok_iff update_where_def)
  have "\<forall>s \<in> set (sub_rows (snd (suspend_failing p sid ?db))). sub_failures_ok p s"
  proof (cases "suspend_after p \<le> failures_of sid ?db")
    case True
    then show ?thesis
      using other by (auto simp: suspend_failing_def Let_def update_where_def sub_failures_ok_def)
  next
    case False
    have "sub_failures_ok p s" if s: "s \<in> set (sub_rows ?db)" "s_id s = sid" for s
      using failures_of_find [OF dist s] False by (simp add: sub_failures_ok_def)
    with other False show ?thesis by (auto simp: suspend_failing_def Let_def)
  qed
  with d show ?thesis by (simp add: snd_mark_failed attempts_ok_iff)
qed

lemma attempts_ok_step:
  assumes "sub_step p db db'" "policy_ok p" "queue_ok db" "attempts_ok p db" shows "attempts_ok p db'"
  using assms(1)
proof (cases rule: sub_step.cases)
  case (created i now n s)
  with assms show ?thesis
    by (auto simp: create_subscription_def attempts_ok_iff sub_failures_ok_def policy_ok_def Let_def
        split: if_splits option.splits)
next
  case (deleted i)
  with assms show ?thesis by (auto simp: delete_subscription_def attempts_ok_iff delete_where_def)
next
  case (queued i now fmt sid art run role body r)
  have "attempts_ok p (queued_db i now fmt sid art run role body db)"
    unfolding queued_db_def using assms
    by (intro attempts_ok_update_sub) (auto simp: attempts_ok_iff row_attempts_ok_def policy_ok_def sub_failures_ok_def)
  with queued assms show ?thesis by (auto simp: enqueue_eq split: if_splits)
next
  case (acked now sid c r)
  with assms show ?thesis
    by (auto simp: ack_cursor_def Let_def sub_failures_ok_def intro!: attempts_ok_update_sub split: option.splits)
next
  case (polled now sid)
  with assms show ?thesis
    by (auto simp: touch_polled_def sub_failures_ok_def intro!: attempts_ok_update_sub)
qed (use assms in \<open>simp_all add: attempts_ok_update attempts_ok_mark_delivered attempts_ok_mark_failed\<close>)

lemma attempts_ok_reachable:
  assumes "policy_ok p" "sub_reachable p db" shows "attempts_ok p db"
  using assms(2)
proof (induction rule: sub_reachable.induct)
  case start
  show ?case by (simp add: empty_db_def attempts_ok_iff)
next
  case (step db db')
  with assms(1) show ?case by (blast intro: attempts_ok_step queue_ok_reachable)
qed

end
