(* ===== verification/Net_Addr.thy ===== *)
theory Net_Addr
  imports Settings
begin

unbundle bit_operations_syntax

text \<open>
  The address part of \<open>src/ratelimit.rs\<close>: address blocks, who the client of a request is, and
  the address it is charged under. Addresses are words of their width. The text form of an
  address is read as \<open>IpAddr::from_str\<close> of the standard library reads it.
\<close>

datatype ip_addr = V4 "32 word" | V6 "128 word"

fun is_ipv4 :: "ip_addr \<Rightarrow> bool" where
  "is_ipv4 (V4 _) = True"
| "is_ipv4 (V6 _) = False"

section \<open>Reading an address\<close>

text \<open>\<open>char::to_digit\<close>, on a byte.\<close>

definition to_digit :: "nat \<Rightarrow> char \<Rightarrow> nat option" where
  "to_digit radix c =
     (let b = byte (ascii_lower_char c);
          d = (if 48 \<le> b \<and> b \<le> 57 then Some (b - 48) else if 97 \<le> b \<and> b \<le> 122 then Some (b - 87) else None)
      in case d of Some v \<Rightarrow> if v < radix then Some v else None | None \<Rightarrow> None)"

text \<open>
  The parser's \<open>read_number\<close>: the run of digits in front, refused when it is empty, longer than
  allowed, too large, or starts with a zero where that is not allowed. Every reader returns the
  value and the input that is left.
\<close>

definition read_number :: "nat \<Rightarrow> nat \<Rightarrow> bool \<Rightarrow> nat \<Rightarrow> string \<Rightarrow> (nat \<times> string) option" where
  "read_number radix max_digits allow_zero_prefix limit s =
     (let ds = takeWhile (\<lambda>c. to_digit radix c \<noteq> None) s;
          n = foldl (\<lambda>acc c. acc * radix + the (to_digit radix c)) 0 ds
      in if ds = [] \<or> max_digits < length ds \<or> limit \<le> n
            \<or> (\<not> allow_zero_prefix \<and> 1 < length ds \<and> hd ds = CHR ''0'')
         then None else Some (n, drop (length ds) s))"

definition read_separated :: "char \<Rightarrow> nat \<Rightarrow> (string \<Rightarrow> ('a \<times> string) option) \<Rightarrow> string \<Rightarrow> ('a \<times> string) option" where
  "read_separated sep i f s =
     (if i = 0 then f s else (case s of c # r \<Rightarrow> if c = sep then f r else None | [] \<Rightarrow> None))"

fun read_octets :: "nat \<Rightarrow> nat \<Rightarrow> nat \<Rightarrow> string \<Rightarrow> (nat \<times> string) option" where
  "read_octets 0 i acc s = Some (acc, s)"
| "read_octets (Suc k) i acc s =
     (case read_separated (CHR ''.'') i (read_number 10 3 False 256) s of
        None \<Rightarrow> None
      | Some (n, r) \<Rightarrow> read_octets k (Suc i) (acc * 256 + n) r)"

definition read_ipv4 :: "string \<Rightarrow> (nat \<times> string) option" where
  "read_ipv4 s = read_octets 4 0 0 s"

text \<open>
  Up to the given number of 16-bit groups, the last two of which may be written as an IPv4
  address; the flag says that they were.
\<close>

fun read_groups :: "nat \<Rightarrow> nat \<Rightarrow> string \<Rightarrow> nat list \<times> bool \<times> string" where
  "read_groups 0 i s = ([], False, s)"
| "read_groups (Suc k) i s =
     (case (if k = 0 then None else read_separated (CHR '':'') i read_ipv4 s) of
        Some (a, r) \<Rightarrow> ([a div 65536, a mod 65536], True, r)
      | None \<Rightarrow>
          (case read_separated (CHR '':'') i (read_number 16 4 True 65536) s of
             None \<Rightarrow> ([], False, s)
           | Some (g, r) \<Rightarrow> (let (gs, v4, r') = read_groups k (Suc i) r in (g # gs, v4, r'))))"

definition read_ipv6 :: "string \<Rightarrow> (nat list \<times> string) option" where
  "read_ipv6 s =
     (let (front, v4, r) = read_groups 8 0 s in
      if length front = 8 then Some (front, r)
      else if v4 then None
      else case strip_prefix ''::'' r of
             None \<Rightarrow> None
           | Some r' \<Rightarrow>
               (let (back, _, r'') = read_groups (7 - length front) 0 r'
                in Some (front @ replicate (8 - length front - length back) 0 @ back, r'')))"

definition groups_word :: "nat list \<Rightarrow> 128 word" where
  "groups_word gs = of_nat (foldl (\<lambda>acc g. acc * 65536 + g) 0 gs)"

definition parse_ip :: "string \<Rightarrow> ip_addr option" where
  "parse_ip s =
     (case read_ipv4 s of
        Some (a, r) \<Rightarrow> if r = [] then Some (V4 (of_nat a)) else None
      | None \<Rightarrow> (case read_ipv6 s of
                  Some (gs, r) \<Rightarrow> if r = [] then Some (V6 (groups_word gs)) else None
                | None \<Rightarrow> None))"

section \<open>Address blocks\<close>

text \<open>\<open>to_ipv4_mapped\<close>: \<open>::ffff:a.b.c.d\<close>.\<close>

definition canonical :: "ip_addr \<Rightarrow> ip_addr" where
  "canonical ip =
     (case ip of
        V6 a \<Rightarrow> if drop_bit 32 a = 0xFFFF then V4 (ucast a) else V6 a
      | V4 a \<Rightarrow> V4 a)"

text \<open>The shift count never exceeds the width: a parsed prefix is at most the width.\<close>

definition mask_ip :: "ip_addr \<Rightarrow> nat \<Rightarrow> ip_addr" where
  "mask_ip ip pre =
     (case ip of
        V4 a \<Rightarrow> V4 (a AND (if pre = 0 then 0 else push_bit (32 - pre) (- 1)))
      | V6 a \<Rightarrow> V6 (a AND (if pre = 0 then 0 else push_bit (128 - pre) (- 1))))"

record cidr =
  cidr_net :: ip_addr
  cidr_prefix :: nat

definition parse_cidr :: "string \<Rightarrow> limit_error + cidr" where
  "parse_cidr s0 =
     (let s = trim s0;
          (addr, pre) = (case split_once (CHR ''/'') s of Some (a, p) \<Rightarrow> (a, Some p) | None \<Rightarrow> (s, None))
      in case parse_ip (trim addr) of
           None \<Rightarrow> Inl (Cidr_Address addr)
         | Some ip \<Rightarrow>
             (let net = canonical ip; mx = (if is_ipv4 net then 32 else 128)
              in case pre of
                   None \<Rightarrow> Inr \<lparr>cidr_net = mask_ip net mx, cidr_prefix = mx\<rparr>
                 | Some p \<Rightarrow>
                     (case parse_unsigned 255 (trim p) of
                        None \<Rightarrow> Inl (Cidr_Prefix s)
                      | Some n \<Rightarrow> if n \<le> mx then Inr \<lparr>cidr_net = mask_ip net n, cidr_prefix = n\<rparr>
                                  else Inl (Cidr_Prefix s))))"

definition cidr_contains :: "cidr \<Rightarrow> ip_addr \<Rightarrow> bool" where
  "cidr_contains c ip0 =
     (let ip = canonical ip0
      in is_ipv4 ip = is_ipv4 (cidr_net c) \<and> mask_ip ip (cidr_prefix c) = cidr_net c)"

section \<open>Who the client is\<close>

definition is_trusted :: "cidr list \<Rightarrow> ip_addr \<Rightarrow> bool" where
  "is_trusted trusted ip = list_ex (\<lambda>c. cidr_contains c ip) trusted"

text \<open>The walk over the entries, already in the order from the right.\<close>

fun walk :: "cidr list \<Rightarrow> ip_addr \<Rightarrow> string list \<Rightarrow> ip_addr" where
  "walk trusted client [] = client"
| "walk trusted client (e # es) =
     (case parse_ip e of
        None \<Rightarrow> client
      | Some ip \<Rightarrow> if is_trusted trusted (canonical ip) then walk trusted (canonical ip) es
                   else canonical ip)"

definition entries :: "string \<Rightarrow> string list" where
  "entries xff = filter (\<lambda>e. e \<noteq> []) (map trim (rev (split_on (CHR '','') xff)))"

definition client_ip :: "ip_addr \<Rightarrow> string option \<Rightarrow> cidr list \<Rightarrow> ip_addr" where
  "client_ip peer0 forwarded_for trusted =
     (let peer = canonical peer0
      in if \<not> is_trusted trusted peer then peer
         else walk trusted peer (entries (case forwarded_for of None \<Rightarrow> [] | Some h \<Rightarrow> h)))"

definition bucket :: "ip_addr \<Rightarrow> ip_addr" where
  "bucket ip = (case canonical ip of V6 a \<Rightarrow> mask_ip (V6 a) 64 | V4 a \<Rightarrow> V4 a)"

section \<open>Lemmas\<close>

lemma canonical_simps [simp]: "canonical (V4 a) = V4 a" "canonical (canonical ip) = canonical ip"
  by (auto simp: canonical_def split: ip_addr.splits)

lemma mask_zero_width:
  "(if pre = 0 then 0 else push_bit (32 - pre) (- 1 :: 32 word)) = NOT (mask (32 - pre))"
  "(if pre = 0 then 0 else push_bit (128 - pre) (- 1 :: 128 word)) = NOT (mask (128 - pre))"
  by (auto intro!: bit_eqI simp: bit_not_iff bit_mask_iff)

lemma mask_ip_simps [simp]:
  "mask_ip (V4 a) pre = V4 (a AND NOT (mask (32 - pre)))"
  "mask_ip (V6 b) pre = V6 (b AND NOT (mask (128 - pre)))"
  by (simp_all only: mask_ip_def ip_addr.case mask_zero_width)

lemma is_ipv4_mask [simp]: "is_ipv4 (mask_ip ip pre) = is_ipv4 ip"
  by (cases ip) simp_all

lemma and_mask_eq_iff:
  fixes a b :: "'a :: len word"
  shows "a AND NOT (mask k) = b AND NOT (mask k) \<longleftrightarrow> drop_bit k a = drop_bit k b"
proof -
  have *: "x AND NOT (mask k) = push_bit k (drop_bit k x)" for x :: "'a word"
    by (rule bit_eqI) (auto simp: bit_and_iff bit_not_iff bit_mask_iff bit_push_bit_iff bit_drop_bit_eq)
  have "drop_bit k (push_bit k (drop_bit k x)) = drop_bit k x" for x :: "'a word"
    by (rule bit_eqI) (auto simp: bit_push_bit_iff bit_drop_bit_eq dest: bit_imp_le_length)
  with * show ?thesis by metis
qed

lemma mask_idem [simp]: "mask_ip (mask_ip ip pre) pre = mask_ip ip pre"
  by (cases ip) (simp_all add: and.assoc)

lemma parse_cidr_masked:
  "parse_cidr s = Inr c \<Longrightarrow>
     \<exists>ip. cidr_net c = mask_ip ip (cidr_prefix c) \<and> cidr_prefix c \<le> (if is_ipv4 ip then 32 else 128)"
  by (auto simp: parse_cidr_def Let_def split: option.splits if_splits prod.splits)

lemma split_on_append_sep: "split_on c (a @ c # b) = split_on c a @ split_on c b"
proof (induction a)
  case (Cons x a)
  then show ?case by (cases "split_on c a") auto
qed simp

lemma entries_append: "entries (a @ '','' @ b) = entries b @ entries a"
  by (simp add: entries_def split_on_append_sep)

lemma walk_append:
  "is_trusted ts p \<Longrightarrow> \<not> is_trusted ts (walk ts p es) \<Longrightarrow> walk ts p (es @ fs) = walk ts p es"
  by (induction es arbitrary: p) (auto split: option.splits)

lemma walk_vouched:
  "walk ts p es = p \<or>
   (\<exists>before e after ip. es = before @ e # after \<and> parse_ip e = Some ip \<and> canonical ip = walk ts p es \<and>
      (\<forall>x \<in> set before. \<exists>hop. parse_ip x = Some hop \<and> is_trusted ts (canonical hop)))"
proof (induction es arbitrary: p)
  case (Cons e es)
  show ?case
  proof (cases "parse_ip e")
    case (Some ip)
    show ?thesis
    proof (cases "is_trusted ts (canonical ip)")
      case True
      from Cons.IH [of "canonical ip"] show ?thesis
      proof (elim disjE exE conjE)
        assume "walk ts (canonical ip) es = canonical ip"
        with Some True show ?thesis
          by (intro disjI2 exI [of _ "[]"] exI [of _ e] exI [of _ es] exI [of _ ip]) simp
      next
        fix before e' after ip'
        assume "es = before @ e' # after" "parse_ip e' = Some ip'" "canonical ip' = walk ts (canonical ip) es"
          "\<forall>x \<in> set before. \<exists>hop. parse_ip x = Some hop \<and> is_trusted ts (canonical hop)"
        with Some True show ?thesis
          by (intro disjI2 exI [of _ "e # before"] exI [of _ e'] exI [of _ after] exI [of _ ip']) simp
      qed
    next
      case False
      with Some show ?thesis
        by (intro disjI2 exI [of _ "[]"] exI [of _ e] exI [of _ es] exI [of _ ip]) simp
    qed
  qed simp
qed simp

section \<open>Properties\<close>

text \<open>
  C27. A forged \<open>X-Forwarded-For\<close> does not help: once the walk over the header ends at an
  address that is no trusted proxy, nothing that stands further left in the header, the part a
  client writes itself, changes who the request is charged to.
\<close>

theorem forged_entries_are_ignored:
  assumes "\<not> is_trusted trusted (client_ip peer (Some header) trusted)"
  shows "client_ip peer (Some (forged @ '','' @ header)) trusted = client_ip peer (Some header) trusted"
  using assms by (auto simp: client_ip_def Let_def entries_append [simplified] walk_append)

definition demo_block :: cidr where
  "demo_block = \<lparr>cidr_net = V4 0x0A000000, cidr_prefix = 8\<rparr>"

theorem forged_entries_are_ignored_witness:
  "client_ip (V4 0x0A000002) (Some (''6.6.6.6'' @ '','' @ ''198.51.100.7, 10.0.0.5'')) [demo_block] = V4 0xC6336407"
proof -
  have c: "client_ip (V4 0x0A000002) (Some ''198.51.100.7, 10.0.0.5'') [demo_block] = V4 0xC6336407"
    "\<not> is_trusted [demo_block] (V4 0xC6336407)"
    by code_simp+
  then have "\<not> is_trusted [demo_block] (client_ip (V4 0x0A000002) (Some ''198.51.100.7, 10.0.0.5'') [demo_block])"
    by simp
  from forged_entries_are_ignored [OF this, of "''6.6.6.6''"] c show ?thesis by (simp only:)
qed

text \<open>
  Every hop is vouched for: an address other than the peer's own is taken from the header
  only when the peer is a trusted proxy and every entry to the right of the one that names it
  was an address of a trusted proxy as well.
\<close>

theorem client_is_vouched_for:
  assumes "client_ip peer (Some header) trusted \<noteq> canonical peer"
  shows "is_trusted trusted (canonical peer)
     \<and> (\<exists>right e left ip. entries header = right @ e # left \<and> parse_ip e = Some ip
           \<and> canonical ip = client_ip peer (Some header) trusted
           \<and> (\<forall>x \<in> set right. \<exists>hop. parse_ip x = Some hop \<and> is_trusted trusted (canonical hop)))"
  using assms walk_vouched [of trusted "canonical peer" "entries header"]
  by (auto simp: client_ip_def Let_def split: if_splits)

theorem client_is_vouched_for_witness:
  "is_trusted [demo_block] (canonical (V4 0x0A000002)) \<and> (\<exists>right e left. entries ''198.51.100.7'' = right @ e # left)"
proof -
  have "client_ip (V4 0x0A000002) (Some ''198.51.100.7'') [demo_block] \<noteq> canonical (V4 0x0A000002)"
    by code_simp
  from client_is_vouched_for [OF this] show ?thesis by blast
qed

text \<open>
  What an address block contains: exactly the addresses of its family whose leading bits,
  as many as the prefix says, are the block's.
\<close>

theorem cidr_contains_leading_bits:
  assumes "parse_cidr s = Inr c"
  shows "cidr_contains c ip \<longleftrightarrow>
    (case (canonical ip, cidr_net c) of
       (V4 a, V4 n) \<Rightarrow> drop_bit (32 - cidr_prefix c) a = drop_bit (32 - cidr_prefix c) n
     | (V6 a, V6 n) \<Rightarrow> drop_bit (128 - cidr_prefix c) a = drop_bit (128 - cidr_prefix c) n
     | _ \<Rightarrow> False)"
proof -
  from parse_cidr_masked [OF assms] obtain net where n: "cidr_net c = mask_ip net (cidr_prefix c)"
    by blast
  then have "mask_ip (cidr_net c) (cidr_prefix c) = cidr_net c" by simp
  then have "cidr_contains c ip \<longleftrightarrow> is_ipv4 (canonical ip) = is_ipv4 (cidr_net c)
      \<and> mask_ip (canonical ip) (cidr_prefix c) = mask_ip (cidr_net c) (cidr_prefix c)"
    by (simp add: cidr_contains_def Let_def)
  then show ?thesis
    by (cases "canonical ip"; cases "cidr_net c") (simp_all add: and_mask_eq_iff)
qed

theorem cidr_contains_leading_bits_witness:
  "\<exists>c. parse_cidr ''10.1.2.3/8'' = Inr c \<and> cidr_contains c (V4 0x0AFF0001) \<and> \<not> cidr_contains c (V4 0x0B000001)"
proof -
  have p: "parse_cidr ''10.1.2.3/8'' = Inr demo_block" by code_simp
  note r = cidr_contains_leading_bits [OF p]
  have "cidr_contains demo_block (V4 0x0AFF0001)" "\<not> cidr_contains demo_block (V4 0x0B000001)"
    unfolding r by code_simp+
  with p show ?thesis by blast
qed

text \<open>
  Two addresses share a bucket exactly when they are the same IPv4 address, mapped or not,
  or IPv6 addresses of one /64.
\<close>

theorem bucket_eq_iff:
  "bucket a = bucket b \<longleftrightarrow>
    (case (canonical a, canonical b) of
       (V4 x, V4 y) \<Rightarrow> x = y
     | (V6 x, V6 y) \<Rightarrow> drop_bit 64 x = drop_bit 64 y
     | _ \<Rightarrow> False)"
  by (cases "canonical a"; cases "canonical b") (simp_all add: bucket_def and_mask_eq_iff)

end
