(* ===== verification/Webhook_Guard.thy ===== *)
theory Webhook_Guard
  imports Subscriptions Net_Addr Errors
begin

unbundle bit_operations_syntax

text \<open>
  The outbound half of \<open>src/api/subscriptions.rs\<close>: the delivery settings, which targets a
  webhook may have (checked when it is registered and again at every attempt), the signature,
  and one attempt. URL parsing, DNS, sending, SHA-256, hex and the printed forms of addresses
  and status codes belong to libraries and are arguments.
\<close>

section \<open>Settings\<close>

record webhook_settings =
  wh_enabled :: bool
  allow_http :: bool
  allow_private_targets :: bool
  wh_timeout :: nat
  wh_batch :: int
  max_response_bytes :: nat
  wh_tick :: nat

definition default_webhook_settings :: webhook_settings where
  "default_webhook_settings = \<lparr>wh_enabled = True, allow_http = False, allow_private_targets = False,
     wh_timeout = 5 * 10 ^ 9, wh_batch = 20, max_response_bytes = 2048, wh_tick = 5 * 10 ^ 9\<rparr>"

definition wh_env_bool :: "environment \<Rightarrow> string \<Rightarrow> bool \<Rightarrow> bool" where
  "wh_env_bool e key dflt =
     (case map_option (\<lambda>v. to_ascii_lowercase (trim v)) (env e key) of
        Some v \<Rightarrow> v = ''1'' \<or> v = ''true'' \<or> v = ''yes'' \<or> v = ''on''
      | None \<Rightarrow> dflt)"

definition wh_env_i64 :: "environment \<Rightarrow> string \<Rightarrow> int \<Rightarrow> int" where
  "wh_env_i64 e key dflt =
     (case env e key of None \<Rightarrow> dflt | Some v \<Rightarrow> (case parse_i64 (trim v) of None \<Rightarrow> dflt | Some n \<Rightarrow> n))"

definition wh_env_duration :: "environment \<Rightarrow> string \<Rightarrow> nat \<Rightarrow> nat" where
  "wh_env_duration e key dflt =
     (case env e key of None \<Rightarrow> dflt | Some v \<Rightarrow> (case parse_duration v of Inl _ \<Rightarrow> dflt | Inr d \<Rightarrow> d))"

definition webhook_settings_from_env :: "environment \<Rightarrow> webhook_settings" where
  "webhook_settings_from_env e =
     (let d = default_webhook_settings in
      \<lparr>wh_enabled = wh_env_bool e ''TAR_SUBSCRIPTION_WEBHOOKS'' (wh_enabled d),
       allow_http = wh_env_bool e ''TAR_SUBSCRIPTION_ALLOW_HTTP'' (allow_http d),
       allow_private_targets = wh_env_bool e ''TAR_SUBSCRIPTION_ALLOW_PRIVATE_TARGETS'' (allow_private_targets d),
       wh_timeout = min (wh_env_duration e ''TAR_SUBSCRIPTION_TIMEOUT'' (wh_timeout d)) (30 * 10 ^ 9),
       wh_batch = clamp 1 500 (wh_env_i64 e ''TAR_SUBSCRIPTION_BATCH'' (wh_batch d)),
       max_response_bytes = max_response_bytes d,
       wh_tick = max (wh_env_duration e ''TAR_SUBSCRIPTION_TICK'' (wh_tick d)) (1 * 10 ^ 9)\<rparr>)"

section \<open>Public addresses\<close>

definition octet :: "nat \<Rightarrow> 32 word \<Rightarrow> nat" where
  "octet i a = unat (drop_bit (24 - 8 * i) a) mod 256"

text \<open>The predicates of \<open>std::net::Ipv4Addr\<close>.\<close>

definition is_private_v4 :: "32 word \<Rightarrow> bool" where
  "is_private_v4 a \<longleftrightarrow>
     octet 0 a = 10 \<or> (octet 0 a = 172 \<and> 16 \<le> octet 1 a \<and> octet 1 a \<le> 31) \<or> (octet 0 a = 192 \<and> octet 1 a = 168)"

definition is_documentation_v4 :: "32 word \<Rightarrow> bool" where
  "is_documentation_v4 a \<longleftrightarrow>
     (octet 0 a = 192 \<and> octet 1 a = 0 \<and> octet 2 a = 2) \<or> (octet 0 a = 198 \<and> octet 1 a = 51 \<and> octet 2 a = 100)
     \<or> (octet 0 a = 203 \<and> octet 1 a = 0 \<and> octet 2 a = 113)"

definition is_multicast_v4 :: "32 word \<Rightarrow> bool" where
  "is_multicast_v4 a \<longleftrightarrow> 224 \<le> octet 0 a \<and> octet 0 a \<le> 239"

definition is_public_v4 :: "32 word \<Rightarrow> bool" where
  "is_public_v4 a \<longleftrightarrow>
     \<not> (is_private_v4 a
        \<or> octet 0 a = 127
        \<or> (octet 0 a = 169 \<and> octet 1 a = 254)
        \<or> a = - 1
        \<or> is_documentation_v4 a
        \<or> a = 0
        \<or> is_multicast_v4 a
        \<or> (octet 0 a = 100 \<and> 64 \<le> octet 1 a \<and> octet 1 a < 128)
        \<or> (octet 0 a = 192 \<and> octet 1 a = 0 \<and> octet 2 a = 0)
        \<or> (octet 0 a = 198 \<and> (octet 1 a = 18 \<or> octet 1 a = 19))
        \<or> 240 \<le> octet 0 a)"

definition first_segment :: "128 word \<Rightarrow> 16 word" where
  "first_segment a = ucast (drop_bit 112 a)"

definition is_public_ip :: "ip_addr \<Rightarrow> bool" where
  "is_public_ip ip =
     (case ip of
        V4 a \<Rightarrow> is_public_v4 a
      | V6 a \<Rightarrow>
          \<not> (a = 1
             \<or> a = 0
             \<or> first_segment a AND 0xFF00 = 0xFF00
             \<or> first_segment a AND 0xFE00 = 0xFC00
             \<or> first_segment a AND 0xFFC0 = 0xFE80
             \<or> (case canonical (V6 a) of V4 m \<Rightarrow> \<not> is_public_v4 m | V6 _ \<Rightarrow> False)))"

section \<open>Registering a target\<close>

text \<open>What the code reads of a parsed \<open>url::Url\<close>.\<close>

record url_parts =
  u_scheme :: string
  u_username :: string
  u_password :: "string option"
  u_host :: "string option"
  u_is_address :: bool
  u_port :: "nat option"
  u_text :: string

record url_library =
  url_parse :: "string \<Rightarrow> string + url_parts"
  show_ip :: "ip_addr \<Rightarrow> string"
  debug_str :: "string \<Rightarrow> string"

definition is_bracket :: "char \<Rightarrow> bool" where
  "is_bracket c \<longleftrightarrow> c = CHR ''['' \<or> c = CHR '']''"

definition trim_brackets :: "string \<Rightarrow> string" where
  "trim_brackets s = rev (dropWhile is_bracket (rev (dropWhile is_bracket s)))"

definition is_private_name :: "string \<Rightarrow> bool" where
  "is_private_name host =
     (let lower = to_ascii_lowercase host in
      lower = ''localhost'' \<or> suffix ''.localhost'' lower \<or> suffix ''.local'' lower \<or> suffix ''.internal'' lower)"

definition validate_webhook_url :: "url_library \<Rightarrow> string \<Rightarrow> webhook_settings \<Rightarrow> app_error + string" where
  "validate_webhook_url lib raw settings =
     (case url_parse lib raw of
        Inl e \<Rightarrow> Inl (bad_request (''webhook_url is not a URL: '' @ e))
      | Inr url \<Rightarrow>
          if u_scheme url \<noteq> ''https'' \<and> u_scheme url \<noteq> ''http''
          then Inl (bad_request (''webhook_url scheme '' @ debug_str lib (u_scheme url) @ '' is not supported; use https''))
          else if u_scheme url = ''http'' \<and> \<not> allow_http settings
          then Inl (bad_request ''webhook_url must be https: an unencrypted webhook leaks the artifact metadata and the signature to anyone on the path (set TAR_SUBSCRIPTION_ALLOW_HTTP=true for a trusted network)'')
          else if u_username url \<noteq> [] \<or> u_password url \<noteq> None
          then Inl (bad_request ''webhook_url must not carry credentials; sign-in is the receiver's job, and the URL is shown in the UI'')
          else case u_host url of
            None \<Rightarrow> Inl (bad_request ''webhook_url has no host'')
          | Some host \<Rightarrow>
              if \<not> allow_private_targets settings
                 \<and> (case parse_ip (trim_brackets host) of Some ip \<Rightarrow> \<not> is_public_ip ip | None \<Rightarrow> False)
              then Inl (bad_request (''webhook_url points at ''
                     @ (case parse_ip (trim_brackets host) of Some ip \<Rightarrow> show_ip lib ip | None \<Rightarrow> [])
                     @ '', which is not a public address; the registry will not be used to reach into a private network''))
              else if \<not> allow_private_targets settings \<and> is_private_name host
              then Inl (bad_request (''webhook_url host '' @ debug_str lib host
                     @ '' is a private name; the registry only delivers to public addresses''))
              else Inr (u_text url))"

section \<open>Connecting\<close>

text \<open>\<open>resolve_public_targets\<close>: the approved addresses; the DNS lookup is an argument.\<close>

definition resolve_public_targets ::
  "url_library \<Rightarrow> (string \<Rightarrow> nat \<Rightarrow> string + ip_addr list) \<Rightarrow> url_parts \<Rightarrow> webhook_settings \<Rightarrow> string + ip_addr list" where
  "resolve_public_targets lib lookup url settings =
     (if allow_private_targets settings then Inr []
      else case u_host url of
        None \<Rightarrow> Inl ''webhook URL has no host''
      | Some host \<Rightarrow>
          (case lookup (trim_brackets host) (case u_port url of None \<Rightarrow> 443 | Some p \<Rightarrow> p) of
             Inl e \<Rightarrow> Inl (''could not resolve '' @ host @ '': '' @ e)
           | Inr addrs \<Rightarrow>
               (case find (\<lambda>a. \<not> is_public_ip a) addrs of
                  Some a \<Rightarrow> Inl (host @ '' resolves to '' @ show_ip lib a
                               @ '', which is not a public address; refusing to connect'')
                | None \<Rightarrow> if addrs = [] then Inl (host @ '' resolved to no addresses'') else Inr addrs)))"

text \<open>The shared client resolves names itself; a pinned one connects to the given addresses only.\<close>

datatype http_client = Shared_Client | Pinned_Client string "ip_addr list"

definition pinned_client :: "url_parts \<Rightarrow> ip_addr list \<Rightarrow> string + http_client" where
  "pinned_client url pinned =
     (if pinned = [] then Inr Shared_Client
      else case u_host url of
        None \<Rightarrow> Inl ''webhook URL has no host''
      | Some host \<Rightarrow> if u_is_address url then Inr Shared_Client
                     else Inr (Pinned_Client (trim_brackets host) pinned))"

section \<open>The signature\<close>

text \<open>\<open>hmac_sha256\<close> on byte strings, with the digest as an argument.\<close>

definition xor_byte :: "char \<Rightarrow> char \<Rightarrow> char" where
  "xor_byte a b = char_of (byte a XOR byte b)"

definition hmac_sha256 :: "(string \<Rightarrow> string) \<Rightarrow> string \<Rightarrow> string \<Rightarrow> string" where
  "hmac_sha256 sha256 key msg =
     (let zeros = replicate 64 (CHR 0x00);
          k = (if 64 < length key then sha256 key @ drop 32 zeros else key @ drop (length key) zeros);
          (ipad, opad) = fold (\<lambda>i (ip, op).
              (ip[i := xor_byte (ip ! i) (k ! i)], op[i := xor_byte (op ! i) (k ! i)]))
            [0..<64] (replicate 64 (CHR 0x36), replicate 64 (CHR 0x5c));
          inner = sha256 (ipad @ msg)
      in sha256 (opad @ inner))"

section \<open>One attempt\<close>

datatype send_error = Send_Timeout | Send_Connect string | Send_Redirect | Send_Other string

definition describe_send_error :: "send_error \<Rightarrow> string" where
  "describe_send_error e =
     (case e of
        Send_Timeout \<Rightarrow> ''receiver did not answer within the delivery timeout''
      | Send_Connect t \<Rightarrow> ''could not connect to the receiver: '' @ t
      | Send_Redirect \<Rightarrow> ''receiver redirected; the registry does not follow webhook redirects''
      | Send_Other t \<Rightarrow> ''delivery failed: '' @ t)"

record webhook_request =
  wr_client :: http_client
  wr_url :: url_parts
  wr_timeout :: nat
  wr_headers :: "string \<rightharpoonup> string"
  wr_body :: string

record delivery_error =
  de_message :: string
  de_status :: "nat option"

record send_world =
  sw_lib :: url_library
  sw_lookup :: "string \<Rightarrow> nat \<Rightarrow> string + ip_addr list"
  sw_send :: "webhook_request \<Rightarrow> send_error + (nat \<times> string)"
  sw_sha256 :: "string \<Rightarrow> string"
  sw_hex :: "string \<Rightarrow> string"
  sw_json :: "json \<Rightarrow> string"
  sw_show_status :: "nat \<Rightarrow> string"
  sw_timestamp :: int

definition build_webhook_request :: "send_world \<Rightarrow> due_delivery \<Rightarrow> webhook_settings \<Rightarrow> url_parts \<Rightarrow> http_client \<Rightarrow> webhook_request" where
  "build_webhook_request w d settings url client =
     (let ts = show_int (sw_timestamp w); body = sw_json w (due_payload d);
          hdrs = [''content-type'' \<mapsto> ''application/json'', ''x-tar-delivery'' \<mapsto> due_id d,
                  ''x-tar-subscription'' \<mapsto> due_subscription d, ''x-tar-timestamp'' \<mapsto> ts,
                  ''x-tar-attempt'' \<mapsto> show_int (due_attempts d + 1)]
      in \<lparr>wr_client = client, wr_url = url, wr_timeout = wh_timeout settings,
          wr_headers = (case due_secret d of
             None \<Rightarrow> hdrs
           | Some s \<Rightarrow> hdrs(''x-tar-signature'' \<mapsto>
               ''sha256='' @ sw_hex w (hmac_sha256 (sw_sha256 w) s (ts @ ''.'' @ body)))),
          wr_body = body\<rparr>)"

definition prepare_webhook :: "send_world \<Rightarrow> due_delivery \<Rightarrow> webhook_settings \<Rightarrow> delivery_error + webhook_request" where
  "prepare_webhook w d settings =
     (let fail = (\<lambda>m. Inl \<lparr>de_message = m, de_status = None\<rparr>) in
      case url_parse (sw_lib w) (due_url d) of
        Inl e \<Rightarrow> fail (''webhook URL is no longer valid: '' @ e)
      | Inr url \<Rightarrow>
          (case resolve_public_targets (sw_lib w) (sw_lookup w) url settings of
             Inl m \<Rightarrow> fail m
           | Inr pinned \<Rightarrow>
               (case pinned_client url pinned of
                  Inl m \<Rightarrow> fail m
                | Inr client \<Rightarrow> Inr (build_webhook_request w d settings url client))))"

definition post_webhook :: "send_world \<Rightarrow> due_delivery \<Rightarrow> webhook_settings \<Rightarrow> delivery_error + nat" where
  "post_webhook w d settings =
     (case prepare_webhook w d settings of
        Inl e \<Rightarrow> Inl e
      | Inr req \<Rightarrow>
          (case sw_send w req of
             Inl e \<Rightarrow> Inl \<lparr>de_message = describe_send_error e, de_status = None\<rparr>
           | Inr (code, body) \<Rightarrow>
               if 200 \<le> code \<and> code < 300 then Inr code
               else let excerpt = take_chars (min (max_response_bytes settings) 400) body in
                    Inl \<lparr>de_message = (if trim excerpt = [] then ''receiver answered '' @ sw_show_status w code
                           else ''receiver answered '' @ sw_show_status w code @ '': ''
                                  @ map (\<lambda>c. if c = CHR 0x0A then CHR '' '' else c) excerpt),
                         de_status = Some code\<rparr>))"

definition new_secret :: "(string \<Rightarrow> string) \<Rightarrow> string \<Rightarrow> string" where
  "new_secret hex random_bytes = ''whsec_'' @ hex random_bytes"

section \<open>Lemmas\<close>

lemma cidr_contains_v4:
  assumes "b AND NOT (mask (32 - p)) = b"
  shows "cidr_contains \<lparr>cidr_net = V4 b, cidr_prefix = p\<rparr> (V4 a)
     \<longleftrightarrow> unat a div 2 ^ (32 - p) = unat b div 2 ^ (32 - p)"
proof -
  have "cidr_contains \<lparr>cidr_net = V4 b, cidr_prefix = p\<rparr> (V4 a)
      \<longleftrightarrow> a AND NOT (mask (32 - p)) = b AND NOT (mask (32 - p))"
    by (simp add: cidr_contains_def Let_def assms)
  also have "\<dots> \<longleftrightarrow> drop_bit (32 - p) a = drop_bit (32 - p) b" by (rule and_mask_eq_iff)
  also have "\<dots> \<longleftrightarrow> unat (drop_bit (32 - p) a) = unat (drop_bit (32 - p) b)" by (simp add: word_eq_iff_unsigned)
  finally show ?thesis by (simp only: unat_drop_bit_eq) (simp only: drop_bit_eq_div)
qed

definition block :: "32 word \<Rightarrow> nat \<Rightarrow> cidr" where
  "block b p = \<lparr>cidr_net = V4 b, cidr_prefix = p\<rparr>"

text \<open>The blocks of the special-purpose registry the guard means to refuse.\<close>

definition reserved_blocks :: "cidr list" where
  "reserved_blocks =
     [block 0x0A000000 8, block 0xAC100000 12, block 0xC0A80000 16, block 0x7F000000 8, block 0xA9FE0000 16,
      block 0xFFFFFFFF 32, block 0xC0000200 24, block 0xC6336400 24, block 0xCB007100 24, block 0 32,
      block 0xE0000000 4, block 0x64400000 10, block 0xC0000000 24, block 0xC6120000 15, block 0xF0000000 4]"

lemma octet_div: "octet i a = unat a div 2 ^ (24 - 8 * i) mod 256"
  unfolding octet_def unat_drop_bit_eq by (simp only: drop_bit_eq_div)

text \<open>An address in its four octets.\<close>

lemma four_octets:
  fixes a :: "32 word"
  defines "n \<equiv> unat a"
  shows "n div 2 ^ 24 = octet 0 a" "n div 2 ^ 16 = octet 0 a * 256 + octet 1 a"
    "n div 2 ^ 8 = (octet 0 a * 256 + octet 1 a) * 256 + octet 2 a"
    "n = ((octet 0 a * 256 + octet 1 a) * 256 + octet 2 a) * 256 + octet 3 a"
proof -
  have "n < 2 ^ LENGTH(32)" unfolding n_def by (rule unsigned_less)
  then have "n div 2 ^ 24 < 256" by simp
  then show 0: "n div 2 ^ 24 = octet 0 a" by (simp add: octet_div n_def)
  have "n div 2 ^ 16 = n div 2 ^ 16 div 256 * 256 + n div 2 ^ 16 mod 256" by simp
  also have "n div 2 ^ 16 div 256 = n div 2 ^ 24" by (simp add: div_mult2_eq [symmetric])
  finally show 1: "n div 2 ^ 16 = octet 0 a * 256 + octet 1 a" 
    unfolding 0 by (simp add: octet_div [of "Suc 0"] n_def)
  have "n div 2 ^ 8 = n div 2 ^ 8 div 256 * 256 + n div 2 ^ 8 mod 256" by simp
  also have "n div 2 ^ 8 div 256 = n div 2 ^ 16" by (simp add: div_mult2_eq [symmetric])
  finally show 2: "n div 2 ^ 8 = (octet 0 a * 256 + octet 1 a) * 256 + octet 2 a"
    unfolding 1 by (simp add: octet_div [of 2] n_def)
  have "n = n div 2 ^ 8 * 256 + n mod 256" by simp
  then show "n = ((octet 0 a * 256 + octet 1 a) * 256 + octet 2 a) * 256 + octet 3 a"
    unfolding 2 by (simp add: octet_div [of 3] n_def)
qed

lemma octet_less [simp]: "octet i a < 256"
  by (simp add: octet_div)

text \<open>The blocks in octets.\<close>

lemma part_of_octet:
  fixes x y k r :: nat
  assumes "y < 256" "r < q" "256 = m * q" "0 < m"
  shows "(x * 256 + y) div m = k * q + r \<longleftrightarrow> x = k \<and> y div m = r"
proof -
  have "(x * 256 + y) div m = x * q + y div m"
  proof -
    have "x * 256 + y = m * (x * q) + y" unfolding assms(3) by (simp only: mult_ac)
    with assms(4) show ?thesis by (simp only: div_mult_self4 [OF less_imp_neq [OF assms(4), symmetric]])
  qed
  moreover have s: "y div m < q" using assms by (simp add: less_mult_imp_div_less mult.commute)
  moreover have "x * q + y div m = k * q + r \<longleftrightarrow> x = k \<and> y div m = r"
  proof
    assume e: "x * q + y div m = k * q + r"
    then have "(x * q + y div m) div q = (k * q + r) div q" by (rule arg_cong)
    with s assms(2) have "x = k" by simp
    with e show "x = k \<and> y div m = r" by simp
  qed simp
  ultimately show ?thesis by simp
qed

lemma octet_pair:
  fixes x y k r :: nat
  assumes "y < 256" "r < 256"
  shows "x * 256 + y = k * 256 + r \<longleftrightarrow> x = k \<and> y = r"
  using part_of_octet [of y r 256 1 x k] assms by simp

lemma in_block:
  assumes "b AND NOT (mask (32 - p)) = b"
  shows "cidr_contains (block b p) (V4 a) \<longleftrightarrow> unat a div 2 ^ (32 - p) = unat b div 2 ^ (32 - p)"
  unfolding block_def by (rule cidr_contains_v4) (rule assms)

lemma in_blocks:
  "cidr_contains (block 0x0A000000 8) (V4 a) \<longleftrightarrow> octet 0 a = 10"
  "cidr_contains (block 0x7F000000 8) (V4 a) \<longleftrightarrow> octet 0 a = 127"
  "cidr_contains (block 0xE0000000 4) (V4 a) \<longleftrightarrow> octet 0 a div 16 = 14"
  "cidr_contains (block 0xF0000000 4) (V4 a) \<longleftrightarrow> octet 0 a div 16 = 15"
  "cidr_contains (block 0xAC100000 12) (V4 a) \<longleftrightarrow> octet 0 a = 172 \<and> octet 1 a div 16 = 1"
  "cidr_contains (block 0x64400000 10) (V4 a) \<longleftrightarrow> octet 0 a = 100 \<and> octet 1 a div 64 = 1"
  "cidr_contains (block 0xC6120000 15) (V4 a) \<longleftrightarrow> octet 0 a = 198 \<and> octet 1 a div 2 = 9"
  "cidr_contains (block 0xC0A80000 16) (V4 a) \<longleftrightarrow> octet 0 a = 192 \<and> octet 1 a = 168"
  "cidr_contains (block 0xA9FE0000 16) (V4 a) \<longleftrightarrow> octet 0 a = 169 \<and> octet 1 a = 254"
proof -
  note o = four_octets(1-3) [of a]
  have d: "unat a div 2 ^ 20 = unat a div 2 ^ 16 div 16" "unat a div 2 ^ 22 = unat a div 2 ^ 16 div 64"
    "unat a div 2 ^ 17 = unat a div 2 ^ 16 div 2" "unat a div 2 ^ 28 = unat a div 2 ^ 24 div 16"
    by (simp_all add: div_mult2_eq [symmetric])
  have "cidr_contains (block 0x0A000000 8) (V4 a) \<longleftrightarrow> unat a div 2 ^ 24 = 10"
    by (subst in_block) (simp_all add: mask_eq_exp_minus_1)
  then show "cidr_contains (block 0x0A000000 8) (V4 a) \<longleftrightarrow> octet 0 a = 10" unfolding o .
  have "cidr_contains (block 0x7F000000 8) (V4 a) \<longleftrightarrow> unat a div 2 ^ 24 = 127"
    by (subst in_block) (simp_all add: mask_eq_exp_minus_1)
  then show "cidr_contains (block 0x7F000000 8) (V4 a) \<longleftrightarrow> octet 0 a = 127" unfolding o .
  have "cidr_contains (block 0xE0000000 4) (V4 a) \<longleftrightarrow> unat a div 2 ^ 28 = 14"
    by (subst in_block) (simp_all add: mask_eq_exp_minus_1)
  then show "cidr_contains (block 0xE0000000 4) (V4 a) \<longleftrightarrow> octet 0 a div 16 = 14" unfolding d o .
  have "cidr_contains (block 0xF0000000 4) (V4 a) \<longleftrightarrow> unat a div 2 ^ 28 = 15"
    by (subst in_block) (simp_all add: mask_eq_exp_minus_1)
  then show "cidr_contains (block 0xF0000000 4) (V4 a) \<longleftrightarrow> octet 0 a div 16 = 15" unfolding d o .
  have "cidr_contains (block 0xAC100000 12) (V4 a) \<longleftrightarrow> unat a div 2 ^ 20 = 172 * 16 + 1"
    by (subst in_block) (simp_all add: mask_eq_exp_minus_1)
  then show "cidr_contains (block 0xAC100000 12) (V4 a) \<longleftrightarrow> octet 0 a = 172 \<and> octet 1 a div 16 = 1"
    unfolding d o by (subst (asm) part_of_octet) simp_all
  have "cidr_contains (block 0x64400000 10) (V4 a) \<longleftrightarrow> unat a div 2 ^ 22 = 100 * 4 + 1"
    by (subst in_block) (simp_all add: mask_eq_exp_minus_1)
  then show "cidr_contains (block 0x64400000 10) (V4 a) \<longleftrightarrow> octet 0 a = 100 \<and> octet 1 a div 64 = 1"
    unfolding d o by (subst (asm) part_of_octet) simp_all
  have "cidr_contains (block 0xC6120000 15) (V4 a) \<longleftrightarrow> unat a div 2 ^ 17 = 198 * 128 + 9"
    by (subst in_block) (simp_all add: mask_eq_exp_minus_1)
  then show "cidr_contains (block 0xC6120000 15) (V4 a) \<longleftrightarrow> octet 0 a = 198 \<and> octet 1 a div 2 = 9"
    unfolding d o by (subst (asm) part_of_octet) simp_all
  have "cidr_contains (block 0xC0A80000 16) (V4 a) \<longleftrightarrow> unat a div 2 ^ 16 = 192 * 256 + 168"
    by (subst in_block) (simp_all add: mask_eq_exp_minus_1)
  then show "cidr_contains (block 0xC0A80000 16) (V4 a) \<longleftrightarrow> octet 0 a = 192 \<and> octet 1 a = 168"
    unfolding o by (subst (asm) octet_pair) simp_all
  have "cidr_contains (block 0xA9FE0000 16) (V4 a) \<longleftrightarrow> unat a div 2 ^ 16 = 169 * 256 + 254"
    by (subst in_block) (simp_all add: mask_eq_exp_minus_1)
  then show "cidr_contains (block 0xA9FE0000 16) (V4 a) \<longleftrightarrow> octet 0 a = 169 \<and> octet 1 a = 254"
    unfolding o by (subst (asm) octet_pair) simp_all
qed

lemma in_small_blocks:
  "cidr_contains (block 0xC0000200 24) (V4 a) \<longleftrightarrow> octet 0 a = 192 \<and> octet 1 a = 0 \<and> octet 2 a = 2"
  "cidr_contains (block 0xC6336400 24) (V4 a) \<longleftrightarrow> octet 0 a = 198 \<and> octet 1 a = 51 \<and> octet 2 a = 100"
  "cidr_contains (block 0xCB007100 24) (V4 a) \<longleftrightarrow> octet 0 a = 203 \<and> octet 1 a = 0 \<and> octet 2 a = 113"
  "cidr_contains (block 0xC0000000 24) (V4 a) \<longleftrightarrow> octet 0 a = 192 \<and> octet 1 a = 0 \<and> octet 2 a = 0"
  "cidr_contains (block 0xFFFFFFFF 32) (V4 a) \<longleftrightarrow> a = - 1"
  "cidr_contains (block 0 32) (V4 a) \<longleftrightarrow> a = 0"
proof -
  have trip: "(x * 256 + y) * 256 + z = (k * 256 + r) * 256 + s \<longleftrightarrow> x = k \<and> y = r \<and> z = s"
    if "y < 256" "z < 256" "r < 256" "s < 256" for x y z k r s :: nat
    using octet_pair [of z s "x * 256 + y" "k * 256 + r"] octet_pair [of y r x k] that by simp
  note o = four_octets(3) [of a]
  have "cidr_contains (block 0xC0000200 24) (V4 a) \<longleftrightarrow> unat a div 2 ^ 8 = (192 * 256 + 0) * 256 + 2"
    by (subst in_block) (simp_all add: mask_eq_exp_minus_1)
  then show "cidr_contains (block 0xC0000200 24) (V4 a) \<longleftrightarrow> octet 0 a = 192 \<and> octet 1 a = 0 \<and> octet 2 a = 2"
    unfolding o by (subst (asm) trip) simp_all
  have "cidr_contains (block 0xC6336400 24) (V4 a) \<longleftrightarrow> unat a div 2 ^ 8 = (198 * 256 + 51) * 256 + 100"
    by (subst in_block) (simp_all add: mask_eq_exp_minus_1)
  then show "cidr_contains (block 0xC6336400 24) (V4 a) \<longleftrightarrow> octet 0 a = 198 \<and> octet 1 a = 51 \<and> octet 2 a = 100"
    unfolding o by (subst (asm) trip) simp_all
  have "cidr_contains (block 0xCB007100 24) (V4 a) \<longleftrightarrow> unat a div 2 ^ 8 = (203 * 256 + 0) * 256 + 113"
    by (subst in_block) (simp_all add: mask_eq_exp_minus_1)
  then show "cidr_contains (block 0xCB007100 24) (V4 a) \<longleftrightarrow> octet 0 a = 203 \<and> octet 1 a = 0 \<and> octet 2 a = 113"
    unfolding o by (subst (asm) trip) simp_all
  have "cidr_contains (block 0xC0000000 24) (V4 a) \<longleftrightarrow> unat a div 2 ^ 8 = (192 * 256 + 0) * 256 + 0"
    by (subst in_block) (simp_all add: mask_eq_exp_minus_1)
  then show "cidr_contains (block 0xC0000000 24) (V4 a) \<longleftrightarrow> octet 0 a = 192 \<and> octet 1 a = 0 \<and> octet 2 a = 0"
    unfolding o by (subst (asm) trip) simp_all
  show "cidr_contains (block 0xFFFFFFFF 32) (V4 a) \<longleftrightarrow> a = - 1"
    by (subst in_block) (simp_all add: word_eq_iff_unsigned [where ?'a = nat] unsigned_minus_1_eq_mask mask_eq_exp_minus_1)
  show "cidr_contains (block 0 32) (V4 a) \<longleftrightarrow> a = 0"
    by (subst in_block) (simp_all add: unat_eq_0)
qed

section \<open>Properties\<close>

text \<open>
  What the guard refuses in IPv4: an address is public exactly when it lies in none of the
  special-purpose blocks, that is loopback, private, link-local with the metadata service,
  shared, documentation, benchmarking, protocol assignments, multicast, reserved, the
  unspecified and the broadcast address.
\<close>

theorem public_v4_outside_reserved_blocks:
  "is_public_ip (V4 a) \<longleftrightarrow> (\<not> list_ex (\<lambda>c. cidr_contains c (V4 a)) reserved_blocks)"
proof -
  have "y div 16 = 1 \<longleftrightarrow> 16 \<le> y \<and> y \<le> 31" "y div 64 = 1 \<longleftrightarrow> 64 \<le> y \<and> y < 128" "y div 2 = 9 \<longleftrightarrow> y = 18 \<or> y = 19"
    "y div 16 = 14 \<longleftrightarrow> 224 \<le> y \<and> y \<le> 239" for y :: nat
    by auto
  moreover have "octet 0 a div 16 = 15 \<longleftrightarrow> 240 \<le> octet 0 a"
    using octet_less [of 0 a] by (auto intro: div_nat_eqI)
  ultimately show ?thesis
    unfolding reserved_blocks_def list_ex_iff
    by (auto simp: is_public_ip_def is_public_v4_def is_private_v4_def is_documentation_v4_def is_multicast_v4_def
        in_blocks in_small_blocks)
qed

text \<open>
  The guard has a gap in IPv6: the NAT64 form of the metadata service's address,
  \<open>64:ff9b::169.254.169.254\<close>, and its 6to4 form pass the check, while the IPv4 address and its
  mapped form are refused.
\<close>

theorem translated_metadata_address_passes:
  "is_public_ip (V6 0x0064FF9B0000000000000000A9FEA9FE) \<and> is_public_ip (V6 0x2002A9FEA9FE00000000000000000001)
   \<and> \<not> is_public_ip (V6 0x00000000000000000000FFFFA9FEA9FE) \<and> \<not> is_public_ip (V4 0xA9FEA9FE)"
  by code_simp

lemma find_None_all: "find P xs = None \<Longrightarrow> x \<in> set xs \<Longrightarrow> \<not> P x"
  by (auto simp: find_None_iff)

lemma resolve_public_targets_Inr:
  assumes "resolve_public_targets lib lookup url settings = Inr addrs" "\<not> allow_private_targets settings"
  shows "\<exists>host port. u_host url = Some host \<and> lookup (trim_brackets host) port = Inr addrs
     \<and> addrs \<noteq> [] \<and> (\<forall>a \<in> set addrs. is_public_ip a)"
  using assms
  by (auto simp: resolve_public_targets_def split: option.splits sum.splits if_splits dest: find_None_all)

text \<open>
  C37. Checked is used: unless the operator allows private targets, a webhook is sent only after
  its name resolved to public addresses and to nothing else, with a client that connects to
  exactly those addresses; the shared client is used only for a URL that names its address.
\<close>

theorem webhook_connects_to_checked_addresses:
  assumes "prepare_webhook w d settings = Inr req" "\<not> allow_private_targets settings"
  shows "\<exists>url host port addrs. url_parse (sw_lib w) (due_url d) = Inr url \<and> u_host url = Some host
     \<and> sw_lookup w (trim_brackets host) port = Inr addrs \<and> addrs \<noteq> [] \<and> (\<forall>a \<in> set addrs. is_public_ip a)
     \<and> wr_client req = (if u_is_address url then Shared_Client else Pinned_Client (trim_brackets host) addrs)"
proof -
  from assms(1) obtain url pinned client where
    u: "url_parse (sw_lib w) (due_url d) = Inr url" "resolve_public_targets (sw_lib w) (sw_lookup w) url settings = Inr pinned"
      "pinned_client url pinned = Inr client" "req = build_webhook_request w d settings url client"
    by (auto simp: prepare_webhook_def Let_def split: sum.splits)
  from resolve_public_targets_Inr [OF u(2) assms(2)] u show ?thesis
    by (fastforce simp: pinned_client_def build_webhook_request_def Let_def split: if_splits)
qed

definition demo_send_world :: send_world where
  "demo_send_world =
     \<lparr>sw_lib = \<lparr>url_parse = (\<lambda>s. Inr \<lparr>u_scheme = ''https'', u_username = [], u_password = None, u_host = Some ''h.org'',
          u_is_address = False, u_port = Some 443, u_text = s\<rparr>), show_ip = (\<lambda>_. []), debug_str = id\<rparr>,
      sw_lookup = (\<lambda>_ _. Inr [V4 0x08080808]), sw_send = (\<lambda>_. Inr (200, [])), sw_sha256 = id, sw_hex = id,
      sw_json = (\<lambda>_. []), sw_show_status = show_nat, sw_timestamp = 0\<rparr>"

definition demo_due :: due_delivery where
  "demo_due = \<lparr>due_seq = 1, due_id = ''d'', due_subscription = ''s'', due_url = ''https://h.org/'', due_secret = None,
     due_payload = JNull, due_attempts = 0\<rparr>"

theorem webhook_connects_to_checked_addresses_witness:
  "\<exists>req. prepare_webhook demo_send_world demo_due default_webhook_settings = Inr req
     \<and> wr_client req = Pinned_Client ''h.org'' [V4 0x08080808]"
proof -
  have p: "is_public_ip (V4 0x08080808)" by code_simp
  then have "\<exists>req. prepare_webhook demo_send_world demo_due default_webhook_settings = Inr req"
    by (simp add: prepare_webhook_def demo_send_world_def demo_due_def default_webhook_settings_def
        resolve_public_targets_def pinned_client_def Let_def)
  then obtain req where r: "prepare_webhook demo_send_world demo_due default_webhook_settings = Inr req" by blast
  have "\<not> allow_private_targets default_webhook_settings" by (simp add: default_webhook_settings_def)
  from webhook_connects_to_checked_addresses [OF r this]
  have "wr_client req = Pinned_Client (trim_brackets ''h.org'') [V4 0x08080808]"
    by (auto simp: demo_send_world_def demo_due_def)
  moreover have "trim_brackets ''h.org'' = ''h.org''" by code_simp
  ultimately show ?thesis using r by simp
qed

text \<open>The two pads are built in place, one index at a time.\<close>

lemma fold_pads:
  assumes "n \<le> length ip" "length op' = length ip" "length k = length ip"
  shows "fold (\<lambda>i (ip, op). (ip[i := f (ip ! i) (k ! i)], op[i := f (op ! i) (k ! i)])) [0..<n] (ip, op')
     = (map2 f (take n ip) (take n k) @ drop n ip, map2 f (take n op') (take n k) @ drop n op')"
  using assms(1)
proof (induction n)
  case (Suc n)
  have one: "(map2 f (take n xs) (take n k) @ drop n xs)[n := f ((map2 f (take n xs) (take n k) @ drop n xs) ! n) (k ! n)]
      = map2 f (take (Suc n) xs) (take (Suc n) k) @ drop (Suc n) xs" if "length xs = length ip" for xs
  proof -
    have l: "length (map2 f (take n xs) (take n k)) = n" "n < length xs" "n < length k" using that Suc.prems assms by simp_all
    then have "(map2 f (take n xs) (take n k) @ drop n xs) ! n = xs ! n" by (simp add: nth_append)
    moreover have "drop n xs = xs ! n # drop (Suc n) xs" using l by (simp add: Cons_nth_drop_Suc)
    ultimately show ?thesis using l by (simp add: take_Suc_conv_app_nth list_update_append)
  qed
  from Suc one [of ip] one [of op'] assms show ?case by simp
qed simp

text \<open>
  The signature is RFC 2104's: the digest of the outer padded key and of the digest of the
  inner padded key and the message, where a key longer than a block is replaced by its digest
  and a shorter one is filled with zeros.
\<close>

theorem hmac_is_rfc_2104:
  assumes "\<And>s. length (sha256 s) = 32"
  shows "hmac_sha256 sha256 key msg =
    (let k0 = (if 64 < length key then sha256 key else key);
         k = k0 @ replicate (64 - length k0) (CHR 0x00)
     in sha256 (map (xor_byte (CHR 0x5c)) k @ sha256 (map (xor_byte (CHR 0x36)) k @ msg)))"
proof -
  let ?k0 = "if 64 < length key then sha256 key else key"
  let ?k = "?k0 @ replicate (64 - length ?k0) (CHR 0x00)"
  have k: "(if 64 < length key then sha256 key @ drop 32 (replicate 64 (CHR 0x00))
      else key @ drop (length key) (replicate 64 (CHR 0x00))) = ?k"
    using assms by simp
  have len: "length ?k = 64" using assms by auto
  have z: "map2 f (replicate 64 c) ?k = map (f c) ?k" for f :: "char \<Rightarrow> char \<Rightarrow> char" and c
    using len by (simp add: zip_replicate1 comp_def)
  have "fold (\<lambda>i (ip, op). (ip[i := xor_byte (ip ! i) (?k ! i)], op[i := xor_byte (op ! i) (?k ! i)]))
      [0..<64] (replicate 64 (CHR 0x36), replicate 64 (CHR 0x5c))
    = (map (xor_byte (CHR 0x36)) ?k, map (xor_byte (CHR 0x5c)) ?k)"
    using fold_pads [of 64 "replicate 64 (CHR 0x36)" "replicate 64 (CHR 0x5c)" ?k xor_byte] len
    by (simp only: length_replicate order_refl take_replicate drop_replicate min.idem diff_self_eq_0 replicate_0
        append_Nil2 take_all z)
  then show ?thesis
    unfolding hmac_sha256_def Let_def k by simp
qed

theorem hmac_is_rfc_2104_witness:
  "hmac_sha256 (\<lambda>_. replicate 32 (CHR ''a'')) ''Jefe'' ''x'' = replicate 32 (CHR ''a'')"
  by (subst hmac_is_rfc_2104) (simp_all add: Let_def)

end
