(* ===== verification/Interfaces.thy ===== *)
theory Interfaces
  imports Tar_Prelude
begin

text \<open>
  The contracts several components share, as locales: the waiting times of something that is
  retried, and a table whose rows are claimed by key (\<open>INSERT OR IGNORE\<close>). Each is interpreted
  on the model's own definitions in the theories of the components that provide it.
\<close>

section \<open>Backoff schedules\<close>

text \<open>
  The waiting time after the n-th failure of anything that is retried: at least a second,
  never above a cap, and never shorter than an earlier one.
\<close>

locale backoff_schedule =
  fixes delay :: "int \<Rightarrow> int" and cap :: int
  assumes delay_pos: "1 \<le> delay n"
    and delay_cap: "delay n \<le> cap"
    and delay_mono: "m \<le> n \<Longrightarrow> delay m \<le> delay n"
begin

definition total_wait :: "nat \<Rightarrow> int" where
  "total_wait n = (\<Sum>k = 1..n. delay (int k))"

lemma total_wait_bounds: "int n \<le> total_wait n" "total_wait n \<le> int n * cap"
proof -
  have "(\<Sum>k = 1..n. 1 :: int) \<le> total_wait n"
    unfolding total_wait_def by (rule sum_mono) (rule delay_pos)
  then show "int n \<le> total_wait n" by simp
  have "total_wait n \<le> (\<Sum>k = 1..n. cap)"
    unfolding total_wait_def by (rule sum_mono) (rule delay_cap)
  then show "total_wait n \<le> int n * cap" by simp
qed

lemma total_wait_first: "1 \<le> n \<Longrightarrow> int n * delay 1 \<le> total_wait n"
proof -
  have "(\<Sum>k = 1..n. delay 1) \<le> total_wait n"
    unfolding total_wait_def by (rule sum_mono) (auto intro: delay_mono)
  then show ?thesis by simp
qed

end

section \<open>Claims\<close>

text \<open>
  A key is claimed by the insert that finds it free, and the claim can be lost again only by
  the table's own housekeeping: whoever claims a held key learns that it came second. The
  laws are about proper keys, those the table can tell apart.
\<close>

locale claim_table =
  fixes claim :: "'k \<Rightarrow> 'c \<Rightarrow> 'db \<Rightarrow> bool \<times> 'db"
    and held :: "'k \<Rightarrow> 'db \<Rightarrow> bool"
    and proper :: "'k \<Rightarrow> bool"
  assumes claim_wins: "fst (claim k c db) \<longleftrightarrow> \<not> held k db"
    and claim_adds: "proper k \<Longrightarrow> proper k' \<Longrightarrow> held k' (snd (claim k c db)) \<Longrightarrow> k' = k \<or> held k' db"
begin

fun claims :: "('k \<times> 'c) list \<Rightarrow> 'db \<Rightarrow> bool list \<times> 'db" where
  "claims [] db = ([], db)"
| "claims ((k, c) # reqs) db =
     (let (won, db') = claim k c db; (rest, db'') = claims reqs db' in (won # rest, db''))"

lemma claims_Cons:
  "fst (claims ((k, c) # reqs) db) = (\<not> held k db) # fst (claims reqs (snd (claim k c db)))"
  "snd (claims ((k, c) # reqs) db) = snd (claims reqs (snd (claim k c db)))"
  using claim_wins [of k c db] by (auto simp: Let_def split: prod.splits)

lemma claims_add:
  assumes "proper k" "\<forall>r \<in> set reqs. proper (fst r)" "held k (snd (claims reqs db))"
  shows "k \<in> fst ` set reqs \<or> held k db"
  using assms(2,3)
proof (induction reqs arbitrary: db)
  case (Cons r reqs)
  obtain k' c where r: "r = (k', c)" by (cases r)
  from Cons.prems have "held k (snd (claims reqs (snd (claim k' c db))))" by (simp only: r claims_Cons)
  with Cons.prems Cons.IH have "k \<in> fst ` set reqs \<or> held k (snd (claim k' c db))" by simp
  moreover have "proper k'" using Cons.prems by (simp add: r)
  ultimately show ?case using claim_adds [OF _ assms(1)] by (auto simp: r)
qed simp

lemma unclaimed_wins:
  assumes "proper k" "\<forall>r \<in> set reqs. proper (fst r)" "k \<notin> fst ` set reqs" "\<not> held k db"
  shows "fst (claim k c (snd (claims reqs db)))"
  using assms(3,4) claims_add [OF assms(1,2), of db] by (auto simp: claim_wins)

end

text \<open>A table that keeps its claims: each key is won once, and by the first to ask.\<close>

locale lasting_claims = claim_table claim held proper
  for claim :: "'k \<Rightarrow> 'c \<Rightarrow> 'db \<Rightarrow> bool \<times> 'db" and held :: "'k \<Rightarrow> 'db \<Rightarrow> bool" and proper :: "'k \<Rightarrow> bool" +
  assumes claim_keeps: "held k' db \<or> k' = k \<Longrightarrow> held k' (snd (claim k c db))"
begin

lemma held_after: "proper k \<Longrightarrow> proper k' \<Longrightarrow> held k' (snd (claim k c db)) \<longleftrightarrow> k' = k \<or> held k' db"
  using claim_adds claim_keeps by blast

lemma second_loses: "\<not> fst (claim k c' (snd (claim k c db)))"
  by (simp add: claim_wins claim_keeps)

lemma claims_keep: "held k db \<Longrightarrow> held k (snd (claims reqs db))"
proof (induction reqs arbitrary: db)
  case (Cons r reqs)
  then show ?case by (cases r) (simp add: claims_Cons claim_keeps del: claims.simps(2))
qed simp

definition wins :: "'k \<Rightarrow> ('k \<times> 'c) list \<Rightarrow> 'db \<Rightarrow> nat" where
  "wins k reqs db = length (filter (\<lambda>(r, won). fst r = k \<and> won) (zip reqs (fst (claims reqs db))))"

lemma wins_Cons:
  "wins k ((k', c) # reqs) db = (if k' = k \<and> \<not> held k db then 1 else 0) + wins k reqs (snd (claim k' c db))"
  by (auto simp: wins_def claims_Cons simp del: claims.simps(2))

lemma held_wins: "held k db \<Longrightarrow> wins k reqs db = 0"
proof (induction reqs arbitrary: db)
  case Nil
  then show ?case by (simp add: wins_def)
next
  case (Cons r reqs)
  then show ?case by (cases r) (simp add: wins_Cons claim_keeps)
qed

text \<open>Of any sequence of claims, a free key is won by exactly one, and a held one by none.\<close>

lemma wins_once:
  assumes "proper k" "\<forall>r \<in> set reqs. proper (fst r)"
  shows "wins k reqs db = (if held k db \<or> k \<notin> fst ` set reqs then 0 else 1)"
  using assms(2)
proof (induction reqs arbitrary: db)
  case Nil
  then show ?case by (simp add: wins_def)
next
  case (Cons r reqs)
  then show ?case using assms(1) by (cases r) (auto simp: wins_Cons held_after held_wins)
qed

end

end
