(* ===== verification/Delivery_Queue.thy ===== *)
theory Delivery_Queue
  imports Subscriptions Interfaces
begin

text \<open>
  What the subscription tables guarantee: how often a delivery is attempted, how often a match
  is queued, what a reader of the queue sees, and what a filter means. The tables and their
  steps are in the theory Subscriptions.
\<close>

section \<open>The backoff of webhooks\<close>

lemma sat_i64_mono: "x \<le> y \<Longrightarrow> sat_i64 x \<le> sat_i64 y"
  by (auto simp: sat_i64_def)

lemma backoff_secs_schedule:
  assumes "policy_ok p"
  shows "backoff_schedule (backoff_secs p) (max_backoff p)"
proof
  have pos: "1 \<le> base_backoff p" "1 \<le> max_backoff p" using assms by (simp_all add: policy_ok_def)
  fix n :: int
  let ?sh = "\<lambda>n. min (nat (min (max n 1 - 1) 20)) 40"
  have "1 \<le> (2 :: int) ^ ?sh n" by simp
  with pos(1) have "1 * 1 \<le> base_backoff p * 2 ^ ?sh n" by (intro mult_mono) simp_all
  then have "1 \<le> sat_i64 (base_backoff p * 2 ^ ?sh n)" by (simp add: sat_i64_def)
  with pos(2) show "1 \<le> backoff_secs p n" by (simp add: backoff_secs_def Let_def)
  show "backoff_secs p n \<le> max_backoff p" by (simp add: backoff_secs_def Let_def)
  fix m :: int
  assume "m \<le> n"
  then have "?sh m \<le> ?sh n" by simp
  then have "(2 :: int) ^ ?sh m \<le> 2 ^ ?sh n" by (rule power_increasing) simp
  with pos(1) have "base_backoff p * 2 ^ ?sh m \<le> base_backoff p * 2 ^ ?sh n" by simp
  then show "backoff_secs p m \<le> backoff_secs p n"
    unfolding backoff_secs_def Let_def by (intro min.mono sat_i64_mono) simp_all
qed

interpretation webhook_retry: backoff_schedule "backoff_secs (policy_from_env e)" "max_backoff (policy_from_env e)" for e
  by (rule backoff_secs_schedule) (rule policy_from_env_ok)

section \<open>Lemmas on the queue\<close>

lemma in_due_deliveries:
  assumes "x \<in> set (due_deliveries now lim db)"
  shows "\<exists>d \<in> set (del_rows db). \<exists>s \<in> set (sub_rows db). is_due now s d
     \<and> due_id x = d_id d \<and> due_attempts x = d_attempts d \<and> due_subscription x = d_subscription d
     \<and> due_url x = unwrap_or_empty (s_webhook_url s) \<and> due_payload x = d_payload d"
  using assms by (auto simp: due_deliveries_def due_pairs_def dest!: set_sql_limit) blast

lemma find_delivery_mark_failed:
  "find (\<lambda>d. d_id d = did) (del_rows (snd (mark_failed now did sid err code p db))) =
     map_option (failed_row now (attempts_of did db + 1)
          (if max_attempts p \<le> attempts_of did db + 1 then None else Some (backoff_secs p (attempts_of did db + 1)))
          (take_chars 400 err) code) (find (\<lambda>d. d_id d = did) (del_rows db))"
proof -
  have "map_option (\<lambda>r. if d_id r = did then g r else r) (find (\<lambda>d. d_id d = did) xs)
      = map_option g (find (\<lambda>d. d_id d = did) xs)" for g and xs :: "delivery_row list"
    by (cases "find (\<lambda>d. d_id d = did) xs") (auto dest: find_SomeD)
  then show ?thesis by (simp add: snd_mark_failed find_update_where)
qed

text \<open>A run of failures recorded for one delivery, each with its time, error and status.\<close>

definition fail_run ::
  "retry_policy \<Rightarrow> string \<Rightarrow> string \<Rightarrow> (int \<times> string \<times> nat option) list \<Rightarrow> sub_db \<Rightarrow> sub_db" where
  "fail_run p did sid outs db = fold (\<lambda>(t, e, c) db. snd (mark_failed t did sid e c p db)) outs db"

lemma fail_run_delivery:
  assumes "find (\<lambda>d. d_id d = did) (del_rows db) = Some d"
  shows "\<exists>d'. find (\<lambda>d. d_id d = did) (del_rows (fail_run p did sid outs db)) = Some d'
     \<and> d_attempts d' = d_attempts d + int (length outs)
     \<and> (outs \<noteq> [] \<longrightarrow> d_status d' = (if max_attempts p \<le> d_attempts d' then ''dead'' else ''failed'')
          \<and> d_next_attempt_at d' = (if max_attempts p \<le> d_attempts d' then None
                else Some (fst (last outs) + backoff_secs p (d_attempts d') * 10 ^ 9)))"
  using assms
proof (induction outs arbitrary: db d)
  case (Cons out outs)
  obtain t e c where out: "out = (t, e, c)" by (cases out) auto
  let ?db = "snd (mark_failed t did sid e c p db)"
  from Cons.prems obtain d1 where d1: "find (\<lambda>d. d_id d = did) (del_rows ?db) = Some d1"
    "d_attempts d1 = d_attempts d + 1" "d_status d1 = (if max_attempts p \<le> d_attempts d1 then ''dead'' else ''failed'')"
    "d_next_attempt_at d1 = (if max_attempts p \<le> d_attempts d1 then None
       else Some (t + backoff_secs p (d_attempts d1) * 10 ^ 9))"
    by (auto simp: find_delivery_mark_failed attempts_of_def)
  from Cons.IH [OF d1(1)] d1 show ?case
    by (auto simp: fail_run_def out)
qed (simp add: fail_run_def)

lemma queue_ok_fail_run: "queue_ok (fail_run p did sid outs db) = queue_ok db"
proof (induction outs arbitrary: db)
  case (Cons out outs)
  have "fail_run p did sid (out # outs) db
      = fail_run p did sid outs (snd (mark_failed (fst out) did sid (fst (snd out)) (snd (snd out)) p db))"
    by (simp add: fail_run_def split_beta)
  with Cons.IH show ?case by (simp only: queue_ok_mark_failed)
qed (simp add: fail_run_def)

lemma dead_not_due:
  assumes "queue_ok db" "find (\<lambda>d. d_id d = did) (del_rows db) = Some d" "d_status d = ''dead''"
  shows "did \<notin> due_id ` set (due_deliveries now lim db)"
proof
  assume "did \<in> due_id ` set (due_deliveries now lim db)"
  then obtain x where "x \<in> set (due_deliveries now lim db)" "did = due_id x" by auto
  with in_due_deliveries [OF this(1)] obtain e s where
    e: "e \<in> set (del_rows db)" "is_due now s e" "d_id e = did" by auto
  with assms(1) have "find (\<lambda>d. d_id d = did) (del_rows db) = Some e"
    by (intro find_key_distinct) (simp_all add: queue_ok_def)
  with assms e show False by (simp add: is_due_def)
qed

lemma strictly_after:
  fixes key :: "'a \<Rightarrow> int"
  assumes "sorted_wrt (<) (map key xs)" "take n xs \<noteq> []"
  shows "filter (\<lambda>x. key (last (take n xs)) < key x) xs = drop n xs"
proof -
  let ?t = "take n xs" and ?r = "drop n xs"
  have s: "sorted_wrt (<) (map key (?t @ ?r))" using assms(1) by simp
  then have tr: "key x < key y" if "x \<in> set ?t" "y \<in> set ?r" for x y
    using that by (simp only: map_append sorted_wrt_append) auto
  have tt: "key x \<le> key (last ?t)" if "x \<in> set ?t" for x
  proof -
    from s have st: "sorted_wrt (<) (map key ?t)" by (simp only: map_append sorted_wrt_append)
    have e: "?t = butlast ?t @ [last ?t]" using assms(2) by simp
    from st have "sorted_wrt (<) (map key (butlast ?t @ [last ?t]))" by (simp only: e [symmetric])
    then have "\<forall>z \<in> set (butlast ?t). key z < key (last ?t)" by (simp add: sorted_wrt_append)
    moreover from that have "x \<in> set (butlast ?t @ [last ?t])" by (simp only: e [symmetric])
    ultimately show ?thesis by auto
  qed
  have "filter (\<lambda>x. key (last ?t) < key x) (?t @ ?r) = ?r"
    unfolding filter_append
    using tr [OF last_in_set [OF assms(2)]] tt by (auto simp: filter_empty_conv filter_id_conv not_less)
  then show ?thesis by simp
qed

lemma seq_order_sorted:
  assumes "queue_ok db" shows "seq_order (filter P (del_rows db)) = filter P (del_rows db)"
proof -
  have "sorted_wrt (\<lambda>x y. d_seq x < d_seq y) (filter P (del_rows db))"
    using assms by (auto simp: queue_ok_def sorted_wrt_map intro: sorted_wrt_filter)
  then have "sorted (map d_seq (filter P (del_rows db)))"
    by (simp add: sorted_map sorted_wrt_mono_rel [of _ "\<lambda>x y. d_seq x < d_seq y" "\<lambda>x y. d_seq x \<le> d_seq y"])
  then show ?thesis by (simp add: seq_order_def sort_key_id_if_sorted)
qed

lemma queue_sorted_filter:
  "queue_ok db \<Longrightarrow> sorted_wrt (<) (map d_seq (filter P (del_rows db)))"
  by (auto simp: queue_ok_def sorted_wrt_map intro: sorted_wrt_filter)

lemma max_seq_ge: "d \<in> set (del_rows db) \<Longrightarrow> d_subscription d = sid \<Longrightarrow> d_seq d \<le> max_seq sid db"
proof -
  have f: "m \<le> fold (\<lambda>x m. max m (d_seq x)) xs m \<and> (\<forall>x \<in> set xs. d_seq x \<le> fold (\<lambda>x m. max m (d_seq x)) xs m)"
    for xs :: "delivery_row list" and m
  proof (induction xs arbitrary: m)
    case (Cons x xs)
    from Cons.IH [of "max m (d_seq x)"] show ?case by auto
  qed simp
  assume d: "d \<in> set (del_rows db)" "d_subscription d = sid"
  then have mem: "d \<in> set (filter (of_sub sid) (del_rows db))" by (simp add: of_sub_def)
  then obtain d0 ds where e: "filter (of_sub sid) (del_rows db) = d0 # ds"
    by (cases "filter (of_sub sid) (del_rows db)") auto
  from mem have "d = d0 \<or> d \<in> set ds" unfolding e by simp
  with f [of "d_seq d0" ds] show ?thesis by (auto simp: max_seq_def e)
qed

lemma max_seq_in:
  "max_seq sid db = 0 \<and> filter (of_sub sid) (del_rows db) = [] \<or>
   (\<exists>d \<in> set (del_rows db). d_subscription d = sid \<and> d_seq d = max_seq sid db)"
proof -
  have f: "fold (\<lambda>x m. max m (d_seq x)) xs m = m \<or> (\<exists>x \<in> set xs. d_seq x = fold (\<lambda>x m. max m (d_seq x)) xs m)"
    for xs :: "delivery_row list" and m
  proof (induction xs arbitrary: m)
    case (Cons x xs)
    from Cons.IH [of "max m (d_seq x)"] show ?case by (auto simp: max_def split: if_splits)
  qed simp
  show ?thesis
  proof (cases "filter (of_sub sid) (del_rows db)")
    case (Cons d ds)
    from f [of ds "d_seq d"] have "\<exists>x \<in> set (d # ds). d_seq x = max_seq sid db"
      using Cons by (auto simp: max_seq_def)
    moreover have "\<forall>x \<in> set (d # ds). x \<in> set (del_rows db) \<and> d_subscription x = sid"
      unfolding Cons [symmetric] by (simp add: of_sub_def)
    ultimately show ?thesis by blast
  qed (simp add: max_seq_def)
qed

lemma nothing_after_max:
  "filter (\<lambda>d. d_subscription d = sid \<and> c < d_seq d) (del_rows db) = [] \<longleftrightarrow>
     max_seq sid db \<le> c \<or> filter (of_sub sid) (del_rows db) = []"
proof (cases "filter (of_sub sid) (del_rows db) = []")
  case True
  then show ?thesis by (auto simp: filter_empty_conv of_sub_def)
next
  case False
  with max_seq_in [of sid db] obtain d where
    d: "d \<in> set (del_rows db)" "d_subscription d = sid" "d_seq d = max_seq sid db" by blast
  have "(\<forall>x \<in> set (del_rows db). d_subscription x = sid \<longrightarrow> d_seq x \<le> c) \<longleftrightarrow> max_seq sid db \<le> c"
  proof
    assume "\<forall>x \<in> set (del_rows db). d_subscription x = sid \<longrightarrow> d_seq x \<le> c"
    with d show "max_seq sid db \<le> c" by force
  next
    assume "max_seq sid db \<le> c"
    with max_seq_ge show "\<forall>x \<in> set (del_rows db). d_subscription x = sid \<longrightarrow> d_seq x \<le> c"
      by (blast intro: order_trans)
  qed
  with False show ?thesis by (auto simp: filter_empty_conv not_less)
qed

section \<open>A small queue\<close>

definition demo_new :: new_subscription where
  "demo_new = \<lparr>n_instance_iri = ''https://r.org/instance/7'', n_label = None, n_filter = default_filter,
     n_webhook_url = Some ''https://h.org/'', n_webhook_secret = None, n_created_by = None\<rparr>"

definition demo_subscribed :: sub_db where
  "demo_subscribed =
     (case create_subscription ''s'' 0 demo_new empty_db of Inr (_, db) \<Rightarrow> db | Inl _ \<Rightarrow> empty_db)"

definition demo_enqueue :: "string \<Rightarrow> sub_db \<Rightarrow> sub_db" where
  "demo_enqueue i db =
     (case enqueue i 5 (\<lambda>_. []) ''s'' i None ROLE_PRODUCED (JObject []) db of Inr (_, db') \<Rightarrow> db' | Inl _ \<Rightarrow> empty_db)"

definition demo_queue :: sub_db where
  "demo_queue = demo_enqueue ''b'' (demo_enqueue ''a'' demo_subscribed)"

lemma demo_enqueue_reachable: "sub_reachable p db \<Longrightarrow> sub_reachable p (demo_enqueue i db)"
  unfolding demo_enqueue_def
  by (auto split: sum.splits intro: sub_reachable.intros sub_step.queued)

lemma demo_queue_reachable: "sub_reachable p demo_queue"
proof -
  have "sub_reachable p demo_subscribed"
    unfolding demo_subscribed_def by (auto split: sum.splits intro: sub_reachable.intros sub_step.created)
  then show ?thesis by (simp add: demo_queue_def demo_enqueue_reachable)
qed

lemma demo_queue_ids: "map d_id (del_rows demo_queue) = [''a'', ''b'']" "map d_seq (del_rows demo_queue) = [1, 2]"
  "map d_attempts (del_rows demo_queue) = [0, 0]" "map d_subscription (del_rows demo_queue) = [''s'', ''s'']"
  by code_simp+

lemma demo_policy_ok: "policy_ok default_policy"
  by (simp add: policy_ok_def default_policy_def)

section \<open>Properties\<close>

text \<open>
  C31. Nothing is hammered: in every state the registry can reach, a delivery the worker picks up
  stands in the queue as one that was never attempted or failed before, its next attempt is due,
  it has been attempted fewer times than the policy allows, and its subscription is enabled,
  active, has the webhook it is sent to, and has failed fewer times in a row than suspends it.
\<close>

theorem due_deliveries_bounded:
  assumes "policy_ok p" "sub_reachable p db" "x \<in> set (due_deliveries now lim db)"
  shows "\<exists>d \<in> set (del_rows db). \<exists>s \<in> set (sub_rows db).
     d_id d = due_id x \<and> d_payload d = due_payload x \<and> d_attempts d = due_attempts x
     \<and> d_subscription d = due_subscription x \<and> s_id s = due_subscription x
     \<and> d_status d \<in> {''pending'', ''failed''}
     \<and> (\<forall>t. d_next_attempt_at d = Some t \<longrightarrow> t \<le> now) \<and> due_attempts x < max_attempts p
     \<and> s_enabled s \<and> s_delivery_state s = ''active'' \<and> s_failures s < suspend_after p
     \<and> s_webhook_url s = Some (due_url x)"
proof -
  from in_due_deliveries [OF assms(3)] obtain d s where d: "d \<in> set (del_rows db)" "s \<in> set (sub_rows db)"
    and due: "is_due now s d" and x: "due_id x = d_id d" "due_attempts x = d_attempts d"
      "due_subscription x = d_subscription d" "due_url x = unwrap_or_empty (s_webhook_url s)"
      "due_payload x = d_payload d"
    by blast
  from attempts_ok_reachable [OF assms(1,2)] d due have "d_attempts d < max_attempts p" "s_failures s < suspend_after p"
    by (auto simp: attempts_ok_def is_due_def)
  with d due x show ?thesis
    by (intro bexI [OF _ d(1)] bexI [OF _ d(2)]) (auto simp: is_due_def unwrap_or_empty_def)
qed

theorem due_deliveries_bounded_witness:
  "\<exists>x. x \<in> set (due_deliveries 5 20 demo_queue) \<and> due_attempts x < 8
     \<and> (\<exists>d \<in> set (del_rows demo_queue). d_id d = due_id x \<and> d_status d \<in> {''pending'', ''failed''})"
proof -
  have "due_deliveries 5 20 demo_queue \<noteq> []" by code_simp
  then obtain x where x: "x \<in> set (due_deliveries 5 20 demo_queue)" by (meson list.set_sel(1))
  from due_deliveries_bounded [OF demo_policy_ok demo_queue_reachable x] x show ?thesis
    by (auto simp: default_policy_def)
qed

text \<open>
  A match is announced once: in every reachable state at most one delivery exists for a
  subscription, artifact and role, and queueing the match again finds it and changes nothing.
\<close>

theorem match_is_queued_once:
  assumes "sub_reachable p db" "d \<in> set (del_rows db)"
  shows "(\<forall>e \<in> set (del_rows db). match_key e = match_key d \<longrightarrow> e = d)
     \<and> enqueue i now fmt (d_subscription d) (d_artifact d) run (d_role d) body db = Inr (None, db)"
proof -
  have "distinct (map match_key (del_rows db))"
    using queue_ok_reachable [OF assms(1)] by (simp add: queue_ok_def)
  then have "inj_on match_key (set (del_rows db))" by (simp add: distinct_map)
  with assms(2) show ?thesis
    by (auto simp: inj_on_def enqueue_eq clashes_def match_key_def intro: rev_image_eqI)
qed

theorem match_is_queued_once_witness:
  "\<exists>d \<in> set (del_rows demo_queue).
     enqueue ''c'' 9 (\<lambda>_. []) ''s'' (d_artifact d) None (d_role d) JNull demo_queue = Inr (None, demo_queue)"
proof -
  from demo_queue_ids(1) obtain d ds where d: "del_rows demo_queue = d # ds" by (auto simp: Cons_eq_map_conv)
  then have "d_subscription d = ''s''" using demo_queue_ids(4) by simp
  with match_is_queued_once [OF demo_queue_reachable, of d] d show ?thesis by auto
qed



text \<open>
  Reading in pages loses nothing and repeats nothing: a page followed by everything after
  its last sequence number is everything after the cursor, in order.
\<close>

theorem pages_partition_the_queue:
  fixes sid :: string and cursor :: int and db :: sub_db
  assumes "sub_reachable p db" "1 \<le> lim"
  defines "page \<equiv> deliveries_since sid cursor lim db"
  shows "page @ deliveries_since sid (if page = [] then cursor else d_seq (last page)) (- 1) db
     = deliveries_since sid cursor (- 1) db"
proof -
  have ok: "queue_ok db" by (rule queue_ok_reachable) (rule assms(1))
  let ?xs = "filter (\<lambda>d. d_subscription d = sid \<and> cursor < d_seq d) (del_rows db)"
  have since: "deliveries_since sid c (- 1) db = filter (\<lambda>d. d_subscription d = sid \<and> c < d_seq d) (del_rows db)" for c
    using ok by (simp add: deliveries_since_def seq_order_sorted)
  have all: "deliveries_since sid cursor (- 1) db = ?xs" by (rule since)
  have pg: "page = take (nat lim) ?xs"
    using ok assms(2) by (simp add: deliveries_since_def seq_order_sorted page_def)
  show ?thesis
  proof (cases "page = []")
    case True
    with pg assms(2) have "?xs = []" by auto
    with True all show ?thesis by simp
  next
    case False
    have l: "cursor < d_seq (last page)"
    proof -
      have "last page \<in> set ?xs" using last_in_set [OF False] unfolding pg by (rule in_set_takeD)
      then show ?thesis by simp
    qed
    have "filter (\<lambda>d. d_subscription d = sid \<and> d_seq (last page) < d_seq d) (del_rows db)
        = filter (\<lambda>d. d_seq (last page) < d_seq d) ?xs"
      using l by (auto intro!: filter_cong)
    also have "\<dots> = drop (nat lim) ?xs"
      using strictly_after [OF queue_sorted_filter [OF ok]] False unfolding pg by blast
    finally have "deliveries_since sid (d_seq (last page)) (- 1) db = drop (nat lim) ?xs"
      by (simp only: since)
    with False all show ?thesis by (simp only: if_False pg append_take_drop_id)
  qed
qed

theorem pages_partition_the_queue_witness:
  "deliveries_since ''s'' 0 1 demo_queue @ deliveries_since ''s'' 1 (- 1) demo_queue
     = deliveries_since ''s'' 0 (- 1) demo_queue \<and> map d_id (deliveries_since ''s'' 0 1 demo_queue) = [''a'']"
proof -
  have i: "map d_id (deliveries_since ''s'' 0 1 demo_queue) = [''a'']" by code_simp
  have "map d_seq (deliveries_since ''s'' 0 1 demo_queue) = [1]" by code_simp
  then obtain d where "deliveries_since ''s'' 0 1 demo_queue = [d]" "d_seq d = 1" by (auto simp: Cons_eq_map_conv)
  with pages_partition_the_queue [OF demo_queue_reachable, of 1 "''s''" 0] i show ?thesis by simp
qed

section \<open>The cursor\<close>

definition keeps_cursors :: "sub_row list \<Rightarrow> sub_row list \<Rightarrow> bool" where
  "keeps_cursors rows rows' \<longleftrightarrow> list_all2 (\<lambda>r r'. s_id r' = s_id r \<and> s_cursor r \<le> s_cursor r') rows rows'"

lemma keeps_cursors_refl [simp]: "keeps_cursors rows rows"
  by (simp add: keeps_cursors_def list_all2_refl)

lemma keeps_cursors_trans: "keeps_cursors a b \<Longrightarrow> keeps_cursors b c \<Longrightarrow> keeps_cursors a c"
  unfolding keeps_cursors_def list_all2_conv_all_nth by (metis order_trans)

lemma keeps_cursors_update:
  assumes "keeps_cursors a rows" "\<And>r. s_id (f r) = s_id r" "\<And>r. s_cursor r \<le> s_cursor (f r)"
  shows "keeps_cursors a (update_where P f rows)"
proof (rule keeps_cursors_trans [OF assms(1)])
  show "keeps_cursors rows (update_where P f rows)"
    using assms(2,3) by (induction rows) (simp_all add: keeps_cursors_def update_where_def)
qed

lemma keeps_cursors_patched:
  assumes "keeps_cursors a (sub_rows db)"
    and "\<And>x r. s_id (f x r) = s_id r" "\<And>x r. s_cursor r \<le> s_cursor (f x r)"
  shows "keeps_cursors a (sub_rows (when_some v (\<lambda>x. update_sub i (f x)) db))"
  using assms by (cases v) (simp_all add: when_some_def keeps_cursors_update)

lemma keeps_cursors_resume:
  "keeps_cursors a (sub_rows db) \<Longrightarrow> keeps_cursors a (sub_rows (resume_subscription now i db))"
  by (simp add: resume_subscription_def Let_def keeps_cursors_update)

lemma keeps_cursors_update_subscription: "keeps_cursors (sub_rows db) (sub_rows (update_subscription now i pt db))"
proof -
  let ?a = "sub_rows db"
  let ?d1 = "when_some (set_label pt) (\<lambda>v. update_sub i (\<lambda>r. r\<lparr>s_label := v\<rparr>)) db"
  let ?d2 = "when_some (set_filter pt) (\<lambda>v. update_sub i (\<lambda>r. r\<lparr>s_filter := Some v\<rparr>)) ?d1"
  let ?d3 = "when_some (set_webhook_url pt) (\<lambda>v. update_sub i (\<lambda>r. r\<lparr>s_webhook_url := v\<rparr>)) ?d2"
  let ?d4 = "when_some (set_webhook_secret pt) (\<lambda>v. update_sub i (\<lambda>r. r\<lparr>s_webhook_secret := v\<rparr>)) ?d3"
  let ?d5 = "when_some (set_enabled pt) (\<lambda>v. update_sub i (\<lambda>r. r\<lparr>s_enabled := v\<rparr>)) ?d4"
  have "keeps_cursors ?a (sub_rows ?d1)" by (rule keeps_cursors_patched) simp_all
  then have "keeps_cursors ?a (sub_rows ?d2)" by (rule keeps_cursors_patched) simp_all
  then have "keeps_cursors ?a (sub_rows ?d3)" by (rule keeps_cursors_patched) simp_all
  then have "keeps_cursors ?a (sub_rows ?d4)" by (rule keeps_cursors_patched) simp_all
  then have "keeps_cursors ?a (sub_rows ?d5)" by (rule keeps_cursors_patched) simp_all
  then have "keeps_cursors ?a (sub_rows (if resume pt then resume_subscription now i ?d5 else ?d5))"
    by (simp add: keeps_cursors_resume)
  then show ?thesis
    unfolding update_subscription_def Let_def update_sub_fields by (rule keeps_cursors_update) simp_all
qed

lemma keeps_cursors_mark_failed: "keeps_cursors (sub_rows db) (sub_rows (snd (mark_failed now did sid err code p db)))"
  by (auto simp: snd_mark_failed suspend_failing_def Let_def keeps_cursors_update)

lemma step_cursors:
  assumes "sub_step p db db'"
  shows "(\<exists>rows. sub_rows db' = rows @ drop (length (sub_rows db)) (sub_rows db') \<and> keeps_cursors (sub_rows db) rows)
     \<or> set (sub_rows db') \<subseteq> set (sub_rows db)"
proof -
  have same: ?thesis if "keeps_cursors (sub_rows db) (sub_rows db')"
  proof -
    have "length (sub_rows db) = length (sub_rows db')"
      using that by (simp add: keeps_cursors_def list_all2_lengthD)
    with that show ?thesis by (intro disjI1 exI [of _ "sub_rows db'"]) simp
  qed
  show ?thesis
    using assms
  proof (cases rule: sub_step.cases)
    case (created i now n s)
    then obtain row where "sub_rows db' = sub_rows db @ [row]"
      by (auto simp: create_subscription_def Let_def split: if_splits option.splits)
    then show ?thesis by (intro disjI1 exI [of _ "sub_rows db"]) simp
  next
    case (deleted i)
    then show ?thesis by (auto simp: delete_subscription_def delete_where_def)
  next
    case (queued i now fmt sid art run role body r)
    then show ?thesis
      by (intro same) (auto simp: enqueue_eq queued_db_def keeps_cursors_update split: if_splits)
  next
    case (acked now sid c r)
    then show ?thesis
      by (intro same) (auto simp: ack_cursor_def Let_def keeps_cursors_update split: option.splits)
  qed (rule same; simp add: keeps_cursors_update_subscription keeps_cursors_mark_failed mark_delivered_def
        keeps_cursors_update touch_polled_def)+
qed

text \<open>
  An acknowledgement is never taken back: no step of the system, an acknowledgement with a
  smaller number among them, leaves a subscription with a smaller cursor than it had.
\<close>

theorem cursor_never_rewinds:
  assumes "sub_reachable p db" "sub_step p db db'"
    and "r \<in> set (sub_rows db)" "r' \<in> set (sub_rows db')" "s_id r' = s_id r"
  shows "s_cursor r \<le> s_cursor r'"
proof -
  have "sub_reachable p db'" using assms(1,2) by (rule sub_reachable.step)
  then have d': "distinct (map s_id (sub_rows db'))" using queue_ok_reachable by (auto simp: queue_ok_def)
  have d: "distinct (map s_id (sub_rows db))" using queue_ok_reachable [OF assms(1)] by (simp add: queue_ok_def)
  have same: "x = y" if "distinct (map s_id xs)" "x \<in> set xs" "y \<in> set xs" "s_id x = s_id y" for x y xs
    using that by (auto simp: distinct_map inj_on_def)
  from step_cursors [OF assms(2)] show ?thesis
  proof (elim disjE exE conjE)
    fix rows
    assume rows: "sub_rows db' = rows @ drop (length (sub_rows db)) (sub_rows db')" "keeps_cursors (sub_rows db) rows"
    from assms(3) obtain k where k: "k < length (sub_rows db)" "sub_rows db ! k = r" by (auto simp: in_set_conv_nth)
    with rows(2) have k': "k < length rows" "s_id (rows ! k) = s_id r" "s_cursor r \<le> s_cursor (rows ! k)"
      by (auto simp: keeps_cursors_def list_all2_conv_all_nth)
    then have "rows ! k \<in> set (sub_rows db')" by (subst rows(1)) simp
    with same [OF d' _ assms(4)] k' assms(5) show ?thesis by auto
  next
    assume "set (sub_rows db') \<subseteq> set (sub_rows db)"
    with same [OF d, of r r'] assms show ?thesis by auto
  qed
qed

theorem cursor_never_rewinds_witness:
  "\<exists>db' r'. ack_cursor 7 ''s'' (- 3) demo_queue = Inr (s_cursor r', db') \<and> r' \<in> set (sub_rows db') \<and> 0 \<le> s_cursor r'"
proof -
  have "is_ok (ack_cursor 7 ''s'' (- 3) demo_queue)" by code_simp
  then obtain c db' where a: "ack_cursor 7 ''s'' (- 3) demo_queue = Inr (c, db')" by (auto simp: is_ok_iff)
  then obtain r' where r': "find (\<lambda>r. s_id r = ''s'') (sub_rows db') = Some r'" "c = s_cursor r'"
    by (auto simp: ack_cursor_def Let_def split: option.splits)
  have "map s_id (sub_rows demo_queue) = [''s'']" "map s_cursor (sub_rows demo_queue) = [0]" by code_simp+
  then obtain r where r: "r \<in> set (sub_rows demo_queue)" "s_id r = ''s''" "s_cursor r = 0"
    by (auto simp: Cons_eq_map_conv)
  from cursor_never_rewinds [OF demo_queue_reachable sub_step.acked [OF a] r(1), where r' = r']
    find_SomeD [OF r'(1)] r a r' show ?thesis by auto
qed

section \<open>Sequence numbers\<close>

text \<open>The deliveries of a later state are old ones, or numbered from the counter of the earlier one.\<close>

definition numbers :: "sub_db \<Rightarrow> (string \<times> int) set" where
  "numbers db = (\<lambda>d. (d_id d, d_seq d)) ` set (del_rows db)"

definition extends_queue :: "sub_db \<Rightarrow> sub_db \<Rightarrow> bool" where
  "extends_queue db db' \<longleftrightarrow> next_seq db \<le> next_seq db' \<and> numbers db' \<subseteq> numbers db \<union> {(i, q). next_seq db \<le> q}"

lemma extends_queue_trans: "extends_queue a b \<Longrightarrow> extends_queue b c \<Longrightarrow> extends_queue a c"
  by (fastforce simp: extends_queue_def)

lemma extends_queue_same:
  assumes "next_seq db' = next_seq db" "map (\<lambda>d. (d_id d, d_seq d)) (del_rows db') = map (\<lambda>d. (d_id d, d_seq d)) (del_rows db)"
  shows "extends_queue db db'"
proof -
  have "numbers db' = numbers db"
    unfolding numbers_def using arg_cong [OF assms(2), of set] by simp
  with assms(1) show ?thesis by (simp add: extends_queue_def)
qed

lemma when_some_deliveries [simp]:
  "del_rows (when_some v (\<lambda>x. update_sub i (f x)) db) = del_rows db"
  "next_seq (when_some v (\<lambda>x. update_sub i (f x)) db) = next_seq db"
  by (cases v; simp add: when_some_def)+

lemma resume_numbers:
  "map (\<lambda>d. (d_id d, d_seq d)) (del_rows (resume_subscription now i db)) = map (\<lambda>d. (d_id d, d_seq d)) (del_rows db)"
  "next_seq (resume_subscription now i db) = next_seq db"
  by (simp_all add: resume_subscription_def Let_def map_update_where)

lemma step_extends:
  assumes "sub_step p db db'" shows "extends_queue db db'"
  using assms
proof (cases rule: sub_step.cases)
  case (created i now n s)
  then show ?thesis
    by (auto simp: create_subscription_def Let_def intro!: extends_queue_same split: if_splits option.splits)
next
  case (deleted i)
  then show ?thesis by (auto simp: delete_subscription_def delete_where_def extends_queue_def numbers_def)
next
  case (queued i now fmt sid art run role body r)
  then show ?thesis
    by (auto simp: enqueue_eq queued_db_def extends_queue_def numbers_def split: if_splits)
next
  case (updated now i pt)
  then show ?thesis by (intro extends_queue_same) (simp_all add: update_subscription_def Let_def resume_numbers)
next
  case (acked now sid c r)
  then show ?thesis by (auto simp: ack_cursor_def Let_def intro!: extends_queue_same split: option.splits)
qed (intro extends_queue_same; simp add: mark_delivered_def snd_mark_failed touch_polled_def map_update_where)+

lemma steps_extend: "(sub_step p)\<^sup>*\<^sup>* db db' \<Longrightarrow> extends_queue db db'"
  by (induction rule: rtranclp_induct) (auto simp: extends_queue_same intro: extends_queue_trans step_extends)

text \<open>
  A reader that has seen everything misses nothing: whatever happens after a poll,
  deletions included, a delivery that was not there at the poll has a sequence number above
  every one the reader can have passed.
\<close>

theorem new_matches_are_after_the_cursor:
  assumes "sub_reachable p db" "(sub_step p)\<^sup>*\<^sup>* db db'" "d \<in> set (del_rows db')"
    and "\<And>e. e \<in> set (del_rows db) \<Longrightarrow> d_id e \<noteq> d_id d"
  shows "max_seq sid db < d_seq d \<and> (\<forall>e \<in> set (del_rows db). d_seq e < d_seq d)"
proof -
  have "(d_id d, d_seq d) \<in> numbers db'" using assms(3) by (auto simp: numbers_def)
  moreover have "(d_id d, d_seq d) \<notin> numbers db" using assms(4) by (force simp: numbers_def)
  ultimately have q: "next_seq db \<le> d_seq d"
    using steps_extend [OF assms(2)] by (auto simp: extends_queue_def)
  have ok: "queue_ok db" by (rule queue_ok_reachable) (rule assms(1))
  then have a: "\<forall>e \<in> set (del_rows db). d_seq e < next_seq db" and "1 \<le> next_seq db"
    by (auto simp: queue_ok_def)
  with max_seq_in [of sid db] have "max_seq sid db < next_seq db" by auto
  with a q show ?thesis by auto
qed

theorem new_matches_are_after_the_cursor_witness:
  "\<exists>d \<in> set (del_rows demo_queue). d_id d = ''b'' \<and> max_seq ''s'' (demo_enqueue ''a'' demo_subscribed) < d_seq d"
proof -
  let ?db = "demo_enqueue ''a'' demo_subscribed"
  have r: "sub_reachable default_policy ?db"
    unfolding demo_subscribed_def
    by (rule demo_enqueue_reachable) (auto split: sum.splits intro: sub_reachable.intros sub_step.created)
  have ok: "is_ok (enqueue ''b'' 5 (\<lambda>_. []) ''s'' ''b'' None ROLE_PRODUCED (JObject []) ?db)" by code_simp
  then obtain x db' where x: "enqueue ''b'' 5 (\<lambda>_. []) ''s'' ''b'' None ROLE_PRODUCED (JObject []) ?db = Inr (x, db')"
    by (auto simp: is_ok_iff)
  then have db': "demo_queue = db'" by (simp add: demo_queue_def demo_enqueue_def [of _ ?db])
  have s: "(sub_step default_policy)\<^sup>*\<^sup>* ?db demo_queue"
    unfolding db' by (rule r_into_rtranclp) (rule sub_step.queued [OF x])
  have "map d_id (del_rows ?db) = [''a'']" by code_simp
  then have e: "\<And>e. e \<in> set (del_rows ?db) \<Longrightarrow> d_id e = ''a''" by (auto simp: Cons_eq_map_conv)
  from demo_queue_ids(1) obtain d where d: "d \<in> set (del_rows demo_queue)" "d_id d = ''b''"
    by (fastforce simp: Cons_eq_map_conv)
  from new_matches_are_after_the_cursor [OF r s d(1), of "''s''"] e d show ?thesis by auto
qed

section \<open>What a filter means\<close>

lemma any_of_append: "xs \<noteq> [] \<Longrightarrow> ys \<noteq> [] \<Longrightarrow> any_of (xs @ ys) v \<longleftrightarrow> any_of xs v \<or> any_of ys v"
  by (simp add: any_of_def split: option.splits)

lemma matches_iff:
  "matches lower f owner c \<longleftrightarrow>
     list_ex (\<lambda>r. r = c_role c) (effective_roles f) \<and> \<not> (f_exclude_own f \<and> c_instance_iri c = Some owner)
     \<and> any_of (f_conforms_to f) (c_conforms_to c) \<and> any_of (f_software f) (c_software_iri c)
     \<and> any_of (f_instance f) (c_instance_iri c) \<and> any_of (f_license f) (c_license c)
     \<and> any_of (f_availability f) (Some (c_availability c))
     \<and> (f_keywords f = [] \<or> keyword_hit (f_keywords f) (c_keywords c)) \<and> text_hit lower (f_q f) c"
  by (auto simp: matches_def)

text \<open>
  OR within a field: alternatives joined in one field match exactly when one of them does,
  in every field that holds a list.
\<close>

theorem filter_alternatives:
  assumes "xs \<noteq> []" "ys \<noteq> []"
  shows "(matches lower (f\<lparr>f_conforms_to := xs @ ys\<rparr>) owner c
            \<longleftrightarrow> matches lower (f\<lparr>f_conforms_to := xs\<rparr>) owner c \<or> matches lower (f\<lparr>f_conforms_to := ys\<rparr>) owner c)
       \<and> (matches lower (f\<lparr>f_software := xs @ ys\<rparr>) owner c
            \<longleftrightarrow> matches lower (f\<lparr>f_software := xs\<rparr>) owner c \<or> matches lower (f\<lparr>f_software := ys\<rparr>) owner c)
       \<and> (matches lower (f\<lparr>f_instance := xs @ ys\<rparr>) owner c
            \<longleftrightarrow> matches lower (f\<lparr>f_instance := xs\<rparr>) owner c \<or> matches lower (f\<lparr>f_instance := ys\<rparr>) owner c)
       \<and> (matches lower (f\<lparr>f_license := xs @ ys\<rparr>) owner c
            \<longleftrightarrow> matches lower (f\<lparr>f_license := xs\<rparr>) owner c \<or> matches lower (f\<lparr>f_license := ys\<rparr>) owner c)
       \<and> (matches lower (f\<lparr>f_availability := xs @ ys\<rparr>) owner c
            \<longleftrightarrow> matches lower (f\<lparr>f_availability := xs\<rparr>) owner c \<or> matches lower (f\<lparr>f_availability := ys\<rparr>) owner c)
       \<and> (matches lower (f\<lparr>f_keywords := xs @ ys\<rparr>) owner c
            \<longleftrightarrow> matches lower (f\<lparr>f_keywords := xs\<rparr>) owner c \<or> matches lower (f\<lparr>f_keywords := ys\<rparr>) owner c)
       \<and> (matches lower (f\<lparr>f_roles := xs @ ys\<rparr>) owner c
            \<longleftrightarrow> matches lower (f\<lparr>f_roles := xs\<rparr>) owner c \<or> matches lower (f\<lparr>f_roles := ys\<rparr>) owner c)"
proof -
  show ?thesis
    using assms
    by (intro conjI; simp add: matches_iff any_of_append keyword_hit_def effective_roles_def; blast)
qed

theorem filter_alternatives_witness:
  "matches id (default_filter\<lparr>f_roles := [ROLE_PRODUCED] @ [ROLE_CONSUMED]\<rparr>) ''o'' \<lparr>c_artifact_iri = ''a'', c_title = None,
     c_description = None, c_conforms_to = None, c_license = None, c_keywords = [], c_availability = ''public'',
     c_instance_iri = None, c_software_iri = None, c_role = ROLE_CONSUMED\<rparr>"
proof -
  let ?c = "\<lparr>c_artifact_iri = ''a'', c_title = None, c_description = None, c_conforms_to = None, c_license = None,
     c_keywords = [], c_availability = ''public'', c_instance_iri = None, c_software_iri = None, c_role = ROLE_CONSUMED\<rparr>"
  have "matches id (default_filter\<lparr>f_roles := [ROLE_CONSUMED]\<rparr>) ''o'' ?c" by code_simp
  then show ?thesis using filter_alternatives [of "[ROLE_PRODUCED]" "[ROLE_CONSUMED]"] by blast
qed

text \<open>
  The waits of the configured policy: whatever the environment says, every wait is at least
  a second and at most the configured maximum, no wait is shorter than an earlier one, and all
  the waits of a delivery that is finally given up add up to at most that many times the
  maximum.
\<close>

theorem backoff_is_bounded:
  "(\<forall>n. 1 \<le> backoff_secs (policy_from_env e) n \<and> backoff_secs (policy_from_env e) n \<le> max_backoff (policy_from_env e))
   \<and> mono (backoff_secs (policy_from_env e))
   \<and> (\<Sum>k = 1..n. backoff_secs (policy_from_env e) (int k)) \<le> int n * max_backoff (policy_from_env e)"
  using webhook_retry.total_wait_bounds(2) [of e n] webhook_retry.delay_pos webhook_retry.delay_cap
    webhook_retry.delay_mono
  by (auto simp: webhook_retry.total_wait_def mono_def)

end
