(* ===== verification/Subscription_Api.thy ===== *)
theory Subscription_Api
  imports Webhook_Guard Delivery_Queue Token_Api
begin

text \<open>
  The handlers of \<open>src/api/subscriptions.rs\<close>, the matching done on the advertisement path and
  the delivery worker. The graph reads behind a candidate are arguments.
\<close>

record sub_state =
  ss_db :: sub_db
  ss_audit :: "audit_row list"

text \<open>What a handler call is given besides its input.\<close>

record sub_world =
  sb_base :: string
  sb_now :: int
  sb_new_id :: string
  sb_secret :: string
  sb_settings :: webhook_settings
  sb_lib :: url_library
  sb_exists :: "string \<Rightarrow> app_error + bool"

section \<open>Who may manage\<close>

definition may_manage_subscriptions :: "principal \<Rightarrow> string \<Rightarrow> app_error + unit" where
  "may_manage_subscriptions p iri =
     (if is_admin p \<or> is_curator p then Inr ()
      else if instance_iri p = Some iri then Inr ()
      else Inl (forbidden ''only the owning deployment, a curator or an admin may manage this deployment's subscriptions''))"

definition load_owned :: "principal \<Rightarrow> string \<Rightarrow> sub_db \<Rightarrow> app_error + subscription" where
  "load_owned p sid db =
     (case get_subscription sid db of
        None \<Rightarrow> Inl (not_found ''no such subscription'')
      | Some s \<Rightarrow> and_then (may_manage_subscriptions p (p_instance_iri s)) (\<lambda>_. Inr s))"

definition db_app_error :: "db_error \<Rightarrow> app_error" where
  "db_app_error e =
     (case e of Constraint_Failed t \<Rightarrow> internal (''UNIQUE constraint failed: '' @ t)
              | Row_Missing \<Rightarrow> internal ''subscription vanished immediately after insert'')"

section \<open>Requests\<close>

record create_input =
  ci_label :: "string option"
  ci_filter :: sub_filter
  ci_webhook_url :: "string option"
  ci_webhook_secret :: "string option"

record patch_input =
  pi_label :: "string option"
  pi_filter :: "sub_filter option"
  pi_webhook_url :: "string option"
  pi_rotate_secret :: "bool option"
  pi_enabled :: "bool option"
  pi_resume :: "bool option"

record delivery_query =
  q_cursor :: "string option"
  q_limit :: "string option"
  q_ack :: "string option"

record subscription_out =
  so_subscription :: subscription
  so_delivery_mode :: string
  so_pull_url :: string

definition sub_out :: "string \<Rightarrow> subscription \<Rightarrow> subscription_out" where
  "sub_out base s =
     \<lparr>so_subscription = s, so_delivery_mode = delivery_mode s,
      so_pull_url = base @ ''/api/v1/subscriptions/'' @ p_id s @ ''/deliveries''\<rparr>"

definition non_blank :: "string option \<Rightarrow> string option" where
  "non_blank s = (case s of None \<Rightarrow> None | Some v \<Rightarrow> if trim v = [] then None else Some (trim v))"

section \<open>Validation\<close>

definition require_iri :: "(string \<Rightarrow> string) \<Rightarrow> string \<Rightarrow> string \<Rightarrow> app_error + unit" where
  "require_iri debug field v =
     (if prefix ''http://'' v \<or> prefix ''https://'' v \<or> prefix ''urn:'' v then Inr ()
      else Inl (bad_request (field @ '' must be a full IRI (a vocabulary term, a registry-local type, or an SPDX licence), got ''
                  @ debug v)))"

fun all_ok :: "('a \<Rightarrow> 'e + unit) \<Rightarrow> 'a list \<Rightarrow> 'e + unit" where
  "all_ok f [] = Inr ()"
| "all_ok f (x # xs) = and_then (f x) (\<lambda>_. all_ok f xs)"

definition check_availability :: "(string \<Rightarrow> string) \<Rightarrow> string \<Rightarrow> app_error + unit" where
  "check_availability debug a =
     (if a \<in> set AVAILABILITIES then Inr ()
      else Inl (bad_request (''unknown availability '' @ debug a @ ''; known: '' @ join '', '' AVAILABILITIES)))"

definition check_role :: "(string \<Rightarrow> string) \<Rightarrow> string \<Rightarrow> app_error + unit" where
  "check_role debug r =
     (if r \<noteq> ROLE_PRODUCED \<and> r \<noteq> ROLE_CONSUMED
      then Inl (bad_request (''unknown role '' @ debug r @ ''; known: produced, consumed'')) else Inr ())"

definition normalise_filter :: "(string \<Rightarrow> string) \<Rightarrow> string \<Rightarrow> sub_filter \<Rightarrow> app_error + sub_filter" where
  "normalise_filter debug base f0 =
     (let f = f0\<lparr>f_software := map (iri_for base Software) (f_software f0),
                 f_instance := map (iri_for base Instance) (f_instance f0)\<rparr>;
          filled = filter (\<lambda>k. trim k \<noteq> [])
      in and_then (all_ok (require_iri debug ''conforms_to'') (f_conforms_to f)) (\<lambda>_.
         and_then (all_ok (require_iri debug ''license'') (f_license f)) (\<lambda>_.
         and_then (all_ok (check_availability debug) (f_availability f)) (\<lambda>_.
         and_then (all_ok (check_role debug) (f_roles f)) (\<lambda>_.
           Inr (f\<lparr>f_keywords := filled (f_keywords f), f_conforms_to := filled (f_conforms_to f),
                  f_license := filled (f_license f)\<rparr>))))))"

section \<open>Handlers\<close>

definition audit_subscription :: "sub_world \<Rightarrow> principal \<Rightarrow> string \<Rightarrow> string \<Rightarrow> string \<Rightarrow> audit_row list \<Rightarrow> audit_row list" where
  "audit_subscription w p action iri det log =
     audit (sb_now w) (Some (subject p)) (actor_kind p) action (Some iri) (Some det) None log"

definition list_subscriptions :: "sub_world \<Rightarrow> principal \<Rightarrow> string \<Rightarrow> sub_state \<Rightarrow> app_error + (subscription_out list \<times> nat)" where
  "list_subscriptions w p ident st =
     (let iri = iri_for (sb_base w) Instance ident in
      and_then (may_manage_subscriptions p iri) (\<lambda>_.
        (let items = list_for_instance iri (ss_db st) in Inr (map (sub_out (sb_base w)) items, length items))))"

text \<open>The new subscription, or why not; the state changes only at the end.\<close>

definition plan_subscription ::
  "sub_world \<Rightarrow> principal \<Rightarrow> string \<Rightarrow> create_input \<Rightarrow> sub_db \<Rightarrow> app_error + new_subscription" where
  "plan_subscription w p iri inp db =
     and_then (may_manage_subscriptions p iri) (\<lambda>_.
     and_then (sb_exists w iri) (\<lambda>ex.
       if \<not> ex then Inl (not_found (''no instance at '' @ iri))
       else if MAX_PER_INSTANCE \<le> count_for_instance iri db
       then Inl (conflict (''this deployment already has the maximum of '' @ show_nat MAX_PER_INSTANCE
                   @ '' subscriptions; delete one first''))
       else and_then (normalise_filter (debug_str (sb_lib w)) (sb_base w) (ci_filter inp)) (\<lambda>f.
            and_then (case non_blank (ci_webhook_url inp) of
                        Some u \<Rightarrow> and_then (validate_webhook_url (sb_lib w) u (sb_settings w)) (\<lambda>t. Inr (Some t))
                      | None \<Rightarrow> Inr None) (\<lambda>url.
              Inr \<lparr>n_instance_iri = iri, n_label = ci_label inp, n_filter = f, n_webhook_url = url,
                   n_webhook_secret = (case url of None \<Rightarrow> None
                     | Some _ \<Rightarrow> Some (case non_blank (ci_webhook_secret inp) of Some s \<Rightarrow> s | None \<Rightarrow> sb_secret w)),
                   n_created_by = Some (subject p)\<rparr>))))"

definition create_subscription_handler ::
  "sub_world \<Rightarrow> principal \<Rightarrow> string \<Rightarrow> create_input \<Rightarrow> sub_state \<Rightarrow>
   (app_error + subscription_out \<times> string option) \<times> sub_state" where
  "create_subscription_handler w p ident inp st =
     (let iri = iri_for (sb_base w) Instance ident in
      case plan_subscription w p iri inp (ss_db st) of
        Inl e \<Rightarrow> (Inl e, st)
      | Inr n \<Rightarrow>
          (case create_subscription (sb_new_id w) (sb_now w) n (ss_db st) of
             Inl e \<Rightarrow> (Inl (db_app_error e), st)
           | Inr (s, db) \<Rightarrow>
               (Inr (sub_out (sb_base w) s, n_webhook_secret n),
                \<lparr>ss_db = db, ss_audit = audit_subscription w p ''subscription.create'' iri
                   (case ci_label inp of Some l \<Rightarrow> l | None \<Rightarrow> p_id s) (ss_audit st)\<rparr>)))"

definition get_subscription_handler ::
  "sub_world \<Rightarrow> principal \<Rightarrow> string \<Rightarrow> sub_state \<Rightarrow> app_error + (subscription_out \<times> delivery_row list)" where
  "get_subscription_handler w p sid st =
     and_then (load_owned p sid (ss_db st)) (\<lambda>s.
       Inr (sub_out (sb_base w) s, recent_deliveries (p_id s) 20 (ss_db st)))"

text \<open>What a patch request turns into: the patch, and the secret it shows once.\<close>

definition plan_patch ::
  "sub_world \<Rightarrow> subscription \<Rightarrow> patch_input \<Rightarrow> app_error + (sub_patch \<times> string option)" where
  "plan_patch w s inp =
     and_then (case pi_filter inp of
                 None \<Rightarrow> Inr None
               | Some f \<Rightarrow> and_then (normalise_filter (debug_str (sb_lib w)) (sb_base w) f) (\<lambda>g. Inr (Some g))) (\<lambda>flt.
     and_then (case map_option trim (pi_webhook_url inp) of
                 None \<Rightarrow> Inr (None, None, p_webhook_url s \<noteq> None)
               | Some u \<Rightarrow> if u = [] then Inr (Some None, Some None, False)
                           else and_then (validate_webhook_url (sb_lib w) u (sb_settings w))
                                  (\<lambda>t. Inr (Some (Some t), None, True))) (\<lambda>(url, secret, has_webhook).
       if pi_rotate_secret inp = Some True \<or> (has_webhook \<and> \<not> p_webhook_signed s \<and> secret = None)
       then if \<not> has_webhook then Inl (bad_request ''there is no webhook to sign; set webhook_url first'')
            else Inr (\<lparr>set_label = map_option Some (pi_label inp), set_filter = flt, set_webhook_url = url,
                       set_webhook_secret = Some (Some (sb_secret w)), set_enabled = pi_enabled inp,
                       resume = (pi_resume inp = Some True)\<rparr>, Some (sb_secret w))
       else Inr (\<lparr>set_label = map_option Some (pi_label inp), set_filter = flt, set_webhook_url = url,
                  set_webhook_secret = secret, set_enabled = pi_enabled inp,
                  resume = (pi_resume inp = Some True)\<rparr>, None)))"

definition patch_subscription_handler ::
  "sub_world \<Rightarrow> principal \<Rightarrow> string \<Rightarrow> patch_input \<Rightarrow> sub_state \<Rightarrow>
   (app_error + subscription_out \<times> string option) \<times> sub_state" where
  "patch_subscription_handler w p sid inp st =
     (case and_then (load_owned p sid (ss_db st)) (\<lambda>s. and_then (plan_patch w s inp) (\<lambda>pl. Inr (s, pl))) of
        Inl e \<Rightarrow> (Inl e, st)
      | Inr (s, pt, rotated) \<Rightarrow>
          (let db = update_subscription (sb_now w) (p_id s) pt (ss_db st);
               st' = \<lparr>ss_db = db, ss_audit = audit_subscription w p ''subscription.update'' (p_instance_iri s)
                        (p_id s) (ss_audit st)\<rparr>
           in case get_subscription (p_id s) db of
                None \<Rightarrow> (Inl (not_found ''no such subscription''), st')
              | Some u \<Rightarrow> (Inr (sub_out (sb_base w) u, rotated), st')))"

definition delete_subscription_handler ::
  "sub_world \<Rightarrow> principal \<Rightarrow> string \<Rightarrow> sub_state \<Rightarrow> (app_error + unit) \<times> sub_state" where
  "delete_subscription_handler w p sid st =
     (case load_owned p sid (ss_db st) of
        Inl e \<Rightarrow> (Inl e, st)
      | Inr s \<Rightarrow>
          (Inr (), \<lparr>ss_db = snd (delete_subscription (p_id s) (ss_db st)),
                    ss_audit = audit_subscription w p ''subscription.delete'' (p_instance_iri s) (p_id s) (ss_audit st)\<rparr>))"

record delivery_page =
  pg_items :: "delivery_row list"
  pg_cursor :: int
  pg_next_cursor :: int
  pg_remaining :: int
  pg_acknowledged :: "int option"

definition page_limit :: "delivery_query \<Rightarrow> int" where
  "page_limit q =
     clamp 1 200 (case q_limit q of None \<Rightarrow> 25 | Some v \<Rightarrow> (case parse_i64 v of None \<Rightarrow> 25 | Some n \<Rightarrow> n))"

definition page_cursor :: "delivery_query \<Rightarrow> subscription \<Rightarrow> app_error + int" where
  "page_cursor q s =
     (case q_cursor q of
        None \<Rightarrow> Inr (p_cursor s)
      | Some c \<Rightarrow> if c = [] then Inr (p_cursor s)
                  else ok_or (bad_request ''cursor must be an integer sequence number'') (parse_i64 c))"

definition read_page :: "string \<Rightarrow> int \<Rightarrow> int \<Rightarrow> sub_db \<Rightarrow> delivery_page" where
  "read_page sid cursor limit db =
     (let items = deliveries_since sid cursor limit db;
          next_c = (if items = [] then cursor else d_seq (last items))
      in \<lparr>pg_items = items, pg_cursor = cursor, pg_next_cursor = next_c,
          pg_remaining = max (max_seq sid db - next_c) 0, pg_acknowledged = None\<rparr>)"

definition deliveries_handler ::
  "sub_world \<Rightarrow> principal \<Rightarrow> string \<Rightarrow> delivery_query \<Rightarrow> sub_state \<Rightarrow> (app_error + delivery_page) \<times> sub_state" where
  "deliveries_handler w p sid q st =
     (case and_then (load_owned p sid (ss_db st)) (\<lambda>s. and_then (page_cursor q s) (\<lambda>c. Inr (s, c))) of
        Inl e \<Rightarrow> (Inl e, st)
      | Inr (s, cursor) \<Rightarrow>
          (let page = read_page (p_id s) cursor (page_limit q) (ss_db st);
               db = touch_polled (sb_now w) (p_id s) (ss_db st)
           in if q_ack q = Some ''true'' \<or> q_ack q = Some ''1''
              then (case ack_cursor (sb_now w) (p_id s) (pg_next_cursor page) db of
                      Inl e \<Rightarrow> (Inl (db_app_error e), st\<lparr>ss_db := db\<rparr>)
                    | Inr (c, db') \<Rightarrow> (Inr (page\<lparr>pg_acknowledged := Some c\<rparr>), st\<lparr>ss_db := db'\<rparr>))
              else (Inr page, st\<lparr>ss_db := db\<rparr>)))"

definition ack_handler ::
  "sub_world \<Rightarrow> principal \<Rightarrow> string \<Rightarrow> int \<Rightarrow> sub_state \<Rightarrow> (app_error + int \<times> int) \<times> sub_state" where
  "ack_handler w p sid cursor st =
     (case load_owned p sid (ss_db st) of
        Inl e \<Rightarrow> (Inl e, st)
      | Inr s \<Rightarrow>
          (case ack_cursor (sb_now w) (p_id s) cursor (ss_db st) of
             Inl e \<Rightarrow> (Inl (db_app_error e), st)
           | Inr (c, db) \<Rightarrow> (Inr (c, max (max_seq (p_id s) db - c) 0), st\<lparr>ss_db := db\<rparr>)))"

section \<open>Matching\<close>

text \<open>The fields of a loaded artifact that a candidate takes; the rest goes into the payload as it is.\<close>

record loaded_artifact =
  la_title :: "string option"
  la_description :: "string option"
  la_conforms_to :: "string option"
  la_license :: "string option"
  la_keywords :: "string list"
  la_availability :: string
  la_json :: json

definition candidate_of ::
  "string \<Rightarrow> loaded_artifact option \<Rightarrow> string option \<Rightarrow> string option \<Rightarrow> string \<Rightarrow> candidate" where
  "candidate_of artifact_iri loaded inst software role =
     \<lparr>c_artifact_iri = artifact_iri, c_title = Option.bind loaded la_title, c_description = Option.bind loaded la_description,
      c_conforms_to = Option.bind loaded la_conforms_to, c_license = Option.bind loaded la_license,
      c_keywords = (case loaded of None \<Rightarrow> [] | Some a \<Rightarrow> la_keywords a),
      c_availability = (case loaded of None \<Rightarrow> ''metadata-only'' | Some a \<Rightarrow> la_availability a),
      c_instance_iri = inst, c_software_iri = software, c_role = role\<rparr>"

definition notification ::
  "string \<Rightarrow> subscription \<Rightarrow> string \<Rightarrow> string option \<Rightarrow> string option \<Rightarrow> string option \<Rightarrow> string \<Rightarrow> loaded_artifact option \<Rightarrow> json" where
  "notification base s role run inst software artifact_iri loaded =
     JObject [(''type'', JText ''artifact.advertised''), (''subscription'', JText (p_id s)), (''registry'', JText base),
              (''role'', JText role), (''run'', opt_text run), (''instance'', opt_text inst),
              (''software'', opt_text software), (''artifact_iri'', JText artifact_iri),
              (''artifact'', case loaded of None \<Rightarrow> JNull | Some a \<Rightarrow> la_json a)]"

record notify_world =
  nw_base :: string
  nw_now :: int
  nw_id :: "string \<Rightarrow> string \<Rightarrow> string"
  nw_time :: "int \<Rightarrow> string"
  nw_lower :: "string \<Rightarrow> string"
  nw_load :: "string \<Rightarrow> loaded_artifact option"
  nw_software_of :: "string \<Rightarrow> string option"

text \<open>A failed insert is logged and swallowed.\<close>

definition offer ::
  "notify_world \<Rightarrow> string option \<Rightarrow> string option \<Rightarrow> string \<Rightarrow> string \<times> subscription \<Rightarrow> sub_db \<Rightarrow> sub_db" where
  "offer w inst run role pair db =
     (let (artifact_iri, s) = pair; loaded = nw_load w artifact_iri;
          software = Option.bind inst (nw_software_of w);
          c = candidate_of artifact_iri loaded inst software role
      in if \<not> matches (nw_lower w) (p_filter s) (p_instance_iri s) c then db
         else case enqueue (nw_id w (p_id s) artifact_iri) (nw_now w) (nw_time w) (p_id s) artifact_iri run role
                     (notification (nw_base w) s role run inst software artifact_iri loaded) db of
                Inl _ \<Rightarrow> db
              | Inr (_, db') \<Rightarrow> db')"

definition notify_advertised ::
  "notify_world \<Rightarrow> string option \<Rightarrow> string option \<Rightarrow> string list \<Rightarrow> string \<Rightarrow> sub_db \<Rightarrow> sub_db" where
  "notify_advertised w inst run artifact_iris role db =
     (if artifact_iris = [] then db
      else let subs = active_subscriptions db in
           if subs = [] then db
           else fold (offer w inst run role) (concat (map (\<lambda>a. map (\<lambda>s. (a, s)) subs) artifact_iris)) db)"

section \<open>The worker\<close>

definition attempt ::
  "(due_delivery \<Rightarrow> delivery_error + nat) \<Rightarrow> (due_delivery \<Rightarrow> int) \<Rightarrow> retry_policy \<Rightarrow> due_delivery \<Rightarrow> sub_db \<Rightarrow> sub_db" where
  "attempt post clock policy d db =
     (case post d of
        Inr code \<Rightarrow> mark_delivered (clock d) (due_id d) (due_subscription d) code (due_attempts d + 1) db
      | Inl e \<Rightarrow> snd (mark_failed (clock d) (due_id d) (due_subscription d) (de_message e) (de_status e) policy db))"

definition deliver_due ::
  "webhook_settings \<Rightarrow> retry_policy \<Rightarrow> (due_delivery \<Rightarrow> delivery_error + nat) \<Rightarrow> (due_delivery \<Rightarrow> int) \<Rightarrow> int \<Rightarrow>
   sub_db \<Rightarrow> nat \<times> sub_db" where
  "deliver_due settings policy post clock now db =
     (if \<not> wh_enabled settings then (0, db)
      else let due = due_deliveries now (wh_batch settings) db
           in (length due, fold (attempt post clock policy) due db))"

section \<open>Lemmas\<close>

lemma fold_fixed: "(\<And>x. x \<in> set xs \<Longrightarrow> f x s = s) \<Longrightarrow> fold f xs s = s"
  by (induction xs) simp_all

lemma fold_steps:
  assumes "\<And>x s. x \<in> set xs \<Longrightarrow> R\<^sup>*\<^sup>* s (f x s)"
  shows "R\<^sup>*\<^sup>* s (fold f xs s)"
  using assms
proof (induction xs arbitrary: s)
  case (Cons x xs)
  have "R\<^sup>*\<^sup>* s (f x s)" using Cons.prems by simp
  moreover have "R\<^sup>*\<^sup>* (f x s) (fold f xs (f x s))" using Cons by simp
  ultimately show ?case by simp
qed simp

lemma offer_steps: "(sub_step p)\<^sup>*\<^sup>* db (offer w inst run role pair db)"
  by (auto simp: offer_def Let_def split: prod.splits sum.splits intro: r_into_rtranclp sub_step.queued)

lemma attempt_steps: "(sub_step p)\<^sup>*\<^sup>* db (attempt post clock p d db)"
  by (auto simp: attempt_def split: sum.splits intro: r_into_rtranclp sub_step.delivered sub_step.failed)

lemma load_owned_Inr:
  "load_owned p sid db = Inr s \<Longrightarrow> get_subscription sid db = Some s \<and> is_ok (may_manage_subscriptions p (p_instance_iri s))"
  by (auto simp: load_owned_def and_then_eq_Inr split: option.splits)

lemma attach_counts_id [simp]: "p_id (attach_counts db s) = p_id s" "p_cursor (attach_counts db s) = p_cursor s"
  "p_instance_iri (attach_counts db s) = p_instance_iri s" "p_webhook_signed (attach_counts db s) = p_webhook_signed s"
  by (simp_all add: attach_counts_def Let_def)

lemma sub_from_row_id [simp]: "p_id (sub_from_row r) = s_id r" "p_instance_iri (sub_from_row r) = s_instance_iri r"
  "p_webhook_signed (sub_from_row r) = (s_webhook_secret r \<noteq> None)"
  by (simp_all add: sub_from_row_def)

lemma get_subscription_id: "get_subscription sid db = Some s \<Longrightarrow> p_id s = sid"
  by (auto simp: get_subscription_def dest: find_SomeD)

lemma poll_then_ack:
  "ack_cursor now sid c (touch_polled now' sid' db) = Inr (r, db') \<Longrightarrow> (sub_step p)\<^sup>*\<^sup>* db db'"
  by (meson r_into_rtranclp rtranclp.rtrancl_into_rtrancl sub_step.polled sub_step.acked)

section \<open>Properties\<close>

text \<open>
  The handlers, the matching and the worker move the tables only by the steps the
  invariants are stated for: whatever a call answers, the state it leaves is reached from the
  one it found by steps of the system.
\<close>

theorem operations_are_steps:
  "(sub_step p)\<^sup>*\<^sup>* (ss_db st) (ss_db (snd (create_subscription_handler w q ident ci st)))
   \<and> (sub_step p)\<^sup>*\<^sup>* (ss_db st) (ss_db (snd (patch_subscription_handler w q sid pt st)))
   \<and> (sub_step p)\<^sup>*\<^sup>* (ss_db st) (ss_db (snd (delete_subscription_handler w q sid st)))
   \<and> (sub_step p)\<^sup>*\<^sup>* (ss_db st) (ss_db (snd (deliveries_handler w q sid dq st)))
   \<and> (sub_step p)\<^sup>*\<^sup>* (ss_db st) (ss_db (snd (ack_handler w q sid c st)))
   \<and> (sub_step p)\<^sup>*\<^sup>* db (notify_advertised nw inst run arts role db)
   \<and> (sub_step p)\<^sup>*\<^sup>* db (snd (deliver_due settings p post clock now db))"
proof (intro conjI)
  show "(sub_step p)\<^sup>*\<^sup>* (ss_db st) (ss_db (snd (create_subscription_handler w q ident ci st)))"
    by (auto simp: create_subscription_handler_def Let_def split: sum.splits intro: r_into_rtranclp sub_step.created)
  show "(sub_step p)\<^sup>*\<^sup>* (ss_db st) (ss_db (snd (patch_subscription_handler w q sid pt st)))"
    by (auto simp: patch_subscription_handler_def Let_def split: sum.splits option.splits
        intro: r_into_rtranclp sub_step.updated)
  show "(sub_step p)\<^sup>*\<^sup>* (ss_db st) (ss_db (snd (delete_subscription_handler w q sid st)))"
    by (auto simp: delete_subscription_handler_def split: sum.splits intro: r_into_rtranclp sub_step.deleted)
  show "(sub_step p)\<^sup>*\<^sup>* (ss_db st) (ss_db (snd (deliveries_handler w q sid dq st)))"
    by (auto simp: deliveries_handler_def Let_def split: sum.splits prod.splits
        intro: r_into_rtranclp sub_step.polled poll_then_ack)
  show "(sub_step p)\<^sup>*\<^sup>* (ss_db st) (ss_db (snd (ack_handler w q sid c st)))"
    by (auto simp: ack_handler_def split: sum.splits intro: r_into_rtranclp sub_step.acked)
  show "(sub_step p)\<^sup>*\<^sup>* db (notify_advertised nw inst run arts role db)"
    by (simp add: notify_advertised_def Let_def fold_steps offer_steps)
  show "(sub_step p)\<^sup>*\<^sup>* db (snd (deliver_due settings p post clock now db))"
    by (simp add: deliver_due_def Let_def fold_steps attempt_steps)
qed

text \<open>What a database has of the subscriptions of others: rows and deliveries that the caller does not manage.\<close>

definition foreign :: "principal \<Rightarrow> sub_db \<Rightarrow> sub_db \<Rightarrow> sub_row list \<times> delivery_row list" where
  "foreign q db0 db =
     (filter (\<lambda>r. \<not> is_ok (may_manage_subscriptions q (s_instance_iri r))) (sub_rows db),
      filter (\<lambda>d. \<forall>r \<in> set (sub_rows db0). s_id r = d_subscription d \<longrightarrow> \<not> is_ok (may_manage_subscriptions q (s_instance_iri r)))
        (del_rows db))"

text \<open>A change of the rows and deliveries of one subscription, which leaves it with its deployment.\<close>

definition only_touches :: "string \<Rightarrow> string \<Rightarrow> sub_db \<Rightarrow> sub_db \<Rightarrow> bool" where
  "only_touches sid iri db db' \<longleftrightarrow>
     filter (\<lambda>r. s_id r \<noteq> sid) (sub_rows db') = filter (\<lambda>r. s_id r \<noteq> sid) (sub_rows db)
     \<and> filter (\<lambda>d. d_subscription d \<noteq> sid) (del_rows db') = filter (\<lambda>d. d_subscription d \<noteq> sid) (del_rows db)
     \<and> (\<forall>r \<in> set (sub_rows db'). s_id r = sid \<longrightarrow> s_instance_iri r = iri)"

lemma filter_update_where:
  "(\<And>r. P r \<Longrightarrow> \<not> F r \<and> \<not> F (f r)) \<Longrightarrow> filter F (update_where P f rows) = filter F rows"
  by (induction rows) (auto simp: update_where_def)

lemma touches_update_sub:
  assumes "only_touches sid iri db x" "\<And>r. s_id (f r) = s_id r" "\<And>r. s_instance_iri (f r) = s_instance_iri r"
  shows "only_touches sid iri db (update_sub sid f x)"
proof -
  have "filter (\<lambda>r. s_id r \<noteq> sid) (update_where (\<lambda>r. s_id r = sid) f (sub_rows x)) = filter (\<lambda>r. s_id r \<noteq> sid) (sub_rows x)"
    using assms(2) by (intro filter_update_where) simp
  with assms show ?thesis by (simp add: only_touches_def update_sub_def ball_update_where)
qed

lemma touches_when_some:
  assumes "only_touches sid iri db x" "\<And>y r. s_id (f y r) = s_id r" "\<And>y r. s_instance_iri (f y r) = s_instance_iri r"
  shows "only_touches sid iri db (when_some v (\<lambda>y. update_sub sid (f y)) x)"
  using assms by (cases v) (auto simp: when_some_def intro: touches_update_sub)

lemma touches_resume:
  assumes "only_touches sid iri db x" shows "only_touches sid iri db (resume_subscription now sid x)"
proof -
  let ?f = "\<lambda>r. r\<lparr>s_delivery_state := ''active'', s_failures := 0, s_last_error := None, s_last_error_at := None\<rparr>"
  let ?g = "\<lambda>d. d\<lparr>d_status := ''pending'', d_attempts := 0, d_next_attempt_at := Some now, d_last_error := None\<rparr>"
  have "filter (\<lambda>d. d_subscription d \<noteq> sid)
        (update_where (\<lambda>d. d_subscription d = sid \<and> (d_status d = ''dead'' \<or> d_status d = ''failed'')) ?g (del_rows x))
      = filter (\<lambda>d. d_subscription d \<noteq> sid) (del_rows x)"
    by (rule filter_update_where) simp
  moreover have "only_touches sid iri db (update_sub sid ?f x)" by (rule touches_update_sub [OF assms]) simp_all
  ultimately show ?thesis by (simp add: resume_subscription_def Let_def only_touches_def)
qed

lemma touches_update_subscription:
  assumes "only_touches sid iri db x" shows "only_touches sid iri db (update_subscription now sid pt x)"
  unfolding update_subscription_def Let_def
  using assms by (auto intro!: touches_update_sub touches_when_some touches_resume)

lemma touches_delete: "only_touches sid iri db (snd (delete_subscription sid db))"
  by (simp add: only_touches_def delete_subscription_def delete_where_def of_sub_def)

lemma loaded_rows:
  assumes "queue_ok db" "load_owned q sid db = Inr s"
  shows "p_id s = sid" "only_touches sid (p_instance_iri s) db db" "is_ok (may_manage_subscriptions q (p_instance_iri s))"
    "\<exists>r \<in> set (sub_rows db). s_id r = sid \<and> s_instance_iri r = p_instance_iri s"
proof -
  from load_owned_Inr [OF assms(2)] have g: "get_subscription sid db = Some s"
    and "is_ok (may_manage_subscriptions q (p_instance_iri s))" by auto
  then show "p_id s = sid" "is_ok (may_manage_subscriptions q (p_instance_iri s))" by (simp_all add: get_subscription_id)
  from g obtain r where r: "find (\<lambda>r. s_id r = sid) (sub_rows db) = Some r" "p_instance_iri s = s_instance_iri r"
    by (auto simp: get_subscription_def)
  with find_SomeD [OF r(1)] show "\<exists>r \<in> set (sub_rows db). s_id r = sid \<and> s_instance_iri r = p_instance_iri s" by auto
  have "r' = r" if "r' \<in> set (sub_rows db)" "s_id r' = sid" for r'
    using find_key_distinct [of s_id "sub_rows db" r' sid] that assms(1) r(1) by (simp add: queue_ok_def)
  with r(2) show "only_touches sid (p_instance_iri s) db db" by (auto simp: only_touches_def)
qed

lemma foreign_kept:
  assumes "queue_ok db" "load_owned q sid db = Inr s" "only_touches sid (p_instance_iri s) db db'"
  shows "foreign q db db' = foreign q db db"
proof -
  note l = loaded_rows [OF assms(1,2)]
  let ?F = "\<lambda>r. \<not> is_ok (may_manage_subscriptions q (s_instance_iri r))"
  let ?G = "\<lambda>d. \<forall>r \<in> set (sub_rows db). s_id r = d_subscription d \<longrightarrow> ?F r"
  have subs: "filter ?F (sub_rows x) = filter ?F (filter (\<lambda>r. s_id r \<noteq> sid) (sub_rows x))" if "only_touches sid (p_instance_iri s) db x" for x
  proof -
    have "\<forall>r \<in> set (sub_rows x). ?F r \<longrightarrow> s_id r \<noteq> sid" using that l(3) by (auto simp: only_touches_def)
    then show ?thesis unfolding filter_filter by (intro filter_cong) auto
  qed
  have dels: "filter ?G ds = filter ?G (filter (\<lambda>d. d_subscription d \<noteq> sid) ds)" for ds
  proof -
    have "?G d \<longrightarrow> d_subscription d \<noteq> sid" for d using l(3,4) by auto
    then show ?thesis unfolding filter_filter by (intro filter_cong) auto
  qed
  have "filter ?F (sub_rows db') = filter ?F (sub_rows db)"
  proof -
    note subs [OF assms(3)]
    also have "filter ?F (filter (\<lambda>r. s_id r \<noteq> sid) (sub_rows db')) = filter ?F (filter (\<lambda>r. s_id r \<noteq> sid) (sub_rows db))"
      using assms(3) by (simp only: only_touches_def)
    also note subs [OF l(2), symmetric]
    finally show ?thesis .
  qed
  moreover have "filter ?G (del_rows db') = filter ?G (del_rows db)"
  proof -
    note dels [of "del_rows db'"]
    also have "filter ?G (filter (\<lambda>d. d_subscription d \<noteq> sid) (del_rows db')) = filter ?G (filter (\<lambda>d. d_subscription d \<noteq> sid) (del_rows db))"
      using assms(3) by (simp only: only_touches_def)
    also note dels [of "del_rows db", symmetric]
    finally show ?thesis .
  qed
  ultimately show ?thesis by (simp only: foreign_def)
qed

lemma touches_ack:
  assumes "ack_cursor now sid c x = Inr (r, db')" "only_touches sid iri db x" shows "only_touches sid iri db db'"
proof -
  have "db' = update_sub sid (\<lambda>r. r\<lparr>s_cursor := max (s_cursor r) c, s_updated_at := Some now\<rparr>) x"
    using assms(1) unfolding ack_cursor_def Let_def by (simp split: option.splits)
  then show ?thesis by (simp only:) (rule touches_update_sub [OF assms(2)]; simp)
qed

lemma create_keeps_foreign:
  "foreign q (ss_db st) (ss_db (snd (create_subscription_handler w q ident ci st))) = foreign q (ss_db st) (ss_db st)"
proof (cases "plan_subscription w q (iri_for (sb_base w) Instance ident) ci (ss_db st)")
  case (Inl e)
  then show ?thesis by (simp add: create_subscription_handler_def Let_def)
next
  case (Inr n)
  then have own: "is_ok (may_manage_subscriptions q (n_instance_iri n))"
    by (auto simp: plan_subscription_def and_then_eq_Inr split: if_splits)
  have "foreign q (ss_db st) db' = foreign q (ss_db st) (ss_db st)"
    if c: "create_subscription (sb_new_id w) (sb_now w) n (ss_db st) = Inr (s, db')" for s db'
  proof -
    from c obtain row where "db' = (ss_db st)\<lparr>sub_rows := sub_rows (ss_db st) @ [row]\<rparr>" "s_instance_iri row = n_instance_iri n"
      by (fastforce simp: create_subscription_def Let_def split: if_splits option.splits)
    with own show ?thesis by (simp add: foreign_def)
  qed
  with Inr show ?thesis by (auto simp: create_subscription_handler_def Let_def split: sum.split)
qed

lemma poll_keeps_foreign:
  assumes "queue_ok (ss_db st)"
  shows "foreign q (ss_db st) (ss_db (snd (deliveries_handler w q sid dq st))) = foreign q (ss_db st) (ss_db st)"
proof (cases "and_then (load_owned q sid (ss_db st)) (\<lambda>s. and_then (page_cursor dq s) (\<lambda>c. Inr (s, c)))")
  case (Inl e)
  then show ?thesis by (simp add: deliveries_handler_def)
next
  case (Inr x)
  then obtain s cur where x: "x = (s, cur)" and s: "load_owned q sid (ss_db st) = Inr s" by (auto simp: and_then_eq_Inr)
  let ?db = "touch_polled (sb_now w) (p_id s) (ss_db st)"
  note i = loaded_rows(1) [OF assms s]
  have t: "only_touches sid (p_instance_iri s) (ss_db st) ?db"
    unfolding i using loaded_rows(2) [OF assms s] by (simp add: touch_polled_def touches_update_sub)
  moreover have "only_touches sid (p_instance_iri s) (ss_db st) db'" if "ack_cursor (sb_now w) (p_id s) n ?db = Inr (r, db')" for n r db'
    by (rule touches_ack [OF that [unfolded i] t [unfolded i]])
  ultimately show ?thesis
    using Inr by (auto simp: deliveries_handler_def x Let_def split: sum.split intro!: foreign_kept [OF assms s])
qed

text \<open>
  C23. A call about subscriptions stays with its caller's own: whatever is created, patched, deleted, read
  or acknowledged, and whatever the call answers, the subscriptions of deployments that the
  caller may not manage are the same rows afterwards, in the same order, and so are the
  deliveries queued for them.
\<close>

theorem handlers_stay_with_the_owner:
  assumes "sub_reachable pol (ss_db st)"
  shows "foreign q (ss_db st) (ss_db (snd (create_subscription_handler w q ident ci st))) = foreign q (ss_db st) (ss_db st)
     \<and> foreign q (ss_db st) (ss_db (snd (patch_subscription_handler w q sid pt st))) = foreign q (ss_db st) (ss_db st)
     \<and> foreign q (ss_db st) (ss_db (snd (delete_subscription_handler w q sid st))) = foreign q (ss_db st) (ss_db st)
     \<and> foreign q (ss_db st) (ss_db (snd (deliveries_handler w q sid dq st))) = foreign q (ss_db st) (ss_db st)
     \<and> foreign q (ss_db st) (ss_db (snd (ack_handler w q sid c st))) = foreign q (ss_db st) (ss_db st)"
proof -
  have ok: "queue_ok (ss_db st)" using assms by (rule queue_ok_reachable)
  note kept = foreign_kept [OF ok] and l = loaded_rows [OF ok]
  show ?thesis
  proof (intro conjI)
    show "foreign q (ss_db st) (ss_db (snd (patch_subscription_handler w q sid pt st))) = foreign q (ss_db st) (ss_db st)"
      using l(1,2) by (auto simp: patch_subscription_handler_def and_then_eq_Inr Let_def split: sum.splits option.splits
          intro!: kept touches_update_subscription)
    show "foreign q (ss_db st) (ss_db (snd (delete_subscription_handler w q sid st))) = foreign q (ss_db st) (ss_db st)"
      using l(1) by (auto simp: delete_subscription_handler_def split: sum.splits intro!: kept touches_delete)
    show "foreign q (ss_db st) (ss_db (snd (ack_handler w q sid c st))) = foreign q (ss_db st) (ss_db st)"
      using l(1,2) by (auto simp: ack_handler_def split: sum.splits intro!: kept dest!: touches_ack)
  qed (rule create_keeps_foreign poll_keeps_foreign [OF ok])+
qed

definition demo_sub_world :: sub_world where
  "demo_sub_world = \<lparr>sb_base = ''https://r.org'', sb_now = 0, sb_new_id = ''n'', sb_secret = ''whsec_new'',
     sb_settings = default_webhook_settings, sb_lib = sw_lib demo_send_world, sb_exists = (\<lambda>_. Inr True)\<rparr>"

theorem handlers_stay_with_the_owner_witness:
  "let q = demo_instance\<lparr>instance_iri := Some ''https://r.org/instance/8''\<rparr>; st = \<lparr>ss_db = demo_queue, ss_audit = []\<rparr>
   in length (fst (foreign q demo_queue demo_queue)) = 1 \<and> length (snd (foreign q demo_queue demo_queue)) = 2
    \<and> foreign q demo_queue (ss_db (snd (delete_subscription_handler demo_sub_world q ''s'' st))) = foreign q demo_queue demo_queue"
proof -
  let ?q = "demo_instance\<lparr>instance_iri := Some ''https://r.org/instance/8''\<rparr>" and ?st = "\<lparr>ss_db = demo_queue, ss_audit = []\<rparr>"
  have "length (fst (foreign ?q demo_queue demo_queue)) = 1" "length (snd (foreign ?q demo_queue demo_queue)) = 2" by code_simp+
  moreover have "sub_reachable default_policy (ss_db ?st)" using demo_queue_reachable by simp
  from handlers_stay_with_the_owner [OF this]
  have "foreign ?q (ss_db ?st) (ss_db (snd (delete_subscription_handler demo_sub_world ?q ''s'' ?st))) = foreign ?q (ss_db ?st) (ss_db ?st)" by blast
  ultimately show ?thesis by (simp add: Let_def)
qed

text \<open>
  A subscription's owner is checked, but not silently: a caller that may not manage a
  subscription gets 403 where the subscription exists and 404 where it does not, so the answer
  tells the two apart.
\<close>

theorem load_owned_tells_existence:
  assumes "get_subscription sid db = Some s" "\<not> is_curator p" "instance_iri p \<noteq> Some (p_instance_iri s)"
    and "get_subscription other db = None"
  shows "\<exists>e e'. load_owned p sid db = Inl e \<and> status e = 403 \<and> load_owned p other db = Inl e' \<and> status e' = 404"
  using assms by (auto simp: load_owned_def may_manage_subscriptions_def is_curator_def)

theorem load_owned_tells_existence_witness:
  "\<exists>e e'. load_owned (demo_instance\<lparr>instance_iri := Some ''https://r.org/instance/8''\<rparr>) ''s'' demo_queue = Inl e
     \<and> status e = 403 \<and> load_owned (demo_instance\<lparr>instance_iri := Some ''https://r.org/instance/8''\<rparr>) ''x'' demo_queue = Inl e'
     \<and> status e' = 404"
proof -
  let ?p = "demo_instance\<lparr>instance_iri := Some ''https://r.org/instance/8''\<rparr>"
  have "map_option p_instance_iri (get_subscription ''s'' demo_queue) = Some ''https://r.org/instance/7''" by code_simp
  then obtain s where s: "get_subscription ''s'' demo_queue = Some s" "p_instance_iri s = ''https://r.org/instance/7''"
    by (auto simp: map_option_case split: option.splits)
  have "map_option p_id (get_subscription ''x'' demo_queue) = None" by code_simp
  then have x: "get_subscription ''x'' demo_queue = None" by (simp add: map_option_case split: option.splits)
  have c: "\<not> is_curator ?p" by (simp add: is_curator_def is_admin_def demo_instance_def anonymous_def scope_defs)
  have "instance_iri ?p \<noteq> Some (p_instance_iri s)" using s by simp
  from load_owned_tells_existence [OF s(1) c this x] show ?thesis .
qed

text \<open>
  A changed address keeps the old secret: when a signed webhook is pointed at a new URL
  without asking for a rotation, the patch leaves the signing secret alone, so the new receiver
  gets deliveries signed with the secret of the old one.
\<close>

theorem new_url_keeps_secret:
  assumes "plan_patch w s inp = Inr (pt, shown)" "p_webhook_signed s" "pi_rotate_secret inp \<noteq> Some True"
    and "pi_webhook_url inp = Some u" "trim u \<noteq> []"
  shows "set_webhook_secret pt = None \<and> shown = None
     \<and> (\<exists>t. validate_webhook_url (sb_lib w) (trim u) (sb_settings w) = Inr t \<and> set_webhook_url pt = Some (Some t))"
  using assms by (auto simp: plan_patch_def and_then_eq_Inr split: option.splits)

definition demo_patch :: "string option \<Rightarrow> patch_input" where
  "demo_patch url = \<lparr>pi_label = None, pi_filter = None, pi_webhook_url = url, pi_rotate_secret = None, pi_enabled = None,
     pi_resume = None\<rparr>"

definition demo_signed :: subscription where
  "demo_signed = (sub_from_row \<lparr>s_id = ''s'', s_instance_iri = ''i'', s_label = None, s_filter = None,
     s_webhook_url = Some ''https://h.org/'', s_webhook_secret = Some ''whsec_old'', s_enabled = True,
     s_delivery_state = ''active'', s_failures = 0, s_cursor = 0, s_created_at = 0, s_created_by = None,
     s_updated_at = None, s_last_match_at = None, s_last_success_at = None, s_last_error = None,
     s_last_error_at = None, s_last_polled_at = None\<rparr>)"

theorem new_url_keeps_secret_witness:
  "\<exists>pt. plan_patch demo_sub_world demo_signed (demo_patch (Some ''https://other.org/'')) = Inr (pt, None)
     \<and> set_webhook_secret pt = None"
proof -
  let ?u = "''https://other.org/''"
  have v: "validate_webhook_url (sb_lib demo_sub_world) ?u (sb_settings demo_sub_world) = Inr ?u"
    by (simp add: validate_webhook_url_def demo_sub_world_def demo_send_world_def default_webhook_settings_def)
      code_simp
  have tr: "trim ?u = ?u" by code_simp
  have s: "p_webhook_signed demo_signed" by (simp add: demo_signed_def)
  obtain pt shown where pt: "plan_patch demo_sub_world demo_signed (demo_patch (Some ?u)) = Inr (pt, shown)"
    by (simp add: plan_patch_def demo_patch_def tr v s)
  have p: "pi_rotate_secret (demo_patch (Some ?u)) \<noteq> Some True" "pi_webhook_url (demo_patch (Some ?u)) = Some ?u"
    by (simp_all add: demo_patch_def)
  have "trim ?u \<noteq> []" by (simp add: tr)
  from new_url_keeps_secret [OF pt s p this] pt show ?thesis by auto
qed

lemma distinct_ints_bound:
  assumes "sorted_wrt (<) (map key xs)" "\<forall>x \<in> set xs. lo < key x \<and> key x \<le> hi"
  shows "int (length xs) \<le> max (hi - lo) 0"
proof -
  have d: "distinct (map key xs)" using assms(1) strict_sorted_iff by blast
  have "length xs = card (set (map key xs))" using d distinct_card by fastforce
  also have "\<dots> \<le> card {lo<..hi}" by (rule card_mono) (use assms(2) in auto)
  finally show ?thesis by simp
qed

lemma deliveries_since_all:
  "queue_ok db \<Longrightarrow> deliveries_since sid c (- 1) db = filter (\<lambda>d. d_subscription d = sid \<and> c < d_seq d) (del_rows db)"
  by (simp add: deliveries_since_def seq_order_sorted)

lemma deliveries_handler_Inr:
  assumes "deliveries_handler w p sid q st = (Inr page, st')"
  shows "pg_items page = deliveries_since sid (pg_cursor page) (page_limit q) (ss_db st)"
    and "pg_next_cursor page = (if pg_items page = [] then pg_cursor page else d_seq (last (pg_items page)))"
    and "pg_remaining page = max (max_seq sid (ss_db st) - pg_next_cursor page) 0"
proof -
  from assms obtain s c where s: "load_owned p sid (ss_db st) = Inr s" "page_cursor q s = Inr c"
    by (auto simp: deliveries_handler_def and_then_def split: sum.splits)
  then have "p_id s = sid" by (auto dest!: load_owned_Inr get_subscription_id)
  with assms s have "\<exists>ack. page = (read_page sid c (page_limit q) (ss_db st))\<lparr>pg_acknowledged := ack\<rparr>"
    by (auto simp: deliveries_handler_def Let_def read_page_def split: sum.splits if_splits prod.splits)
  then show "pg_items page = deliveries_since sid (pg_cursor page) (page_limit q) (ss_db st)"
    and "pg_next_cursor page = (if pg_items page = [] then pg_cursor page else d_seq (last (pg_items page)))"
    and "pg_remaining page = max (max_seq sid (ss_db st) - pg_next_cursor page) 0"
    by (auto simp: read_page_def Let_def)
qed

lemma page_items_after:
  assumes "x \<in> set (deliveries_since sid c lim db)" shows "x \<in> set (del_rows db) \<and> c < d_seq x"
  using set_sql_limit [OF assms [unfolded deliveries_since_def]] by (auto simp: seq_order_def)

text \<open>
  What a page says about the rest: in a reachable state a page is the next deliveries after
  the cursor it was read from, and \<open>remaining\<close> is zero exactly when nothing is left after it;
  otherwise it is at least the number of deliveries that are left.
\<close>

theorem page_remaining_is_exact_at_zero:
  assumes "sub_reachable pol (ss_db st)" "deliveries_handler w p sid q st = (Inr page, st')" "0 \<le> pg_cursor page"
  shows "(pg_remaining page = 0 \<longleftrightarrow> deliveries_since sid (pg_next_cursor page) (- 1) (ss_db st) = [])
     \<and> int (length (deliveries_since sid (pg_next_cursor page) (- 1) (ss_db st))) \<le> pg_remaining page"
proof -
  let ?db = "ss_db st" and ?n = "pg_next_cursor page"
  let ?rest = "filter (\<lambda>d. d_subscription d = sid \<and> ?n < d_seq d) (del_rows ?db)"
  have ok: "queue_ok ?db" by (rule queue_ok_reachable) (rule assms(1))
  note h = deliveries_handler_Inr(1,2) [OF assms(2)] and rem = deliveries_handler_Inr(3) [OF assms(2)]
  have n: "0 \<le> ?n"
  proof (cases "pg_items page = []")
    case False
    then have "last (pg_items page) \<in> set (pg_items page)" by simp
    with h have "pg_cursor page < d_seq (last (pg_items page))" by (metis page_items_after)
    with False h assms(3) show ?thesis by simp
  qed (use h assms(3) in simp)
  have rest: "deliveries_since sid ?n (- 1) ?db = ?rest" by (rule deliveries_since_all) (rule ok)
  have "?rest = [] \<longleftrightarrow> max_seq sid ?db \<le> ?n"
    using nothing_after_max [of sid ?n ?db] n by (auto simp: max_seq_def)
  moreover have "int (length ?rest) \<le> max (max_seq sid ?db - ?n) 0"
    by (rule distinct_ints_bound [OF queue_sorted_filter [OF ok]]) (auto intro: max_seq_ge)
  ultimately show ?thesis unfolding rest rem by linarith
qed

definition demo_owner :: principal where
  "demo_owner = demo_instance"

theorem page_remaining_is_exact_at_zero_witness:
  "\<exists>page st'. deliveries_handler demo_sub_world demo_owner ''s'' \<lparr>q_cursor = None, q_limit = Some ''1'', q_ack = None\<rparr>
       \<lparr>ss_db = demo_queue, ss_audit = []\<rparr> = (Inr page, st') \<and> pg_remaining page \<noteq> 0 \<and> pg_next_cursor page = 1"
proof -
  let ?st = "\<lparr>ss_db = demo_queue, ss_audit = []\<rparr>" and ?q = "\<lparr>q_cursor = None, q_limit = Some ''1'', q_ack = None\<rparr>"
  have "map_option p_instance_iri (get_subscription ''s'' demo_queue) = Some ''https://r.org/instance/7''"
    "map_option p_cursor (get_subscription ''s'' demo_queue) = Some 0" by code_simp+
  then obtain s where s: "get_subscription ''s'' demo_queue = Some s" "p_instance_iri s = ''https://r.org/instance/7''"
    "p_cursor s = 0" by (auto simp: map_option_case split: option.splits)
  have i: "p_id s = ''s''" using s(1) by (rule get_subscription_id)
  have l: "load_owned demo_owner ''s'' demo_queue = Inr s"
    using s by (simp add: load_owned_def may_manage_subscriptions_def demo_owner_def demo_instance_def)
  have n: "parse_i64 ''1'' = Some 1" by code_simp
  have c: "page_cursor ?q s = Inr 0" "page_limit ?q = 1" by (simp_all add: page_cursor_def page_limit_def s n clamp_def)
  obtain page st' where h: "deliveries_handler demo_sub_world demo_owner ''s'' ?q ?st = (Inr page, st')"
      "page = read_page ''s'' 0 1 demo_queue"
    by (simp add: deliveries_handler_def l Let_def c i)
  have "map d_seq (deliveries_since ''s'' 0 1 demo_queue) = [1]" by code_simp
  then obtain d where d: "deliveries_since ''s'' 0 1 demo_queue = [d]" "d_seq d = 1" by (auto simp: Cons_eq_map_conv)
  then have nc: "pg_next_cursor page = 1" "pg_cursor page = 0" using h(2) by (simp_all add: read_page_def Let_def)
  have "deliveries_since ''s'' 1 (- 1) demo_queue \<noteq> []" by code_simp
  with page_remaining_is_exact_at_zero [OF _ h(1), of default_policy] demo_queue_reachable nc h show ?thesis by auto
qed

section \<open>Advertising twice\<close>

definition sub_key :: "subscription \<Rightarrow> string \<times> sub_filter \<times> string" where
  "sub_key s = (p_id s, p_filter s, p_instance_iri s)"

definition wanted :: "notify_world \<Rightarrow> string option \<Rightarrow> string \<Rightarrow> string \<Rightarrow> string \<times> sub_filter \<times> string \<Rightarrow> bool" where
  "wanted w inst role a k =
     matches (nw_lower w) (fst (snd k)) (snd (snd k))
       (candidate_of a (nw_load w a) inst (Option.bind inst (nw_software_of w)) role)"

lemma offer_not_wanted: "\<not> wanted w inst role a (sub_key s) \<Longrightarrow> offer w inst run role (a, s) db = db"
  by (simp add: offer_def wanted_def sub_key_def Let_def)

lemma offer_known:
  assumes "(p_id s, a, role) \<in> match_key ` set (del_rows db)"
  shows "offer w inst run role (a, s) db = db"
  using assms by (auto simp: offer_def Let_def enqueue_eq clashes_def)

text \<open>What offering keeps and adds: the subscriptions with their keys, and deliveries with the ids of the pair.\<close>

definition offered :: "notify_world \<Rightarrow> string \<Rightarrow> sub_db \<Rightarrow> sub_db \<Rightarrow> bool" where
  "offered w role db0 db \<longleftrightarrow>
     map s_id (sub_rows db) = map s_id (sub_rows db0)
     \<and> map sub_key (active_subscriptions db) = map sub_key (active_subscriptions db0)
     \<and> (\<forall>d \<in> set (del_rows db0). d \<in> set (del_rows db))
     \<and> (\<forall>d \<in> set (del_rows db). d \<in> set (del_rows db0) \<or>
          (\<exists>i a. d_id d = nw_id w i a \<and> match_key d = (i, a, role)))"

lemma active_keys_touch:
  "map (sub_key \<circ> sub_from_row) (filter s_enabled (update_where P (\<lambda>r. r\<lparr>s_last_match_at := t\<rparr>) rows))
     = map (sub_key \<circ> sub_from_row) (filter s_enabled rows)"
  by (induction rows) (simp_all add: update_where_def sub_key_def sub_from_row_def)

lemma offer_eq:
  "offer w inst run role (a, s) db =
     (if wanted w inst role a (sub_key s) \<and> \<not> clashes (nw_id w (p_id s) a) (p_id s, a, role) db
         \<and> p_id s \<in> s_id ` set (sub_rows db)
      then queued_db (nw_id w (p_id s) a) (nw_now w) (nw_time w) (p_id s) a run role
             (notification (nw_base w) s role run inst (Option.bind inst (nw_software_of w)) a (nw_load w a)) db
      else db)"
  by (simp add: offer_def Let_def enqueue_eq wanted_def sub_key_def)

lemma match_keys_queued [simp]:
  "match_key ` set (del_rows (queued_db i now fmt sid a run role payload db))
     = insert (sid, a, role) (match_key ` set (del_rows db))"
  by (simp add: queued_db_def match_key_def new_delivery_def)

lemma offered_offer:
  assumes "offered w role db0 db" shows "offered w role db0 (offer w inst run role (a, s) db)"
  using assms
  by (auto simp: offer_eq offered_def queued_db_def new_delivery_def match_key_def map_update_where
      active_subscriptions_def active_keys_touch)

lemma offer_queues:
  assumes "offered w role db0 db" "wanted w inst role a (sub_key s)" "p_id s \<in> s_id ` set (sub_rows db0)"
    and "\<And>i x. nw_id w i x \<notin> d_id ` set (del_rows db0)" "\<And>i x j y. nw_id w i x = nw_id w j y \<Longrightarrow> i = j \<and> x = y"
  shows "(p_id s, a, role) \<in> match_key ` set (del_rows (offer w inst run role (a, s) db))"
proof (cases "clashes (nw_id w (p_id s) a) (p_id s, a, role) db")
  case True
  have "(p_id s, a, role) \<in> match_key ` set (del_rows db)"
  proof (rule ccontr)
    assume n: "(p_id s, a, role) \<notin> match_key ` set (del_rows db)"
    with True obtain d where d: "d \<in> set (del_rows db)" "d_id d = nw_id w (p_id s) a" by (auto simp: clashes_def)
    with assms(1,4) obtain i x where "d_id d = nw_id w i x" "match_key d = (i, x, role)"
      by (auto simp: offered_def image_iff) metis
    with d assms(5) [of i x] n show False by (metis image_eqI)
  qed
  then show ?thesis by (simp add: offer_known)
next
  case False
  have "map s_id (sub_rows db) = map s_id (sub_rows db0)" using assms(1) by (simp add: offered_def)
  from arg_cong [where f = set, OF this] have "s_id ` set (sub_rows db) = s_id ` set (sub_rows db0)" by simp
  with assms(2,3) False show ?thesis by (simp add: offer_eq)
qed

lemma offer_keeps_keys:
  "match_key ` set (del_rows db) \<subseteq> match_key ` set (del_rows (offer w inst run role (a, s) db))"
  by (simp add: offer_eq subset_insertI)

lemma fold_offer:
  assumes "offered w role db0 db" "\<And>a s. (a, s) \<in> set ps \<Longrightarrow> p_id s \<in> s_id ` set (sub_rows db0)"
    and "\<And>i x. nw_id w i x \<notin> d_id ` set (del_rows db0)" "\<And>i x j y. nw_id w i x = nw_id w j y \<Longrightarrow> i = j \<and> x = y"
  shows "offered w role db0 (fold (offer w inst run role) ps db)
     \<and> (\<forall>(a, s) \<in> set ps. wanted w inst role a (sub_key s) \<longrightarrow>
          (p_id s, a, role) \<in> match_key ` set (del_rows (fold (offer w inst run role) ps db)))
     \<and> match_key ` set (del_rows db) \<subseteq> match_key ` set (del_rows (fold (offer w inst run role) ps db))"
  using assms(1,2)
proof (induction ps arbitrary: db)
  case (Cons p ps)
  obtain a s where p: "p = (a, s)" by (cases p)
  let ?db = "offer w inst run role (a, s) db"
  have o: "offered w role db0 ?db" using Cons.prems(1) by (rule offered_offer)
  have "p_id s \<in> s_id ` set (sub_rows db0)" using Cons.prems(2) [of a s] p by simp
  then have q: "wanted w inst role a (sub_key s) \<Longrightarrow> (p_id s, a, role) \<in> match_key ` set (del_rows ?db)"
    by (intro offer_queues [OF Cons.prems(1)] assms(3,4))
  from Cons.IH [OF o] Cons.prems(2) p
  have IH: "offered w role db0 (fold (offer w inst run role) ps ?db)"
    "\<forall>(a, s) \<in> set ps. wanted w inst role a (sub_key s) \<longrightarrow>
       (p_id s, a, role) \<in> match_key ` set (del_rows (fold (offer w inst run role) ps ?db))"
    "match_key ` set (del_rows ?db) \<subseteq> match_key ` set (del_rows (fold (offer w inst run role) ps ?db))"
    by auto
  have "match_key ` set (del_rows db) \<subseteq> match_key ` set (del_rows (fold (offer w inst run role) ps ?db))"
    by (rule subset_trans [OF offer_keeps_keys IH(3)])
  moreover have "\<forall>(a, s) \<in> set (p # ps). wanted w inst role a (sub_key s) \<longrightarrow>
       (p_id s, a, role) \<in> match_key ` set (del_rows (fold (offer w inst run role) ps ?db))"
    using IH(2) q subsetD [OF IH(3)] by (simp add: p)
  ultimately show ?case using IH(1) p by simp
qed simp

lemma active_ids: "s \<in> set (active_subscriptions db) \<Longrightarrow> p_id s \<in> s_id ` set (sub_rows db)"
  by (auto simp: active_subscriptions_def sub_from_row_def)

lemma same_keys:
  assumes "map f xs = map f ys" "x \<in> set xs" obtains y where "y \<in> set ys" "f y = f x"
  using assms by (metis in_set_conv_nth nth_map map_eq_imp_length_eq nth_mem)

lemma offered_refl: "offered w role db db"
  by (simp add: offered_def)

lemma wanted_again: "wanted (w\<lparr>nw_now := t, nw_id := g\<rparr>) inst role a k = wanted w inst role a k"
  by (simp add: wanted_def)

text \<open>
  Advertising twice notifies nobody twice: when the same artifacts are advertised again in
  the same role over an unchanged catalogue, with any clock and any fresh ids, the second
  notification pass leaves the subscription tables as the first one left them.
\<close>

theorem readvertising_notifies_nobody_twice:
  assumes "\<And>i x. nw_id w i x \<notin> d_id ` set (del_rows db)"
    and "\<And>i x j y. nw_id w i x = nw_id w j y \<Longrightarrow> i = j \<and> x = y"
  shows "notify_advertised (w\<lparr>nw_now := t, nw_id := g\<rparr>) inst run' arts role (notify_advertised w inst run arts role db)
     = notify_advertised w inst run arts role db"
proof -
  let ?w = "w\<lparr>nw_now := t, nw_id := g\<rparr>"
  let ?pairs = "\<lambda>db. concat (map (\<lambda>a. map (\<lambda>s. (a, s)) (active_subscriptions db)) arts)"
  let ?db = "fold (offer w inst run role) (?pairs db) db"
  have ids: "\<And>a s. (a, s) \<in> set (?pairs db) \<Longrightarrow> p_id s \<in> s_id ` set (sub_rows db)"
    by (auto intro: active_ids)
  note f = fold_offer [of w role db db "?pairs db" inst run, OF offered_refl ids assms]
  have keys: "map sub_key (active_subscriptions ?db) = map sub_key (active_subscriptions db)"
    using f by (simp add: offered_def)
  have fixed: "offer ?w inst run' role p ?db = ?db" if pm: "p \<in> set (?pairs ?db)" for p
  proof -
    obtain a s where p: "p = (a, s)" "a \<in> set arts" "s \<in> set (active_subscriptions ?db)" using pm by auto
    obtain s0 where s0: "s0 \<in> set (active_subscriptions db)" "sub_key s0 = sub_key s"
      using same_keys [OF keys p(3)] by blast
    show ?thesis
    proof (cases "wanted w inst role a (sub_key s)")
      case True
      have "(a, s0) \<in> set (?pairs db)" using p(2) s0(1) by auto
      with f True s0(2) have "(p_id s0, a, role) \<in> match_key ` set (del_rows ?db)" by fastforce
      moreover have "p_id s0 = p_id s" using s0(2) by (simp add: sub_key_def)
      ultimately show ?thesis using p(1) by (simp add: offer_known)
    next
      case False
      then show ?thesis using p(1) by (simp add: offer_not_wanted wanted_again)
    qed
  qed
  have fixed': "fold (offer ?w inst run' role) (?pairs ?db) ?db = ?db" by (rule fold_fixed) (rule fixed)
  show ?thesis
  proof (cases "arts = [] \<or> active_subscriptions db = []")
    case True
    then show ?thesis by (auto simp: notify_advertised_def)
  next
    case False
    then have once: "notify_advertised w inst run arts role db = ?db" by (simp add: notify_advertised_def Let_def)
    from False keys have "active_subscriptions ?db \<noteq> []" by auto
    with False have "notify_advertised ?w inst run' arts role ?db = fold (offer ?w inst run' role) (?pairs ?db) ?db"
      by (simp add: notify_advertised_def Let_def)
    with fixed' once show ?thesis by simp
  qed
qed

definition demo_pair_id :: "string \<Rightarrow> string \<Rightarrow> string" where
  "demo_pair_id i x = replicate (length i) CHR ''#'' @ CHR ''.'' # i @ x"

lemma demo_pair_id_inj: "demo_pair_id i x = demo_pair_id j y \<Longrightarrow> i = j \<and> x = y"
proof -
  have hashes: "replicate m c @ d # us = replicate n c @ d # vs \<Longrightarrow> c \<noteq> d \<Longrightarrow> m = n \<and> us = vs"
    for m n and c d :: char and us vs
  proof (induction m arbitrary: n)
    case 0
    then show ?case by (cases n) auto
  next
    case (Suc m)
    then show ?case by (cases n) auto
  qed
  assume "demo_pair_id i x = demo_pair_id j y"
  then have "length i = length j \<and> i @ x = j @ y" unfolding demo_pair_id_def by (intro hashes) auto
  then show ?thesis using append_eq_append_conv by blast
qed

definition demo_notify_world :: notify_world where
  "demo_notify_world = \<lparr>nw_base = ''https://r.org'', nw_now = 5, nw_id = demo_pair_id, nw_time = (\<lambda>_. ''now''),
     nw_lower = id, nw_load = (\<lambda>_. None), nw_software_of = (\<lambda>_. None)\<rparr>"

theorem readvertising_notifies_nobody_twice_witness:
  "map match_key (del_rows (notify_advertised (demo_notify_world\<lparr>nw_now := 9, nw_id := demo_pair_id\<rparr>) None (Some ''run2'')
       [''https://r.org/artifact/1''] ROLE_PRODUCED
       (notify_advertised demo_notify_world None None [''https://r.org/artifact/1''] ROLE_PRODUCED demo_subscribed)))
     = [(''s'', ''https://r.org/artifact/1'', ROLE_PRODUCED)]"
proof -
  have once: "map match_key (del_rows (notify_advertised demo_notify_world None None [''https://r.org/artifact/1''] ROLE_PRODUCED
      demo_subscribed)) = [(''s'', ''https://r.org/artifact/1'', ROLE_PRODUCED)]" by code_simp
  have "del_rows demo_subscribed = []" by code_simp
  then have fresh: "nw_id demo_notify_world i x \<notin> d_id ` set (del_rows demo_subscribed)" for i x by simp
  have inj: "nw_id demo_notify_world i x = nw_id demo_notify_world j y \<Longrightarrow> i = j \<and> x = y" for i x j y
    by (rule demo_pair_id_inj) (simp add: demo_notify_world_def)
  have "notify_advertised (demo_notify_world\<lparr>nw_now := 9, nw_id := demo_pair_id\<rparr>) None (Some ''run2'')
       [''https://r.org/artifact/1''] ROLE_PRODUCED
       (notify_advertised demo_notify_world None None [''https://r.org/artifact/1''] ROLE_PRODUCED demo_subscribed)
     = notify_advertised demo_notify_world None None [''https://r.org/artifact/1''] ROLE_PRODUCED demo_subscribed"
    by (rule readvertising_notifies_nobody_twice) (rule fresh, rule inj)
  from arg_cong [where f = "\<lambda>db. map match_key (del_rows db)", OF this] once show ?thesis by (rule trans)
qed

end
