(* ===== verification/Peers.thy ===== *)
theory Peers
  imports Interfaces "HOL-Library.Option_ord" "HOL-Library.List_Lexorder" "HOL-Library.Char_ord"
begin

text \<open>
  The rest of \<open>src/ops/mod.rs\<close>: the peers, the resolve queue, the idempotency tables and the
  forge statistics. Tables are row lists in rowid order. The peer times are the texts of the
  columns, formatted and parsed by arguments (chrono); the times of the resolve queue are
  nanoseconds, since RFC 3339 texts in UTC sort as the times they stand for.
\<close>

section \<open>Peers\<close>

record peer =
  pr_id :: string
  pr_base_iri :: string
  pr_title :: "string option"
  pr_operator :: "string option"
  pr_added_at :: string
  pr_last_seen_at :: "string option"
  pr_resolve_status :: string
  pr_last_error :: "string option"
  pr_record_count :: int
  pr_state :: string
  pr_suggested_by :: "string option"
  pr_stale :: bool

definition PEER_STALE_AFTER_DAYS :: int where
  "PEER_STALE_AFTER_DAYS = 90"

definition day_ns :: int where
  "day_ns = 86400 * 10 ^ 9"

definition is_stale_at :: "(string \<Rightarrow> int option) \<Rightarrow> int \<Rightarrow> peer \<Rightarrow> bool" where
  "is_stale_at parse now p =
     (let since = (case pr_last_seen_at p of Some t \<Rightarrow> t | None \<Rightarrow> pr_added_at p)
      in case parse since of None \<Rightarrow> False | Some t \<Rightarrow> PEER_STALE_AFTER_DAYS * day_ns < now - t)"

text \<open>The flag is computed when a row is read; the stored row does not have it.\<close>

definition peer_from_row :: "(string \<Rightarrow> int option) \<Rightarrow> int \<Rightarrow> peer \<Rightarrow> peer" where
  "peer_from_row parse now row = row\<lparr>pr_stale := is_stale_at parse now row\<rparr>"

definition upsert_peer :: "peer \<Rightarrow> peer list \<Rightarrow> db_error + peer list" where
  "upsert_peer p rows =
     (if list_ex (\<lambda>r. pr_base_iri r = pr_base_iri p) rows
      then Inr (update_where (\<lambda>r. pr_base_iri r = pr_base_iri p)
             (\<lambda>r. r\<lparr>pr_title := pr_title p, pr_operator := pr_operator p, pr_last_seen_at := pr_last_seen_at p,
                    pr_resolve_status := pr_resolve_status p, pr_last_error := pr_last_error p,
                    pr_state := pr_state p\<rparr>) rows)
      else if list_ex (\<lambda>r. pr_id r = pr_id p) rows then Inl (Constraint_Failed ''peers.id'')
      else Inr (rows @ [p\<lparr>pr_stale := False\<rparr>]))"

text \<open>\<open>ORDER BY added_at DESC\<close> on the text of the column.\<close>

definition newest_peers :: "peer list \<Rightarrow> peer list" where
  "newest_peers rows = rev (sort_key pr_added_at (rev rows))"

definition list_peers :: "(string \<Rightarrow> int option) \<Rightarrow> int \<Rightarrow> string option \<Rightarrow> peer list \<Rightarrow> peer list" where
  "list_peers parse now st rows =
     map (peer_from_row parse now)
       (newest_peers (case st of Some s \<Rightarrow> filter (\<lambda>r. pr_state r = s) rows | None \<Rightarrow> rows))"

definition get_peer :: "(string \<Rightarrow> int option) \<Rightarrow> int \<Rightarrow> string \<Rightarrow> peer list \<Rightarrow> peer option" where
  "get_peer parse now i rows =
     map_option (peer_from_row parse now) (find (\<lambda>r. pr_id r = i \<or> pr_base_iri r = i) rows)"

definition delete_peer :: "string \<Rightarrow> peer list \<Rightarrow> bool \<times> peer list" where
  "delete_peer i rows = (0 < rows_where (\<lambda>r. pr_id r = i) rows, delete_where (\<lambda>r. pr_id r = i) rows)"

definition note_peer_contact :: "(int \<Rightarrow> string) \<Rightarrow> int \<Rightarrow> string \<Rightarrow> string option \<Rightarrow> peer list \<Rightarrow> peer list" where
  "note_peer_contact fmt now i err rows =
     (case err of
        None \<Rightarrow> update_where (\<lambda>r. pr_id r = i)
          (\<lambda>r. r\<lparr>pr_last_seen_at := Some (fmt now), pr_resolve_status := ''ok'', pr_last_error := None\<rparr>) rows
      | Some e \<Rightarrow> update_where (\<lambda>r. pr_id r = i)
          (\<lambda>r. r\<lparr>pr_resolve_status := ''error'', pr_last_error := Some e\<rparr>) rows)"

definition set_peer_record_count :: "string \<Rightarrow> int \<Rightarrow> peer list \<Rightarrow> peer list" where
  "set_peer_record_count i n rows = update_where (\<lambda>r. pr_id r = i) (\<lambda>r. r\<lparr>pr_record_count := n\<rparr>) rows"

section \<open>The resolve queue\<close>

record resolve_row =
  rq_iri :: string
  rq_peer :: "string option"
  rq_status :: string
  rq_attempts :: int
  rq_last_attempt_at :: "int option"
  rq_next_attempt_at :: "int option"
  rq_resolved_at :: "int option"
  rq_last_error :: "string option"

definition is_tracked :: "string \<Rightarrow> resolve_row list \<Rightarrow> bool" where
  "is_tracked iri rows = list_ex (\<lambda>r. rq_iri r = iri) rows"

definition queue_resolve :: "int \<Rightarrow> string \<Rightarrow> string option \<Rightarrow> resolve_row list \<Rightarrow> resolve_row list" where
  "queue_resolve now iri p rows =
     (if list_ex (\<lambda>r. rq_iri r = iri) rows then rows
      else rows @ [\<lparr>rq_iri = iri, rq_peer = p, rq_status = ''pending'', rq_attempts = 0, rq_last_attempt_at = None,
             rq_next_attempt_at = Some now, rq_resolved_at = None, rq_last_error = None\<rparr>])"

definition resolve_due :: "int \<Rightarrow> resolve_row \<Rightarrow> bool" where
  "resolve_due now r = (case rq_next_attempt_at r of None \<Rightarrow> True | Some t \<Rightarrow> t \<le> now)"

definition due_resolves :: "int \<Rightarrow> int \<Rightarrow> resolve_row list \<Rightarrow> string list" where
  "due_resolves now lim rows =
     map rq_iri (sql_limit lim (sort_key rq_next_attempt_at (filter (resolve_due now) rows)))"

definition mark_resolved :: "int \<Rightarrow> string \<Rightarrow> int \<Rightarrow> resolve_row list \<Rightarrow> resolve_row list" where
  "mark_resolved now iri ttl rows =
     update_where (\<lambda>r. rq_iri r = iri)
       (\<lambda>r. r\<lparr>rq_status := ''resolved'', rq_attempts := 0, rq_resolved_at := Some now, rq_last_attempt_at := Some now,
              rq_next_attempt_at := Some (now + ttl), rq_last_error := None\<rparr>) rows"

definition resolve_backoff :: "int \<Rightarrow> int" where
  "resolve_backoff attempts = sat_i64 (60 * 2 ^ nat (min attempts 10))"

definition resolve_attempts :: "string \<Rightarrow> resolve_row list \<Rightarrow> int" where
  "resolve_attempts iri rows = (case find (\<lambda>r. rq_iri r = iri) rows of None \<Rightarrow> 0 | Some r \<Rightarrow> rq_attempts r)"

definition mark_resolve_failed :: "int \<Rightarrow> string \<Rightarrow> string \<Rightarrow> resolve_row list \<Rightarrow> resolve_row list" where
  "mark_resolve_failed now iri err rows =
     (let attempts = resolve_attempts iri rows + 1
      in update_where (\<lambda>r. rq_iri r = iri)
           (\<lambda>r. r\<lparr>rq_status := ''failed'', rq_attempts := attempts, rq_last_attempt_at := Some now,
                  rq_next_attempt_at := Some (now + resolve_backoff attempts * 10 ^ 9), rq_last_error := Some err\<rparr>) rows)"

definition resolve_status :: "string \<Rightarrow> resolve_row list \<Rightarrow> (string \<times> string option) option" where
  "resolve_status iri rows =
     map_option (\<lambda>r. (rq_status r, rq_last_error r)) (find (\<lambda>r. rq_iri r = iri) rows)"

section \<open>Idempotency\<close>

record run_key =
  rk_external_key :: string
  rk_instance_iri :: string
  rk_run_iri :: string
  rk_created_at :: int

definition run_for_key :: "string \<Rightarrow> string \<Rightarrow> run_key list \<Rightarrow> string option" where
  "run_for_key key inst rows =
     map_option rk_run_iri (find (\<lambda>r. rk_external_key r = key \<and> rk_instance_iri r = inst) rows)"

definition remember_run :: "int \<Rightarrow> string \<Rightarrow> string \<Rightarrow> string \<Rightarrow> run_key list \<Rightarrow> run_key list" where
  "remember_run now key inst run rows =
     (if list_ex (\<lambda>r. rk_external_key r = key \<and> rk_instance_iri r = inst) rows then rows
      else rows @ [\<lparr>rk_external_key = key, rk_instance_iri = inst, rk_run_iri = run, rk_created_at = now\<rparr>])"

record artifact_key =
  ak_external_key :: string
  ak_artifact_iri :: string
  ak_created_at :: int

definition artifact_for_key :: "string \<Rightarrow> artifact_key list \<Rightarrow> string option" where
  "artifact_for_key key rows = map_option ak_artifact_iri (find (\<lambda>r. ak_external_key r = key) rows)"

definition remember_artifact :: "int \<Rightarrow> string \<Rightarrow> string \<Rightarrow> artifact_key list \<Rightarrow> artifact_key list" where
  "remember_artifact now key art rows =
     (if list_ex (\<lambda>r. ak_external_key r = key) rows then rows
      else rows @ [\<lparr>ak_external_key = key, ak_artifact_iri = art, ak_created_at = now\<rparr>])"

record advertise_row =
  ai_key :: string
  ai_run_iri :: string
  ai_artifact_iri :: string
  ai_role :: string
  ai_created_at :: int

definition advertise_key :: "string \<Rightarrow> string \<Rightarrow> string \<Rightarrow> string" where
  "advertise_key run art role = run @ ''|'' @ art @ ''|'' @ role"

definition claim_advertisement ::
  "int \<Rightarrow> string \<Rightarrow> string \<Rightarrow> string \<Rightarrow> advertise_row list \<Rightarrow> bool \<times> advertise_row list" where
  "claim_advertisement now run art role rows =
     (if list_ex (\<lambda>r. ai_key r = advertise_key run art role) rows then (False, rows)
      else (True, rows @ [\<lparr>ai_key = advertise_key run art role, ai_run_iri = run, ai_artifact_iri = art,
                           ai_role = role, ai_created_at = now\<rparr>]))"

section \<open>Forge statistics\<close>

record repository_stats =
  rs_software_iri :: string
  rs_repo :: string
  rs_stars :: "int option"
  rs_forks :: "int option"
  rs_last_commit_at :: "string option"
  rs_fetched_at :: "int option"
  rs_checked_at :: int
  rs_last_error :: "string option"

definition stats_for :: "string \<Rightarrow> repository_stats list \<Rightarrow> repository_stats option" where
  "stats_for sw rows = find (\<lambda>r. rs_software_iri r = sw) rows"

text \<open>\<open>INSERT OR REPLACE\<close> deletes the row of that key and adds the new one.\<close>

definition record_repository_stats ::
  "int \<Rightarrow> string \<Rightarrow> string \<Rightarrow> int option \<Rightarrow> int option \<Rightarrow> string option \<Rightarrow> repository_stats list \<Rightarrow> repository_stats list" where
  "record_repository_stats now sw repo stars forks commit rows =
     delete_where (\<lambda>r. rs_software_iri r = sw) rows
       @ [\<lparr>rs_software_iri = sw, rs_repo = repo, rs_stars = stars, rs_forks = forks, rs_last_commit_at = commit,
           rs_fetched_at = Some now, rs_checked_at = now, rs_last_error = None\<rparr>]"

definition record_repository_error :: "int \<Rightarrow> string \<Rightarrow> string \<Rightarrow> string \<Rightarrow> repository_stats list \<Rightarrow> repository_stats list" where
  "record_repository_error now sw repo err rows =
     (if list_ex (\<lambda>r. rs_software_iri r = sw) rows
      then update_where (\<lambda>r. rs_software_iri r = sw)
             (\<lambda>r. let keep = (rs_repo r = repo)
                  in r\<lparr>rs_checked_at := now, rs_last_error := Some err,
                       rs_stars := (if keep then rs_stars r else None), rs_forks := (if keep then rs_forks r else None),
                       rs_last_commit_at := (if keep then rs_last_commit_at r else None),
                       rs_fetched_at := (if keep then rs_fetched_at r else None), rs_repo := repo\<rparr>) rows
      else rows @ [\<lparr>rs_software_iri = sw, rs_repo = repo, rs_stars = None, rs_forks = None, rs_last_commit_at = None,
             rs_fetched_at = None, rs_checked_at = now, rs_last_error = Some err\<rparr>])"

section \<open>The contracts these tables keep\<close>

lemma list_ex_key: "list_ex (\<lambda>r. key r = k) rows \<longleftrightarrow> k \<in> key ` set rows"
  by (auto simp: list_ex_iff)

lemma resolve_backoff_eq: "resolve_backoff n = 60 * 2 ^ nat (min n 10)"
proof -
  have "(2 :: int) ^ nat (min n 10) \<le> 2 ^ 10" by (rule power_increasing) auto
  moreover define w :: int where "w = 2 ^ nat (min n 10)"
  moreover have "0 \<le> w" by (simp add: w_def)
  ultimately show ?thesis unfolding resolve_backoff_def sat_i64_def w_def [symmetric] by simp
qed

interpretation resolve_retry: backoff_schedule resolve_backoff 61440
proof
  fix m n :: int
  have two: "(2 :: int) ^ nat (min n 10) \<le> 2 ^ 10" by (rule power_increasing) auto
  then show "resolve_backoff n \<le> 61440" by (simp add: resolve_backoff_eq)
  have "(1 :: int) \<le> 2 ^ nat (min n 10)" by simp
  then show "1 \<le> resolve_backoff n" unfolding resolve_backoff_eq by linarith
  assume "m \<le> n"
  then have "(2 :: int) ^ nat (min m 10) \<le> 2 ^ nat (min n 10)" by (intro power_increasing) auto
  then show "resolve_backoff m \<le> resolve_backoff n" by (simp add: resolve_backoff_eq)
qed

text \<open>
  The key of an advertisement separates run, artifact and role as long as the run and the role
  hold no bar: the runs are minted here, and there are two roles.
\<close>

definition bar_free :: "string \<times> string \<times> string \<Rightarrow> bool" where
  "bar_free k \<longleftrightarrow> CHR ''|'' \<notin> set (fst k) \<and> CHR ''|'' \<notin> set (snd (snd k))"

lemma split_first:
  assumes "(c :: char) \<notin> set a" "c \<notin> set b" "a @ c # x = b @ c # y" shows "a = b \<and> x = y"
proof -
  have "split_once c (b @ c # y) = Some (a, x)" unfolding assms(3) [symmetric] using assms(1) by (rule split_once_append)
  moreover have "split_once c (b @ c # y) = Some (b, y)" using assms(2) by (rule split_once_append)
  ultimately show ?thesis by simp
qed

lemma split_last:
  assumes "(c :: char) \<notin> set a" "c \<notin> set b" "x @ c # a = y @ c # b" shows "a = b \<and> x = y"
proof -
  from arg_cong [where f = rev, OF assms(3)] have "rev a @ c # rev x = rev b @ c # rev y" by simp
  with assms(1,2) have "rev a = rev b \<and> rev x = rev y" by (intro split_first) simp_all
  then show ?thesis by simp
qed

lemma advertise_key_inj:
  assumes "bar_free (run, art, role)" "bar_free (run', art', role')"
  shows "advertise_key run art role = advertise_key run' art' role' \<longleftrightarrow> run = run' \<and> art = art' \<and> role = role'"
proof
  assume "advertise_key run art role = advertise_key run' art' role'"
  then have "run @ CHR ''|'' # (art @ CHR ''|'' # role) = run' @ CHR ''|'' # (art' @ CHR ''|'' # role')"
    by (simp add: advertise_key_def)
  with assms have "run = run' \<and> art @ CHR ''|'' # role = art' @ CHR ''|'' # role'"
    by (intro split_first) (simp_all add: bar_free_def)
  moreover from this assms have "role = role' \<and> art = art'"
    by (intro split_last [where c = "CHR ''|''"]) (simp_all add: bar_free_def)
  ultimately show "run = run' \<and> art = art' \<and> role = role'" by simp
qed simp

interpretation advertised: lasting_claims
  "\<lambda>(run, art, role) now. claim_advertisement now run art role"
  "\<lambda>(run, art, role) rows. advertise_key run art role \<in> ai_key ` set rows" bar_free
  by unfold_locales
    (auto simp: claim_advertisement_def list_ex_key advertise_key_inj split: if_splits)

interpretation run_keys: lasting_claims
  "\<lambda>(key, inst) (now, run) rows. (run_for_key key inst rows = None, remember_run now key inst run rows)"
  "\<lambda>(key, inst) rows. (key, inst) \<in> (\<lambda>r. (rk_external_key r, rk_instance_iri r)) ` set rows" "\<lambda>_. True"
  by unfold_locales
    (auto simp: remember_run_def run_for_key_def list_ex_iff find_None_iff image_iff split: if_splits)

interpretation artifact_keys: lasting_claims
  "\<lambda>key (now, art) rows. (artifact_for_key key rows = None, remember_artifact now key art rows)"
  "\<lambda>key rows. key \<in> ak_external_key ` set rows" "\<lambda>_. True"
  by unfold_locales
    (auto simp: remember_artifact_def artifact_for_key_def list_ex_iff find_None_iff image_iff split: if_splits)

interpretation resolve_queue: lasting_claims
  "\<lambda>iri (now, p) rows. (\<not> is_tracked iri rows, queue_resolve now iri p rows)"
  "\<lambda>iri rows. iri \<in> rq_iri ` set rows" "\<lambda>_. True"
  by unfold_locales (auto simp: queue_resolve_def is_tracked_def list_ex_key split: if_splits)

section \<open>Properties\<close>

fun claim_all :: "(int \<times> string \<times> string \<times> string) list \<Rightarrow> advertise_row list \<Rightarrow> bool list \<times> advertise_row list" where
  "claim_all [] rows = ([], rows)"
| "claim_all ((now, run, art, role) # reqs) rows =
     (let (won, rows') = claim_advertisement now run art role rows; (rest, rows'') = claim_all reqs rows'
      in (won # rest, rows''))"

lemma claim_all_claims:
  "claim_all reqs rows = advertised.claims (map (\<lambda>(now, k). (k, now)) reqs) rows"
  by (induction reqs rows rule: claim_all.induct) (simp_all add: Let_def split: prod.splits)

lemma zip_wins:
  assumes "length ws = length reqs"
  shows "length (filter (\<lambda>(r, won). fst r = k \<and> won) (zip (map (\<lambda>(now, k). (k, now)) reqs) ws))
     = length (filter (\<lambda>(r, won). snd r = k \<and> won) (zip reqs ws))"
  using assms by (induction ws reqs rule: list_induct2) auto

lemma length_claim_all: "length (fst (claim_all reqs rows)) = length reqs"
  by (induction reqs rows rule: claim_all.induct) (auto simp: Let_def split: prod.splits)

text \<open>
  An advertisement is recorded once: of any sequence of claims, whatever their times, a
  triple of run, artifact and role that is not in the table is granted exactly once if it is
  asked for at all, and one that is in the table never; no other triple stands in its way.
\<close>

theorem advertisement_is_claimed_once:
  assumes "bar_free k" "\<forall>r \<in> set reqs. bar_free (snd r)"
  shows "length (filter (\<lambda>(r, won). snd r = k \<and> won) (zip reqs (fst (claim_all reqs rows)))) =
     (if (case k of (run, art, role) \<Rightarrow> advertise_key run art role) \<in> ai_key ` set rows \<or> k \<notin> snd ` set reqs
      then 0 else 1)"
proof -
  let ?reqs = "map (\<lambda>(now, k). (k, now)) reqs"
  have "length (filter (\<lambda>(r, won). snd r = k \<and> won) (zip reqs (fst (claim_all reqs rows)))) = advertised.wins k ?reqs rows"
    using zip_wins [OF length_claim_all] by (simp add: advertised.wins_def claim_all_claims)
  moreover have "advertised.wins k ?reqs rows =
      (if (case k of (run, art, role) \<Rightarrow> advertise_key run art role) \<in> ai_key ` set rows \<or> k \<notin> fst ` set ?reqs
       then 0 else 1)"
    using advertised.wins_once [OF assms(1), of ?reqs rows] assms(2) by (fastforce split: prod.splits)
  moreover have "k \<in> fst ` set ?reqs \<longleftrightarrow> k \<in> snd ` set reqs" by force
  ultimately show ?thesis by presburger
qed

theorem advertisement_is_claimed_once_witness:
  "length (filter (\<lambda>(r, won). snd r = (''r/1'', ''a|b'', ''produced'') \<and> won)
     (zip [(1 :: int, ''r/1'', ''a|b'', ''produced''), (2, ''r/1'', ''a|b'', ''produced'')]
       (fst (claim_all [(1, ''r/1'', ''a|b'', ''produced''), (2, ''r/1'', ''a|b'', ''produced'')] [])))) = 1"
proof -
  let ?k = "(''r/1'', ''a|b'', ''produced'')"
  have "bar_free ?k" "\<forall>r \<in> set [(1 :: int, ?k), (2, ?k)]. bar_free (snd r)" by (simp_all add: bar_free_def)
  from advertisement_is_claimed_once [OF this, of "[]"] show ?thesis by simp
qed

lemma due_resolves_all: "set (due_resolves t (- 1) rows) = rq_iri ` set (filter (resolve_due t) rows)"
  by (simp add: due_resolves_def)

text \<open>
  A stub that cannot be fetched is retried: after a failed attempt it is due again once a
  minute times a power of two has passed, doubling with each failure in a row up to 1024
  minutes, and not before; after a successful one it is due again when its lifetime is over.
\<close>

theorem failing_stub_waits_then_returns:
  assumes "is_tracked iri rows"
  shows "(iri \<in> set (due_resolves t (- 1) (mark_resolve_failed now iri err rows)) \<longleftrightarrow>
       now + 60 * 2 ^ nat (min (resolve_attempts iri rows + 1) 10) * 10 ^ 9 \<le> t)
     \<and> resolve_attempts iri (mark_resolve_failed now iri err rows) = resolve_attempts iri rows + 1
     \<and> (iri \<in> set (due_resolves t (- 1) (mark_resolved now iri ttl rows)) \<longleftrightarrow> now + ttl \<le> t)
     \<and> resolve_attempts iri (mark_resolved now iri ttl rows) = 0"
proof -
  obtain r where r: "find (\<lambda>r. rq_iri r = iri) rows = Some r" "rq_iri r = iri" "r \<in> set rows"
    using assms by (cases "find (\<lambda>r. rq_iri r = iri) rows")
      (auto simp: is_tracked_def list_ex_iff find_None_iff dest: find_SomeD)
  have due: "iri \<in> rq_iri ` set (filter (resolve_due t) (update_where (\<lambda>r. rq_iri r = iri) f rows)) \<longleftrightarrow> due \<le> t"
    if "\<And>r. rq_iri (f r) = rq_iri r" "\<And>r. rq_next_attempt_at (f r) = Some due" for f due
  proof
    assume "due \<le> t"
    then have "f r \<in> set (filter (resolve_due t) (update_where (\<lambda>r. rq_iri r = iri) f rows))"
      using update_where_mem [OF r(3), of "\<lambda>r. rq_iri r = iri" f] r(2) that by (simp add: resolve_due_def)
    then show "iri \<in> rq_iri ` set (filter (resolve_due t) (update_where (\<lambda>r. rq_iri r = iri) f rows))"
      by (rule image_eqI [rotated]) (simp add: that r(2))
  next
    assume "iri \<in> rq_iri ` set (filter (resolve_due t) (update_where (\<lambda>r. rq_iri r = iri) f rows))"
    then obtain r' where "r' \<in> set rows" "rq_iri r' = iri" "resolve_due t (f r')"
      by (auto simp: set_update_where that split: if_splits)
    then show "due \<le> t" by (simp add: resolve_due_def that)
  qed
  show ?thesis
    using r by (simp add: due_resolves_all mark_resolve_failed_def mark_resolved_def resolve_backoff_eq Let_def
        due [simplified] resolve_attempts_def find_update_where)
qed

theorem failing_stub_waits_then_returns_witness:
  "''https://p.org/artifact/1'' \<notin> set (due_resolves (10 ^ 9) (- 1)
      (mark_resolve_failed 0 ''https://p.org/artifact/1'' ''timeout'' (queue_resolve 0 ''https://p.org/artifact/1'' None [])))"
proof -
  let ?rows = "queue_resolve 0 ''https://p.org/artifact/1'' None []"
  have "is_tracked ''https://p.org/artifact/1'' ?rows" "resolve_attempts ''https://p.org/artifact/1'' ?rows = 0" by code_simp+
  with failing_stub_waits_then_returns [OF this(1), of "10 ^ 9" 0 "''timeout''" 0] show ?thesis by simp
qed

text \<open>
  C3. Only an answer counts as a sighting: after a peer has answered, no run of failed contacts
  changes when it was last seen, so it becomes stale exactly ninety days after that answer.
\<close>

definition failed_contacts :: "(int \<Rightarrow> string) \<Rightarrow> string \<Rightarrow> (int \<times> string) list \<Rightarrow> peer list \<Rightarrow> peer list" where
  "failed_contacts fmt i es rows = fold (\<lambda>(t, e). note_peer_contact fmt t i (Some e)) es rows"

theorem failures_are_no_sightings:
  assumes "parse (fmt now) = Some now" "get_peer parse now i rows = Some p" "pr_id p = i"
  shows "\<exists>p'. get_peer parse t i (failed_contacts fmt i es (note_peer_contact fmt now i None rows)) = Some p'
     \<and> pr_last_seen_at p' = Some (fmt now) \<and> (pr_stale p' \<longleftrightarrow> 90 * day_ns < t - now)"
proof -
  let ?P = "\<lambda>r. pr_id r = i \<or> pr_base_iri r = i"
  have step: "\<exists>r'. find ?P (note_peer_contact fmt t i (Some e) rows) = Some r'
      \<and> pr_id r' = pr_id r \<and> pr_last_seen_at r' = pr_last_seen_at r"
    if "find ?P rows = Some r" for r t e and rows :: "peer list"
    using that by (auto simp: note_peer_contact_def find_update_where)
  have run: "\<exists>r'. find ?P (failed_contacts fmt i es rows) = Some r' \<and> pr_last_seen_at r' = pr_last_seen_at r"
    if "find ?P rows = Some r" for r and rows :: "peer list"
    using that
  proof (induction es arbitrary: rows r)
    case (Cons e es)
    obtain t x where e: "e = (t, x)" by (cases e)
    from step [OF Cons.prems, of t x] obtain r' where
      "find ?P (note_peer_contact fmt t i (Some x) rows) = Some r'" "pr_last_seen_at r' = pr_last_seen_at r" by blast
    with Cons.IH [OF this(1)] show ?case by (simp add: failed_contacts_def e)
  qed (simp add: failed_contacts_def)
  from assms(2,3) obtain r where r: "find ?P rows = Some r" "pr_id r = i"
    by (auto simp: get_peer_def peer_from_row_def)
  then have "find ?P (note_peer_contact fmt now i None rows) =
      Some (r\<lparr>pr_last_seen_at := Some (fmt now), pr_resolve_status := ''ok'', pr_last_error := None\<rparr>)"
    by (simp add: note_peer_contact_def find_update_where)
  from run [OF this] obtain r' where r': "find ?P (failed_contacts fmt i es (note_peer_contact fmt now i None rows)) = Some r'"
    "pr_last_seen_at r' = Some (fmt now)" by auto
  with assms(1) show ?thesis
    by (simp add: get_peer_def peer_from_row_def is_stale_at_def PEER_STALE_AFTER_DAYS_def)
qed

definition demo_peer :: peer where
  "demo_peer = \<lparr>pr_id = ''p'', pr_base_iri = ''https://p.org'', pr_title = None, pr_operator = None, pr_added_at = ''0'',
     pr_last_seen_at = None, pr_resolve_status = ''unknown'', pr_last_error = None, pr_record_count = 0,
     pr_state = ''active'', pr_suggested_by = None, pr_stale = False\<rparr>"

theorem failures_are_no_sightings_witness:
  "\<exists>p'. get_peer parse_i64 (91 * day_ns) ''p''
      (failed_contacts show_int ''p'' [(7, ''timeout'')] (note_peer_contact show_int 5 ''p'' None [demo_peer])) = Some p'
     \<and> pr_stale p'"
proof -
  have "parse_i64 (show_int 5) = Some 5" by code_simp
  moreover obtain p where "get_peer parse_i64 5 ''p'' [demo_peer] = Some p" "pr_id p = ''p''"
    by (simp add: get_peer_def peer_from_row_def demo_peer_def)
  ultimately obtain p' where "get_peer parse_i64 (91 * day_ns) ''p''
      (failed_contacts show_int ''p'' [(7, ''timeout'')] (note_peer_contact show_int 5 ''p'' None [demo_peer])) = Some p'"
    "pr_stale p' \<longleftrightarrow> 90 * day_ns < 91 * day_ns - 5"
    using failures_are_no_sightings [of parse_i64 show_int 5 "''p''" "[demo_peer]" p "91 * day_ns" "[(7, ''timeout'')]"] by blast
  then show ?thesis by (simp add: day_ns_def)
qed

text \<open>
  C4. Numbers follow their repository: after a poll that succeeded, the counts survive any run of
  failed polls of the same repository, and the first failed poll of another one removes them for
  good, even when the software returns to the first.
\<close>

definition failed_polls :: "string \<Rightarrow> (int \<times> string \<times> string) list \<Rightarrow> repository_stats list \<Rightarrow> repository_stats list" where
  "failed_polls sw es rows = fold (\<lambda>(t, repo, e). record_repository_error t sw repo e) es rows"

theorem numbers_follow_their_repository:
  "\<exists>r. stats_for sw (failed_polls sw es (record_repository_stats now sw repo stars forks commit rows)) = Some r
     \<and> (if \<forall>(t, repo', e) \<in> set es. repo' = repo
        then rs_stars r = stars \<and> rs_forks r = forks \<and> rs_last_commit_at r = commit \<and> rs_fetched_at r = Some now
        else rs_stars r = None \<and> rs_forks r = None \<and> rs_last_commit_at r = None \<and> rs_fetched_at r = None)"
proof -
  define good where "good = (\<lambda>r :: repository_stats. rs_stars r = stars \<and> rs_forks r = forks \<and> rs_last_commit_at r = commit
      \<and> rs_fetched_at r = Some now \<and> rs_repo r = repo)"
  define gone where "gone = (\<lambda>r :: repository_stats. rs_stars r = None \<and> rs_forks r = None \<and> rs_last_commit_at r = None \<and> rs_fetched_at r = None)"
  have step: "\<exists>r'. stats_for sw (record_repository_error t sw repo' e rows) = Some r'
      \<and> (good r \<and> repo' = repo \<longrightarrow> good r') \<and> (good r \<and> repo' \<noteq> repo \<longrightarrow> gone r') \<and> (gone r \<longrightarrow> gone r')"
    if "stats_for sw rows = Some r" for r t repo' e and rows :: "repository_stats list"
  proof -
    from that have f: "find (\<lambda>r. rs_software_iri r = sw) rows = Some r" "rs_software_iri r = sw"
      by (auto simp: stats_for_def dest: find_SomeD)
    then have "list_ex (\<lambda>r. rs_software_iri r = sw) rows" by (auto simp: list_ex_iff dest!: find_SomeD)
    with f show ?thesis
      by (auto simp: stats_for_def record_repository_error_def find_update_where Let_def good_def gone_def)
  qed
  have run: "\<exists>r'. stats_for sw (failed_polls sw es rows) = Some r'
      \<and> (good r \<longrightarrow> (if \<forall>(t, repo', e) \<in> set es. repo' = repo then good r' else gone r')) \<and> (gone r \<longrightarrow> gone r')"
    if "stats_for sw rows = Some r" for r and rows :: "repository_stats list"
    using that
  proof (induction es arbitrary: rows r)
    case (Cons x es)
    obtain t repo' e where x: "x = (t, repo', e)" by (cases x)
    from step [OF Cons.prems, of t repo' e] obtain r1 where
      r1: "stats_for sw (record_repository_error t sw repo' e rows) = Some r1"
        "good r \<and> repo' = repo \<longrightarrow> good r1" "good r \<and> repo' \<noteq> repo \<longrightarrow> gone r1" "gone r \<longrightarrow> gone r1" by blast
    from Cons.IH [OF r1(1)] r1(2-4) show ?case by (auto simp: failed_polls_def x split: if_splits)
  qed (simp add: failed_polls_def)
  have "\<exists>r. stats_for sw (record_repository_stats now sw repo stars forks commit rows) = Some r \<and> good r"
  proof -
    have "find (\<lambda>r. rs_software_iri r = sw) (delete_where (\<lambda>r. rs_software_iri r = sw) rows) = None"
      by (simp add: find_None_iff set_delete_where)
    then show ?thesis
      by (simp add: stats_for_def record_repository_stats_def find_append_new good_def)
  qed
  then obtain r where "stats_for sw (record_repository_stats now sw repo stars forks commit rows) = Some r" "good r" by blast
  from run [OF this(1)] this(2) show ?thesis by (auto simp: good_def gone_def split: if_splits)
qed

end
