(* ===== verification/Federation.thy ===== *)
theory Federation
  imports Complex_Main Peers Settings "HOL-Library.Product_Lexorder"
begin

text \<open>
  \<open>src/ops/federation.rs\<close>: the brakes of federated search (query identity, hop budget, time
  budget) and the shapes that travel between registries. Durations are nanoseconds; the times
  of the seen-id table are instants, as in the theory Peers. Scores are rationals: only their
  order is looked at.
\<close>

section \<open>Settings\<close>

record fed_settings =
  max_hops :: nat
  total_timeout :: nat
  hop_margin :: nat
  max_peers :: nat
  max_peer_bytes :: nat
  max_peer_hits :: nat
  max_peer_statuses :: nat
  max_total_hits :: nat
  id_ttl :: nat
  max_seen_rows :: int

definition default_fed_settings :: fed_settings where
  "default_fed_settings =
     \<lparr>max_hops = 3, total_timeout = 10 * 10 ^ 9, hop_margin = 600 * 10 ^ 6, max_peers = 12,
      max_peer_bytes = 2 * 1024 * 1024, max_peer_hits = 100, max_peer_statuses = 32, max_total_hits = 500,
      id_ttl = 600 * 10 ^ 9, max_seen_rows = 50000\<rparr>"

definition fed_env :: "environment \<Rightarrow> string \<Rightarrow> string option" where
  "fed_env e key = (case e key of None \<Rightarrow> None | Some v \<Rightarrow> if trim v = [] then None else Some v)"

definition fed_env_usize :: "environment \<Rightarrow> string \<Rightarrow> nat \<Rightarrow> nat \<Rightarrow> nat" where
  "fed_env_usize e key dflt most =
     min (case Option.bind (fed_env e key) (\<lambda>v. parse_unsigned (2 ^ 64 - 1) (trim v)) of Some n \<Rightarrow> n | None \<Rightarrow> dflt) most"

text \<open>\<open>env(key).and_then(|v| parse_duration(&v).ok())\<close>.\<close>

definition fed_env_duration :: "environment \<Rightarrow> string \<Rightarrow> nat \<Rightarrow> nat" where
  "fed_env_duration e key dflt =
     (case fed_env e key of
        None \<Rightarrow> dflt
      | Some v \<Rightarrow> (case parse_duration v of Inr d \<Rightarrow> d | Inl _ \<Rightarrow> dflt))"

definition fed_settings_from_env :: "environment \<Rightarrow> fed_settings" where
  "fed_settings_from_env e =
     (let d = default_fed_settings in
      \<lparr>max_hops = min (case Option.bind (fed_env e ''TAR_FEDERATED_SEARCH_MAX_HOPS'')
                             (\<lambda>v. parse_unsigned (2 ^ 32 - 1) (trim v)) of Some n \<Rightarrow> n | None \<Rightarrow> max_hops d) 8,
       total_timeout = min (fed_env_duration e ''TAR_FEDERATED_SEARCH_TOTAL_TIMEOUT'' (total_timeout d)) (60 * 10 ^ 9),
       hop_margin = fed_env_duration e ''TAR_FEDERATED_SEARCH_HOP_MARGIN'' (hop_margin d),
       max_peers = fed_env_usize e ''TAR_FEDERATED_SEARCH_MAX_PEERS'' (max_peers d) 64,
       max_peer_bytes = fed_env_usize e ''TAR_FEDERATED_SEARCH_MAX_PEER_BYTES'' (max_peer_bytes d) (32 * 1024 * 1024),
       max_peer_hits = fed_env_usize e ''TAR_FEDERATED_SEARCH_MAX_PEER_HITS'' (max_peer_hits d) 1000,
       max_peer_statuses = fed_env_usize e ''TAR_FEDERATED_SEARCH_MAX_PEER_STATUSES'' (max_peer_statuses d) 256,
       max_total_hits = fed_env_usize e ''TAR_FEDERATED_SEARCH_MAX_TOTAL_HITS'' (max_total_hits d) 5000,
       id_ttl = fed_env_duration e ''TAR_FEDERATED_SEARCH_ID_TTL'' (id_ttl d),
       max_seen_rows = max_seen_rows d\<rparr>)"

section \<open>Query ids\<close>

definition is_id_char :: "char \<Rightarrow> bool" where
  "is_id_char c \<longleftrightarrow> is_ascii_alphanumeric c \<or> c \<in> {CHR ''-'', CHR ''_'', CHR ''.'', CHR '':''}"

definition valid_query_id :: "string \<Rightarrow> bool" where
  "valid_query_id i \<longleftrightarrow> i \<noteq> [] \<and> length i \<le> 100 \<and> list_all is_id_char i"

record seen_query =
  fq_id :: string
  fq_first_seen_at :: int
  fq_expires_at :: int
  fq_origin :: "string option"
  fq_received_from :: "string option"
  fq_repeat_count :: int

datatype query_claim = Fresh | Already_Handled int int

definition is_fresh :: "query_claim \<Rightarrow> bool" where
  "is_fresh c = (case c of Fresh \<Rightarrow> True | Already_Handled _ _ \<Rightarrow> False)"

text \<open>\<open>ChronoDuration::from_std\<close>: a duration chrono cannot hold becomes ten minutes.\<close>

definition chrono_ttl :: "nat \<Rightarrow> int" where
  "chrono_ttl ttl = (if (2 ^ 63 - 1) * 10 ^ 6 < ttl then 600 * 10 ^ 9 else int ttl)"

text \<open>\<open>LIMIT -1 OFFSET n\<close>: everything after the first n rows; SQLite reads a negative offset as zero.\<close>

definition sweep_queries :: "int \<Rightarrow> int \<Rightarrow> seen_query list \<Rightarrow> seen_query list" where
  "sweep_queries now max_rows rows =
     (let live = delete_where (\<lambda>r. fq_expires_at r < now) rows;
          dropped = map fq_id (drop (nat max_rows) (order_by_desc fq_first_seen_at live))
      in delete_where (\<lambda>r. fq_id r \<in> set dropped) live)"

definition claim_query ::
  "int \<Rightarrow> string \<Rightarrow> string option \<Rightarrow> string option \<Rightarrow> nat \<Rightarrow> int \<Rightarrow> seen_query list \<Rightarrow> query_claim \<times> seen_query list" where
  "claim_query now query_id origin received_from ttl max_rows rows =
     (if \<not> list_ex (\<lambda>r. fq_id r = query_id) rows
      then (Fresh, sweep_queries now max_rows
              (rows @ [\<lparr>fq_id = query_id, fq_first_seen_at = now, fq_expires_at = now + chrono_ttl ttl,
                        fq_origin = origin, fq_received_from = received_from, fq_repeat_count = 0\<rparr>]))
      else let rows' = update_where (\<lambda>r. fq_id r = query_id) (\<lambda>r. r\<lparr>fq_repeat_count := fq_repeat_count r + 1\<rparr>) rows
           in (case find (\<lambda>r. fq_id r = query_id) rows' of
                 Some r \<Rightarrow> (Already_Handled (fq_first_seen_at r) (fq_repeat_count r), rows')
               | None \<Rightarrow> (Fresh, rows')))"

definition seen_query_for :: "string \<Rightarrow> seen_query list \<Rightarrow> seen_query option" where
  "seen_query_for query_id rows = find (\<lambda>r. fq_id r = query_id) rows"

section \<open>Hits\<close>

definition REACH_LOCAL :: string where "REACH_LOCAL = ''local''"
definition REACH_DIRECT :: string where "REACH_DIRECT = ''direct''"
definition REACH_INDIRECT :: string where "REACH_INDIRECT = ''indirect''"

record origin =
  or_kind :: string
  or_peer_id :: "string option"
  or_peer_title :: "string option"
  or_peer_base_iri :: "string option"
  or_cached_at :: "string option"
  or_resolve_status :: "string option"
  or_stale :: bool

definition local_origin :: origin where
  "local_origin = \<lparr>or_kind = ''local'', or_peer_id = None, or_peer_title = None, or_peer_base_iri = None,
     or_cached_at = None, or_resolve_status = None, or_stale = False\<rparr>"

record search_hit =
  sh_iri :: string
  sh_entity_type :: string
  sh_title :: string
  sh_snippet :: "string option"
  sh_origin :: origin
  sh_score :: rat

record fed_hit =
  fh_hit :: search_hit
  fh_reach :: string
  fh_hops :: nat
  fh_via :: "string option"
  fh_also_from :: "string list"

definition local_hit :: "search_hit \<Rightarrow> fed_hit" where
  "local_hit hit = \<lparr>fh_hit = hit, fh_reach = REACH_LOCAL, fh_hops = 0, fh_via = None, fh_also_from = []\<rparr>"

definition saturating_u32 :: "nat \<Rightarrow> nat" where
  "saturating_u32 n = min n (2 ^ 32 - 1)"

definition reach_of :: "nat \<Rightarrow> string" where
  "reach_of hops = (if hops = 1 then REACH_DIRECT else REACH_INDIRECT)"

definition relayed_origin :: "peer \<Rightarrow> bool \<Rightarrow> origin \<Rightarrow> origin" where
  "relayed_origin p was_local_to_peer o0 =
     (if was_local_to_peer
      then \<lparr>or_kind = ''peer'', or_peer_id = Some (pr_id p), or_peer_title = pr_title p,
            or_peer_base_iri = Some (pr_base_iri p), or_cached_at = None, or_resolve_status = Some ''live'',
            or_stale = False\<rparr>
      else o0\<lparr>or_peer_id := None, or_kind := (if or_kind o0 = ''local'' then ''peer'' else or_kind o0)\<rparr>)"

definition relayed_hit :: "peer \<Rightarrow> fed_hit \<Rightarrow> fed_hit" where
  "relayed_hit p h =
     (let was_local_to_peer = (fh_hops h = 0 \<and> or_kind (sh_origin (fh_hit h)) = ''local'');
          hops = saturating_u32 (fh_hops h + 1)
      in h\<lparr>fh_hops := hops, fh_reach := reach_of hops, fh_via := Some (pr_base_iri p),
           fh_hit := (fh_hit h)\<lparr>sh_origin := relayed_origin p was_local_to_peer (sh_origin (fh_hit h))\<rparr>\<rparr>)"

text \<open>The rank of a copy: the home registry's own, then freshness, then directness.\<close>

type_synonym copy_rank = "bool \<times> int option \<times> int"

definition hit_rank :: "(string \<Rightarrow> int option) \<Rightarrow> fed_hit \<Rightarrow> copy_rank" where
  "hit_rank parse h =
     (let o0 = sh_origin (fh_hit h)
      in (or_kind o0 = ''local'' \<or> or_resolve_status o0 = Some ''live'',
          Option.bind (or_cached_at o0) parse, - int (fh_hops h)))"

text \<open>\<open>max_by_key\<close> over the indices: the last of the largest.\<close>

definition best_index :: "(string \<Rightarrow> int option) \<Rightarrow> fed_hit list \<Rightarrow> nat" where
  "best_index parse copies =
     fold (\<lambda>i best. if hit_rank parse (copies ! best) \<le> hit_rank parse (copies ! i) then i else best) [0..<length copies] 0"

definition hit_source :: "string \<Rightarrow> fed_hit \<Rightarrow> string" where
  "hit_source me h = (case fh_via h of Some v \<Rightarrow> v | None \<Rightarrow> me)"

text \<open>
  The copies without the winner; its order does not matter, since the sources are sorted and
  the repeated ones dropped.
\<close>

definition merge_group :: "(string \<Rightarrow> int option) \<Rightarrow> string \<Rightarrow> fed_hit list \<Rightarrow> fed_hit" where
  "merge_group parse me copies =
     (let best = best_index parse copies; winner = copies ! best;
          losers = take best copies @ drop (best + 1) copies;
          also = filter (\<lambda>s. s \<noteq> hit_source me winner) (map (hit_source me) losers)
      in winner\<lparr>fh_also_from := remdups (sort also)\<rparr>)"

definition hit_iri :: "fed_hit \<Rightarrow> string" where
  "hit_iri h = sh_iri (fh_hit h)"

definition first_seen_order :: "string list \<Rightarrow> string list" where
  "first_seen_order xs = rev (remdups (rev xs))"

definition merge_copies :: "(string \<Rightarrow> int option) \<Rightarrow> fed_hit list \<Rightarrow> string \<Rightarrow> fed_hit list" where
  "merge_copies parse hits me =
     map (\<lambda>iri. merge_group parse me (filter (\<lambda>h. hit_iri h = iri) hits)) (first_seen_order (map hit_iri hits))"

section \<open>What a search reports\<close>

record peer_status =
  ps_peer_id :: string
  ps_base_iri :: string
  ps_title :: "string option"
  ps_status :: string
  ps_hits :: nat
  ps_error :: "string option"
  ps_reach :: string
  ps_hops :: nat
  ps_via :: "string option"
  ps_note :: "string option"

definition direct_status :: "peer \<Rightarrow> string \<Rightarrow> peer_status" where
  "direct_status p st = \<lparr>ps_peer_id = pr_id p, ps_base_iri = pr_base_iri p, ps_title = pr_title p, ps_status = st,
     ps_hits = 0, ps_error = None, ps_reach = REACH_DIRECT, ps_hops = 1, ps_via = None, ps_note = None\<rparr>"

definition relayed_status :: "peer \<Rightarrow> peer_status \<Rightarrow> peer_status" where
  "relayed_status p s =
     (let hops = saturating_u32 (ps_hops s + 1)
      in s\<lparr>ps_hops := hops, ps_reach := reach_of hops, ps_via := Some (pr_base_iri p),
           ps_peer_id := pr_id p @ ''|'' @ ps_base_iri s\<rparr>)"

record federation_trace =
  ft_query_id :: string
  ft_origin :: "string option"
  ft_registry :: string
  ft_max_hops :: nat
  ft_hops_granted :: nat
  ft_hops_forwarded :: nat
  ft_budget_exhausted :: bool
  ft_path :: "string list"
  ft_first_seen_at :: "int option"
  ft_reason :: "string option"

record search_results =
  sr_query :: string
  sr_hits :: "fed_hit list"
  sr_total :: nat
  sr_partial :: bool
  sr_peers :: "peer_status list"
  sr_already_handled :: bool
  sr_federation :: "federation_trace option"

definition empty_results :: "string \<Rightarrow> search_results" where
  "empty_results q = \<lparr>sr_query = q, sr_hits = [], sr_total = 0, sr_partial = False, sr_peers = [],
     sr_already_handled = False, sr_federation = None\<rparr>"

section \<open>The path of a query\<close>

fun take_path :: "nat \<Rightarrow> string list \<Rightarrow> string list \<Rightarrow> string list" where
  "take_path cap out [] = out"
| "take_path cap out (part # parts) =
     (let p = trim_end_matches (CHR ''/'') (trim part)
      in if p = [] \<or> 200 < length p \<or> p \<in> set out then take_path cap out parts
         else let out' = out @ [p] in if cap \<le> length out' then out' else take_path cap out' parts)"

definition parse_path :: "string option \<Rightarrow> nat \<Rightarrow> string list" where
  "parse_path raw cap = take_path cap [] (split_on (CHR '','') (case raw of Some s \<Rightarrow> s | None \<Rightarrow> []))"

section \<open>A query id is claimed once while it lives\<close>

definition queries_ok :: "seen_query list \<Rightarrow> bool" where
  "queries_ok rows \<longleftrightarrow> distinct (map fq_id rows)"

text \<open>The claim of a query made at a time is in the table, with at most n claims not older than it.\<close>

definition claimed_at :: "string \<Rightarrow> int \<Rightarrow> int \<Rightarrow> nat \<Rightarrow> seen_query list \<Rightarrow> bool" where
  "claimed_at q t0 until n rows \<longleftrightarrow>
     (\<exists>r \<in> set rows. fq_id r = q \<and> fq_first_seen_at r = t0 \<and> until \<le> fq_expires_at r)
     \<and> length (filter (\<lambda>r. t0 \<le> fq_first_seen_at r \<and> fq_id r \<noteq> q) rows) \<le> n"

lemma not_in_dropped:
  assumes "distinct (map fq_id rows)" "r \<in> set rows"
    and "length (filter (\<lambda>x. fq_first_seen_at r \<le> fq_first_seen_at x \<and> fq_id x \<noteq> fq_id r) rows) < k"
  shows "fq_id r \<notin> set (map fq_id (drop k (order_by_desc fq_first_seen_at rows)))"
proof
  let ?s = "order_by_desc fq_first_seen_at rows"
  assume "fq_id r \<in> set (map fq_id (drop k ?s))"
  then obtain x where x: "x \<in> set (drop k ?s)" "fq_id x = fq_id r" by auto
  have ds: "distinct (map fq_id ?s)" using assms(1) by (simp add: order_by_desc_def distinct_map)
  from x(1) have "x \<in> set rows" using in_set_dropD set_order_by_desc by metis
  with x(2) assms(1,2) have xr: "x = r" by (auto simp: distinct_map inj_on_def)
  have so: "sorted (map (\<lambda>r. - fq_first_seen_at r) (take k ?s @ drop k ?s))" by (simp add: order_by_desc_def)
  have before: "fq_first_seen_at r \<le> fq_first_seen_at y \<and> fq_id y \<noteq> fq_id r" if "y \<in> set (take k ?s)" for y
  proof -
    have "- fq_first_seen_at y \<le> - fq_first_seen_at x"
      using so that x(1) unfolding map_append sorted_append by (auto simp del: append_take_drop_id)
    moreover have "distinct (map fq_id (take k ?s) @ map fq_id (drop k ?s))"
      using ds by (simp flip: map_append)
    then have "fq_id y \<noteq> fq_id x" using that x(1) by auto
    ultimately show ?thesis using xr by simp
  qed
  let ?P = "\<lambda>x. fq_first_seen_at r \<le> fq_first_seen_at x \<and> fq_id x \<noteq> fq_id r"
  have "k = length (take k ?s)" using x(1) by (auto dest: length_pos_if_in_set)
  also have "\<dots> = length (filter ?P (take k ?s))" using before by (simp add: filter_id_conv)
  also have "\<dots> \<le> length (filter ?P (take k ?s @ drop k ?s))" by (simp only: filter_append length_append)
  also have "\<dots> = length (filter ?P ?s)" by simp
  also have "\<dots> = length (filter ?P rows)" by (simp add: order_by_desc_def filter_sort)
  finally show False using assms(3) by simp
qed

lemma claimed_sweep:
  assumes "queries_ok rows" "claimed_at q t0 until n rows" "now \<le> until" "int n < mx"
  shows "claimed_at q t0 until n (sweep_queries now mx rows)"
proof -
  obtain r where r: "r \<in> set rows" "fq_id r = q" "fq_first_seen_at r = t0" "until \<le> fq_expires_at r"
    using assms(2) by (auto simp: claimed_at_def)
  let ?live = "delete_where (\<lambda>r. fq_expires_at r < now) rows"
  let ?P = "\<lambda>x. t0 \<le> fq_first_seen_at x \<and> fq_id x \<noteq> q"
  have fewer: "length (filter ?P (delete_where Q xs)) \<le> length (filter ?P xs)" for Q and xs :: "seen_query list"
    by (induction xs) (simp_all add: delete_where_def)
  have le: "length (filter ?P rows) \<le> n" using assms(2) by (simp add: claimed_at_def)
  have "distinct (map fq_id ?live)" using assms(1) by (simp add: queries_ok_def distinct_map_delete_where)
  moreover have rl: "r \<in> set ?live" using r assms(3) by (simp add: set_delete_where)
  moreover have "length (filter ?P ?live) < nat mx"
    using order_trans [OF fewer [of "\<lambda>r. fq_expires_at r < now" rows] le] assms(4) by linarith
  then have "length (filter (\<lambda>x. fq_first_seen_at r \<le> fq_first_seen_at x \<and> fq_id x \<noteq> fq_id r) ?live) < nat mx"
    by (simp only: r(2,3))
  ultimately have keep: "fq_id r \<notin> set (map fq_id (drop (nat mx) (order_by_desc fq_first_seen_at ?live)))"
    by (rule not_in_dropped)
  have rs: "r \<in> set (sweep_queries now mx rows)" using rl keep by (simp add: sweep_queries_def Let_def set_delete_where)
  have "length (filter ?P (sweep_queries now mx rows)) \<le> length (filter ?P ?live)"
    unfolding sweep_queries_def Let_def by (rule fewer)
  also have "\<dots> \<le> n" using fewer le by (rule order_trans)
  finally show ?thesis using r(2-4) rs by (auto simp: claimed_at_def)
qed

lemma queries_ok_sweep: "queries_ok rows \<Longrightarrow> queries_ok (sweep_queries now mx rows)"
  by (simp add: queries_ok_def sweep_queries_def Let_def distinct_map_delete_where)

lemma queries_ok_claim: "queries_ok rows \<Longrightarrow> queries_ok (snd (claim_query now q og rf ttl mx rows))"
  by (auto simp: claim_query_def Let_def queries_ok_def [of "_ @ _"] list_ex_iff map_update_where
      simp flip: queries_ok_def intro!: queries_ok_sweep split: option.splits)
    (simp_all add: queries_ok_def map_update_where)

lemma claimed_claim:
  assumes "queries_ok rows" "claimed_at q t0 until n rows" "t0 \<le> now" "now \<le> until" "int (Suc n) < mx"
  shows "claimed_at q t0 until (Suc n) (snd (claim_query now q' og rf ttl mx rows))"
proof (cases "list_ex (\<lambda>r. fq_id r = q') rows")
  case True
  have keep: "claimed_at q t0 until (Suc n) (update_where (\<lambda>r. fq_id r = q') (\<lambda>r. r\<lparr>fq_repeat_count := fq_repeat_count r + 1\<rparr>) rows)"
  proof -
    let ?f = "\<lambda>r. r\<lparr>fq_repeat_count := fq_repeat_count r + 1\<rparr>" and ?Q = "\<lambda>r. fq_id r = q'"
    obtain r where r: "r \<in> set rows" "fq_id r = q" "fq_first_seen_at r = t0" "until \<le> fq_expires_at r"
      using assms(2) by (auto simp: claimed_at_def)
    have "(if ?Q r then ?f r else r) \<in> set (update_where ?Q ?f rows)" using r(1) by (rule update_where_mem)
    moreover have "length (filter (\<lambda>r. t0 \<le> fq_first_seen_at r \<and> fq_id r \<noteq> q) (update_where ?Q ?f xs))
        = length (filter (\<lambda>r. t0 \<le> fq_first_seen_at r \<and> fq_id r \<noteq> q) xs)" for xs :: "seen_query list"
      by (induction xs) (simp_all add: update_where_def)
    ultimately show ?thesis using assms(2) r
      by (auto simp: claimed_at_def intro!: bexI [of _ "if ?Q r then ?f r else r"])
  qed
  with True show ?thesis by (auto simp: claim_query_def Let_def split: option.splits)
next
  case False
  let ?rows = "rows @ [\<lparr>fq_id = q', fq_first_seen_at = now, fq_expires_at = now + chrono_ttl ttl,
      fq_origin = og, fq_received_from = rf, fq_repeat_count = 0\<rparr>]"
  have "queries_ok ?rows" using assms(1) False by (auto simp: queries_ok_def list_ex_iff)
  moreover have "claimed_at q t0 until (Suc n) ?rows" using assms(2) by (auto simp: claimed_at_def)
  ultimately have "claimed_at q t0 until (Suc n) (sweep_queries now mx ?rows)"
    using assms(4,5) by (rule claimed_sweep)
  with False show ?thesis by (simp add: claim_query_def)
qed

definition claim_run :: "nat \<Rightarrow> int \<Rightarrow> (int \<times> string \<times> string option \<times> string option) list \<Rightarrow> seen_query list \<Rightarrow> seen_query list" where
  "claim_run ttl mx reqs rows = fold (\<lambda>(t, q, og, rf) rows. snd (claim_query t q og rf ttl mx rows)) reqs rows"

lemma claimed_run:
  assumes "queries_ok rows" "claimed_at q t0 until n rows" "\<forall>(t, _) \<in> set reqs. t0 \<le> t \<and> t \<le> until"
    and "int (n + length reqs) < mx"
  shows "queries_ok (claim_run ttl mx reqs rows) \<and> claimed_at q t0 until (n + length reqs) (claim_run ttl mx reqs rows)"
  using assms
proof (induction reqs arbitrary: n rows)
  case (Cons x reqs)
  obtain t q' og rf where x: "x = (t, q', og, rf)" by (cases x)
  let ?rows = "snd (claim_query t q' og rf ttl mx rows)"
  have "queries_ok ?rows" using Cons.prems(1) by (rule queries_ok_claim)
  moreover have "claimed_at q t0 until (Suc n) ?rows"
    using Cons.prems x by (intro claimed_claim) auto
  ultimately have "queries_ok (claim_run ttl mx reqs ?rows)
      \<and> claimed_at q t0 until (Suc n + length reqs) (claim_run ttl mx reqs ?rows)"
    using Cons.prems(3,4) by (intro Cons.IH) auto
  then show ?case by (simp add: claim_run_def x)
qed (simp add: claim_run_def)

lemma claimed_refused:
  assumes "claimed_at q t0 until n rows" "queries_ok rows"
  shows "\<exists>k. fst (claim_query now q og rf ttl mx rows) = Already_Handled t0 k"
proof -
  obtain r where r: "r \<in> set rows" "fq_id r = q" "fq_first_seen_at r = t0" using assms(1) by (auto simp: claimed_at_def)
  have "find (\<lambda>r. fq_id r = q) rows = Some r"
    using assms(2) r(1,2) by (intro find_key_distinct) (simp_all add: queries_ok_def)
  with r show ?thesis by (auto simp: claim_query_def list_ex_iff Let_def find_update_where)
qed

lemma claim_fresh_claimed:
  assumes "queries_ok rows" "claim_query t0 q og rf ttl mx rows = (Fresh, rows')"
    and "\<forall>r \<in> set rows. fq_first_seen_at r < t0" "0 < mx"
  shows "queries_ok rows' \<and> claimed_at q t0 (t0 + chrono_ttl ttl) 0 rows'"
proof -
  let ?rows = "rows @ [\<lparr>fq_id = q, fq_first_seen_at = t0, fq_expires_at = t0 + chrono_ttl ttl,
      fq_origin = og, fq_received_from = rf, fq_repeat_count = 0\<rparr>]"
  let ?Q = "\<lambda>r. fq_id r = q"
  have "find ?Q (update_where ?Q (\<lambda>r. r\<lparr>fq_repeat_count := fq_repeat_count r + 1\<rparr>) rows) \<noteq> None" if "list_ex ?Q rows"
    using that by (auto simp: find_update_where find_None_iff list_ex_iff)
  then have new: "\<not> list_ex ?Q rows"
    using assms(2) by (auto simp: claim_query_def Let_def split: if_splits option.splits)
  with assms(2) have rows': "rows' = sweep_queries t0 mx ?rows" by (simp add: claim_query_def)
  have ok: "queries_ok ?rows" using assms(1) new by (auto simp: queries_ok_def list_ex_iff)
  have "claimed_at q t0 (t0 + chrono_ttl ttl) 0 ?rows"
    using assms(3) by (auto simp: claimed_at_def filter_empty_conv)
  with ok have "claimed_at q t0 (t0 + chrono_ttl ttl) 0 rows'"
    unfolding rows' by (intro claimed_sweep) (use assms(4) in \<open>auto simp: chrono_ttl_def\<close>)
  with ok show ?thesis by (simp add: rows' queries_ok_sweep)
qed

text \<open>
  A federated query is handled once while its id lives: after a registry has claimed the id,
  every later arrival of it within the lifetime is refused with the time of the first one,
  whatever other queries arrived in between, as long as they were fewer than the row cap.
\<close>

theorem query_is_handled_once:
  assumes "queries_ok rows" "\<forall>r \<in> set rows. fq_first_seen_at r < t0" "claim_query t0 q og rf ttl mx rows = (Fresh, rows')"
    and "\<forall>(t, _) \<in> set reqs. t0 \<le> t \<and> t \<le> t0 + chrono_ttl ttl" "int (length reqs) < mx"
  shows "\<exists>k. fst (claim_query now q og' rf' ttl mx (claim_run ttl mx reqs rows')) = Already_Handled t0 k"
proof -
  have "queries_ok rows' \<and> claimed_at q t0 (t0 + chrono_ttl ttl) 0 rows'"
    using claim_fresh_claimed [OF assms(1,3,2)] assms(5) by simp
  with claimed_run [of rows' q t0 "t0 + chrono_ttl ttl" 0 reqs mx ttl] assms(4,5)
  have "queries_ok (claim_run ttl mx reqs rows') \<and> claimed_at q t0 (t0 + chrono_ttl ttl) (0 + length reqs) (claim_run ttl mx reqs rows')"
    by simp
  then show ?thesis by (blast intro: claimed_refused)
qed

theorem query_is_handled_once_witness:
  "\<exists>k. fst (claim_query 7 ''q'' None None (600 * 10 ^ 9) 50000
      (claim_run (600 * 10 ^ 9) 50000 [(6, ''other'', None, None)]
        (snd (claim_query 5 ''q'' None None (600 * 10 ^ 9) 50000 [])))) = Already_Handled 5 k"
proof (rule query_is_handled_once [of "[]" 5 "''q''" None None "600 * 10 ^ 9" 50000])
  show "claim_query 5 ''q'' None None (600 * 10 ^ 9) 50000 [] = (Fresh, snd (claim_query 5 ''q'' None None (600 * 10 ^ 9) 50000 []))"
    by (simp add: claim_query_def)
qed (simp_all add: queries_ok_def chrono_ttl_def)

section \<open>Merging copies\<close>

lemma best_index_fold:
  assumes "b < n" "n \<le> length copies" "\<forall>i < n. hit_rank parse (copies ! i) \<le> hit_rank parse (copies ! b)"
  shows "\<exists>b' < length copies. (\<forall>i < length copies. hit_rank parse (copies ! i) \<le> hit_rank parse (copies ! b'))
     \<and> fold (\<lambda>i best. if hit_rank parse (copies ! best) \<le> hit_rank parse (copies ! i) then i else best) [n..<length copies] b = b'"
  using assms
proof (induction "length copies - n" arbitrary: n b)
  case 0
  then show ?case by auto
next
  case (Suc k)
  let ?b = "if hit_rank parse (copies ! b) \<le> hit_rank parse (copies ! n) then n else b"
  have n: "n < length copies" using Suc.hyps(2) by simp
  have "\<forall>i < Suc n. hit_rank parse (copies ! i) \<le> hit_rank parse (copies ! ?b)"
    using Suc.prems(3) by (auto simp: less_Suc_eq)
  moreover have "?b < Suc n" using Suc.prems(1) by simp
  ultimately have "\<exists>b' < length copies. (\<forall>i < length copies. hit_rank parse (copies ! i) \<le> hit_rank parse (copies ! b'))
     \<and> fold (\<lambda>i best. if hit_rank parse (copies ! best) \<le> hit_rank parse (copies ! i) then i else best) [Suc n..<length copies] ?b = b'"
    using Suc.hyps(2) n by (intro Suc.hyps(1)) auto
  then show ?case by (simp only: upt_conv_Cons [OF n] fold_simps)
qed

lemma best_index_best:
  assumes "copies \<noteq> []"
  shows "best_index parse copies < length copies
     \<and> (\<forall>h \<in> set copies. hit_rank parse h \<le> hit_rank parse (copies ! best_index parse copies))"
proof -
  have l: "0 < length copies" using assms by simp
  obtain b where b: "b < length copies" "\<forall>i < length copies. hit_rank parse (copies ! i) \<le> hit_rank parse (copies ! b)"
      "best_index parse copies = b"
    using best_index_fold [of 0 1 copies parse] l
    unfolding best_index_def by (auto simp: upt_conv_Cons [OF l] Suc_le_eq simp del: upt_Suc)
  then show ?thesis by (auto simp: in_set_conv_nth)
qed

lemma set_around: "b < length xs \<Longrightarrow> set xs = insert (xs ! b) (set (take b xs @ drop (b + 1) xs))"
  by (subst id_take_nth_drop [of b xs]) auto

lemma merge_group_result:
  assumes "copies \<noteq> []" and w_def: "w = merge_group parse me copies"
  shows "\<exists>h \<in> set copies. w = h\<lparr>fh_also_from := fh_also_from w\<rparr> \<and> (\<forall>h' \<in> set copies. hit_rank parse h' \<le> hit_rank parse h)"
    and "insert (hit_source me w) (set (fh_also_from w)) = hit_source me ` set copies"
    and "hit_source me w \<notin> set (fh_also_from w)" and "sorted (fh_also_from w)" and "distinct (fh_also_from w)"
proof -
  let ?b = "best_index parse copies"
  note b = best_index_best [OF assms(1), of parse]
  have w: "w = (copies ! ?b)\<lparr>fh_also_from := fh_also_from w\<rparr>" by (simp add: w_def merge_group_def Let_def)
  then show "\<exists>h \<in> set copies. w = h\<lparr>fh_also_from := fh_also_from w\<rparr> \<and> (\<forall>h' \<in> set copies. hit_rank parse h' \<le> hit_rank parse h)"
    using b nth_mem by blast
  have sw: "hit_source me w = hit_source me (copies ! ?b)" by (subst w) (simp add: hit_source_def)
  have also_from: "set (fh_also_from w) = {s \<in> hit_source me ` set (take ?b copies @ drop (?b + 1) copies). s \<noteq> hit_source me (copies ! ?b)}"
    by (auto simp: w_def merge_group_def Let_def)
  then show "hit_source me w \<notin> set (fh_also_from w)" by (simp add: sw)
  have "set copies = insert (copies ! ?b) (set (take ?b copies @ drop (?b + 1) copies))"
    using b by (intro set_around) simp
  then have "hit_source me ` set copies
      = insert (hit_source me (copies ! ?b)) (hit_source me ` set (take ?b copies @ drop (?b + 1) copies))"
    by (metis image_insert)
  then show "insert (hit_source me w) (set (fh_also_from w)) = hit_source me ` set copies"
    unfolding also_from sw by auto
  show "sorted (fh_also_from w)" "distinct (fh_also_from w)"
    by (simp_all add: w_def merge_group_def Let_def sorted_remdups)
qed

lemma set_first_seen_order [simp]: "set (first_seen_order xs) = set xs" "distinct (first_seen_order xs)"
  by (simp_all add: first_seen_order_def)

lemma hit_iri_also_from [simp]: "hit_iri (h\<lparr>fh_also_from := xs\<rparr>) = hit_iri h"
  by (simp add: hit_iri_def)

lemma hit_iri_merge_group:
  assumes "copies \<noteq> []" "\<forall>h \<in> set copies. hit_iri h = iri" shows "hit_iri (merge_group parse me copies) = iri"
proof -
  from merge_group_result(1) [OF assms(1) refl] obtain h where h: "h \<in> set copies"
    "merge_group parse me copies = h\<lparr>fh_also_from := fh_also_from (merge_group parse me copies)\<rparr>" by blast
  then have "hit_iri (merge_group parse me copies) = hit_iri h" by (metis hit_iri_also_from)
  with h(1) assms(2) show ?thesis by simp
qed

lemma merge_copies_iris: "map hit_iri (merge_copies parse hits me) = first_seen_order (map hit_iri hits)"
  unfolding merge_copies_def map_map
proof (rule map_idI)
  fix iri assume "iri \<in> set (first_seen_order (map hit_iri hits))"
  then have "filter (\<lambda>h. hit_iri h = iri) hits \<noteq> []" by (auto simp: filter_empty_conv)
  then show "(hit_iri \<circ> (\<lambda>iri. merge_group parse me (filter (\<lambda>h. hit_iri h = iri) hits))) iri = iri"
    by (simp add: hit_iri_merge_group)
qed

lemma merged_copy:
  assumes "w \<in> set (merge_copies parse hits me)"
  shows "\<exists>h \<in> set hits. w = h\<lparr>fh_also_from := fh_also_from w\<rparr>"
proof -
  obtain iri where iri: "iri \<in> set (map hit_iri hits)" "w = merge_group parse me (filter (\<lambda>h. hit_iri h = iri) hits)"
    using assms by (auto simp: merge_copies_def)
  have "filter (\<lambda>h. hit_iri h = iri) hits \<noteq> []" using iri(1) by (auto simp: filter_empty_conv)
  from merge_group_result(1) [OF this iri(2)] show ?thesis by auto
qed

text \<open>
  Merging loses no record and hides no source: the merged list has one row per record, in the
  order the records first arrived; each row is the copy that ranks highest among those of its
  record (the home registry's own, then the freshest, then the nearest), and the registries it
  came through are the row's own source and the ones it names.
\<close>

theorem merge_keeps_best_and_names_the_rest:
  assumes "w \<in> set (merge_copies parse hits me)"
  shows "(\<exists>h \<in> set hits. w = h\<lparr>fh_also_from := fh_also_from w\<rparr>
         \<and> (\<forall>h' \<in> set hits. hit_iri h' = hit_iri w \<longrightarrow> hit_rank parse h' \<le> hit_rank parse h))
     \<and> insert (hit_source me w) (set (fh_also_from w)) = hit_source me ` {h \<in> set hits. hit_iri h = hit_iri w}
     \<and> hit_source me w \<notin> set (fh_also_from w)
     \<and> map hit_iri (merge_copies parse hits me) = first_seen_order (map hit_iri hits)"
proof -
  obtain iri where iri: "iri \<in> set (map hit_iri hits)" "w = merge_group parse me (filter (\<lambda>h. hit_iri h = iri) hits)"
    using assms by (auto simp: merge_copies_def)
  let ?copies = "filter (\<lambda>h. hit_iri h = iri) hits"
  have ne: "?copies \<noteq> []" using iri(1) by (auto simp: filter_empty_conv)
  have wi: "hit_iri w = iri" unfolding iri(2) by (rule hit_iri_merge_group [OF ne]) simp
  note m = merge_group_result [OF ne iri(2)]
  have "{h \<in> set hits. hit_iri h = hit_iri w} = set ?copies" by (simp add: wi)
  with m wi show ?thesis by (simp add: merge_copies_iris) blast
qed

definition demo_hit :: "nat \<Rightarrow> string option \<Rightarrow> fed_hit" where
  "demo_hit hops via = \<lparr>fh_hit = \<lparr>sh_iri = ''https://h.org/software/1'', sh_entity_type = ''software'', sh_title = ''t'',
     sh_snippet = None, sh_origin = local_origin\<lparr>or_kind := ''peer''\<rparr>, sh_score = 1\<rparr>, fh_reach = REACH_DIRECT,
     fh_hops = hops, fh_via = via, fh_also_from = []\<rparr>"

theorem merge_keeps_best_and_names_the_rest_witness:
  "\<exists>w. merge_copies (\<lambda>_. None) [demo_hit 2 (Some ''b''), demo_hit 1 (Some ''a'')] ''me'' = [w]
     \<and> insert (hit_source ''me'' w) (set (fh_also_from w)) = {''a'', ''b''}"
proof -
  let ?hits = "[demo_hit 2 (Some ''b''), demo_hit 1 (Some ''a'')]"
  have "map hit_iri (merge_copies (\<lambda>_. None) ?hits ''me'') = [''https://h.org/software/1'']"
    by (simp add: merge_copies_iris first_seen_order_def hit_iri_def demo_hit_def)
  then obtain w where w: "merge_copies (\<lambda>_. None) ?hits ''me'' = [w]" "hit_iri w = ''https://h.org/software/1''"
    by (auto simp: map_eq_Cons_conv)
  have "hit_iri (demo_hit n v) = hit_iri w" for n v by (simp only: w(2)) (simp add: hit_iri_def demo_hit_def)
  then have "{h \<in> set ?hits. hit_iri h = hit_iri w} = set ?hits" by auto
  with merge_keeps_best_and_names_the_rest [of w "\<lambda>_. None" ?hits "''me''"] w(1)
  show ?thesis by (auto simp: hit_source_def demo_hit_def)
qed

section \<open>Paths and settings\<close>

lemma take_path_bound:
  assumes "length out < max cap 1" "\<forall>p \<in> set out. p \<noteq> [] \<and> length p \<le> 200" "distinct out"
  shows "length (take_path cap out parts) \<le> max cap 1 \<and> (\<forall>p \<in> set (take_path cap out parts). p \<noteq> [] \<and> length p \<le> 200)
     \<and> distinct (take_path cap out parts)"
  using assms
proof (induction cap out parts rule: take_path.induct)
  case (2 cap out part parts)
  let ?p = "trim_end_matches (CHR ''/'') (trim part)"
  show ?case
  proof (cases "?p = [] \<or> 200 < length ?p \<or> ?p \<in> set out")
    case True
    with "2.IH"(1) [OF refl True "2.prems"] show ?thesis by (simp add: Let_def)
  next
    case False
    show ?thesis
    proof (cases "cap \<le> length (out @ [?p])")
      case True
      with False "2.prems" show ?thesis by (simp add: Let_def)
    next
      case less: False
      have "length (out @ [?p]) < max cap 1" "\<forall>p \<in> set (out @ [?p]). p \<noteq> [] \<and> length p \<le> 200" "distinct (out @ [?p])"
        using False less "2.prems" by auto
      from "2.IH"(2) [OF refl False refl less this] False less show ?thesis by (simp add: Let_def)
    qed
  qed
qed auto

lemma length_join_bound: "\<forall>p \<in> set ps. length p \<le> n \<Longrightarrow> length (join [c] ps) \<le> (n + 1) * length ps"
  by (induction "[c]" ps rule: join.induct) auto

text \<open>
  A path from a peer cannot grow without bound: whatever the parameter holds, the path read
  from it has at most as many entries as the cap, all different and none over 200 bytes, so that
  the parameter passed on is bounded too.
\<close>

theorem path_is_bounded:
  "length (parse_path raw cap) \<le> max cap 1 \<and> distinct (parse_path raw cap)
   \<and> length (join '','' (parse_path raw cap)) \<le> 201 * max cap 1"
proof -
  have b: "length (parse_path raw cap) \<le> max cap 1 \<and> (\<forall>p \<in> set (parse_path raw cap). p \<noteq> [] \<and> length p \<le> 200)
     \<and> distinct (parse_path raw cap)"
    unfolding parse_path_def by (rule take_path_bound) auto
  then have "length (join '','' (parse_path raw cap)) \<le> (200 + 1) * length (parse_path raw cap)"
    by (intro length_join_bound) blast
  also have "\<dots> \<le> 201 * max cap 1" using b by simp
  finally show ?thesis using b by blast
qed

lemma fed_settings_are_bounded_hops: "max_hops (fed_settings_from_env e) \<le> 8"
  by (simp add: fed_settings_from_env_def Let_def)

text \<open>
  However the environment is set, a query travels at most eight hops, a fan-out opens at most
  64 connections and lasts at most a minute, and what one peer may send is bounded.
\<close>

theorem fed_settings_are_bounded:
  "max_hops (fed_settings_from_env e) \<le> 8 \<and> max_peers (fed_settings_from_env e) \<le> 64
   \<and> total_timeout (fed_settings_from_env e) \<le> 60 * 10 ^ 9
   \<and> max_peer_bytes (fed_settings_from_env e) \<le> 32 * 1024 * 1024
   \<and> max_peer_hits (fed_settings_from_env e) \<le> 1000 \<and> max_peer_statuses (fed_settings_from_env e) \<le> 256
   \<and> max_total_hits (fed_settings_from_env e) \<le> 5000"
  unfolding fed_settings_from_env_def Let_def fed_settings.simps fed_env_usize_def by (simp only: min.cobounded2 simp_thms)

end
