(* ===== verification/Federated_Search.thy ===== *)
theory Federated_Search
  imports Federation Errors Ids
begin

text \<open>
  \<open>GET /api/v1/search\<close> of \<open>src/api/search.rs\<close>: the handler of one registry, and the walk of a
  federated query through a network of them. The handler is split where the code waits for its
  peers: \<open>search_arrive\<close> is everything before the requests go out and \<open>search_finish\<close>
  everything after the answers are in. Evaluating SPARQL, lowercasing and fetching over HTTP
  are arguments; the walk asks the peers one after the other, which is one of the orders the
  concurrent requests of the code can be served in.
\<close>

section \<open>Requests\<close>

record search_query =
  sq_q :: "string option"
  sq_entity_type :: "string option"
  sq_federated :: bool
  sq_limit :: "nat option"
  sq_fed_id :: "string option"
  sq_fed_hops :: "nat option"
  sq_fed_origin :: "string option"
  sq_fed_path :: "string option"
  sq_fed_budget_ms :: "nat option"

text \<open>What a request reads: the registry's own configuration, clock and fresh id, and its store.\<close>

record result_row =
  row_s :: "string option"
  row_title :: "string option"
  row_extra :: "string option"
  row_g :: "string option"

record registry =
  rg_base :: string
  rg_settings :: fed_settings
  rg_search_timeout :: nat
  rg_now :: int
  rg_new_id :: string
  rg_parse_time :: "string \<Rightarrow> int option"
  rg_show_time :: "int \<Rightarrow> string"
  rg_lower :: "string \<Rightarrow> string"
  rg_select :: "string \<Rightarrow> string \<Rightarrow> nat \<Rightarrow> app_error + result_row list"
  rg_origin :: "string option \<Rightarrow> origin"

record search_tables =
  st_peers :: "peer list"
  st_queries :: "seen_query list"

definition MIN_USEFUL_HOP_BUDGET :: nat where
  "MIN_USEFUL_HOP_BUDGET = 250 * 10 ^ 6"

section \<open>The local answer\<close>

definition relevance :: "(string \<Rightarrow> string) \<Rightarrow> string \<Rightarrow> string \<Rightarrow> rat" where
  "relevance lower q t =
     (if lower t = lower q then 1
      else if prefix (lower q) (lower t) then 8 / 10
      else if contains_str (lower t) (lower q) then 6 / 10
      else 3 / 10)"

text \<open>The rows of one kind of record; \<open>rg_select\<close> stands for the query of that kind, with its text filter.\<close>

definition hits_of_kind :: "registry \<Rightarrow> string \<Rightarrow> nat \<Rightarrow> string \<Rightarrow> app_error + search_hit list" where
  "hits_of_kind w q lm name =
     and_then (rg_select w name q lm) (\<lambda>rows.
       Inr (List.map_filter (\<lambda>row. map_option (\<lambda>iri.
          let t = (case row_title row of Some t \<Rightarrow> t | None \<Rightarrow> iri_tail iri)
          in \<lparr>sh_iri = iri, sh_entity_type = name, sh_title = t, sh_snippet = row_extra row,
              sh_origin = rg_origin w (row_g row), sh_score = relevance (rg_lower w) q t\<rparr>) (row_s row)) rows))"

definition SEARCH_KINDS :: "string list" where
  "SEARCH_KINDS = [''software'', ''instance'', ''artifact'', ''run'']"

definition local_hits :: "registry \<Rightarrow> string \<Rightarrow> string option \<Rightarrow> nat \<Rightarrow> app_error + search_hit list" where
  "local_hits w q only lm =
     and_then (collect_results (map (hits_of_kind w q lm)
        (filter (\<lambda>name. case only of None \<Rightarrow> True | Some o0 \<Rightarrow> o0 = name) SEARCH_KINDS)))
       (\<lambda>hs. Inr (concat hs))"

section \<open>Arrival\<close>

definition ordinal :: "int \<Rightarrow> string" where
  "ordinal n = (if n = 1 then ''first'' else if n = 2 then ''second'' else show_int n @ ''th'')"

definition base_of :: "string \<Rightarrow> string" where
  "base_of iri = trim_end_matches (CHR ''/'') iri"

record search_plan =
  pl_query :: string
  pl_relayed_leg :: bool
  pl_participates :: bool
  pl_me :: string
  pl_settings :: fed_settings
  pl_parse_time :: "string \<Rightarrow> int option"
  pl_time_budget :: nat
  pl_hits :: "fed_hit list"
  pl_peers :: "peer_status list"
  pl_partial :: bool
  pl_trace :: federation_trace
  pl_requests :: "(peer \<times> search_query) list"

datatype arrival = Answered "app_error + search_results" | Planned search_plan

definition refusal :: "registry \<Rightarrow> string \<Rightarrow> string \<Rightarrow> string option \<Rightarrow> string list \<Rightarrow> int \<Rightarrow> int \<Rightarrow> search_results" where
  "refusal w q query_id origin_iri incoming_path first repeats =
     (let me = base_of (rg_base w);
          reason = me @ '' already handled federated query '' @ query_id @ '' at '' @ rg_show_time w first
            @ ''; its results were returned on the path that arrived first. This is the '' @ ordinal repeats
            @ '' repeat, which means the peer graph contains a cycle.''
      in (empty_results q)\<lparr>sr_already_handled := True, sr_federation := Some
           \<lparr>ft_query_id = query_id, ft_origin = origin_iri, ft_registry = me, ft_max_hops = max_hops (rg_settings w),
            ft_hops_granted = 0, ft_hops_forwarded = 0, ft_budget_exhausted = False, ft_path = incoming_path,
            ft_first_seen_at = Some first, ft_reason = Some reason\<rparr>\<rparr>)"

text \<open>The budgets of a request, in hops and nanoseconds.\<close>

definition hops_granted :: "registry \<Rightarrow> search_query \<Rightarrow> nat" where
  "hops_granted w sq =
     min (case sq_fed_hops sq of Some h \<Rightarrow> h | None \<Rightarrow> max_hops (rg_settings w)) (max_hops (rg_settings w))"

definition time_budget :: "registry \<Rightarrow> search_query \<Rightarrow> nat" where
  "time_budget w sq =
     (let own_timeout = min (rg_search_timeout w) (total_timeout (rg_settings w))
      in case sq_fed_budget_ms sq of
           Some ms \<Rightarrow> min own_timeout (min ms 600000 * 10 ^ 6)
         | None \<Rightarrow> own_timeout)"

definition forward_budget :: "registry \<Rightarrow> search_query \<Rightarrow> nat" where
  "forward_budget w sq = time_budget w sq - hop_margin (rg_settings w)"

definition hops_forwarded :: "registry \<Rightarrow> search_query \<Rightarrow> nat" where
  "hops_forwarded w sq =
     (if 0 < hops_granted w sq \<and> MIN_USEFUL_HOP_BUDGET \<le> forward_budget w sq then hops_granted w sq - 1 else 0)"

definition skipped :: "string \<Rightarrow> peer \<Rightarrow> peer_status" where
  "skipped note p = (direct_status p ''skipped'')\<lparr>ps_note := Some note\<rparr>"

definition em_dash :: string where
  "em_dash = [CHR 0xE2, CHR 0x80, CHR 0x94]"

definition NOTE_ON_PATH :: string where
  "NOTE_ON_PATH = ''already on this query's path '' @ em_dash @ '' asking it would close a loop''"

definition NOTE_NO_HOPS :: string where
  "NOTE_NO_HOPS = ''hop budget exhausted '' @ em_dash @ '' the walk stops here''"

text \<open>Whom to ask: nobody on the path, not the origin, not this registry.\<close>

definition is_askable :: "string \<Rightarrow> string list \<Rightarrow> string option \<Rightarrow> peer \<Rightarrow> bool" where
  "is_askable me path origin_iri p \<longleftrightarrow>
     (let b = base_of (pr_base_iri p) in b \<noteq> me \<and> b \<notin> set path \<and> Some b \<noteq> origin_iri)"

definition peer_request :: "registry \<Rightarrow> search_query \<Rightarrow> string \<Rightarrow> string \<Rightarrow> string \<Rightarrow> string list \<Rightarrow> nat \<Rightarrow> search_query" where
  "peer_request w sq q query_id origin_param path lm =
     \<lparr>sq_q = Some q, sq_entity_type = sq_entity_type sq, sq_federated = True, sq_limit = Some lm,
      sq_fed_id = Some query_id, sq_fed_hops = Some (hops_forwarded w sq), sq_fed_origin = Some origin_param,
      sq_fed_path = Some (join '','' path), sq_fed_budget_ms = Some (max (forward_budget w sq div 10 ^ 6) 1)\<rparr>"

text \<open>The fan-out part: the statuses it reports at once, and the requests it sends.\<close>

definition plan_fanout ::
  "registry \<Rightarrow> search_query \<Rightarrow> (peer \<Rightarrow> search_query) \<Rightarrow> string \<Rightarrow> string list \<Rightarrow> string option \<Rightarrow> peer list \<Rightarrow> search_plan \<Rightarrow> search_plan" where
  "plan_fanout w sq request me path origin_iri all_peers pl =
     (let fed = rg_settings w;
          askable0 = filter (is_askable me path origin_iri) all_peers;
          on_path = filter (\<lambda>p. \<not> is_askable me path origin_iri p) all_peers;
          st1 = map (skipped NOTE_ON_PATH) (take (max_peers fed) on_path);
          askable = take (max_peers fed) askable0;
          capped = drop (max_peers fed) askable0;
          st2 = map (skipped (''fan-out capped at '' @ show_nat (max_peers fed) @ '' peers per query'')) (take (max_peers fed) capped);
          pl1 = pl\<lparr>pl_peers := pl_peers pl @ st1 @ st2, pl_partial := pl_partial pl \<or> max_peers fed < length askable0\<rparr>
      in if hops_granted w sq = 0 \<and> askable \<noteq> []
         then pl1\<lparr>pl_trace := (pl_trace pl1)\<lparr>ft_budget_exhausted := True\<rparr>,
                  pl_peers := pl_peers pl1 @ map (skipped NOTE_NO_HOPS) askable\<rparr>
         else if askable \<noteq> []
         then pl1\<lparr>pl_trace := (if 1 < hops_granted w sq \<and> hops_forwarded w sq = 0
                               then (pl_trace pl1)\<lparr>ft_budget_exhausted := True\<rparr> else pl_trace pl1),
                  pl_requests := map (\<lambda>p. (p, request p)) askable\<rparr>
         else pl1)"

definition incoming_path :: "registry \<Rightarrow> search_query \<Rightarrow> string list" where
  "incoming_path w sq = parse_path (sq_fed_path sq) (max_hops (rg_settings w) + 2)"

definition origin_of :: "search_query \<Rightarrow> string option" where
  "origin_of sq =
     (case map_option base_of (sq_fed_origin sq) of
        Some s \<Rightarrow> if s \<noteq> [] \<and> length s \<le> 200 then Some s else None
      | None \<Rightarrow> None)"

definition query_of :: "search_query \<Rightarrow> string" where
  "query_of sq = (case sq_q sq of Some q \<Rightarrow> q | None \<Rightarrow> [])"

definition participates :: "search_query \<Rightarrow> bool" where
  "participates sq \<longleftrightarrow> sq_federated sq \<or> sq_fed_id sq \<noteq> None"

definition id_of :: "registry \<Rightarrow> search_query \<Rightarrow> string" where
  "id_of w sq = (case sq_fed_id sq of Some i \<Rightarrow> i | None \<Rightarrow> rg_new_id w)"

text \<open>After the claim: the local answer and the plan.\<close>

definition plan_search :: "registry \<Rightarrow> search_query \<Rightarrow> peer list \<Rightarrow> app_error + search_plan" where
  "plan_search w sq peers =
     (let q = query_of sq; me = base_of (rg_base w); origin_iri = origin_of sq; query_id = id_of w sq;
          lm = nat (clamp 1 100 (int (case sq_limit sq of Some l \<Rightarrow> l | None \<Rightarrow> 30)));
          path = (let p = incoming_path w sq in if me \<in> set p then p else p @ [me]);
          origin_param = (case origin_iri of Some s \<Rightarrow> s | None \<Rightarrow> me)
      in and_then (local_hits w q (sq_entity_type sq) lm) (\<lambda>hits.
           let pl = \<lparr>pl_query = q, pl_relayed_leg = (sq_fed_id sq \<noteq> None), pl_participates = participates sq, pl_me = me,
                     pl_settings = rg_settings w, pl_parse_time = rg_parse_time w, pl_time_budget = time_budget w sq,
                     pl_hits = map local_hit hits, pl_peers = [], pl_partial = False,
                     pl_trace = \<lparr>ft_query_id = query_id, ft_origin = Some origin_param, ft_registry = me,
                        ft_max_hops = max_hops (rg_settings w), ft_hops_granted = hops_granted w sq,
                        ft_hops_forwarded = hops_forwarded w sq, ft_budget_exhausted = False, ft_path = path,
                        ft_first_seen_at = None, ft_reason = None\<rparr>,
                     pl_requests = []\<rparr>
           in Inr (if sq_federated sq
                   then plan_fanout w sq (\<lambda>_. peer_request w sq q query_id origin_param path lm) me path origin_iri
                          (list_peers (rg_parse_time w) (rg_now w) (Some ''active'') peers) pl
                   else pl)))"

definition INVALID_FED_ID :: string where
  "INVALID_FED_ID = ''fed_id must be 1'' @ [CHR 0xE2, CHR 0x80, CHR 0x93] @ ''100 characters of [A-Za-z0-9._:-] ''
     @ em_dash @ '' it is a query identifier, not free text''"

definition search_arrive :: "registry \<Rightarrow> search_query \<Rightarrow> search_tables \<Rightarrow> arrival \<times> search_tables" where
  "search_arrive w sq st =
     (if (case sq_fed_id sq of Some raw \<Rightarrow> \<not> valid_query_id raw | None \<Rightarrow> False)
      then (Answered (Inl (bad_request INVALID_FED_ID)), st)
      else if trim (query_of sq) = [] then (Answered (Inr (empty_results (query_of sq))), st)
      else let path = incoming_path w sq;
               received_from = (if path = [] then None else Some (last path));
               (claim, st1) =
                 (if participates sq
                  then (let (c, qs) = claim_query (rg_now w) (id_of w sq) (origin_of sq) received_from
                              (id_ttl (rg_settings w)) (max_seen_rows (rg_settings w)) (st_queries st)
                        in (c, st\<lparr>st_queries := qs\<rparr>))
                  else (Fresh, st))
           in (case claim of
                 Already_Handled first repeats \<Rightarrow>
                   (Answered (Inr (refusal w (query_of sq) (id_of w sq) (origin_of sq) path first repeats)), st1)
               | Fresh \<Rightarrow> (case plan_search w sq (st_peers st1) of
                             Inl e \<Rightarrow> (Answered (Inl e), st1)
                           | Inr pl \<Rightarrow> (Planned pl, st1))))"

section \<open>The answers of the peers\<close>

datatype peer_answer = Peer_Timeout | Peer_Error string | Peer_Results search_results

text \<open>\<open>fetch_peer\<close>: what the client gets for a response of the given parts, with deserialising as an argument.\<close>

datatype exchange = Send_Failed string | Responded nat string "nat option" "(string + string) list"

fun read_body :: "nat \<Rightarrow> string \<Rightarrow> (string + string) list \<Rightarrow> string + string" where
  "read_body cap body [] = Inr body"
| "read_body cap body (Inl e # chunks) = Inl e"
| "read_body cap body (Inr chunk # chunks) =
     (if cap < length body + length chunk then Inl (''peer response exceeds the '' @ show_nat cap @ ''-byte cap'')
      else read_body cap (body @ chunk) chunks)"

definition fetch_peer :: "(string \<Rightarrow> string + search_results) \<Rightarrow> nat \<Rightarrow> exchange \<Rightarrow> string + search_results" where
  "fetch_peer parse cap x =
     (case x of
        Send_Failed e \<Rightarrow> Inl e
      | Responded code shown len chunks \<Rightarrow>
          if \<not> (200 \<le> code \<and> code < 300) then Inl (''peer returned '' @ shown)
          else (case len of
                  Some n \<Rightarrow> if cap < n then Inl (''peer announced '' @ show_nat n @ '' bytes, over the '' @ show_nat cap @ ''-byte cap'')
                            else and_then (read_body cap [] chunks) (\<lambda>body.
                                   case parse body of Inl e \<Rightarrow> Inl (''unreadable response: '' @ e) | Inr r \<Rightarrow> Inr r)
                | None \<Rightarrow> and_then (read_body cap [] chunks) (\<lambda>body.
                                   case parse body of Inl e \<Rightarrow> Inl (''unreadable response: '' @ e) | Inr r \<Rightarrow> Inr r)))"

definition take_answer :: "search_plan \<Rightarrow> peer \<times> peer_answer \<Rightarrow> search_plan" where
  "take_answer pl pa =
     (case pa of (p, a) \<Rightarrow>
        (case a of
           Peer_Timeout \<Rightarrow> pl\<lparr>pl_partial := True, pl_peers := pl_peers pl @
             [(direct_status p ''timeout'')\<lparr>ps_error := Some (''no response within '' @ show_nat (pl_time_budget pl div 10 ^ 6) @ ''ms'')\<rparr>]\<rparr>
         | Peer_Error e \<Rightarrow> pl\<lparr>pl_partial := True, pl_peers := pl_peers pl @ [(direct_status p ''error'')\<lparr>ps_error := Some e\<rparr>]\<rparr>
         | Peer_Results r \<Rightarrow>
             if sr_already_handled r
             then pl\<lparr>pl_peers := pl_peers pl @ [(direct_status p ''already_handled'')\<lparr>ps_note :=
                    (case Option.bind (sr_federation r) ft_reason of Some t \<Rightarrow> Some t
                     | None \<Rightarrow> Some ''peer had already handled this query id'')\<rparr>]\<rparr>
             else let taken = map (relayed_hit p) (take (max_peer_hits (pl_settings pl)) (sr_hits r));
                      theirs = filter (\<lambda>s. base_of (ps_base_iri s) \<noteq> pl_me pl) (take (max_peer_statuses (pl_settings pl)) (sr_peers r))
                  in pl\<lparr>pl_partial := pl_partial pl \<or> sr_partial r, pl_hits := pl_hits pl @ taken,
                        pl_peers := pl_peers pl @ map (relayed_status p) theirs @ [(direct_status p ''ok'')\<lparr>ps_hits := length taken\<rparr>]\<rparr>))"

definition search_finish :: "search_plan \<Rightarrow> (peer \<times> peer_answer) list \<Rightarrow> search_results" where
  "search_finish pl0 answers =
     (let pl = fold (\<lambda>a pl. take_answer pl a) answers pl0;
          merged = (if pl_relayed_leg pl then pl_hits pl else merge_copies (pl_parse_time pl) (pl_hits pl) (pl_me pl));
          sorted_hits = sort_key (\<lambda>h. - sh_score (fh_hit h)) merged;
          cap = max_total_hits (pl_settings pl);
          hits = take cap sorted_hits
      in \<lparr>sr_query = pl_query pl, sr_hits = hits, sr_total = length hits,
          sr_partial = (pl_partial pl \<or> cap < length sorted_hits), sr_peers = pl_peers pl, sr_already_handled = False,
          sr_federation = (if pl_participates pl then Some (pl_trace pl) else None)\<rparr>)"

text \<open>The handler, with what the peers answer as an argument.\<close>

definition search :: "registry \<Rightarrow> (peer \<Rightarrow> search_query \<Rightarrow> peer_answer) \<Rightarrow> search_query \<Rightarrow> search_tables \<Rightarrow> (app_error + search_results) \<times> search_tables" where
  "search w ask sq st =
     (case search_arrive w sq st of
        (Answered r, st') \<Rightarrow> (r, st')
      | (Planned pl, st') \<Rightarrow> (Inr (search_finish pl (map (\<lambda>(p, rq). (p, ask p rq)) (pl_requests pl))), st'))"

section \<open>A query in a network\<close>

text \<open>
  A network gives the registry at each base IRI, and a state the tables of each. The walk asks
  the peers of a plan in turn; it returns the answer, the registries that took the query on, in
  the order they did, and the state after. The fuel bounds the depth of the walk.
\<close>

type_synonym network = "string \<Rightarrow> registry option"
type_synonym network_state = "string \<Rightarrow> search_tables"
type_synonym walk_result = "(app_error + search_results) \<times> string list \<times> network_state"

definition to_answer :: "app_error + search_results \<Rightarrow> peer_answer" where
  "to_answer r = (case r of Inl e \<Rightarrow> Peer_Error (''peer returned '' @ show_nat (status e)) | Inr x \<Rightarrow> Peer_Results x)"

fun ask_all ::
  "(string \<Rightarrow> search_query \<Rightarrow> network_state \<Rightarrow> walk_result option) \<Rightarrow> (peer \<times> search_query) list \<Rightarrow> network_state \<Rightarrow>
   ((peer \<times> peer_answer) list \<times> string list \<times> network_state) option" where
  "ask_all ask [] S = Some ([], [], S)"
| "ask_all ask ((p, rq) # rqs) S =
     (case ask (base_of (pr_base_iri p)) rq S of
        None \<Rightarrow> None
      | Some (r, visited, S') \<Rightarrow>
          (case ask_all ask rqs S' of
             None \<Rightarrow> None
           | Some (answers, visited', S'') \<Rightarrow> Some ((p, to_answer r) # answers, visited @ visited', S'')))"

primrec walk :: "nat \<Rightarrow> network \<Rightarrow> string \<Rightarrow> search_query \<Rightarrow> network_state \<Rightarrow> walk_result option" where
  "walk 0 net b sq S = None"
| "walk (Suc n) net b sq S =
     (case net b of
        None \<Rightarrow> Some (Inl (bad_gateway ''unreachable''), [], S)
      | Some w \<Rightarrow>
          (case search_arrive w sq (S b) of
             (Answered r, st) \<Rightarrow> Some (r, [], S(b := st))
           | (Planned pl, st) \<Rightarrow>
               (case ask_all (walk n net) (pl_requests pl) (S(b := st)) of
                  None \<Rightarrow> None
                | Some (answers, visited, S') \<Rightarrow> Some (Inr (search_finish pl answers), b # visited, S'))))"

section \<open>What a request can hand on\<close>

lemma hops_granted_le: "hops_granted w sq \<le> max_hops (rg_settings w)"
  by (simp add: hops_granted_def)

lemma hops_granted_le_given: "sq_fed_hops sq = Some h \<Longrightarrow> hops_granted w sq \<le> h"
  by (simp add: hops_granted_def)

lemma hops_forwarded_less: "0 < hops_granted w sq \<Longrightarrow> hops_forwarded w sq < hops_granted w sq"
  by (simp add: hops_forwarded_def)

lemma plan_fanout_requests:
  assumes "pl_requests pl = []"
  shows "pl_requests (plan_fanout w sq request me path og peers pl) =
     (if hops_granted w sq = 0 then []
      else map (\<lambda>p. (p, request p)) (take (max_peers (rg_settings w)) (filter (is_askable me path og) peers)))"
  using assms by (auto simp: plan_fanout_def Let_def)

lemma plan_requests:
  assumes "plan_search w sq peers = Inr pl" "(p, rq) \<in> set (pl_requests pl)"
  shows "sq_fed_id rq = Some (id_of w sq) \<and> sq_fed_hops rq = Some (hops_forwarded w sq) \<and> 0 < hops_granted w sq
     \<and> sq_fed_budget_ms rq = Some (max (forward_budget w sq div 10 ^ 6) 1) \<and> sq_federated sq
     \<and> sq_q rq = Some (query_of sq) \<and> base_of (pr_base_iri p) \<noteq> base_of (rg_base w)
     \<and> base_of (pr_base_iri p) \<notin> set (incoming_path w sq)"
  using assms by (auto simp: plan_search_def Let_def and_then_eq_Inr plan_fanout_requests peer_request_def
      is_askable_def split: if_splits dest!: in_set_takeD)

lemma arrive_plan:
  "search_arrive w sq st = (Planned pl, st') \<Longrightarrow> plan_search w sq (st_peers st) = Inr pl"
  by (auto simp: search_arrive_def Let_def split: if_splits query_claim.splits sum.splits prod.splits)

lemma arrive_requests:
  "search_arrive w sq st = (Planned pl, st') \<Longrightarrow> (p, rq) \<in> set (pl_requests pl) \<Longrightarrow>
     sq_fed_id rq = Some (id_of w sq) \<and> sq_fed_hops rq = Some (hops_forwarded w sq) \<and> 0 < hops_granted w sq
     \<and> sq_fed_budget_ms rq = Some (max (forward_budget w sq div 10 ^ 6) 1) \<and> sq_federated sq
     \<and> sq_q rq = Some (query_of sq) \<and> base_of (pr_base_iri p) \<noteq> base_of (rg_base w)
     \<and> base_of (pr_base_iri p) \<notin> set (incoming_path w sq)"
  by (metis arrive_plan plan_requests)

section \<open>The walk ends\<close>

lemma ask_all_ends:
  "(\<And>p rq S. (p, rq) \<in> set rqs \<Longrightarrow> ask (base_of (pr_base_iri p)) rq S \<noteq> None) \<Longrightarrow> ask_all ask rqs S \<noteq> None"
proof (induction ask rqs S rule: ask_all.induct)
  case (2 ask p rq rqs S)
  obtain r visited S' where a: "ask (base_of (pr_base_iri p)) rq S = Some (r, visited, S')"
    using "2.prems" [of p rq S] by (auto simp: not_None_eq)
  from "2.IH" [OF a refl refl] "2.prems" show ?case by (fastforce simp: a split: option.splits)
qed simp

lemma walk_ends:
  assumes "\<And>w. net b = Some w \<Longrightarrow> hops_granted w sq < n" "0 < n"
  shows "walk n net b sq S \<noteq> None"
  using assms
proof (induction n arbitrary: b sq S)
  case (Suc n)
  show ?case
  proof (cases "net b")
    case (Some w)
    show ?thesis
    proof (cases "search_arrive w sq (S b)")
      case a: (Pair r st)
      show ?thesis
      proof (cases r)
        case (Planned pl)
        have "ask_all (walk n net) (pl_requests pl) (S(b := st)) \<noteq> None"
        proof (rule ask_all_ends)
          fix p rq S' assume m: "(p, rq) \<in> set (pl_requests pl)"
          note rq = arrive_requests [OF a [unfolded Planned] m]
          have less: "hops_forwarded w sq < hops_granted w sq" using rq hops_forwarded_less by blast
          show "walk n net (base_of (pr_base_iri p)) rq S' \<noteq> None"
          proof (rule Suc.IH)
            show "hops_granted w' rq < n" if "net (base_of (pr_base_iri p)) = Some w'" for w'
              using hops_granted_le_given [of rq "hops_forwarded w sq" w'] rq less Suc.prems(1) [OF Some] by simp
            show "0 < n" using less Suc.prems(1) [OF Some] by simp
          qed
        qed
        with a Planned Some show ?thesis by (auto split: option.splits)
      qed (use a Some in simp)
    qed
  qed simp
qed simp

lemma ask_all_mono:
  assumes "ask_all ask rqs S = Some x"
    and "\<And>b rq S y. ask b rq S = Some y \<Longrightarrow> ask' b rq S = Some y"
  shows "ask_all ask' rqs S = Some x"
  using assms
proof (induction ask rqs S arbitrary: x rule: ask_all.induct)
  case (2 ask p rq rqs S)
  obtain r visited S' where a: "ask (base_of (pr_base_iri p)) rq S = Some (r, visited, S')"
    using "2.prems"(1) by (auto split: option.splits)
  then have a': "ask' (base_of (pr_base_iri p)) rq S = Some (r, visited, S')" by (rule "2.prems"(2))
  from "2.prems"(1) a obtain y where y: "ask_all ask rqs S' = Some y" by (auto split: option.splits)
  from "2.IH" [OF a refl refl y "2.prems"(2)] have "ask_all ask' rqs S' = Some y" .
  with "2.prems"(1) a a' y show ?case by (auto split: option.splits prod.splits)
qed simp

lemma walk_mono: "walk n net b sq S = Some x \<Longrightarrow> n \<le> m \<Longrightarrow> walk m net b sq S = Some x"
proof (induction n arbitrary: m b sq S x)
  case (Suc n)
  obtain m' where m: "m = Suc m'" "n \<le> m'" using Suc.prems(2) by (cases m) auto
  have up: "walk n net b sq S = Some y \<Longrightarrow> walk m' net b sq S = Some y" for b sq S y
    using m(2) by (rule Suc.IH [rotated])
  show ?case
  proof (cases "net b")
    case (Some w)
    show ?thesis
    proof (cases "search_arrive w sq (S b)")
      case a: (Pair r st)
      show ?thesis
      proof (cases r)
        case (Planned pl)
        from Suc.prems(1) a Planned Some obtain y where y: "ask_all (walk n net) (pl_requests pl) (S(b := st)) = Some y"
          by (auto split: option.splits)
        from ask_all_mono [OF y up] Suc.prems(1) a Planned Some y m(1) show ?thesis
          by (auto split: option.splits prod.splits)
      qed (use Suc.prems(1) a Some m(1) in simp)
    qed
  qed (use Suc.prems(1) m(1) in simp)
qed simp

text \<open>
  C2. A federated search ends: in a network of any shape, cycles included, whose registries
  read their settings from any environment, a request that arrives anywhere is answered after a
  walk at most nine registries deep, and more fuel does not change the answer.
\<close>

theorem federated_search_ends:
  assumes "\<forall>b' w'. net b' = Some w' \<longrightarrow> (\<exists>e. rg_settings w' = fed_settings_from_env e)"
  shows "\<exists>x. \<forall>n \<ge> 9. walk n net b sq S = Some x"
proof -
  have "hops_granted w sq < 9" if nb: "net b = Some w" for w
  proof -
    obtain e where "rg_settings w = fed_settings_from_env e" using assms nb by blast
    then show ?thesis using hops_granted_le [of w sq] fed_settings_are_bounded_hops [of e] by simp
  qed
  then have "walk 9 net b sq S \<noteq> None" by (intro walk_ends) auto
  then obtain x where "walk 9 net b sq S = Some x" by blast
  then show ?thesis using walk_mono by blast
qed

text \<open>Two registries that know each other.\<close>

definition demo_registry :: "string \<Rightarrow> registry" where
  "demo_registry b = \<lparr>rg_base = b, rg_settings = fed_settings_from_env Map.empty, rg_search_timeout = 3 * 10 ^ 9, rg_now = 5,
     rg_new_id = ''q1'', rg_parse_time = (\<lambda>_. None), rg_show_time = show_int, rg_lower = id,
     rg_select = (\<lambda>_ _ _. Inr []), rg_origin = (\<lambda>_. local_origin)\<rparr>"

definition demo_network :: network where
  "demo_network = [''https://a.org'' \<mapsto> demo_registry ''https://a.org'', ''https://b.org'' \<mapsto> demo_registry ''https://b.org'']"

definition demo_tables :: network_state where
  "demo_tables b = \<lparr>st_peers = [demo_peer\<lparr>pr_base_iri := (if b = ''https://a.org'' then ''https://b.org'' else ''https://a.org'')\<rparr>],
     st_queries = []\<rparr>"

definition demo_search :: search_query where
  "demo_search = \<lparr>sq_q = Some ''shacl'', sq_entity_type = None, sq_federated = True, sq_limit = None, sq_fed_id = None,
     sq_fed_hops = None, sq_fed_origin = None, sq_fed_path = None, sq_fed_budget_ms = None\<rparr>"

lemma demo_network_settings: "\<forall>b w. demo_network b = Some w \<longrightarrow> (\<exists>e. rg_settings w = fed_settings_from_env e)"
  by (auto simp: demo_network_def demo_registry_def split: if_splits)

theorem federated_search_ends_witness:
  "\<exists>x. walk 12 demo_network ''https://a.org'' demo_search demo_tables = Some x"
proof -
  obtain x where "\<forall>n \<ge> 9. walk n demo_network ''https://a.org'' demo_search demo_tables = Some x"
    using federated_search_ends [OF demo_network_settings] by blast
  then have "walk 12 demo_network ''https://a.org'' demo_search demo_tables = Some x" by simp
  then show ?thesis by blast
qed

lemma demo_walk: "walk 12 demo_network ''https://a.org'' demo_search demo_tables \<noteq> None"
proof (rule walk_ends)
  fix w assume "demo_network ''https://a.org'' = Some w"
  then have "rg_settings w = fed_settings_from_env Map.empty" by (auto simp: demo_network_def demo_registry_def)
  then show "hops_granted w demo_search < 12"
    using hops_granted_le [of w demo_search] fed_settings_are_bounded_hops [of Map.empty] by simp
qed simp

section \<open>No registry works twice\<close>

definition taken :: "string \<Rightarrow> search_tables \<Rightarrow> bool" where
  "taken q st \<longleftrightarrow> queries_ok (st_queries st) \<and> q \<in> fq_id ` set (st_queries st)"

text \<open>The tables of a registry whose clock has moved on since the last claim it holds.\<close>

definition ready :: "registry \<Rightarrow> search_tables \<Rightarrow> bool" where
  "ready w st \<longleftrightarrow> queries_ok (st_queries st) \<and> (\<forall>r \<in> set (st_queries st). fq_first_seen_at r < rg_now w)
     \<and> 0 < max_seen_rows (rg_settings w)"

lemma claim_known:
  assumes "queries_ok rows" "q \<in> fq_id ` set rows"
  shows "\<exists>t k rows'. claim_query now q og rf ttl mx rows = (Already_Handled t k, rows')
     \<and> queries_ok rows' \<and> fq_id ` set rows' = fq_id ` set rows"
proof -
  let ?f = "\<lambda>r. r\<lparr>fq_repeat_count := fq_repeat_count r + 1\<rparr>" and ?Q = "\<lambda>r. fq_id r = q"
  have m: "map fq_id (update_where ?Q ?f rows) = map fq_id rows" by (rule map_update_where) simp
  from arg_cong [OF m, of set] have s: "fq_id ` set (update_where ?Q ?f rows) = fq_id ` set rows" by simp
  obtain r where r: "find ?Q rows = Some r" using assms(2) by (cases "find ?Q rows") (auto simp: find_None_iff)
  from assms(2) have k: "list_ex ?Q rows" by (auto simp: list_ex_iff)
  have "find ?Q (update_where ?Q ?f rows) = Some (if ?Q r then ?f r else r)" by (simp add: find_update_where r)
  with k m s assms(1) show ?thesis by (simp add: claim_query_def Let_def queries_ok_def)
qed

lemma claim_unknown:
  assumes "q \<notin> fq_id ` set rows" shows "fst (claim_query now q og rf ttl mx rows) = Fresh"
  using assms by (auto simp: claim_query_def list_ex_iff)

lemma arrive_step:
  assumes "taken q st \<or> ready w st" "participates sq" "id_of w sq = q" "search_arrive w sq st = (a, st')"
  shows "(taken q st' \<or> ready w st') \<and> (taken q st \<longrightarrow> taken q st')
     \<and> (\<forall>pl. a = Planned pl \<longrightarrow> taken q st' \<and> \<not> taken q st)"
proof (cases "(case sq_fed_id sq of Some raw \<Rightarrow> \<not> valid_query_id raw | None \<Rightarrow> False) \<or> trim (query_of sq) = []")
  case True
  then have "st' = st \<and> (\<forall>pl. a \<noteq> Planned pl)" using assms(4) by (auto simp: search_arrive_def split: if_splits)
  with assms(1) show ?thesis by simp
next
  case valid: False
  let ?claim = "claim_query (rg_now w) q (origin_of sq)
      (if incoming_path w sq = [] then None else Some (last (incoming_path w sq)))
      (id_ttl (rg_settings w)) (max_seen_rows (rg_settings w)) (st_queries st)"
  obtain c qs where c: "?claim = (c, qs)" by (cases ?claim)
  have arr: "(a, st') = (case c of
       Already_Handled t k \<Rightarrow> (Answered (Inr (refusal w (query_of sq) q (origin_of sq) (incoming_path w sq) t k)), st\<lparr>st_queries := qs\<rparr>)
     | Fresh \<Rightarrow> (case plan_search w sq (st_peers st) of Inl e \<Rightarrow> (Answered (Inl e), st\<lparr>st_queries := qs\<rparr>)
               | Inr pl \<Rightarrow> (Planned pl, st\<lparr>st_queries := qs\<rparr>)))"
    using assms(2-4) valid c
    by (auto simp: search_arrive_def Let_def simp flip: assms(4) split: query_claim.splits sum.splits)
  show ?thesis
  proof (cases "taken q st")
    case True
    then obtain t k qs' where "?claim = (Already_Handled t k, qs')" "queries_ok qs'" "fq_id ` set qs' = fq_id ` set (st_queries st)"
      using claim_known [of "st_queries st" q] unfolding taken_def by blast
    with c have "c = Already_Handled t k" "qs' = qs" by simp_all
    with arr True \<open>queries_ok qs'\<close> \<open>fq_id ` set qs' = fq_id ` set (st_queries st)\<close> show ?thesis by (simp add: taken_def)
  next
    case False
    then have rd: "ready w st" using assms(1) by simp
    then have "q \<notin> fq_id ` set (st_queries st)" using False by (simp add: ready_def taken_def)
    with c claim_unknown have fresh: "c = Fresh" by (metis fst_conv)
    have "queries_ok qs \<and> claimed_at q (rg_now w) (rg_now w + chrono_ttl (id_ttl (rg_settings w))) 0 qs"
      by (rule claim_fresh_claimed) (use c fresh rd in \<open>auto simp: ready_def\<close>)
    then have "taken q (st\<lparr>st_queries := qs\<rparr>)" by (auto simp: taken_def claimed_at_def)
    with fresh arr False show ?thesis by (auto split: sum.splits)
  qed
qed

definition walk_ok :: "network \<Rightarrow> string \<Rightarrow> network_state \<Rightarrow> bool" where
  "walk_ok net q S \<longleftrightarrow> (\<forall>b w. net b = Some w \<longrightarrow> taken q (S b) \<or> ready w (S b))"

text \<open>What a part of the walk does to the state.\<close>

definition walked :: "network \<Rightarrow> string \<Rightarrow> network_state \<Rightarrow> string list \<Rightarrow> network_state \<Rightarrow> bool" where
  "walked net q S visited S' \<longleftrightarrow>
     walk_ok net q S' \<and> (\<forall>b. taken q (S b) \<longrightarrow> taken q (S' b)) \<and> distinct visited
     \<and> (\<forall>v \<in> set visited. \<not> taken q (S v) \<and> taken q (S' v))"

lemma walked_trans: "walked net q S vs S' \<Longrightarrow> walked net q S' vs' S'' \<Longrightarrow> walked net q S (vs @ vs') S''"
  by (auto simp: walked_def)

lemma walked_refl: "walk_ok net q S \<Longrightarrow> walked net q S [] S"
  by (simp add: walked_def)

lemma ask_all_walked:
  assumes "ask_all ask rqs S = Some (answers, visited, S')" "walk_ok net q S"
    and "\<And>p rq S r vs S'. (p, rq) \<in> set rqs \<Longrightarrow> walk_ok net q S \<Longrightarrow>
           ask (base_of (pr_base_iri p)) rq S = Some (r, vs, S') \<Longrightarrow> walked net q S vs S'"
  shows "walked net q S visited S'"
  using assms
proof (induction ask rqs S arbitrary: answers visited S' rule: ask_all.induct)
  case (1 ask S)
  then show ?case by (simp add: walked_refl)
next
  case (2 ask p rq rqs S)
  obtain r vs S1 where a: "ask (base_of (pr_base_iri p)) rq S = Some (r, vs, S1)"
    using "2.prems"(1) by (auto split: option.splits)
  obtain as vs' where b: "ask_all ask rqs S1 = Some (as, vs', S')" "visited = vs @ vs'"
    using "2.prems"(1) a by (auto split: option.splits)
  have w1: "walked net q S vs S1" using "2.prems"(2,3) a by (meson list.set_intros(1))
  then have "walk_ok net q S1" by (simp add: walked_def)
  then have "walked net q S1 vs' S'"
  proof (rule "2.IH" [OF a refl refl b(1)])
    fix p' rq' T r' us T' assume "(p', rq') \<in> set rqs" "walk_ok net q T" "ask (base_of (pr_base_iri p')) rq' T = Some (r', us, T')"
    then show "walked net q T us T'" by (intro "2.prems"(3) [of p' rq' T r' us T']) simp_all
  qed
  with w1 b(2) show ?case by (simp add: walked_trans)
qed

lemma walk_walked:
  assumes "walk n net b sq S = Some (r, visited, S')" "walk_ok net q S" "participates sq"
    and "\<And>w. net b = Some w \<Longrightarrow> id_of w sq = q"
  shows "walked net q S visited S'"
  using assms
proof (induction n arbitrary: b sq S r visited S')
  case (Suc n)
  show ?case
  proof (cases "net b")
    case None
    with Suc.prems show ?thesis by (simp add: walked_refl)
  next
    case (Some w)
    obtain a st where a: "search_arrive w sq (S b) = (a, st)" by (cases "search_arrive w sq (S b)")
    have rdy: "taken q (S b) \<or> ready w (S b)" using Suc.prems(2) Some by (simp add: walk_ok_def)
    note step = arrive_step [OF rdy Suc.prems(3) Suc.prems(4) [OF Some] a]
    have ok: "walk_ok net q (S(b := st))" using Suc.prems(2) step Some by (auto simp: walk_ok_def)
    have keeps: "taken q (S b') \<longrightarrow> taken q ((S(b := st)) b')" for b' using step by simp
    show ?thesis
    proof (cases a)
      case (Answered x)
      with Suc.prems(1) Some a have "visited = [] \<and> S' = S(b := st)" by simp
      with ok keeps show ?thesis by (simp add: walked_def fun_upd_def)
    next
      case (Planned pl)
      then obtain answers vs where vs: "ask_all (walk n net) (pl_requests pl) (S(b := st)) = Some (answers, vs, S')"
          "visited = b # vs"
        using Suc.prems(1) Some a by (auto split: option.splits)
      have "walked net q (S(b := st)) vs S'"
      proof (rule ask_all_walked [OF vs(1) ok])
        fix p rq T x us T' assume m: "(p, rq) \<in> set (pl_requests pl)" "walk_ok net q T"
          "walk n net (base_of (pr_base_iri p)) rq T = Some (x, us, T')"
        have "sq_fed_id rq = Some q" using arrive_requests [OF a [unfolded Planned] m(1)] Suc.prems(4) [OF Some] by simp
        then have "participates rq" "\<And>w'. id_of w' rq = q" by (simp_all add: participates_def id_of_def)
        with m show "walked net q T us T'" by (intro Suc.IH) auto
      qed
      moreover have "taken q st \<and> \<not> taken q (S b)" using step Planned by simp
      ultimately show ?thesis using keeps vs(2) by (auto simp: walked_def)
    qed
  qed
qed simp

text \<open>
  C4. No registry works twice for one query: whatever the shape of the network, the registries
  that take a federated query on during its walk are all different, each had not seen the id
  before and has recorded it afterwards, so every cycle is cut where it closes.
\<close>

theorem each_registry_takes_a_query_once:
  assumes "walk n net b sq S = Some (r, visited, S')" "participates sq" "\<forall>w. net b = Some w \<longrightarrow> id_of w sq = q"
    and "\<forall>b' w'. net b' = Some w' \<longrightarrow> ready w' (S b')"
  shows "distinct visited \<and> (\<forall>v \<in> set visited. \<not> taken q (S v) \<and> taken q (S' v))"
proof -
  have "walk_ok net q S" using assms(4) by (simp add: walk_ok_def)
  from walk_walked [OF assms(1) this assms(2)] assms(3) have "walked net q S visited S'" by blast
  then show ?thesis by (simp add: walked_def)
qed

theorem each_registry_takes_a_query_once_witness:
  "\<exists>r visited S'. walk 12 demo_network ''https://a.org'' demo_search demo_tables = Some (r, visited, S') \<and> distinct visited"
proof -
  obtain r visited S' where w: "walk 12 demo_network ''https://a.org'' demo_search demo_tables = Some (r, visited, S')"
    using demo_walk by (auto simp del: walk.simps)
  have "participates demo_search" by (simp add: participates_def demo_search_def)
  moreover have "\<forall>w. demo_network ''https://a.org'' = Some w \<longrightarrow> id_of w demo_search = ''q1''"
    by (simp add: demo_network_def demo_registry_def demo_search_def id_of_def)
  moreover have "\<forall>b w. demo_network b = Some w \<longrightarrow> ready w (demo_tables b)"
    by (auto simp: ready_def demo_tables_def queries_ok_def demo_network_def demo_registry_def fed_settings_from_env_def
        default_fed_settings_def Let_def split: if_splits)
  ultimately show ?thesis using each_registry_takes_a_query_once [OF w] w by blast
qed

section \<open>Budgets\<close>


lemma demo_arrives:
  "\<exists>pl st' p rq. search_arrive (demo_registry ''https://a.org'') demo_search (demo_tables ''https://a.org'') = (Planned pl, st')
     \<and> (p, rq) \<in> set (pl_requests pl)"
proof -
  let ?a = "search_arrive (demo_registry ''https://a.org'') demo_search (demo_tables ''https://a.org'')"
  have "case fst ?a of Planned pl \<Rightarrow> pl_requests pl \<noteq> [] | Answered _ \<Rightarrow> False" by code_simp
  then obtain pl where pl: "fst ?a = Planned pl" "pl_requests pl \<noteq> []" by (auto split: arrival.splits)
  then obtain x where "x \<in> set (pl_requests pl)" by (cases "pl_requests pl") auto
  then have "?a = (Planned pl, snd ?a) \<and> (fst x, snd x) \<in> set (pl_requests pl)" by (simp add: prod_eq_iff pl(1))
  then show ?thesis by blast
qed


section \<open>What the answers can do\<close>

lemma relayed_never_local: "or_kind (sh_origin (fh_hit (relayed_hit p h))) \<noteq> ''local''"
  by (simp add: relayed_hit_def relayed_origin_def Let_def)

definition is_local_hit :: "fed_hit \<Rightarrow> bool" where
  "is_local_hit h \<longleftrightarrow> or_kind (sh_origin (fh_hit h)) = ''local''"

lemma take_answer_settings [simp]:
  "pl_settings (take_answer pl a) = pl_settings pl" "pl_relayed_leg (take_answer pl a) = pl_relayed_leg pl"
  "pl_participates (take_answer pl a) = pl_participates pl" "pl_query (take_answer pl a) = pl_query pl"
  by (simp_all add: take_answer_def Let_def split: prod.splits peer_answer.splits)

lemma take_answer_hits:
  "h \<in> set (pl_hits (take_answer pl a)) \<Longrightarrow> is_local_hit h \<Longrightarrow> h \<in> set (pl_hits pl)"
  using relayed_never_local
  by (auto simp: take_answer_def Let_def is_local_hit_def split: prod.splits peer_answer.splits if_splits)

lemma take_answers:
  "pl_settings (fold (\<lambda>a pl. take_answer pl a) as pl) = pl_settings pl"
  "h \<in> set (pl_hits (fold (\<lambda>a pl. take_answer pl a) as pl)) \<Longrightarrow> is_local_hit h \<Longrightarrow> h \<in> set (pl_hits pl)"
  by (induction as arbitrary: pl) (auto dest: take_answer_hits)

lemma finish_hits:
  assumes "h \<in> set (sr_hits (search_finish pl answers))"
  shows "\<exists>h0 \<in> set (pl_hits (fold (\<lambda>a pl. take_answer pl a) answers pl)). h = h0\<lparr>fh_also_from := fh_also_from h\<rparr>"
proof -
  let ?pl = "fold (\<lambda>a pl. take_answer pl a) answers pl"
  have "h \<in> set (pl_hits ?pl) \<or> h \<in> set (merge_copies (pl_parse_time ?pl) (pl_hits ?pl) (pl_me ?pl))"
    using assms by (auto simp: search_finish_def Let_def dest!: in_set_takeD split: if_splits)
  then show ?thesis
  proof
    assume "h \<in> set (merge_copies (pl_parse_time ?pl) (pl_hits ?pl) (pl_me ?pl))"
    then show ?thesis by (rule merged_copy)
  qed (intro bexI [of _ h], simp_all)
qed

text \<open>
  A peer cannot pose as this registry: whatever the peers answer, a row of the result that
  is marked local is one of the rows of the local answer; the rows are sorted by score, and there
  are no more of them than the configured cap.
\<close>

theorem only_own_rows_are_local:
  assumes "r = search_finish pl answers"
  shows "(\<forall>h \<in> set (sr_hits r). is_local_hit h \<longrightarrow> (\<exists>h0 \<in> set (pl_hits pl). h = h0\<lparr>fh_also_from := fh_also_from h\<rparr>))
     \<and> sorted_wrt (\<lambda>a b. sh_score (fh_hit b) \<le> sh_score (fh_hit a)) (sr_hits r)
     \<and> length (sr_hits r) \<le> max_total_hits (pl_settings pl)"
proof (intro conjI ballI impI)
  fix h assume h: "h \<in> set (sr_hits r)" "is_local_hit h"
  from finish_hits [of h pl answers] h(1) assms obtain h0 where
    h0: "h0 \<in> set (pl_hits (fold (\<lambda>a pl. take_answer pl a) answers pl))" "h = h0\<lparr>fh_also_from := fh_also_from h\<rparr>" by blast
  have "is_local_hit h0" using h(2) by (subst (asm) h0(2)) (simp add: is_local_hit_def)
  with h0(1) have "h0 \<in> set (pl_hits pl)" by (rule take_answers)
  with h0(2) show "\<exists>h0 \<in> set (pl_hits pl). h = h0\<lparr>fh_also_from := fh_also_from h\<rparr>" by blast
next
  have "sorted_wrt (\<lambda>a b. sh_score (fh_hit b) \<le> sh_score (fh_hit a)) (sort_key (\<lambda>h. - sh_score (fh_hit h)) hs)" for hs
    using sorted_sort_key [of "\<lambda>h. - sh_score (fh_hit h)" hs] by (simp add: sorted_wrt_map)
  then show "sorted_wrt (\<lambda>a b. sh_score (fh_hit b) \<le> sh_score (fh_hit a)) (sr_hits r)"
    unfolding assms search_finish_def Let_def search_results.simps by (rule sorted_wrt_take)
  show "length (sr_hits r) \<le> max_total_hits (pl_settings pl)"
    by (simp add: assms search_finish_def Let_def take_answers(1))
qed

definition demo_plan :: search_plan where
  "demo_plan = (case search_arrive (demo_registry ''https://a.org'') demo_search (demo_tables ''https://a.org'') of
     (Planned pl, _) \<Rightarrow> pl | (Answered _, _) \<Rightarrow> undefined)"

theorem only_own_rows_are_local_witness:
  "filter is_local_hit (sr_hits (search_finish demo_plan
     [(demo_peer, Peer_Results ((empty_results ''shacl'')\<lparr>sr_hits := [local_hit (fh_hit (demo_hit 0 None))]\<rparr>))])) = []"
proof -
  have "pl_hits demo_plan = []" by code_simp
  with only_own_rows_are_local [OF refl, of demo_plan] show ?thesis by (auto simp: filter_empty_conv)
qed

lemma take_answer_partial: "pl_partial pl \<Longrightarrow> pl_partial (take_answer pl a)"
  by (simp add: take_answer_def Let_def split: prod.splits peer_answer.splits)

lemma take_answer_peers: "s \<in> set (pl_peers pl) \<Longrightarrow> s \<in> set (pl_peers (take_answer pl a))"
  by (simp add: take_answer_def Let_def split: prod.splits peer_answer.splits)

definition answer_status :: "peer_answer \<Rightarrow> string" where
  "answer_status a =
     (case a of Peer_Timeout \<Rightarrow> ''timeout'' | Peer_Error _ \<Rightarrow> ''error''
      | Peer_Results r \<Rightarrow> if sr_already_handled r then ''already_handled'' else ''ok'')"

definition answer_fails :: "peer_answer \<Rightarrow> bool" where
  "answer_fails a = (case a of Peer_Timeout \<Rightarrow> True | Peer_Error _ \<Rightarrow> True
     | Peer_Results r \<Rightarrow> \<not> sr_already_handled r \<and> sr_partial r)"

lemma take_answer_own:
  "\<exists>s \<in> set (pl_peers (take_answer pl (p, a))). ps_base_iri s = pr_base_iri p \<and> ps_status s = answer_status a \<and> ps_hops s = 1"
  "answer_fails a \<Longrightarrow> pl_partial (take_answer pl (p, a))"
  by (auto simp: take_answer_def answer_status_def answer_fails_def Let_def direct_status_def split: peer_answer.splits)

lemma take_answers_own:
  assumes "(p, a) \<in> set as"
  shows "\<exists>s \<in> set (pl_peers (fold (\<lambda>a pl. take_answer pl a) as pl)).
       ps_base_iri s = pr_base_iri p \<and> ps_status s = answer_status a \<and> ps_hops s = 1"
    and "answer_fails a \<Longrightarrow> pl_partial (fold (\<lambda>a pl. take_answer pl a) as pl)"
proof -
  obtain xs ys where as: "as = xs @ (p, a) # ys" using assms by (auto simp: in_set_conv_decomp)
  let ?f = "\<lambda>as. fold (\<lambda>a pl. take_answer pl a) as"
  have keep: "s \<in> set (pl_peers pl') \<Longrightarrow> s \<in> set (pl_peers (?f ys pl'))" "pl_partial pl' \<Longrightarrow> pl_partial (?f ys pl')" for s pl'
    by (induction ys arbitrary: pl') (simp_all add: take_answer_peers take_answer_partial)
  from take_answer_own(1) [of "?f xs pl" p a] keep(1)
  show "\<exists>s \<in> set (pl_peers (?f as pl)). ps_base_iri s = pr_base_iri p \<and> ps_status s = answer_status a \<and> ps_hops s = 1"
    unfolding as by simp blast
  show "pl_partial (?f as pl)" if "answer_fails a"
    unfolding as using keep(2) take_answer_own(2) [OF that] by simp
qed

text \<open>
  Every peer that was asked is accounted for: the result lists it with what came of it, and
  when one failed, timed out or reported a partial answer the result says that it is partial.
\<close>

theorem every_peer_is_accounted_for:
  assumes "(p, a) \<in> set answers"
  shows "(\<exists>s \<in> set (sr_peers (search_finish pl answers)).
         ps_base_iri s = pr_base_iri p \<and> ps_status s = answer_status a \<and> ps_hops s = 1)
     \<and> (answer_fails a \<longrightarrow> sr_partial (search_finish pl answers))"
  using take_answers_own [OF assms, of pl] by (simp add: search_finish_def Let_def)

theorem every_peer_is_accounted_for_witness:
  "sr_partial (search_finish demo_plan [(demo_peer, Peer_Timeout)])"
  using every_peer_is_accounted_for [of demo_peer Peer_Timeout "[(demo_peer, Peer_Timeout)]" demo_plan]
  by (simp add: answer_fails_def)

text \<open>
  A peer's response is read up to the cap and no further: an answer is accepted only when its
  status is a success and it was deserialised from a body of at most the configured size, which
  is the concatenation of the chunks that came.
\<close>

lemma read_body_Inr:
  "read_body cap body chunks = Inr b \<Longrightarrow> length body \<le> cap \<Longrightarrow>
     length b \<le> cap \<and> (\<exists>cs. chunks = map Inr cs \<and> b = body @ concat cs)"
proof (induction cap body chunks rule: read_body.induct)
  case (3 cap body chunk chunks)
  then show ?case by (auto split: if_splits intro: exI [of _ "chunk # _"])
qed auto

theorem peer_body_is_capped:
  assumes "fetch_peer parse cap x = Inr r"
  shows "\<exists>code shown len chunks body. x = Responded code shown len (map Inr chunks) \<and> 200 \<le> code \<and> code < 300
     \<and> body = concat chunks \<and> length body \<le> cap \<and> parse body = Inr r"
proof -
  from assms obtain code shown len chunks where x: "x = Responded code shown len chunks" "200 \<le> code" "code < 300"
    by (auto simp: fetch_peer_def split: exchange.splits if_splits)
  with assms have "and_then (read_body cap [] chunks) (\<lambda>body.
      case parse body of Inl e \<Rightarrow> Inl (''unreadable response: '' @ e) | Inr r \<Rightarrow> Inr r) = Inr r"
    by (simp add: fetch_peer_def split: option.splits if_splits)
  then obtain body where body: "read_body cap [] chunks = Inr body"
      "(case parse body of Inl e \<Rightarrow> Inl (''unreadable response: '' @ e) | Inr r \<Rightarrow> Inr r) = Inr r"
    by (auto simp: and_then_eq_Inr)
  then have b: "read_body cap [] chunks = Inr body" "parse body = Inr r" by (cases "parse body"; simp)+
  from read_body_Inr [OF b(1)] obtain cs where "chunks = map Inr cs" "body = concat cs" "length body \<le> cap" by auto
  with x b(2) show ?thesis by blast
qed

theorem peer_body_is_capped_witness:
  "fetch_peer (\<lambda>b. if b = ''{}'' then Inr (empty_results []) else Inl ''bad'') 2
      (Responded 200 ''200 OK'' None [Inr ''{'', Inr ''}'']) = Inr (empty_results [])
   \<and> (\<exists>chunks. [Inr ''{'', Inr ''}''] = (map Inr chunks :: (string + string) list) \<and> length (concat chunks) \<le> 2)"
proof -
  let ?parse = "\<lambda>b. if b = ''{}'' then Inr (empty_results []) else Inl ''bad''"
  have f: "fetch_peer ?parse 2 (Responded 200 ''200 OK'' None [Inr ''{'', Inr ''}'']) = Inr (empty_results [])"
    by (simp add: fetch_peer_def)
  from peer_body_is_capped [OF f] obtain code shown len chunks body where
    e: "Responded 200 ''200 OK'' None [Inr ''{'', Inr ''}''] = Responded code shown len (map Inr chunks)"
    and b: "body = concat chunks" "length body \<le> 2" by (elim exE conjE) rule
  from e have "[Inr ''{'', Inr ''}''] = (map Inr chunks :: (string + string) list)" unfolding exchange.inject by (elim conjE)
  with b f show ?thesis by (intro conjI exI [of _ chunks]) simp_all
qed

end
