(* ===== verification/Ratelimit.thy ===== *)
theory Ratelimit
  imports Net_Addr Errors Authenticate
begin

text \<open>
  \<open>src/ratelimit.rs\<close>: cost classes, the limits and how they are configured, the live limiters
  and the middleware that charges every request. The cells of the rate limiter belong to the
  \<open>governor\<close> crate and are an argument, as are the form decoder of the \<open>url\<close> crate and the
  JWT check; addresses are in the theory Net_Addr. Instants and durations are nanoseconds, and
  the clock is read once per request.
\<close>

section \<open>Classes\<close>

datatype http_method = GET | HEAD | OPTIONS | POST | PUT | PATCH | DELETE | OtherMethod string

datatype cost_class = Read | Write | Sparql | Federated | Mcp | Outbound

definition ALL_CLASSES :: "cost_class list" where
  "ALL_CLASSES = [Read, Write, Sparql, Federated, Mcp, Outbound]"

fun class_name :: "cost_class \<Rightarrow> string" where
  "class_name Read = ''read''"
| "class_name Write = ''write''"
| "class_name Sparql = ''sparql''"
| "class_name Federated = ''federated''"
| "class_name Mcp = ''mcp''"
| "class_name Outbound = ''outbound''"

definition env_key :: "cost_class \<Rightarrow> string" where
  "env_key c = ''TAR_RATE_LIMIT_'' @ to_ascii_uppercase (class_name c)"

fun class_index :: "cost_class \<Rightarrow> nat" where
  "class_index Read = 0"
| "class_index Write = 1"
| "class_index Sparql = 2"
| "class_index Federated = 3"
| "class_index Mcp = 4"
| "class_index Outbound = 5"

definition is_federated :: "(string \<Rightarrow> (string \<times> string) list) \<Rightarrow> string option \<Rightarrow> bool" where
  "is_federated form_parse query =
     list_ex (\<lambda>(k, v). (k = ''federated'' \<and> v = ''true'') \<or> k = ''fed_id'')
       (form_parse (case query of None \<Rightarrow> [] | Some q \<Rightarrow> q))"

definition is_outbound :: "string \<Rightarrow> bool" where
  "is_outbound path =
     (case strip_prefix ''/api/v1/software/'' path of
        None \<Rightarrow> False
      | Some rest \<Rightarrow> (case split_once (CHR ''/'') rest of
                       None \<Rightarrow> False
                     | Some (ident, action) \<Rightarrow> ident \<noteq> [] \<and> (action = ''api-doc'' \<or> action = ''sync'')))"

definition classify ::
  "(string \<Rightarrow> (string \<times> string) list) \<Rightarrow> http_method \<Rightarrow> string \<Rightarrow> string option \<Rightarrow> cost_class option" where
  "classify form_parse meth path query =
     (if path = ''/healthz'' \<or> path = ''/readyz'' \<or> path = ''/metrics'' \<or> prefix ''/assets/'' path then None
      else if path = ''/sparql'' then Some Sparql
      else if path = ''/mcp'' then Some Mcp
      else if path = ''/api/v1/search'' \<and> is_federated form_parse query then Some Federated
      else if is_outbound path then Some Outbound
      else if meth = GET \<or> meth = HEAD \<or> meth = OPTIONS \<or> path = ''/api/v1/artifacts/identify''
      then Some Read else Some Write)"

section \<open>Limits\<close>

text \<open>\<open>NonZeroU32\<close> fields are numbers; \<open>limit_ok\<close> states their range.\<close>

record rate_limit =
  per_minute :: nat
  burst :: nat

definition limit_ok :: "rate_limit \<Rightarrow> bool" where
  "limit_ok l \<longleftrightarrow> 1 \<le> per_minute l \<and> per_minute l < 2 ^ 32 \<and> 1 \<le> burst l \<and> burst l < 2 ^ 32"

definition limit_parse :: "string \<Rightarrow> limit_error + rate_limit option" where
  "limit_parse s0 =
     (let s = trim s0 in
      if eq_ignore_ascii_case s ''off'' then Inr None
      else case split_once (CHR '':'') s of
             None \<Rightarrow> Inl (Limit_Shape s)
           | Some (rate, bst) \<Rightarrow>
               and_then (ok_or (Limit_Number rate) (parse_unsigned (2 ^ 32 - 1) (trim rate))) (\<lambda>r.
               and_then (ok_or (Limit_Number bst) (parse_unsigned (2 ^ 32 - 1) (trim bst))) (\<lambda>b.
                 if r = 0 \<or> b = 0 then Inl (Limit_Zero s)
                 else Inr (Some \<lparr>per_minute = r, burst = b\<rparr>))))"

definition show_limit :: "rate_limit \<Rightarrow> string" where
  "show_limit l = show_nat (per_minute l) @ ''/min, burst '' @ show_nat (burst l)"

record class_limits =
  anon_limit :: "rate_limit option"
  authed_limit :: "rate_limit option"

record ratelimit_config =
  rl_enabled :: bool
  trusted_proxies :: "cidr list"
  auth_fail :: "rate_limit option"
  class_table :: "class_limits list"

definition both_limits :: "rate_limit \<Rightarrow> rate_limit \<Rightarrow> class_limits" where
  "both_limits a b = \<lparr>anon_limit = Some a, authed_limit = Some b\<rparr>"

definition default_config :: ratelimit_config where
  "default_config =
     \<lparr>rl_enabled = True, trusted_proxies = [], auth_fail = Some \<lparr>per_minute = 20, burst = 10\<rparr>,
      class_table =
        [both_limits \<lparr>per_minute = 300, burst = 60\<rparr> \<lparr>per_minute = 1200, burst = 200\<rparr>,
         both_limits \<lparr>per_minute = 60, burst = 20\<rparr> \<lparr>per_minute = 300, burst = 60\<rparr>,
         both_limits \<lparr>per_minute = 30, burst = 10\<rparr> \<lparr>per_minute = 120, burst = 30\<rparr>,
         both_limits \<lparr>per_minute = 10, burst = 5\<rparr> \<lparr>per_minute = 60, burst = 10\<rparr>,
         both_limits \<lparr>per_minute = 120, burst = 30\<rparr> \<lparr>per_minute = 600, burst = 100\<rparr>,
         both_limits \<lparr>per_minute = 10, burst = 5\<rparr> \<lparr>per_minute = 60, burst = 10\<rparr>]\<rparr>"

definition disabled_config :: ratelimit_config where
  "disabled_config = default_config\<lparr>rl_enabled := False\<rparr>"

definition limits_of :: "ratelimit_config \<Rightarrow> cost_class \<Rightarrow> class_limits" where
  "limits_of c cls = class_table c ! class_index cls"

definition set_limits :: "cost_class \<Rightarrow> class_limits \<Rightarrow> ratelimit_config \<Rightarrow> ratelimit_config" where
  "set_limits cls l c = c\<lparr>class_table := (class_table c)[class_index cls := l]\<rparr>"

section \<open>Configuration\<close>

definition map_error :: "('e \<Rightarrow> 'f) \<Rightarrow> 'e + 'a \<Rightarrow> 'f + 'a" where
  "map_error f r = (case r of Inl e \<Rightarrow> Inl (f e) | Inr x \<Rightarrow> Inr x)"

definition parse_enabled :: "string \<Rightarrow> limit_error + bool" where
  "parse_enabled v =
     (let s = to_ascii_lowercase (trim v) in
      if s = ''1'' \<or> s = ''true'' \<or> s = ''yes'' \<or> s = ''on'' then Inr True
      else if s = ''0'' \<or> s = ''false'' \<or> s = ''no'' \<or> s = ''off'' then Inr False
      else Inl (Enabled_Not_Bool s))"

definition parse_proxies :: "string \<Rightarrow> limit_error + cidr list" where
  "parse_proxies v =
     collect_results (map parse_cidr (filter (\<lambda>s. s \<noteq> []) (map trim (split_on (CHR '','') v))))"

definition parse_class_limits :: "string \<Rightarrow> string \<Rightarrow> limit_error + class_limits" where
  "parse_class_limits key v =
     (case split_once (CHR ''/'') v of
        None \<Rightarrow> Inl (In_Setting key (Class_Shape v))
      | Some (a, b) \<Rightarrow>
          and_then (map_error (In_Setting (key @ '', anonymous side'')) (limit_parse a)) (\<lambda>la.
          and_then (map_error (In_Setting (key @ '', authenticated side'')) (limit_parse b)) (\<lambda>lb.
            Inr \<lparr>anon_limit = la, authed_limit = lb\<rparr>)))"

fun read_classes ::
  "(string \<Rightarrow> string option) \<Rightarrow> cost_class list \<Rightarrow> ratelimit_config \<Rightarrow> limit_error + ratelimit_config" where
  "read_classes get [] c = Inr c"
| "read_classes get (cls # rest) c =
     (case get (env_key cls) of
        None \<Rightarrow> read_classes get rest c
      | Some v \<Rightarrow> and_then (parse_class_limits (env_key cls) v) (\<lambda>l. read_classes get rest (set_limits cls l c)))"

definition read_enabled :: "(string \<Rightarrow> string option) \<Rightarrow> ratelimit_config \<Rightarrow> limit_error + ratelimit_config" where
  "read_enabled get c =
     (case get ''TAR_RATE_LIMIT_ENABLED'' of
        None \<Rightarrow> Inr c
      | Some v \<Rightarrow> map_error (In_Setting ''TAR_RATE_LIMIT_ENABLED'')
                    (and_then (parse_enabled v) (\<lambda>b. Inr (c\<lparr>rl_enabled := b\<rparr>))))"

definition read_proxies :: "(string \<Rightarrow> string option) \<Rightarrow> ratelimit_config \<Rightarrow> limit_error + ratelimit_config" where
  "read_proxies get c =
     (case get ''TAR_TRUSTED_PROXIES'' of
        None \<Rightarrow> Inr c
      | Some v \<Rightarrow> map_error (In_Setting ''TAR_TRUSTED_PROXIES'')
                    (and_then (parse_proxies v) (\<lambda>ps. Inr (c\<lparr>trusted_proxies := ps\<rparr>))))"

definition read_auth_fail :: "(string \<Rightarrow> string option) \<Rightarrow> ratelimit_config \<Rightarrow> limit_error + ratelimit_config" where
  "read_auth_fail get c =
     (case get ''TAR_RATE_LIMIT_AUTH_FAIL'' of
        None \<Rightarrow> Inr c
      | Some v \<Rightarrow> map_error (In_Setting ''TAR_RATE_LIMIT_AUTH_FAIL'')
                    (and_then (limit_parse v) (\<lambda>l. Inr (c\<lparr>auth_fail := l\<rparr>))))"

definition from_lookup :: "(string \<Rightarrow> string option) \<Rightarrow> limit_error + ratelimit_config" where
  "from_lookup get =
     and_then (read_enabled get default_config) (\<lambda>c1.
     and_then (read_proxies get c1) (\<lambda>c2.
     and_then (read_classes get ALL_CLASSES c2) (read_auth_fail get)))"

definition ratelimit_from_env :: "environment \<Rightarrow> limit_error + ratelimit_config" where
  "ratelimit_from_env e = from_lookup (env e)"

section \<open>The live limiters\<close>

datatype charge_key = KeyIp ip_addr | KeyPrincipal string

datatype decision =
    Exempt
  | Allowed rate_limit nat
  | Limited rate_limit nat string

text \<open>
  The \<open>governor\<close> crate: a limiter made from a quota, one cell spent or the time to wait, and
  the sweep.
\<close>

record 'g governor =
  gov_new :: "rate_limit \<Rightarrow> 'g"
  gov_check :: "'g \<Rightarrow> charge_key \<Rightarrow> nat \<Rightarrow> (nat + nat) \<times> 'g"
  gov_retain :: "'g \<Rightarrow> nat \<Rightarrow> 'g"

record 'g rate_limits =
  anon_limiters :: "'g option list"
  authed_limiters :: "'g option list"
  fail_limiter :: "'g option"
  blocked_until :: "ip_addr \<rightharpoonup> nat"
  rejections :: "64 word list"
  fail_rejections :: "64 word"
  rl_config :: ratelimit_config

definition new_limits :: "'g governor \<Rightarrow> ratelimit_config \<Rightarrow> 'g rate_limits" where
  "new_limits g c =
     \<lparr>anon_limiters = map (\<lambda>cls. map_option (gov_new g) (anon_limit (limits_of c cls))) ALL_CLASSES,
      authed_limiters = map (\<lambda>cls. map_option (gov_new g) (authed_limit (limits_of c cls))) ALL_CLASSES,
      fail_limiter = map_option (gov_new g) (auth_fail c),
      blocked_until = Map.empty, rejections = replicate 6 0, fail_rejections = 0, rl_config = c\<rparr>"

definition check_limit ::
  "'g governor \<Rightarrow> nat \<Rightarrow> cost_class \<Rightarrow> charge_key \<Rightarrow> bool \<Rightarrow> 'g rate_limits \<Rightarrow> decision \<times> 'g rate_limits" where
  "check_limit g now cls key authenticated rl =
     (let i = class_index cls;
          (limiters, limit, who) =
            (if authenticated
             then (authed_limiters rl, authed_limit (limits_of (rl_config rl) cls), ''authenticated clients'')
             else (anon_limiters rl, anon_limit (limits_of (rl_config rl) cls), ''anonymous clients''))
      in case (limiters ! i, limit) of
           (Some lim, Some l) \<Rightarrow>
             (let (r, lim') = gov_check g lim key now;
                  rl' = (if authenticated then rl\<lparr>authed_limiters := limiters[i := Some lim']\<rparr>
                         else rl\<lparr>anon_limiters := limiters[i := Some lim']\<rparr>)
              in case r of
                   Inr remaining \<Rightarrow> (Allowed l remaining, rl')
                 | Inl wait \<Rightarrow>
                     (Limited l wait (class_name cls @ '' limit for '' @ who @ '': '' @ show_limit l),
                      rl'\<lparr>rejections := (rejections rl')[i := rejections rl' ! i + 1]\<rparr>))
         | _ \<Rightarrow> (Exempt, rl))"

definition auth_blocked :: "nat \<Rightarrow> ip_addr \<Rightarrow> 'g rate_limits \<Rightarrow> nat option" where
  "auth_blocked now ip rl =
     (case blocked_until rl (bucket ip) of
        None \<Rightarrow> None
      | Some until \<Rightarrow> if now < until then Some (until - now) else None)"

definition note_auth_failure :: "'g governor \<Rightarrow> nat \<Rightarrow> ip_addr \<Rightarrow> 'g rate_limits \<Rightarrow> 'g rate_limits" where
  "note_auth_failure g now ip0 rl =
     (case fail_limiter rl of
        None \<Rightarrow> rl
      | Some lim \<Rightarrow>
          (let ip = bucket ip0; (r, lim') = gov_check g lim (KeyIp ip) now; rl' = rl\<lparr>fail_limiter := Some lim'\<rparr>
           in case r of
                Inr _ \<Rightarrow> rl'
              | Inl wait \<Rightarrow> rl'\<lparr>blocked_until := (blocked_until rl')(ip \<mapsto> now + wait)\<rparr>))"

definition note_auth_fail_rejection :: "'g rate_limits \<Rightarrow> 'g rate_limits" where
  "note_auth_fail_rejection rl = rl\<lparr>fail_rejections := fail_rejections rl + 1\<rparr>"

definition retain_recent :: "'g governor \<Rightarrow> nat \<Rightarrow> 'g rate_limits \<Rightarrow> 'g rate_limits" where
  "retain_recent g now rl =
     rl\<lparr>anon_limiters := map (map_option (\<lambda>l. gov_retain g l now)) (anon_limiters rl),
        authed_limiters := map (map_option (\<lambda>l. gov_retain g l now)) (authed_limiters rl),
        fail_limiter := map_option (\<lambda>l. gov_retain g l now) (fail_limiter rl),
        blocked_until := (\<lambda>ip. case blocked_until rl ip of
                                 Some until \<Rightarrow> if now < until then Some until else None
                               | None \<Rightarrow> None)\<rparr>"

definition newline :: string where
  "newline = [CHR 0x0A]"

definition metric_line :: "string \<Rightarrow> 64 word \<Rightarrow> string" where
  "metric_line name n =
     ''tar_ratelimit_rejections_total{class='' @ [CHR 0x22] @ name @ [CHR 0x22] @ ''} ''
       @ show_nat (unat n) @ newline"

definition limit_metrics :: "'g rate_limits \<Rightarrow> string" where
  "limit_metrics rl =
     ''# HELP tar_ratelimit_rejections_total Requests refused with 429, by class'' @ newline
     @ ''# TYPE tar_ratelimit_rejections_total counter'' @ newline
     @ concat (map (\<lambda>c. metric_line (class_name c) (rejections rl ! class_index c)) ALL_CLASSES)
     @ metric_line ''auth_fail'' (fail_rejections rl)"

definition is_exempt :: "principal \<Rightarrow> bool" where
  "is_exempt p = is_admin p"

definition principal_key :: "principal \<Rightarrow> string" where
  "principal_key p = (case issuer p of None \<Rightarrow> [] | Some i \<Rightarrow> i) @ ''|'' @ subject p"

section \<open>The middleware\<close>

record client_context =
  ctx_ip :: ip_addr
  ctx_principal :: "app_error + principal"

text \<open>
  A request as the middleware sees it: its readable \<open>X-Forwarded-For\<close> values, its
  \<open>Authorization\<close> value when it is readable text, the address of the connection, and the
  context an in-process request already carries.
\<close>

record http_request =
  req_method :: http_method
  req_path :: string
  req_query :: "string option"
  req_forwarded :: "string list"
  req_auth :: "string option"
  req_peer :: "ip_addr option"
  req_ctx :: "client_context option"

text \<open>A response with the body of a problem document or one of the handler's own.\<close>

record 'b reply =
  reply_status :: nat
  reply_headers :: "string \<rightharpoonup> string"
  reply_body :: "json_object + 'b"

record 'g rl_world =
  rw_gov :: "'g governor"
  rw_form :: "string \<Rightarrow> (string \<times> string) list"
  rw_verify :: "string \<Rightarrow> string \<Rightarrow> bool"
  rw_jwt :: "string \<Rightarrow> app_error + principal"
  rw_root :: "string option"
  rw_utc :: int
  rw_now :: nat

record 'g rl_state =
  st_limits :: "'g rate_limits"
  st_tokens :: "token_row list"

definition forwarded_for :: "http_request \<Rightarrow> string option" where
  "forwarded_for req = (if req_forwarded req = [] then None else Some (join '','' (req_forwarded req)))"

text \<open>Durations of at least one second are rounded up to whole seconds, with \<open>u64\<close> saturation.\<close>

definition retry_secs :: "nat \<Rightarrow> nat" where
  "retry_secs d =
     max 1 (min (2 ^ 64 - 1) (d div 10 ^ 9 + (if d mod 10 ^ 9 > 0 then 1 else 0)))"

definition too_many :: "nat \<Rightarrow> string \<Rightarrow> 'b reply" where
  "too_many retry_after d =
     (let secs = retry_secs retry_after;
          r = into_response (with_extra ''retry_after'' (JNum secs) (too_many_requests d))
      in \<lparr>reply_status = resp_status r,
          reply_headers = (resp_headers r)(''retry-after'' \<mapsto> show_nat secs),
          reply_body = Inl (resp_body r)\<rparr>)"

definition div_ceil :: "nat \<Rightarrow> nat \<Rightarrow> nat" where
  "div_ceil a b = a div b + (if a mod b > 0 then 1 else 0)"

definition quoted :: "string \<Rightarrow> string" where
  "quoted s = [CHR 0x22] @ s @ [CHR 0x22]"

definition set_ratelimit_headers :: "string \<Rightarrow> rate_limit \<Rightarrow> nat \<Rightarrow> 'b reply \<Rightarrow> 'b reply" where
  "set_ratelimit_headers name limit remaining resp =
     (let spent = burst limit - remaining;
          reset = div_ceil (spent * 60) (per_minute limit)
      in resp\<lparr>reply_headers := (reply_headers resp)
           (''ratelimit-policy'' \<mapsto> quoted name @ '';q='' @ show_nat (per_minute limit) @ '';w=60'',
            ''ratelimit'' \<mapsto> quoted name @ '';r='' @ show_nat remaining @ '';t='' @ show_nat reset)\<rparr>)"

text \<open>
  Who is calling: the context the request carries, or one worked out from the connection and
  the credential. \<open>Inl\<close> is the early answer to an address that is refused authentication.
\<close>

definition resolve_client ::
  "'g rl_world \<Rightarrow> http_request \<Rightarrow> 'g rl_state \<Rightarrow> ('b reply + client_context) \<times> 'g rl_state" where
  "resolve_client w req st =
     (case req_ctx req of
        Some c \<Rightarrow> (Inr c, st)
      | None \<Rightarrow>
          (let cfg = rl_config (st_limits st);
               peer = (case req_peer req of None \<Rightarrow> V4 0 | Some ip \<Rightarrow> ip);
               ip = client_ip peer (forwarded_for req) (trusted_proxies cfg)
           in case bearer (req_auth req) of
                None \<Rightarrow> (Inr \<lparr>ctx_ip = ip, ctx_principal = Inr anonymous\<rparr>, st)
              | Some raw \<Rightarrow>
                  (case (if rl_enabled cfg then auth_blocked (rw_now w) ip (st_limits st) else None, auth_fail cfg) of
                     (Some wait, Some limit) \<Rightarrow>
                       (Inl (set_ratelimit_headers ''auth_fail'' limit 0
                               (too_many wait
                                 (''authentication refused for this address: too many failed credentials (auth_fail limit: ''
                                  @ show_limit limit @ '')''))),
                        st\<lparr>st_limits := note_auth_fail_rejection (st_limits st)\<rparr>)
                   | _ \<Rightarrow>
                       (let (result, toks) = authenticate (rw_verify w) (rw_jwt w) (rw_root w) (rw_utc w) raw (st_tokens st);
                            failed = (case result of Inl e \<Rightarrow> status e = 401 | Inr _ \<Rightarrow> False);
                            rl = (if rl_enabled cfg \<and> failed
                                  then note_auth_failure (rw_gov w) (rw_now w) ip (st_limits st) else st_limits st)
                        in (Inr \<lparr>ctx_ip = ip, ctx_principal = result\<rparr>,
                            st\<lparr>st_limits := rl, st_tokens := toks\<rparr>)))))"

text \<open>Which cell a request is charged to, and on which side; \<open>None\<close> when it is not charged.\<close>

definition charged_to :: "client_context \<Rightarrow> (charge_key \<times> bool) option" where
  "charged_to c =
     (case ctx_principal c of
        Inr p \<Rightarrow> if is_exempt p then None
                 else if \<not> is_anonymous p then Some (KeyPrincipal (principal_key p), True)
                 else Some (KeyIp (bucket (ctx_ip c)), False)
      | Inl e \<Rightarrow> Some (KeyIp (bucket (ctx_ip c)), False))"

definition ratelimit_middleware ::
  "'g rl_world \<Rightarrow> (http_request \<Rightarrow> 'g rl_state \<Rightarrow> 'b reply \<times> 'g rl_state) \<Rightarrow>
   http_request \<Rightarrow> 'g rl_state \<Rightarrow> 'b reply \<times> 'g rl_state" where
  "ratelimit_middleware w next_run req0 st0 =
     (case resolve_client w req0 st0 of
        (Inl resp, st) \<Rightarrow> (resp, st)
      | (Inr c, st) \<Rightarrow>
          (let req = req0\<lparr>req_ctx := Some c\<rparr>; cfg = rl_config (st_limits st) in
           if \<not> rl_enabled cfg then next_run req st
           else case classify (rw_form w) (req_method req) (req_path req) (req_query req) of
             None \<Rightarrow> next_run req st
           | Some cls \<Rightarrow>
               (case charged_to c of
                  None \<Rightarrow> next_run req st
                | Some (key, authenticated) \<Rightarrow>
                    (let (dec, rl) = check_limit (rw_gov w) (rw_now w) cls key authenticated (st_limits st);
                         st' = st\<lparr>st_limits := rl\<rparr>
                     in case dec of
                          Exempt \<Rightarrow> next_run req st'
                        | Limited limit retry_after d \<Rightarrow>
                            (set_ratelimit_headers (class_name cls) limit 0 (too_many retry_after d), st')
                        | Allowed limit remaining \<Rightarrow>
                            (let (resp, st'') = next_run req st'
                             in (set_ratelimit_headers (class_name cls) limit remaining resp, st''))))))"

section \<open>Lemmas\<close>

lemma class_index_less [simp]: "class_index c < 6"
  by (cases c) simp_all

lemma class_index_inject [simp]: "class_index a = class_index b \<longleftrightarrow> a = b"
  by (cases a; cases b) simp_all

lemma env_key_inject [simp]: "env_key a = env_key b \<longleftrightarrow> a = b"
proof
  have f: "class_name c \<noteq> class_name d \<Longrightarrow> env_key c \<noteq> env_key d" for c d
    by (cases c; cases d) (simp_all add: env_key_def to_ascii_uppercase_def is_ascii_lower_def byte_def)
  show "env_key a = env_key b \<Longrightarrow> a = b"
    using f [of a b] by (cases a; cases b) simp_all
qed simp

lemma ALL_CLASSES_complete [simp]: "set ALL_CLASSES = UNIV" "distinct ALL_CLASSES"
  unfolding ALL_CLASSES_def by (auto intro: cost_class.exhaust)

lemma limits_of_set [simp]:
  "length (class_table c) = 6 \<Longrightarrow>
     limits_of (set_limits cls l c) cls' = (if cls = cls' then l else limits_of c cls')"
  by (simp add: limits_of_def set_limits_def)

lemma set_limits_fields [simp]:
  "rl_enabled (set_limits cls l c) = rl_enabled c" "trusted_proxies (set_limits cls l c) = trusted_proxies c"
  "auth_fail (set_limits cls l c) = auth_fail c" "length (class_table (set_limits cls l c)) = length (class_table c)"
  by (simp_all add: set_limits_def)

lemma map_error_Inr [simp]: "map_error f r = Inr x \<longleftrightarrow> r = Inr x"
  by (auto simp: map_error_def split: sum.splits)

lemma map_error_Inl: "map_error f r = Inl e \<longleftrightarrow> (\<exists>e'. r = Inl e' \<and> e = f e')"
  by (auto simp: map_error_def split: sum.splits)

lemma limit_parse_ok: "limit_parse s = Inr (Some l) \<Longrightarrow> limit_ok l"
  by (auto simp: limit_parse_def limit_ok_def ok_or_def res_simps Let_def
      split: if_splits option.splits dest!: parse_unsigned_bound)

definition side_ok :: "rate_limit option \<Rightarrow> bool" where
  "side_ok l = (case l of None \<Rightarrow> True | Some x \<Rightarrow> limit_ok x)"

lemma limit_parse_side_ok: "limit_parse s = Inr l \<Longrightarrow> side_ok l"
  using limit_parse_ok by (auto simp: side_ok_def split: option.splits)

lemma parse_class_limits_ok:
  "parse_class_limits key v = Inr l \<Longrightarrow> side_ok (anon_limit l) \<and> side_ok (authed_limit l)"
  by (auto simp: parse_class_limits_def res_simps limit_parse_side_ok split: option.splits)

lemma default_limits_ok:
  "side_ok (anon_limit (limits_of default_config c)) \<and> side_ok (authed_limit (limits_of default_config c))"
  by (cases c) (simp_all add: side_ok_def limits_of_def default_config_def both_limits_def limit_ok_def)

lemma read_classes_limits:
  assumes "read_classes get cs c = Inr c'" "length (class_table c) = 6" "distinct cs"
  shows "length (class_table c') = 6 \<and> rl_enabled c' = rl_enabled c \<and> trusted_proxies c' = trusted_proxies c
    \<and> auth_fail c' = auth_fail c
    \<and> (if cls \<in> set cs
       then (case get (env_key cls) of
               None \<Rightarrow> limits_of c' cls = limits_of c cls
             | Some v \<Rightarrow> parse_class_limits (env_key cls) v = Inr (limits_of c' cls))
       else limits_of c' cls = limits_of c cls)"
  using assms
proof (induction cs arbitrary: c)
  case (Cons k cs)
  show ?case
  proof (cases "get (env_key k)")
    case None
    with Cons.IH [of c] Cons.prems show ?thesis by (auto split: if_splits)
  next
    case (Some v)
    with Cons.prems obtain l where l: "parse_class_limits (env_key k) v = Inr l"
      "read_classes get cs (set_limits k l c) = Inr c'"
      by (auto simp: res_simps)
    from Cons.IH [OF l(2)] Cons.prems Some l(1) show ?thesis
      by (auto split: if_splits option.splits)
  qed
qed simp

lemma read_classes_error:
  "read_classes get cs c = Inl e \<Longrightarrow>
     \<exists>k side v e'. get k = Some v \<and> e = In_Setting (k @ side) e' \<and> k \<in> env_key ` set cs"
proof (induction cs arbitrary: c)
  case (Cons k cs)
  show ?case
  proof (cases "get (env_key k)")
    case None
    with Cons show ?thesis by fastforce
  next
    case (Some v)
    show ?thesis
    proof (cases "parse_class_limits (env_key k) v")
      case (Inl e0)
      with Some Cons.prems have "e = e0" by simp
      moreover have "\<exists>side e'. e0 = In_Setting (env_key k @ side) e'"
        using Inl by (auto simp: parse_class_limits_def res_simps map_error_Inl split: option.splits
            intro: exI [of _ "[]"])
      ultimately show ?thesis using Some by fastforce
    next
      case (Inr l)
      with Some Cons show ?thesis by fastforce
    qed
  qed
qed simp

lemma read_enabled_Inr:
  "read_enabled get c = Inr c' \<Longrightarrow> class_table c' = class_table c \<and> auth_fail c' = auth_fail c"
  by (auto simp: read_enabled_def res_simps split: option.splits)

lemma read_proxies_Inr:
  "read_proxies get c = Inr c' \<Longrightarrow> class_table c' = class_table c \<and> auth_fail c' = auth_fail c"
  by (auto simp: read_proxies_def res_simps split: option.splits)

lemma read_auth_fail_Inr:
  "read_auth_fail get c = Inr c' \<Longrightarrow> class_table c' = class_table c \<and>
     (case get ''TAR_RATE_LIMIT_AUTH_FAIL'' of None \<Rightarrow> auth_fail c' = auth_fail c
      | Some v \<Rightarrow> limit_parse v = Inr (auth_fail c'))"
  by (auto simp: read_auth_fail_def res_simps split: option.splits)

lemma setting_error:
  "read_enabled get c = Inl e \<Longrightarrow> \<exists>v e'. get ''TAR_RATE_LIMIT_ENABLED'' = Some v \<and> e = In_Setting ''TAR_RATE_LIMIT_ENABLED'' e'"
  "read_proxies get c = Inl e \<Longrightarrow> \<exists>v e'. get ''TAR_TRUSTED_PROXIES'' = Some v \<and> e = In_Setting ''TAR_TRUSTED_PROXIES'' e'"
  "read_auth_fail get c = Inl e \<Longrightarrow> \<exists>v e'. get ''TAR_RATE_LIMIT_AUTH_FAIL'' = Some v \<and> e = In_Setting ''TAR_RATE_LIMIT_AUTH_FAIL'' e'"
  by (auto simp: read_enabled_def read_proxies_def read_auth_fail_def map_error_Inl split: option.splits)

lemma from_lookup_Inr:
  assumes "from_lookup get = Inr c"
  obtains c2 c3 where "read_classes get ALL_CLASSES c2 = Inr c3" "class_table c2 = class_table default_config"
    "class_table c = class_table c3" "auth_fail c2 = auth_fail default_config"
    "(case get ''TAR_RATE_LIMIT_AUTH_FAIL'' of None \<Rightarrow> auth_fail c = auth_fail c3
      | Some v \<Rightarrow> limit_parse v = Inr (auth_fail c))"
proof -
  from assms obtain c1 c2 c3 where
    1: "read_enabled get default_config = Inr c1" and 2: "read_proxies get c1 = Inr c2"
    and 3: "read_classes get ALL_CLASSES c2 = Inr c3" and 4: "read_auth_fail get c3 = Inr c"
    by (auto simp: from_lookup_def and_then_eq_Inr)
  from 3 read_enabled_Inr [OF 1] read_proxies_Inr [OF 2] read_auth_fail_Inr [OF 4] show ?thesis
    by (intro that [of c2 c3]) simp_all
qed

section \<open>Properties\<close>

text \<open>
  What a boot with a valid configuration runs with: a class whose variable is unset keeps
  the design note's limits, a class whose variable is set has exactly the limits written there,
  and every limit in force, the one for failed credentials included, has a rate and a burst
  between 1 and the largest 32-bit number.
\<close>

theorem from_lookup_limits:
  assumes "from_lookup get = Inr c"
  shows "(case get (env_key cls) of
            None \<Rightarrow> limits_of c cls = limits_of default_config cls
          | Some v \<Rightarrow> parse_class_limits (env_key cls) v = Inr (limits_of c cls))
     \<and> side_ok (anon_limit (limits_of c cls)) \<and> side_ok (authed_limit (limits_of c cls))
     \<and> side_ok (auth_fail c)"
proof -
  from assms obtain c2 c3 where r: "read_classes get ALL_CLASSES c2 = Inr c3"
    and d: "class_table c2 = class_table default_config" "class_table c = class_table c3"
    and f2: "auth_fail c2 = auth_fail default_config"
    and f: "case get ''TAR_RATE_LIMIT_AUTH_FAIL'' of None \<Rightarrow> auth_fail c = auth_fail c3
      | Some v \<Rightarrow> limit_parse v = Inr (auth_fail c)"
    by (rule from_lookup_Inr)
  have n: "length (class_table c2) = 6" using d by (simp add: default_config_def)
  note l = read_classes_limits [OF r n ALL_CLASSES_complete(2), of cls]
  have e: "limits_of c = limits_of c3" "limits_of c2 = limits_of default_config"
    using d by (simp_all add: limits_of_def fun_eq_iff)
  have "side_ok (auth_fail default_config)"
    by (simp add: side_ok_def default_config_def limit_ok_def)
  then have a: "side_ok (auth_fail c)"
    using f l f2 by (auto split: option.splits dest: limit_parse_side_ok)
  from l e have s: "case get (env_key cls) of None \<Rightarrow> limits_of c cls = limits_of default_config cls
      | Some v \<Rightarrow> parse_class_limits (env_key cls) v = Inr (limits_of c cls)"
    by (simp split: option.splits)
  with a default_limits_ok [of cls] show ?thesis
    by (auto split: option.splits dest: parse_class_limits_ok)
qed

theorem from_lookup_limits_witness:
  "\<exists>c. from_lookup [''TAR_RATE_LIMIT_SPARQL'' \<mapsto> ''5:2/off''] = Inr c
     \<and> limits_of c Sparql = \<lparr>anon_limit = Some \<lparr>per_minute = 5, burst = 2\<rparr>, authed_limit = None\<rparr>"
proof -
  let ?get = "[''TAR_RATE_LIMIT_SPARQL'' \<mapsto> ''5:2/off'']"
  have "is_ok (from_lookup ?get)" by code_simp
  then obtain c where c: "from_lookup ?get = Inr c" by (auto simp: is_ok_iff)
  have k: "env_key Sparql = ''TAR_RATE_LIMIT_SPARQL''" by code_simp
  have p: "parse_class_limits ''TAR_RATE_LIMIT_SPARQL'' ''5:2/off''
      = Inr \<lparr>anon_limit = Some \<lparr>per_minute = 5, burst = 2\<rparr>, authed_limit = None\<rparr>"
    by code_simp
  from from_lookup_limits [OF c, of Sparql] have "limits_of c Sparql
      = \<lparr>anon_limit = Some \<lparr>per_minute = 5, burst = 2\<rparr>, authed_limit = None\<rparr>"
    by (simp only: k p fun_upd_same option.case) simp
  with c show ?thesis by blast
qed

text \<open>
  A bad value fails the boot and says which variable: an error names a variable that is
  set, possibly followed by the side of the class that is wrong.
\<close>

theorem from_lookup_error_names_setting:
  assumes "from_lookup get = Inl e"
  shows "\<exists>k side v e'. get k = Some v \<and> e = In_Setting (k @ side) e'"
proof -
  have base: "\<exists>k side v e'. get k = Some v \<and> e = In_Setting (k @ side) e'"
    if "get x = Some z" "e = In_Setting x y" for x y z
    using that by (metis append_Nil2)
  from assms show ?thesis
    unfolding from_lookup_def and_then_eq_Inl
    using base by (blast dest: setting_error read_classes_error)
qed

theorem from_lookup_error_names_setting_witness:
  "\<exists>e k side v e'. from_lookup [''TAR_RATE_LIMIT_SPARQL'' \<mapsto> ''0:0/1:1''] = Inl e
     \<and> e = In_Setting (k @ side) e' \<and> [''TAR_RATE_LIMIT_SPARQL'' \<mapsto> ''0:0/1:1''] k = Some v"
proof -
  have "\<not> is_ok (from_lookup [''TAR_RATE_LIMIT_SPARQL'' \<mapsto> ''0:0/1:1''])" by code_simp
  then obtain e where e: "from_lookup [''TAR_RATE_LIMIT_SPARQL'' \<mapsto> ''0:0/1:1''] = Inl e"
    by (cases "from_lookup [''TAR_RATE_LIMIT_SPARQL'' \<mapsto> ''0:0/1:1'']") auto
  from from_lookup_error_names_setting [OF this] e show ?thesis by blast
qed

text \<open>
  C28. Guessing stops being checked: while an address is refused authentication, a request from
  it with a credential, whatever the credential is and whatever path it asks for, is answered
  429 with a \<open>Retry-After\<close>; the handler is not run, the credential is not looked up, and only
  the counter of such refusals moves. The root token is no exception.
\<close>

theorem blocked_address_is_refused:
  fixes w :: "'g rl_world" and next_run :: "http_request \<Rightarrow> 'g rl_state \<Rightarrow> 'b reply \<times> 'g rl_state"
  defines "ip req st \<equiv> client_ip (case req_peer req of None \<Rightarrow> V4 0 | Some i \<Rightarrow> i) (forwarded_for req)
      (trusted_proxies (rl_config (st_limits st)))"
  assumes "rl_enabled (rl_config (st_limits st))" "auth_fail (rl_config (st_limits st)) = Some l"
    and "req_ctx req = None" "bearer (req_auth req) = Some raw"
    and "auth_blocked (rw_now w) (ip req st) (st_limits st) = Some wait"
  shows "\<exists>resp. ratelimit_middleware w next_run req st
             = (resp, st\<lparr>st_limits := note_auth_fail_rejection (st_limits st)\<rparr>)
           \<and> reply_status resp = 429 \<and> reply_headers resp ''retry-after'' = Some (show_nat (retry_secs wait))"
  using assms
  by (simp add: ratelimit_middleware_def resolve_client_def Let_def too_many_def set_ratelimit_headers_def)

definition demo_governor :: "nat governor" where
  "demo_governor = \<lparr>gov_new = burst, gov_check = (\<lambda>g k now. if g = 0 then (Inl (60 * 10 ^ 9), 0) else (Inr (g - 1), g - 1)),
     gov_retain = (\<lambda>g now. g)\<rparr>"

definition demo_rl_world :: "nat rl_world" where
  "demo_rl_world = \<lparr>rw_gov = demo_governor, rw_form = (\<lambda>_. []), rw_verify = (\<lambda>_ _. False),
     rw_jwt = (\<lambda>_. Inl (unauthorized ''no'')), rw_root = Some ''secret'', rw_utc = 0, rw_now = 0\<rparr>"

definition demo_request :: "string option \<Rightarrow> http_request" where
  "demo_request cred = \<lparr>req_method = GET, req_path = ''/api/v1/whoami'', req_query = None, req_forwarded = [],
     req_auth = cred, req_peer = Some (V4 7), req_ctx = None\<rparr>"

definition demo_state :: "(ip_addr \<rightharpoonup> nat) \<Rightarrow> nat \<Rightarrow> nat rl_state" where
  "demo_state blk fails =
     \<lparr>st_limits = (new_limits demo_governor default_config)\<lparr>blocked_until := blk, fail_limiter := Some fails\<rparr>,
      st_tokens = []\<rparr>"

definition demo_handler :: "http_request \<Rightarrow> nat rl_state \<Rightarrow> unit reply \<times> nat rl_state" where
  "demo_handler req st = (\<lparr>reply_status = 200, reply_headers = Map.empty, reply_body = Inr ()\<rparr>, st)"

lemma demo_rl_simps [simp]:
  "rw_now demo_rl_world = 0" "rw_gov demo_rl_world = demo_governor" "rw_root demo_rl_world = Some ''secret''"
  "rl_config (st_limits (demo_state blk fails)) = default_config"
  "blocked_until (st_limits (demo_state blk fails)) = blk"
  "fail_limiter (st_limits (demo_state blk fails)) = Some fails"
  "req_ctx (demo_request cred) = None" "req_auth (demo_request cred) = cred"
  "req_peer (demo_request cred) = Some (V4 7)" "req_forwarded (demo_request cred) = []"
  "rl_enabled default_config" "trusted_proxies default_config = []"
  "auth_fail default_config = Some \<lparr>per_minute = 20, burst = 10\<rparr>"
  by (simp_all add: demo_rl_world_def demo_state_def demo_request_def new_limits_def default_config_def)

lemma demo_client [simp]: "client_ip (V4 7) None [] = V4 7" "bucket (V4 7) = V4 7"
  by (simp_all add: client_ip_def is_trusted_def Let_def bucket_def)

lemma demo_bearer: "bearer (Some ''Bearer secret'') = Some ''secret''" "bearer (Some ''Bearer guess'') = Some ''guess''"
  by code_simp+

theorem blocked_address_is_refused_witness:
  "\<exists>resp. ratelimit_middleware demo_rl_world demo_handler (demo_request (Some ''Bearer secret''))
             (demo_state [V4 7 \<mapsto> 5] 0) = (resp, (demo_state [V4 7 \<mapsto> 5] 0)\<lparr>st_limits :=
               note_auth_fail_rejection (st_limits (demo_state [V4 7 \<mapsto> 5] 0))\<rparr>)
           \<and> reply_status resp = 429"
proof -
  let ?st = "demo_state [V4 7 \<mapsto> 5] 0" and ?req = "demo_request (Some ''Bearer secret'')"
  have f: "forwarded_for ?req = None" by (simp add: forwarded_for_def)
  have b: "auth_blocked (rw_now demo_rl_world) (client_ip (case req_peer ?req of None \<Rightarrow> V4 0 | Some i \<Rightarrow> i)
      (forwarded_for ?req) (trusted_proxies (rl_config (st_limits ?st)))) (st_limits ?st) = Some 5"
    by (simp add: auth_blocked_def f)
  have "bearer (req_auth ?req) = Some ''secret''" by (simp add: demo_bearer)
  from blocked_address_is_refused [OF _ _ _ this b] show ?thesis by fastforce
qed

text \<open>
  A failed credential costs its address: when a presented credential is refused with 401,
  the request is charged to the address's bucket on the anonymous side, and if the limiter of
  failures has no cell left, every address of the bucket is refused authentication for the
  time the limiter names, and not longer.
\<close>

theorem failed_credential_blocks_bucket:
  assumes "resolve_client w req st = (Inr c, st')" "rl_enabled (rl_config (st_limits st))"
    and "req_ctx req = None" "bearer (req_auth req) \<noteq> None" "ctx_principal c = Inl e" "status e = 401"
    and "fail_limiter (st_limits st) = Some lim"
    and "gov_check (rw_gov w) lim (KeyIp (bucket (ctx_ip c))) (rw_now w) = (Inl wait, lim')"
    and "bucket ip = bucket (ctx_ip c)"
  shows "charged_to c = Some (KeyIp (bucket ip), False)
     \<and> auth_blocked (rw_now w + t) ip (st_limits st') = (if t < wait then Some (wait - t) else None)"
proof -
  from assms obtain raw where raw: "bearer (req_auth req) = Some raw" by auto
  from assms(1-6) raw have st': "st_limits st' = note_auth_failure (rw_gov w) (rw_now w) (ctx_ip c) (st_limits st)"
    by (auto simp: resolve_client_def Let_def split: prod.splits option.splits if_splits)
  have "blocked_until (st_limits st') (bucket ip) = Some (rw_now w + wait)"
    using assms by (simp add: st' note_auth_failure_def Let_def)
  then show ?thesis using assms by (auto simp: auth_blocked_def charged_to_def)
qed

theorem failed_credential_blocks_bucket_witness:
  "\<exists>c st'. resolve_client demo_rl_world (demo_request (Some ''Bearer guess'')) (demo_state Map.empty 0)
       = ((Inr c :: unit reply + client_context), st')
     \<and> auth_blocked (0 + 7) (V4 7) (st_limits st') = Some (60 * 10 ^ 9 - 7)"
proof -
  let ?req = "demo_request (Some ''Bearer guess'')" and ?st = "demo_state Map.empty 0"
  have f: "forwarded_for ?req = None" by (simp add: forwarded_for_def)
  have a: "authenticate (rw_verify demo_rl_world) (rw_jwt demo_rl_world) (Some ''secret'') u ''guess'' tbl
      = (Inl (unauthorized ''unrecognised credential format''), tbl)" for u tbl
    by (simp add: authenticate_def)
  obtain st' where r: "resolve_client demo_rl_world ?req ?st = ((Inr \<lparr>ctx_ip = V4 7,
      ctx_principal = Inl (unauthorized ''unrecognised credential format'')\<rparr> :: unit reply + client_context), st')"
    by (simp add: resolve_client_def Let_def f demo_bearer auth_blocked_def a)
  have g: "gov_check (rw_gov demo_rl_world) 0 (KeyIp (bucket (V4 7))) (rw_now demo_rl_world) = (Inl (60 * 10 ^ 9), 0)"
    by (simp add: demo_governor_def)
  from failed_credential_blocks_bucket [OF r, of "unauthorized ''unrecognised credential format''" 0 "60 * 10 ^ 9" 0 "V4 7" 7] g r
  show ?thesis by (auto simp: demo_bearer)
qed

text \<open>
  A refused request is told when to come back, and not too early: past the limit the
  answer is 429, the handler is not run, and \<open>Retry-After\<close> names a number of whole seconds
  that is at least one and covers the time the limiter asked for.
\<close>

theorem limited_request_waits_long_enough:
  fixes next_run :: "http_request \<Rightarrow> 'g rl_state \<Rightarrow> 'b reply \<times> 'g rl_state"
  assumes "resolve_client w req st = ((Inr c :: 'b reply + client_context), st1)"
    and "rl_enabled (rl_config (st_limits st1))"
    and "classify (rw_form w) (req_method req) (req_path req) (req_query req) = Some cls"
    and "charged_to c = Some (key, side)"
    and "check_limit (rw_gov w) (rw_now w) cls key side (st_limits st1) = (Limited l wait d, rl)"
    and "wait < (2 ^ 64 - 1) * 10 ^ 9"
  shows "\<exists>resp n. ratelimit_middleware w next_run req st = (resp, st1\<lparr>st_limits := rl\<rparr>)
     \<and> reply_status resp = 429 \<and> reply_headers resp ''retry-after'' = Some (show_nat n)
     \<and> 1 \<le> n \<and> wait \<le> n * 10 ^ 9"
proof -
  have "1 \<le> retry_secs wait" by (simp add: retry_secs_def)
  moreover have "wait \<le> retry_secs wait * 10 ^ 9"
  proof -
    have lt: "wait div 10 ^ 9 < 2 ^ 64 - 1" using assms(6) by (simp add: less_mult_imp_div_less)
    show ?thesis
    proof (cases "wait mod 10 ^ 9 = 0")
      case True
      with lt have "wait div 10 ^ 9 \<le> retry_secs wait" by (simp add: retry_secs_def)
      then have "wait div 10 ^ 9 * 10 ^ 9 \<le> retry_secs wait * 10 ^ 9" by (rule mult_le_mono1)
      with True show ?thesis by (simp add: dvd_div_mult_self mod_eq_0_iff_dvd)
    next
      case False
      with lt have "Suc (wait div 10 ^ 9) \<le> retry_secs wait" by (simp add: retry_secs_def)
      then have "Suc (wait div 10 ^ 9) * 10 ^ 9 \<le> retry_secs wait * 10 ^ 9" by (rule mult_le_mono1)
      moreover have "wait < Suc (wait div 10 ^ 9) * 10 ^ 9" 
        using dividend_less_div_times [of "10 ^ 9" wait] by simp
      ultimately show ?thesis by simp
    qed
  qed
  moreover have "ratelimit_middleware w next_run req st
      = (set_ratelimit_headers (class_name cls) l 0 (too_many wait d), st1\<lparr>st_limits := rl\<rparr>)"
    using assms(1-5) by (simp add: ratelimit_middleware_def)
  ultimately show ?thesis
    by (simp add: set_ratelimit_headers_def too_many_def Let_def) blast
qed

lemma default_read_limit:
  "anon_limit (limits_of default_config Read) = Some \<lparr>per_minute = 300, burst = 60\<rparr>"
  by (simp add: limits_of_def default_config_def both_limits_def)

theorem limited_request_waits_long_enough_witness:
  "\<exists>resp st'. ratelimit_middleware demo_rl_world demo_handler ((demo_request None)\<lparr>req_ctx := None\<rparr>)
       ((demo_state Map.empty 0)\<lparr>st_limits := (new_limits demo_governor default_config)
          \<lparr>anon_limiters := replicate 6 (Some 0)\<rparr>\<rparr>) = (resp, st')
     \<and> reply_status resp = 429 \<and> (\<exists>n. reply_headers resp ''retry-after'' = Some (show_nat n) \<and> 60 \<le> n)"
proof -
  let ?req = "(demo_request None)\<lparr>req_ctx := None\<rparr>"
  let ?rl = "(new_limits demo_governor default_config)\<lparr>anon_limiters := replicate 6 (Some 0)\<rparr>"
  let ?st = "(demo_state Map.empty 0)\<lparr>st_limits := ?rl\<rparr>"
  let ?c = "\<lparr>ctx_ip = V4 7, ctx_principal = Inr anonymous\<rparr>"
  have f: "forwarded_for ?req = None" by (simp add: forwarded_for_def demo_request_def)
  have cfg: "rl_config ?rl = default_config" by (simp add: new_limits_def)
  have 1: "resolve_client demo_rl_world ?req ?st = (Inr ?c, ?st)"
    by (simp add: resolve_client_def Let_def f bearer_def cfg)
  have 2: "rl_enabled (rl_config (st_limits ?st))" by (simp add: cfg)
  have 3: "classify (rw_form demo_rl_world) (req_method ?req) (req_path ?req) (req_query ?req) = Some Read"
    by (simp add: demo_request_def demo_rl_world_def) code_simp
  have 4: "charged_to ?c = Some (KeyIp (V4 7), False)"
    by (simp add: charged_to_def is_exempt_def is_admin_def is_anonymous_def anonymous_def scope_defs)
  obtain d rl where 5: "check_limit (rw_gov demo_rl_world) (rw_now demo_rl_world) Read (KeyIp (V4 7)) False (st_limits ?st)
      = (Limited \<lparr>per_minute = 300, burst = 60\<rparr> (60 * 10 ^ 9) d, rl)"
    by (simp add: check_limit_def Let_def cfg default_read_limit) (simp add: demo_governor_def)
  have "(60 * 10 ^ 9 :: nat) < (2 ^ 64 - 1) * 10 ^ 9" by simp
  from limited_request_waits_long_enough [OF 1 2 3 4 5 this, of demo_handler] obtain resp n where
    r: "ratelimit_middleware demo_rl_world demo_handler ?req ?st = (resp, ?st\<lparr>st_limits := rl\<rparr>)" "reply_status resp = 429"
      "reply_headers resp ''retry-after'' = Some (show_nat n)" "60 * 10 ^ 9 \<le> n * 10 ^ 9"
    by blast
  from r(4) have "60 \<le> n" by simp
  with r show ?thesis by blast
qed

text \<open>
  Cells are charged one at a time: a request of one class and side leaves the limiter of
  every other class and of the other side, the failures and the blocked addresses as they
  were; and a request that is let through or exempt counts no rejection.
\<close>

theorem check_limit_isolated:
  assumes "check_limit g now cls key side rl = (dec, rl')"
  shows "(\<forall>c. c \<noteq> cls \<or> side \<longrightarrow> anon_limiters rl' ! class_index c = anon_limiters rl ! class_index c)
     \<and> (\<forall>c. c \<noteq> cls \<or> \<not> side \<longrightarrow> authed_limiters rl' ! class_index c = authed_limiters rl ! class_index c)
     \<and> fail_limiter rl' = fail_limiter rl \<and> blocked_until rl' = blocked_until rl \<and> rl_config rl' = rl_config rl
     \<and> ((\<forall>l wait d. dec \<noteq> Limited l wait d) \<longrightarrow> rejections rl' = rejections rl)"
  using assms
  by (cases side) (auto simp: check_limit_def Let_def split: option.splits prod.splits sum.splits)

theorem check_limit_isolated_witness:
  "\<exists>dec rl'. check_limit demo_governor 0 Write (KeyIp (V4 7)) False (new_limits demo_governor default_config) = (dec, rl')
     \<and> anon_limiters rl' ! class_index Read = Some 60"
proof -
  let ?rl = "new_limits demo_governor default_config"
  obtain dec rl' where c: "check_limit demo_governor 0 Write (KeyIp (V4 7)) False ?rl = (dec, rl')"
    by (cases "check_limit demo_governor 0 Write (KeyIp (V4 7)) False ?rl")
  have "anon_limiters ?rl ! class_index Read = Some 60"
    by (simp add: new_limits_def ALL_CLASSES_def default_read_limit) (simp add: demo_governor_def)
  with check_limit_isolated [OF c] c show ?thesis by auto
qed

text \<open>
  The sweep forgets only what is over: from the moment of the sweep on, every address is
  refused authentication exactly as if the sweep had not run.
\<close>

theorem sweep_keeps_live_blocks:
  "auth_blocked (now + later) ip (retain_recent g now rl) = auth_blocked (now + later) ip rl"
  by (auto simp: auth_blocked_def retain_recent_def split: option.splits)

text \<open>
  Who is never limited: a principal with admin rights, on any path and method, reaches the
  handler with the state as the identification left it.
\<close>

theorem admin_is_never_limited:
  fixes next_run :: "http_request \<Rightarrow> 'g rl_state \<Rightarrow> 'b reply \<times> 'g rl_state"
  assumes "resolve_client w req st = ((Inr c :: 'b reply + client_context), st1)"
    and "ctx_principal c = Inr p" and "is_admin p"
  shows "ratelimit_middleware w next_run req st = next_run (req\<lparr>req_ctx := Some c\<rparr>) st1"
  using assms
  by (simp add: ratelimit_middleware_def charged_to_def is_exempt_def Let_def split: option.splits)

theorem admin_is_never_limited_witness:
  "ratelimit_middleware demo_rl_world demo_handler (demo_request (Some ''Bearer secret'')) (demo_state Map.empty 0)
     = demo_handler ((demo_request (Some ''Bearer secret''))\<lparr>req_ctx :=
         Some \<lparr>ctx_ip = V4 7, ctx_principal = Inr root_principal\<rparr>\<rparr>) (demo_state Map.empty 0)"
proof -
  let ?req = "demo_request (Some ''Bearer secret'')" and ?st = "demo_state Map.empty 0"
  let ?c = "\<lparr>ctx_ip = V4 7, ctx_principal = Inr root_principal\<rparr>"
  have f: "forwarded_for ?req = None" by (simp add: forwarded_for_def)
  have a: "authenticate v j (Some ''secret'') u ''secret'' tbl = (Inr root_principal, tbl)" for v j u tbl
    by (simp add: authenticate_def constant_time_eq_iff)
  have r: "resolve_client demo_rl_world ?req ?st = ((Inr ?c :: unit reply + client_context), ?st)"
    by (simp add: resolve_client_def Let_def f demo_bearer auth_blocked_def a)
  from admin_is_never_limited [OF r] show ?thesis by simp
qed

end
