(* ===== verification/Http_Surface.thy ===== *)
theory Http_Surface
  imports Ratelimit "HOL-Library.List_Lexorder" "HOL-Library.Char_ord"
begin

text \<open>
  \<open>src/api/mod.rs\<close>: the gate that closes anonymous reads, paging, and the SPARQL text the list
  and search routes build out of what a caller typed. Routing is axum's; evaluating a query is
  Oxigraph's and an argument here. What a filter means is stated against the grammar of SPARQL
  string literals, written as a reader at the end of the theory.
\<close>

section \<open>Reads on a closed registry\<close>

definition MCP_ENDPOINT_PATH :: string where "MCP_ENDPOINT_PATH = ''/mcp''"

definition IDENTIFY_PATH :: string where "IDENTIFY_PATH = ''/api/v1/artifacts/identify''"

definition OPEN_PATHS :: "string list" where
  "OPEN_PATHS = [''/healthz'', ''/readyz'', ''/metrics'', ''/sparql'', ''/api/v1/registry'', ''/api/v1/context'',
     ''/api/v1/whoami'', ''/.well-known/'']"

definition is_always_public :: "string \<Rightarrow> bool" where
  "is_always_public path \<longleftrightarrow>
     list_ex (\<lambda>p. path = p \<or> (prefix p path \<and> suffix ''/'' p)) OPEN_PATHS
     \<or> prefix ''/.well-known/'' path \<or> path = MCP_ENDPOINT_PATH"

definition problem_reply :: "app_error \<Rightarrow> 'b reply" where
  "problem_reply e = (let r = into_response e in
     \<lparr>reply_status = resp_status r, reply_headers = resp_headers r, reply_body = Inl (resp_body r)\<rparr>)"

definition require_read_access :: "bool \<Rightarrow> (http_request \<Rightarrow> 's \<Rightarrow> 'b reply \<times> 's) \<Rightarrow> http_request \<Rightarrow> 's \<Rightarrow> 'b reply \<times> 's" where
  "require_read_access public_read next_run req st =
     (if public_read then next_run req st
      else let is_read = req_method req \<in> {GET, HEAD} \<or> req_path req = IDENTIFY_PATH
           in if \<not> is_read \<or> is_always_public (req_path req) then next_run req st
              else if (case req_auth req of None \<Rightarrow> True | Some v \<Rightarrow> trim v = [])
              then (problem_reply (unauthorized ''this registry does not serve anonymous reads; present a credential''), st)
              else next_run req st)"

section \<open>Paging\<close>

definition DEFAULT_LIMIT :: nat where "DEFAULT_LIMIT = 25"
definition MAX_LIMIT :: nat where "MAX_LIMIT = 200"

record paging =
  pg_cursor_iri :: "string option"
  pg_limit :: "string option"

definition paging_limit :: "paging \<Rightarrow> nat" where
  "paging_limit p =
     nat (clamp 1 (int MAX_LIMIT)
       (int (case Option.bind (pg_limit p) (parse_unsigned (2 ^ 64 - 1)) of Some n \<Rightarrow> n | None \<Rightarrow> DEFAULT_LIMIT)))"

section \<open>SPARQL text\<close>

definition QUOTE :: char where "QUOTE = CHR 0x22"
definition BACKSLASH :: char where "BACKSLASH = CHR 0x5C"

definition hex_upper :: "nat \<Rightarrow> char" where
  "hex_upper d = (if d < 10 then char_of (48 + d) else char_of (55 + d))"

text \<open>\<open>{:04X}\<close> of a code below 256.\<close>

definition hex4 :: "nat \<Rightarrow> string" where
  "hex4 n = ''00'' @ [hex_upper (n div 16), hex_upper (n mod 16)]"

definition escape_char :: "char \<Rightarrow> string" where
  "escape_char c =
     (if c = BACKSLASH then [BACKSLASH, BACKSLASH]
      else if c = QUOTE then [BACKSLASH, QUOTE]
      else if c = CHR 0x0A then [BACKSLASH, CHR ''n'']
      else if c = CHR 0x0D then [BACKSLASH, CHR ''r'']
      else if c = CHR 0x09 then [BACKSLASH, CHR ''t'']
      else if byte c < 32 \<or> byte c = 127 then [BACKSLASH, CHR ''u''] @ hex4 (byte c)
      else [c])"

definition escape_literal :: "string \<Rightarrow> string" where
  "escape_literal s = concat (map escape_char s)"

definition REGEX_SPECIAL :: string where
  "REGEX_SPECIAL = [BACKSLASH] @ ''.+*?()|[]{}^$''"

definition regex_escape :: "string \<Rightarrow> string" where
  "regex_escape s = concat (map (\<lambda>c. if c \<in> set REGEX_SPECIAL then [BACKSLASH, c] else [c]) s)"

definition regex_clause :: "string \<Rightarrow> string \<Rightarrow> string" where
  "regex_clause needle v = ''REGEX(STR('' @ v @ ''), '' @ [QUOTE] @ needle @ [QUOTE] @ '', '' @ [QUOTE] @ ''i'' @ [QUOTE] @ '')''"

definition text_filter :: "string \<Rightarrow> string list \<Rightarrow> string" where
  "text_filter q vars =
     (if trim q = [] then []
      else let needle = escape_literal (regex_escape q)
           in ''FILTER('' @ join '' || '' (map (regex_clause needle) vars) @ '')'')"

definition cursor_filter :: "string \<Rightarrow> paging \<Rightarrow> string" where
  "cursor_filter v p =
     (case pg_cursor_iri p of
        Some c \<Rightarrow> if c \<noteq> [] then ''FILTER(STR('' @ v @ '') < '' @ [QUOTE] @ escape_literal c @ [QUOTE] @ '')'' else []
      | None \<Rightarrow> [])"

definition NEWLINE :: char where "NEWLINE = CHR 0x0A"

definition PREFIXES :: string where
  "PREFIXES = concat (map (\<lambda>l. l @ [NEWLINE])
     [''PREFIX tar: <https://w3id.org/tar/ns#>'', ''PREFIX dcat: <http://www.w3.org/ns/dcat#>'',
      ''PREFIX dct: <http://purl.org/dc/terms/>'', ''PREFIX prov: <http://www.w3.org/ns/prov#>'',
      ''PREFIX schema: <https://schema.org/>'', ''PREFIX rdfs: <http://www.w3.org/2000/01/rdf-schema#>'',
      ''PREFIX skos: <http://www.w3.org/2004/02/skos/core#>'', ''PREFIX spdx: <http://spdx.org/rdf/terms#>'',
      ''PREFIX xsd: <http://www.w3.org/2001/XMLSchema#>''])"

definition page_query :: "string \<Rightarrow> nat \<Rightarrow> string" where
  "page_query where_body lm =
     PREFIXES @ [NEWLINE] @ ''SELECT DISTINCT ?s WHERE { '' @ where_body @ '' } ORDER BY DESC(STR(?s)) LIMIT '' @ show_nat (lm + 1)"

text \<open>A row of the answer is its \<open>?s\<close>, if that is an IRI.\<close>

definition page_iris ::
  "(string \<Rightarrow> app_error + string option list) \<Rightarrow> string \<Rightarrow> paging \<Rightarrow> app_error + (string list \<times> string option)" where
  "page_iris select where_body p =
     (let lm = paging_limit p
      in and_then (select (page_query where_body lm)) (\<lambda>rows.
           let iris = List.map_filter id rows;
               has_more = lm < length iris;
               page = take lm iris
           in Inr (page, if has_more then (if page = [] then None else Some (last page)) else None)))"

definition count_query :: "string \<Rightarrow> string" where
  "count_query where_body = PREFIXES @ [NEWLINE] @ ''SELECT (COUNT(DISTINCT ?s) AS ?n) WHERE { '' @ where_body @ '' }''"

definition count_subjects :: "(string \<Rightarrow> app_error + int option list) \<Rightarrow> string \<Rightarrow> app_error + int" where
  "count_subjects select where_body =
     and_then (select (count_query where_body)) (\<lambda>rows.
       Inr (case rows of Some n # _ \<Rightarrow> n | _ \<Rightarrow> 0))"

section \<open>Reading a string literal\<close>

text \<open>
  The body of a SPARQL \<open>STRING_LITERAL2\<close>, after its opening quote: the text it denotes and the
  rest of the query. A quote ends it, a backslash starts an escape, a raw line end is an error.
\<close>

definition hex_digit :: "char \<Rightarrow> nat option" where
  "hex_digit c =
     (if is_ascii_digit c then Some (byte c - 48)
      else if 65 \<le> byte c \<and> byte c \<le> 70 then Some (byte c - 55)
      else if 97 \<le> byte c \<and> byte c \<le> 102 then Some (byte c - 87)
      else None)"

definition code_point :: "char \<Rightarrow> char \<Rightarrow> char \<Rightarrow> char \<Rightarrow> char option" where
  "code_point a b c d =
     (case (hex_digit a, hex_digit b, hex_digit c, hex_digit d) of
        (Some w, Some x, Some y, Some z) \<Rightarrow>
          let n = ((w * 16 + x) * 16 + y) * 16 + z in if n < 128 then Some (char_of n) else None
      | _ \<Rightarrow> None)"

definition echar :: "char \<Rightarrow> char option" where
  "echar c =
     (if c = CHR ''n'' then Some (CHR 0x0A) else if c = CHR ''r'' then Some (CHR 0x0D)
      else if c = CHR ''t'' then Some (CHR 0x09) else if c = CHR ''b'' then Some (CHR 0x08)
      else if c = CHR ''f'' then Some (CHR 0x0C) else if c = BACKSLASH then Some BACKSLASH
      else if c = QUOTE then Some QUOTE else if c = CHR 0x27 then Some (CHR 0x27) else None)"

definition put_char :: "char option \<Rightarrow> (string \<times> string) option \<Rightarrow> (string \<times> string) option" where
  "put_char c r = (case (c, r) of (Some x, Some (s, rest)) \<Rightarrow> Some (x # s, rest) | _ \<Rightarrow> None)"

fun read_literal :: "string \<Rightarrow> (string \<times> string) option" where
  "read_literal [] = None"
| "read_literal (c # cs) =
     (if c = QUOTE then Some ([], cs)
      else if c = BACKSLASH then
        (case cs of
           [] \<Rightarrow> None
         | e # es \<Rightarrow>
             if e = CHR ''u'' then
               (case es of
                  h1 # h2 # h3 # h4 # rest \<Rightarrow> put_char (code_point h1 h2 h3 h4) (read_literal rest)
                | _ \<Rightarrow> None)
             else put_char (echar e) (read_literal es))
      else if c = CHR 0x0A \<or> c = CHR 0x0D then None
      else put_char (Some c) (read_literal cs))"

text \<open>A regular expression that is a plain text: no special character but after a backslash.\<close>

fun literal_pattern :: "string \<Rightarrow> string option" where
  "literal_pattern [] = Some []"
| "literal_pattern (c # cs) =
     (if c = BACKSLASH then
        (case cs of [] \<Rightarrow> None
         | d # ds \<Rightarrow> if d \<in> set REGEX_SPECIAL then map_option (Cons d) (literal_pattern ds) else None)
      else if c \<in> set REGEX_SPECIAL then None
      else map_option (Cons c) (literal_pattern cs))"

section \<open>What a caller types stays text\<close>

lemma byte_less: "byte c < 256"
  by (simp add: byte_def)

lemma byte_char_of: "n < 256 \<Longrightarrow> byte (char_of n) = n"
  by (simp add: byte_def)

lemma char_of_byte [simp]: "char_of (byte c) = c"
  by (simp add: byte_def)

lemma hex_digit_upper: "d < 16 \<Longrightarrow> hex_digit (hex_upper d) = Some d"
  by (auto simp: hex_digit_def hex_upper_def is_ascii_digit_def byte_char_of)

lemma code_point_hex4:
  assumes "n < 128" shows "\<exists>a b c d. hex4 n = [a, b, c, d] \<and> code_point a b c d = Some (char_of n)"
proof -
  have "hex_digit (CHR ''0'') = Some 0" by code_simp
  moreover have "n div 16 < 16" using assms by simp
  ultimately show ?thesis
    using assms by (simp add: hex4_def code_point_def hex_digit_upper mult.commute)
qed

lemma echar_simps [simp]:
  "echar BACKSLASH = Some BACKSLASH" "echar QUOTE = Some QUOTE" "echar (CHR ''n'') = Some (CHR 0x0A)"
  "echar (CHR ''r'') = Some (CHR 0x0D)" "echar (CHR ''t'') = Some (CHR 0x09)"
  by (simp_all add: echar_def BACKSLASH_def QUOTE_def)

lemma read_escape_char: "read_literal (escape_char c @ r) = put_char (Some c) (read_literal r)"
proof -
  have bq: "BACKSLASH \<noteq> QUOTE" "CHR ''u'' \<noteq> QUOTE" "BACKSLASH \<noteq> CHR ''u''" "QUOTE \<noteq> CHR ''u''"
    by (simp_all add: BACKSLASH_def QUOTE_def)
  consider "c = BACKSLASH" | "c = QUOTE" | "c = CHR 0x0A" | "c = CHR 0x0D" | "c = CHR 0x09"
    | "c \<notin> {BACKSLASH, QUOTE, CHR 0x0A, CHR 0x0D, CHR 0x09}" "byte c < 32 \<or> byte c = 127"
    | "c \<notin> {BACKSLASH, QUOTE, CHR 0x0A, CHR 0x0D, CHR 0x09}" "\<not> (byte c < 32 \<or> byte c = 127)" by auto
  then show ?thesis
  proof cases
    case 6
    then have "byte c < 128" by auto
    from code_point_hex4 [OF this] obtain h1 h2 h3 h4 where
      h: "hex4 (byte c) = [h1, h2, h3, h4]" "code_point h1 h2 h3 h4 = Some c" by auto
    from 6 have "escape_char c = BACKSLASH # CHR ''u'' # [h1, h2, h3, h4]" by (simp add: escape_char_def h)
    then show ?thesis using bq h(2) by simp
  next
    case 7
    then have "escape_char c = [c]" by (simp add: escape_char_def)
    with 7 show ?thesis by simp
  qed (use bq in \<open>auto simp: escape_char_def BACKSLASH_def QUOTE_def simp flip: BACKSLASH_def QUOTE_def\<close>)
qed

lemma read_escaped: "read_literal (escape_literal s @ QUOTE # rest) = Some (s, rest)"
proof (induction s)
  case (Cons c s)
  have "escape_literal (c # s) @ QUOTE # rest = escape_char c @ escape_literal s @ QUOTE # rest"
    by (simp add: escape_literal_def)
  with Cons show ?case by (simp add: read_escape_char put_char_def del: read_literal.simps(2))
qed (simp add: escape_literal_def)

lemma literal_pattern_escape: "literal_pattern (regex_escape q) = Some q"
proof (induction q)
  case (Cons c q)
  have b: "BACKSLASH \<in> set REGEX_SPECIAL" by (simp add: REGEX_SPECIAL_def)
  from Cons b show ?case by (auto simp: regex_escape_def)
qed (simp add: regex_escape_def)

text \<open>
  C22. The search text and the cursor that a caller sends stay text: inside the quotes of each clause of the
  search filter, and of the cursor's filter, the query reads back exactly what was escaped and
  goes on after the closing quote, and the pattern of the search is a plain text, the one the
  caller typed; nothing in either is read as SPARQL or as a regular expression.
\<close>

theorem search_text_is_inert:
  "(trim q \<noteq> [] \<longrightarrow> (\<exists>needle.
       text_filter q vars = ''FILTER('' @ join '' || '' (map (\<lambda>v. ''REGEX(STR('' @ v @ ''), '' @ [QUOTE] @ needle @ [QUOTE] @
           '', '' @ [QUOTE] @ ''i'' @ [QUOTE] @ '')'') vars) @ '')''
       \<and> (\<forall>rest. read_literal (needle @ QUOTE # rest) = Some (regex_escape q, rest))))
   \<and> literal_pattern (regex_escape q) = Some q
   \<and> (\<forall>c. pg_cursor_iri p = Some c \<longrightarrow> c \<noteq> [] \<longrightarrow>
        (\<exists>body. cursor_filter v p = ''FILTER(STR('' @ v @ '') < '' @ QUOTE # body
           \<and> read_literal body = Some (c, '')'')))"
proof -
  have "\<exists>body. cursor_filter v p = ''FILTER(STR('' @ v @ '') < '' @ QUOTE # body \<and> read_literal body = Some (c, '')'')"
    if "pg_cursor_iri p = Some c" "c \<noteq> []" for c
    using that read_escaped [of c "'')''"] by (intro exI [of _ "escape_literal c @ QUOTE # '')''"]) (simp add: cursor_filter_def)
  moreover have "text_filter q vars = ''FILTER('' @ join '' || '' (map (\<lambda>v. ''REGEX(STR('' @ v @ ''), '' @ [QUOTE] @
        escape_literal (regex_escape q) @ [QUOTE] @ '', '' @ [QUOTE] @ ''i'' @ [QUOTE] @ '')'') vars) @ '')''" if "trim q \<noteq> []"
  proof -
    have "regex_clause (escape_literal (regex_escape q)) = (\<lambda>v. ''REGEX(STR('' @ v @ ''), '' @ [QUOTE] @
        escape_literal (regex_escape q) @ [QUOTE] @ '', '' @ [QUOTE] @ ''i'' @ [QUOTE] @ '')'')"
      by (rule ext) (rule regex_clause_def)
    with that show ?thesis by (simp only: text_filter_def Let_def if_False)
  qed
  ultimately show ?thesis using read_escaped literal_pattern_escape by blast
qed

theorem search_text_is_inert_witness:
  "(\<exists>body. cursor_filter ''?s'' \<lparr>pg_cursor_iri = Some [QUOTE, BACKSLASH, NEWLINE], pg_limit = None\<rparr>
      = ''FILTER(STR('' @ ''?s'' @ '') < '' @ QUOTE # body \<and> read_literal body = Some ([QUOTE, BACKSLASH, NEWLINE], '')''))
   \<and> (\<exists>needle. text_filter ''c++'' [''?t''] = ''FILTER('' @ join '' || '' (map (\<lambda>v. ''REGEX(STR('' @ v @ ''), '' @ [QUOTE] @ needle @ [QUOTE] @
        '', '' @ [QUOTE] @ ''i'' @ [QUOTE] @ '')'') [''?t'']) @ '')'')"
proof -
  have "trim ''c++'' \<noteq> []" by code_simp
  with search_text_is_inert [of "''c++''" "[''?t'']" "\<lparr>pg_cursor_iri = Some [QUOTE, BACKSLASH, NEWLINE], pg_limit = None\<rparr>" "''?s''"]
  show ?thesis unfolding paging.select_convs option.inject by blast
qed

section \<open>The gate of a closed registry\<close>

text \<open>
  C29. On a closed registry any credential opens the reads: the gate asks only whether the header
  is there, and a credential that authentication refuses is left to the handler, so behind both
  middlewares a route that does not look at its caller answers a bad credential as on an open
  registry, where it answers 401 to a request without one.
\<close>

theorem bad_credential_passes_the_gate:
  assumes "req_ctx req = None" "req_auth req = Some v" "trim v \<noteq> []" "bearer (Some v) = Some raw"
    and "\<not> rl_enabled (rl_config (st_limits st))"
    and "authenticate (rw_verify w) (rw_jwt w) (rw_root w) (rw_utc w) raw (st_tokens st) = (Inl e, toks)"
  shows "\<exists>c. ctx_principal c = Inl e
     \<and> ratelimit_middleware w (require_read_access False handler) req st
       = handler (req\<lparr>req_ctx := Some c\<rparr>) (st\<lparr>st_tokens := toks\<rparr>)"
proof -
  let ?ip = "client_ip (case req_peer req of None \<Rightarrow> V4 0 | Some ip \<Rightarrow> ip) (forwarded_for req) (trusted_proxies (rl_config (st_limits st)))"
  let ?c = "\<lparr>ctx_ip = ?ip, ctx_principal = Inl e\<rparr>"
  have "require_read_access False handler (req\<lparr>req_ctx := Some ?c\<rparr>) st' = handler (req\<lparr>req_ctx := Some ?c\<rparr>) st'" for st'
    using assms(2,3) by (auto simp: require_read_access_def Let_def)
  then show ?thesis
    using assms by (intro exI [of _ ?c]) (simp add: ratelimit_middleware_def resolve_client_def Let_def split: option.splits)
qed

theorem bad_credential_passes_the_gate_witness:
  "\<exists>c st'. ratelimit_middleware demo_rl_world (require_read_access False demo_handler)
        ((demo_request (Some ''Bearer guess''))\<lparr>req_path := ''/api/v1/software''\<rparr>)
        \<lparr>st_limits = new_limits demo_governor disabled_config, st_tokens = []\<rparr>
      = (\<lparr>reply_status = 200, reply_headers = Map.empty, reply_body = Inr ()\<rparr>, st')"
proof -
  let ?req = "(demo_request (Some ''Bearer guess''))\<lparr>req_path := ''/api/v1/software''\<rparr>"
  let ?st = "\<lparr>st_limits = new_limits demo_governor disabled_config, st_tokens = []\<rparr> :: nat rl_state"
  have a: "req_ctx ?req = None" "req_auth ?req = Some ''Bearer guess''" by (simp_all add: demo_request_def)
  have t: "trim ''Bearer guess'' \<noteq> []" by code_simp
  have off: "\<not> rl_enabled (rl_config (st_limits ?st))" by (simp add: new_limits_def disabled_config_def)
  have "authenticate (rw_verify demo_rl_world) (rw_jwt demo_rl_world) (rw_root demo_rl_world) (rw_utc demo_rl_world) ''guess'' []
      = (Inl (unauthorized ''unrecognised credential format''), [])"
    by (simp add: authenticate_def demo_rl_world_def)
  then have au: "authenticate (rw_verify demo_rl_world) (rw_jwt demo_rl_world) (rw_root demo_rl_world) (rw_utc demo_rl_world) ''guess''
      (st_tokens ?st) = (Inl (unauthorized ''unrecognised credential format''), [])" by simp
  from bad_credential_passes_the_gate [OF a t demo_bearer(2) off au, of demo_handler] show ?thesis
    by (auto simp: demo_handler_def)
qed

section \<open>Pages\<close>

text \<open>What the store answers a page query with: the IRIs below the cursor, newest first.\<close>

definition below_cursor :: "string option \<Rightarrow> string \<Rightarrow> bool" where
  "below_cursor c i \<longleftrightarrow> (case c of None \<Rightarrow> True | Some x \<Rightarrow> i < x)"

definition pages_of :: "(string \<Rightarrow> app_error + string option list) \<Rightarrow> (string option \<Rightarrow> string) \<Rightarrow> string option \<Rightarrow> string option \<Rightarrow> app_error + (string list \<times> string option)" where
  "pages_of select body lm c = page_iris select (body c) \<lparr>pg_cursor_iri = c, pg_limit = lm\<rparr>"

text \<open>A client that follows the cursor: the pages it sees, for at most n requests.\<close>

fun follow :: "nat \<Rightarrow> (string option \<Rightarrow> app_error + (string list \<times> string option)) \<Rightarrow> string option \<Rightarrow> string list list" where
  "follow 0 fetch c = []"
| "follow (Suc n) fetch c =
     (case fetch c of
        Inl e \<Rightarrow> []
      | Inr (page, next) \<Rightarrow> page # (case next of None \<Rightarrow> [] | Some d \<Rightarrow> follow n fetch (Some d)))"

lemma paging_limit_pos: "0 < paging_limit p" "paging_limit p \<le> 200"
  by (simp_all add: paging_limit_def clamp_def MAX_LIMIT_def)

lemma below_last:
  assumes "sorted_wrt (>) L" "L = xs @ ys" "xs \<noteq> []"
  shows "filter (below_cursor (Some (last xs))) L = ys"
proof -
  have "\<forall>x \<in> set xs. last xs \<le> x"
  proof
    fix x assume "x \<in> set xs"
    have "sorted_wrt (>) (butlast xs @ [last xs])" using assms by (simp add: sorted_wrt_append)
    then have "\<forall>y \<in> set (butlast xs). last xs < y" by (simp add: sorted_wrt_append)
    moreover have "x \<in> set (butlast xs) \<or> x = last xs"
      using \<open>x \<in> set xs\<close> assms(3) by (metis append_butlast_last_id in_set_conv_decomp_last rotate1.simps(2) set_ConsD set_append Un_iff list.set_intros(1) set_rotate1)
    ultimately show "last xs \<le> x" by auto
  qed
  then have "filter (below_cursor (Some (last xs))) xs = []" by (auto simp: filter_empty_conv below_cursor_def)
  moreover have "\<forall>y \<in> set ys. y < last xs" using assms by (auto simp: sorted_wrt_append)
  then have "filter (below_cursor (Some (last xs))) ys = ys" by (simp add: filter_id_conv below_cursor_def)
  ultimately show ?thesis by (simp add: assms(2))
qed

lemma followed_pages:
  assumes "sorted_wrt (>) all_iris"
    and "\<forall>c \<in> insert None (Some ` set all_iris). select (page_query (body c) (paging_limit \<lparr>pg_cursor_iri = c, pg_limit = lm\<rparr>))
         = Inr (map Some (take (paging_limit \<lparr>pg_cursor_iri = c, pg_limit = lm\<rparr> + 1) (filter (below_cursor c) all_iris)))"
    and "length all_iris < n"
  shows "concat (follow n (pages_of select body lm) None) = all_iris"
proof -
  define k where "k = paging_limit \<lparr>pg_cursor_iri = None, pg_limit = lm\<rparr>"
  have k: "paging_limit \<lparr>pg_cursor_iri = c, pg_limit = lm\<rparr> = k" for c by (simp add: paging_limit_def k_def)
  have k0: "0 < k" unfolding k_def by (rule paging_limit_pos)
  have fetch: "pages_of select body lm c =
      Inr (take k L, if k < length L then Some (last (take k L)) else None)"
    if "filter (below_cursor c) all_iris = L" "c \<in> insert None (Some ` set all_iris)" for c L
  proof -
    have "List.map_filter id (map Some ys) = ys" for ys :: "string list" by (simp add: List.map_filter_def comp_def)
    moreover have "select (page_query (body c) k) = Inr (map Some (take (k + 1) L))"
      using bspec [OF assms(2) that(2)] by (simp only: k that(1))
    ultimately have "pages_of select body lm c = Inr (take k (take (k + 1) L),
        if k < length (take (k + 1) L)
        then (if take k (take (k + 1) L) = [] then None else Some (last (take k (take (k + 1) L)))) else None)"
      by (simp only: pages_of_def page_iris_def Let_def k and_then_Inr)
    moreover have "take k (take (k + 1) L) = take k L" by simp
    moreover have "k < length (take (k + 1) L) \<longleftrightarrow> k < length L" by simp
    moreover have "take k L \<noteq> []" if "k < length L"
      using that k0 by (cases L) auto
    ultimately show ?thesis by presburger
  qed
  have go: "concat (follow n (pages_of select body lm) c) = L"
    if "filter (below_cursor c) all_iris = L" "length L < n" "all_iris = seen @ L"
      "c \<in> insert None (Some ` set all_iris)" for n c L seen
    using that
  proof (induction n arbitrary: c L seen)
    case (Suc n)
    note f = fetch [OF Suc.prems(1,4)]
    show ?case
    proof (cases "k < length L")
      case False
      with f show ?thesis by simp
    next
      case True
      have ne: "take k L \<noteq> []" using True k0 by (cases L) auto
      have split: "all_iris = (seen @ take k L) @ drop k L" using Suc.prems(3) by simp
      have "last (seen @ take k L) = last (take k L)" using ne by simp
      with below_last [OF assms(1) split] ne have "filter (below_cursor (Some (last (take k L)))) all_iris = drop k L" by simp
      moreover have "length (drop k L) < n" using Suc.prems(2) True k0 by simp
      ultimately have "concat (follow n (pages_of select body lm) (Some (last (take k L)))) = drop k L"
        using split
      proof (rule Suc.IH)
        have "last (take k L) \<in> set (take k L)" using ne by simp
        then show "Some (last (take k L)) \<in> insert None (Some ` set all_iris)"
          using Suc.prems(3) by (auto dest: in_set_takeD)
      qed
      with f True show ?thesis by simp
    qed
  qed simp
  have "filter (below_cursor None) all_iris = all_iris" by (simp add: below_cursor_def)
  from go [OF this assms(3), of "[]"] show ?thesis by simp
qed

text \<open>
  What SPARQL says of the two queries a client pages with, written out as their text. The
  matches of the pattern are a set of IRIs, here a list without repetition. \<open>ORDER BY DESC(STR(?s))\<close>
  lists them in descending order, \<open>LIMIT n\<close> keeps the first n, and a
  \<open>FILTER(STR(?s) < l)\<close> keeps those before the text that the literal l denotes.
\<close>

definition answers_page_queries ::
  "(string \<Rightarrow> app_error + string option list) \<Rightarrow> string \<Rightarrow> string list \<Rightarrow> bool" where
  "answers_page_queries select pattern matches \<longleftrightarrow>
     (\<forall>n. select (PREFIXES @ [NEWLINE] @ ''SELECT DISTINCT ?s WHERE { '' @ pattern @ [NEWLINE] @
            '' } ORDER BY DESC(STR(?s)) LIMIT '' @ show_nat n)
          = Inr (map Some (take n (rev (sort matches)))))
   \<and> (\<forall>n c l. read_literal (l @ [QUOTE]) = Some (c, []) \<longrightarrow>
        select (PREFIXES @ [NEWLINE] @ ''SELECT DISTINCT ?s WHERE { '' @ pattern @ [NEWLINE] @
            ''FILTER(STR(?s) < '' @ [QUOTE] @ l @ [QUOTE] @ '')'' @ '' } ORDER BY DESC(STR(?s)) LIMIT '' @ show_nat n)
          = Inr (map Some (take n (rev (sort (filter (\<lambda>i. i < c) matches))))))"

text \<open>The text a list handler passes to \<open>page_iris\<close>: its pattern, a line end and the cursor's filter.\<close>

definition listing :: "string \<Rightarrow> string option \<Rightarrow> string option \<Rightarrow> string" where
  "listing pattern lm c = pattern @ [NEWLINE] @ cursor_filter ''?s'' \<lparr>pg_cursor_iri = c, pg_limit = lm\<rparr>"

lemma answered_page:
  assumes "answers_page_queries select pattern matches" "c \<noteq> Some []"
  shows "select (page_query (listing pattern lm c) k) = Inr (map Some (take (k + 1) (filter (below_cursor c) (rev (sort matches)))))"
proof (cases c)
  case None
  have "page_query (listing pattern lm c) k = PREFIXES @ [NEWLINE] @ ''SELECT DISTINCT ?s WHERE { '' @ pattern @ [NEWLINE] @
      '' } ORDER BY DESC(STR(?s)) LIMIT '' @ show_nat (k + 1)"
    by (simp add: page_query_def listing_def cursor_filter_def None)
  moreover have "filter (below_cursor c) xs = xs" for xs by (simp add: below_cursor_def None)
  ultimately show ?thesis using assms(1) by (simp only: answers_page_queries_def)
next
  case (Some x)
  with assms(2) have "page_query (listing pattern lm c) k = PREFIXES @ [NEWLINE] @ ''SELECT DISTINCT ?s WHERE { '' @ pattern @ [NEWLINE] @
      ''FILTER(STR(?s) < '' @ [QUOTE] @ escape_literal x @ [QUOTE] @ '')'' @ '' } ORDER BY DESC(STR(?s)) LIMIT '' @ show_nat (k + 1)"
    by (simp add: page_query_def listing_def cursor_filter_def)
  moreover have "read_literal (escape_literal x @ [QUOTE]) = Some (x, [])" by (rule read_escaped)
  moreover have "below_cursor c = (\<lambda>i. i < x)" by (simp add: Some below_cursor_def fun_eq_iff)
  then have "filter (below_cursor c) (rev (sort matches)) = rev (sort (filter (\<lambda>i. i < x) matches))"
    by (simp only: rev_filter [symmetric] filter_sort)
  ultimately show ?thesis using assms(1) by (simp only: answers_page_queries_def)
qed

text \<open>
  C30. Following the cursor shows every record once: the queries that a list handler builds, put to
  a store that answers them as SPARQL says, give a client that follows the cursor all
  matches of the handler's pattern, each once and the last minted first, for any page size it asks for.
\<close>

theorem pages_show_everything_once:
  assumes "answers_page_queries select pattern matches" "distinct matches" "[] \<notin> set matches" "length matches < n"
  shows "concat (follow n (\<lambda>c. page_iris select (pattern @ [NEWLINE] @ cursor_filter ''?s'' \<lparr>pg_cursor_iri = c, pg_limit = lm\<rparr>)
            \<lparr>pg_cursor_iri = c, pg_limit = lm\<rparr>) None) = rev (sort matches)"
proof -
  have "sorted_wrt (<) (sort matches)"
    using assms(2) by (simp add: strict_sorted_iff)
  then have "sorted_wrt (>) (rev (sort matches))" by (simp add: sorted_wrt_rev)
  moreover have "\<forall>c \<in> insert None (Some ` set (rev (sort matches))).
      select (page_query (listing pattern lm c) (paging_limit \<lparr>pg_cursor_iri = c, pg_limit = lm\<rparr>))
      = Inr (map Some (take (paging_limit \<lparr>pg_cursor_iri = c, pg_limit = lm\<rparr> + 1) (filter (below_cursor c) (rev (sort matches)))))"
    by (intro ballI answered_page [OF assms(1)]) (use assms(3) in auto)
  ultimately have "concat (follow n (pages_of select (listing pattern lm) lm) None) = rev (sort matches)"
    using assms(4) by (intro followed_pages) simp_all
  moreover have "pages_of select (listing pattern lm) lm = (\<lambda>c. page_iris select
      (pattern @ [NEWLINE] @ cursor_filter ''?s'' \<lparr>pg_cursor_iri = c, pg_limit = lm\<rparr>) \<lparr>pg_cursor_iri = c, pg_limit = lm\<rparr>)"
    by (simp add: pages_of_def listing_def fun_eq_iff)
  ultimately show ?thesis by simp
qed

text \<open>An endpoint that reads the text of such a query and answers it over a list of IRIs.\<close>

definition demo_limited :: "string \<Rightarrow> string list \<Rightarrow> app_error + string option list" where
  "demo_limited q iris =
     (let order = '' } ORDER BY DESC(STR(?s)) LIMIT ''
      in case digits_value 0 (drop (length order) q) of
           Some n \<Rightarrow> if prefix order q then Inr (map Some (take n (rev (sort iris)))) else Inl (bad_request ''order'')
         | None \<Rightarrow> Inl (bad_request ''limit''))"

definition demo_endpoint :: "string \<Rightarrow> string list \<Rightarrow> string \<Rightarrow> app_error + string option list" where
  "demo_endpoint pattern iris q =
     (let head = PREFIXES @ [NEWLINE] @ ''SELECT DISTINCT ?s WHERE { '' @ pattern @ [NEWLINE];
          body = drop (length head) q; test = ''FILTER(STR(?s) < '' @ [QUOTE]
      in if prefix test body
         then (case read_literal (drop (length test) body) of
                 Some (c, d # rest) \<Rightarrow>
                   if d = CHR '')'' then demo_limited rest (filter (\<lambda>i. i < c) iris) else Inl (bad_request ''filter'')
               | _ \<Rightarrow> Inl (bad_request ''filter''))
         else demo_limited body iris)"

lemma put_char_Some: "put_char c r = Some (t, rest) \<longleftrightarrow> (\<exists>x u. c = Some x \<and> r = Some (u, rest) \<and> t = x # u)"
  by (auto simp: put_char_def split: option.splits)

lemma read_literal_more: "read_literal s = Some (c, rest) \<Longrightarrow> read_literal (s @ r) = Some (c, rest @ r)"
proof (induction s arbitrary: c rule: read_literal.induct)
  case (2 x xs)
  consider "x = QUOTE" | "x \<noteq> QUOTE" "x = BACKSLASH" | "x \<noteq> QUOTE" "x \<noteq> BACKSLASH" by blast
  then show ?case
  proof cases
    case 2
    with "2.prems" obtain e es where xs: "xs = e # es" by (cases xs) simp_all
    show ?thesis
    proof (cases "e = CHR ''u''")
      case True
      with "2.prems" xs 2 obtain h1 h2 h3 h4 ds where es: "es = h1 # h2 # h3 # h4 # ds"
        by (auto split: list.splits)
      with True "2.prems" xs 2 "2.IH"(1) [OF 2(1,2) xs True es] show ?thesis
        by (auto simp: put_char_Some)
    next
      case False
      with "2.prems" xs 2 "2.IH"(2) [OF 2(1,2) xs False] show ?thesis
        by (auto simp: put_char_Some)
    qed
  next
    case 3
    with "2.prems" "2.IH"(3) [OF 3] show ?thesis by (auto simp: put_char_Some split: if_splits)
  qed (use "2.prems" in simp)
qed simp

lemma demo_limited_answers: "demo_limited ('' } ORDER BY DESC(STR(?s)) LIMIT '' @ show_nat n) iris = Inr (map Some (take n (rev (sort iris))))"
proof -
  have "demo_limited (order @ show_nat n) iris = Inr (map Some (take n (rev (sort iris))))"
    if "order = '' } ORDER BY DESC(STR(?s)) LIMIT ''" for order
    unfolding demo_limited_def Let_def that [symmetric] by (simp add: digits_value_show_nat)
  then show ?thesis by blast
qed

lemma demo_endpoint_answers: "answers_page_queries (demo_endpoint pattern iris) pattern iris"
proof -
  define head where "head = PREFIXES @ [NEWLINE] @ ''SELECT DISTINCT ?s WHERE { '' @ pattern @ [NEWLINE]"
  define test where "test = ''FILTER(STR(?s) < '' @ [QUOTE]"
  define order where "order = '' } ORDER BY DESC(STR(?s)) LIMIT ''"
  have step: "demo_endpoint pattern iris (head @ body) =
      (if prefix test body
       then (case read_literal (drop (length test) body) of
               Some (c, d # rest) \<Rightarrow>
                 if d = CHR '')'' then demo_limited rest (filter (\<lambda>i. i < c) iris) else Inl (bad_request ''filter'')
             | _ \<Rightarrow> Inl (bad_request ''filter''))
       else demo_limited body iris)" for body
  proof -
    have "drop (length head) (head @ body) = body" by simp
    then show ?thesis unfolding demo_endpoint_def Let_def head_def [symmetric] test_def [symmetric] by (simp only:)
  qed
  have none: "\<not> prefix test (order @ r)" for r
    by (simp add: test_def order_def)
  have plain: "demo_endpoint pattern iris (head @ order @ show_nat n) = Inr (map Some (take n (rev (sort iris))))" for n
    by (simp only: step none if_False) (simp only: order_def demo_limited_answers)
  have cursor: "demo_endpoint pattern iris (head @ test @ l @ [QUOTE] @ '')'' @ order @ show_nat n)
      = Inr (map Some (take n (rev (sort (filter (\<lambda>i. i < c) iris)))))" if "read_literal (l @ [QUOTE]) = Some (c, [])" for l c n
  proof -
    let ?rest = "l @ [QUOTE] @ '')'' @ order @ show_nat n"
    have "read_literal ((l @ [QUOTE]) @ CHR '')'' # order @ show_nat n) = Some (c, [] @ CHR '')'' # order @ show_nat n)"
      by (rule read_literal_more [OF that])
    then have read: "read_literal ?rest = Some (c, CHR '')'' # order @ show_nat n)"
      by (simp only: append_assoc append_Cons append_Nil)
    have "prefix test (test @ ?rest)" "drop (length test) (test @ ?rest) = ?rest" by simp_all
    then have "demo_endpoint pattern iris (head @ test @ ?rest) = demo_limited (order @ show_nat n) (filter (\<lambda>i. i < c) iris)"
      by (simp only: step read if_True option.case prod.case list.case refl)
    then show ?thesis by (simp only: order_def demo_limited_answers)
  qed
  show ?thesis
    unfolding answers_page_queries_def
    using plain cursor by (simp only: head_def test_def order_def append_assoc) blast
qed

theorem pages_show_everything_once_witness:
  "concat (follow 4 (\<lambda>c. page_iris (demo_endpoint ''?s a tar:Run'' [''b'', ''a'', ''c''])
      (''?s a tar:Run'' @ [NEWLINE] @ cursor_filter ''?s'' \<lparr>pg_cursor_iri = c, pg_limit = Some ''1''\<rparr>)
      \<lparr>pg_cursor_iri = c, pg_limit = Some ''1''\<rparr>) None) = [''c'', ''b'', ''a'']"
proof -
  have s: "rev (sort [''b'', ''a'', ''c'']) = [''c'', ''b'', ''a'']" by code_simp
  have "distinct [''b'', ''a'', ''c'']" "[] \<notin> set [''b'', ''a'', ''c'']" "length [''b'', ''a'', ''c''] < 4" by simp_all
  from pages_show_everything_once [OF demo_endpoint_answers this] show ?thesis unfolding s .
qed

end
