(* ===== verification/Describe.thy ===== *)
theory Describe
  imports Rdf_Build "HOL-Library.List_Lexorder" "HOL-Library.Char_ord"
begin

text \<open>
  The derived reads of the graph store (\<open>src/store/queries.rs\<close> and the default methods of
  \<open>GraphStore\<close> in \<open>src/store/mod.rs\<close>): the description of a record with all it owns, found by a
  query of bounded depth that is asked again with a deeper one while it may have been cut off,
  and the graph that speaks for a record. A query is modelled by the rows it selects.
\<close>

definition DEFAULT_DEPTH :: nat where "DEFAULT_DEPTH = 4"
definition MAX_DEPTH :: nat where "MAX_DEPTH = 32"

text \<open>
  One hop of the closure, across graphs. The filter also lets a literal of an owning predicate
  through, which is the subject of nothing.
\<close>

definition hop :: "store \<Rightarrow> node list \<Rightarrow> node list" where
  "hop st ns = dedup (concat (map owned_objects (filter (\<lambda>q. q_subject q \<in> set ns) st)))"

fun level_nodes :: "store \<Rightarrow> string \<Rightarrow> nat \<Rightarrow> node list" where
  "level_nodes st s 0 = [NamedNode s]"
| "level_nodes st s (Suc d) = hop st (level_nodes st s d)"

text \<open>\<open>queries::describe\<close>: one branch for each level, the rows tagged with it.\<close>

definition describe_rows :: "store \<Rightarrow> string \<Rightarrow> nat \<Rightarrow> (nat \<times> quad) list" where
  "describe_rows st s depth =
     concat (map (\<lambda>d. map (Pair d) (filter (\<lambda>q. q_subject q \<in> set (level_nodes st s d)) st)) [0..<Suc depth])"

definition truncated :: "(nat \<times> string) list \<Rightarrow> nat \<Rightarrow> bool" where
  "truncated levels depth =
     (let shallower = map snd (filter (\<lambda>x. fst x < depth) levels)
      in \<exists>x \<in> set levels. fst x = depth \<and> snd x \<notin> set shallower)"

partial_function (option) describe_loop :: "store \<Rightarrow> string \<Rightarrow> nat \<Rightarrow> quad list option" where
  "describe_loop st s depth =
     (let rows = describe_rows st s depth;
          quads = dedup (map snd rows);
          levels = map (\<lambda>(d, q). (d, subject_key (q_subject q))) rows
      in if \<not> truncated levels depth then Some quads
         else if MAX_DEPTH \<le> depth then Some quads
         else describe_loop st s (min (depth * 2) MAX_DEPTH))"

declare describe_loop.simps [code]

definition describe :: "(string \<Rightarrow> bool) \<Rightarrow> store \<Rightarrow> string \<Rightarrow> (string + quad list) option" where
  "describe valid_iri st s =
     (if \<not> valid_iri s then Some (Inl (''bad IRI '' @ s))
      else map_option Inr (describe_loop st s DEFAULT_DEPTH))"

definition G_SHAPES :: string where "G_SHAPES = ''urn:tar:shapes''"
definition G_BUNDLE_PREFIX :: string where "G_BUNDLE_PREFIX = ''urn:tar:bundle:''"
definition G_BUNDLES :: string where "G_BUNDLES = ''urn:tar:bundles''"

definition graph_rank :: "string \<Rightarrow> nat" where
  "graph_rank g =
     (if g = G_LOCAL then 0
      else if prefix G_BUNDLE_PREFIX g \<or> g = G_SHAPES \<or> g = G_BUNDLES then 1 else 2)"

definition graph_of :: "store \<Rightarrow> string \<Rightarrow> string option" where
  "graph_of st s =
     (case sort_key graph_rank (sort (map q_graph (filter (\<lambda>q. q_subject q = NamedNode s) st))) of
        [] \<Rightarrow> None | g # _ \<Rightarrow> Some g)"

definition store_count :: "store \<Rightarrow> nat" where
  "store_count st = length st"

section \<open>The closure\<close>

definition follows :: "store \<Rightarrow> (node \<times> node) set" where
  "follows st = {(m, n). \<exists>q \<in> set st. q_subject q = m \<and> n \<in> set (owned_objects q)}"

definition record_quads :: "store \<Rightarrow> string \<Rightarrow> quad set" where
  "record_quads st s = {q \<in> set st. q_subject q \<in> (follows st)\<^sup>* `` {NamedNode s}}"

definition speaks :: "store \<Rightarrow> node \<Rightarrow> bool" where
  "speaks st n \<longleftrightarrow> (\<exists>q \<in> set st. q_subject q = n)"

lemma set_hop: "set (hop st ns) = follows st `` set ns"
  by (auto simp: hop_def follows_def)

lemma set_level_nodes: "set (level_nodes st s d) = (follows st ^^ d) `` {NamedNode s}"
  by (induction d) (auto simp: set_hop)

lemma set_describe_rows:
  "(d, q) \<in> set (describe_rows st s depth) \<longleftrightarrow>
     d \<le> depth \<and> q \<in> set st \<and> q_subject q \<in> (follows st ^^ d) `` {NamedNode s}"
  by (auto simp: describe_rows_def set_level_nodes simp del: upt_Suc)

lemma described:
  "set (dedup (map snd (describe_rows st s depth)))
     = {q \<in> set st. \<exists>d \<le> depth. q_subject q \<in> (follows st ^^ d) `` {NamedNode s}}"
proof -
  have "q \<in> snd ` set (describe_rows st s depth) \<longleftrightarrow>
      q \<in> set st \<and> (\<exists>d \<le> depth. q_subject q \<in> (follows st ^^ d) `` {NamedNode s})" for q
    by (auto simp: image_iff set_describe_rows Bex_def)
  then show ?thesis by auto
qed

lemma follows_speaks: "(m, n) \<in> follows st \<Longrightarrow> speaks st m"
  by (auto simp: follows_def speaks_def)

lemma relpow_speaks: "(m, n) \<in> follows st ^^ Suc d \<Longrightarrow> speaks st m"
  by (metis follows_speaks relpow_Suc_E2)

text \<open>If the last level shows no new speaker, no later one does.\<close>

lemma no_new_speakers:
  assumes "\<And>n. speaks st n \<Longrightarrow> (m, n) \<in> follows st ^^ D \<Longrightarrow> \<exists>d < D. (m, n) \<in> follows st ^^ d"
    and "(m, n) \<in> follows st ^^ k" "speaks st n"
  shows "\<exists>d \<le> D. (m, n) \<in> follows st ^^ d"
  using assms(2,3)
proof (induction k arbitrary: n rule: less_induct)
  case (less k)
  show ?case
  proof (cases "k \<le> D")
    case True
    with less.prems show ?thesis by blast
  next
    case False
    then obtain j where j: "k = Suc j" by (cases k) auto
    with less.prems obtain p where p: "(m, p) \<in> follows st ^^ j" "(p, n) \<in> follows st" by auto
    have "speaks st p" using p(2) by (rule follows_speaks)
    with less.IH [of j p] j p(1) obtain d where d: "d \<le> D" "(m, p) \<in> follows st ^^ d" by auto
    have "\<exists>d < D. (m, p) \<in> follows st ^^ d"
      using d assms(1) [OF \<open>speaks st p\<close>] by (metis le_neq_implies_less)
    then obtain e where e: "e < D" "(m, p) \<in> follows st ^^ e" by blast
    then have "(m, n) \<in> follows st ^^ Suc e" using p(2) by auto
    with e(1) show ?thesis by (intro exI [of _ "Suc e"]) simp
  qed
qed

definition keys_apart :: "store \<Rightarrow> bool" where
  "keys_apart st \<longleftrightarrow> inj_on subject_key (q_subject ` set st)"

lemma not_truncated:
  assumes "keys_apart st"
    and "\<not> truncated (map (\<lambda>(d, q). (d, subject_key (q_subject q))) (describe_rows st s D)) D"
    and "speaks st n" "(NamedNode s, n) \<in> follows st ^^ D"
  shows "\<exists>d < D. (NamedNode s, n) \<in> follows st ^^ d"
proof -
  obtain q where q: "q \<in> set st" "q_subject q = n" using assms(3) by (auto simp: speaks_def)
  with assms(4) have "(D, q) \<in> set (describe_rows st s D)" by (simp add: set_describe_rows)
  then have "(D, subject_key n) \<in> set (map (\<lambda>(d, q). (d, subject_key (q_subject q))) (describe_rows st s D))"
    using q(2) by force
  with assms(2) obtain d q' where q': "d < D" "(d, q') \<in> set (describe_rows st s D)" "subject_key (q_subject q') = subject_key n"
    unfolding truncated_def Let_def by fastforce
  from q'(2) have "q' \<in> set st" "(NamedNode s, q_subject q') \<in> follows st ^^ d" by (simp_all add: set_describe_rows)
  moreover have "q_subject q' = n"
    using assms(1) q q'(3) \<open>q' \<in> set st\<close> unfolding keys_apart_def by (auto dest: inj_onD)
  ultimately show ?thesis using q'(1) by blast
qed

lemma describe_loop_result:
  assumes "0 < depth"
  shows "\<exists>D \<ge> depth. describe_loop st s depth = Some (dedup (map snd (describe_rows st s D)))
     \<and> (\<not> truncated (map (\<lambda>(d, q). (d, subject_key (q_subject q))) (describe_rows st s D)) D \<or> MAX_DEPTH \<le> D)"
  using assms
proof (induction "MAX_DEPTH - depth" arbitrary: depth rule: less_induct)
  case less
  let ?levels = "\<lambda>D. map (\<lambda>(d, q). (d, subject_key (q_subject q))) (describe_rows st s D)"
  show ?case
  proof (cases "\<not> truncated (?levels depth) depth \<or> MAX_DEPTH \<le> depth")
    case True
    then have "describe_loop st s depth = Some (dedup (map snd (describe_rows st s depth)))"
      by (subst describe_loop.simps) (simp add: Let_def)
    with True show ?thesis by blast
  next
    case False
    then have step: "describe_loop st s depth = describe_loop st s (min (depth * 2) MAX_DEPTH)"
      by (subst describe_loop.simps) (simp add: Let_def)
    have "MAX_DEPTH - min (depth * 2) MAX_DEPTH < MAX_DEPTH - depth" "0 < min (depth * 2) MAX_DEPTH"
      using False less.prems by auto
    from less.hyps [OF this] obtain D where "D \<ge> min (depth * 2) MAX_DEPTH"
      "describe_loop st s (min (depth * 2) MAX_DEPTH) = Some (dedup (map snd (describe_rows st s D)))"
      "\<not> truncated (?levels D) D \<or> MAX_DEPTH \<le> D" by blast
    moreover from this(1) have "depth \<le> D" using False by auto
    ultimately show ?thesis using step by auto
  qed
qed

lemma owned_within: "owned_closure st g n \<subseteq> (follows st)\<^sup>* `` {n}"
  unfolding owned_closure_def by (intro Image_mono rtrancl_mono) (auto simp: owns_def follows_def)

text \<open>What a deletion in one graph takes of a record: only its statements, and all of them if they are in that graph.\<close>

lemma deleted_record:
  "set st - record_quads st s \<subseteq> set (delete_subject s g st)"
  "\<forall>q \<in> record_quads st s. q_graph q = g \<Longrightarrow> set (delete_subject s g st) = set st - record_quads st s"
proof -
  show "set st - record_quads st s \<subseteq> set (delete_subject s g st)"
    using owned_within [of st g "NamedNode s"] by (auto simp: set_delete_subject record_quads_def)
  assume own: "\<forall>q \<in> record_quads st s. q_graph q = g"
  have "n \<in> owned_closure st g (NamedNode s)" if "(NamedNode s, n) \<in> (follows st)\<^sup>*" for n
    using that
  proof induction
    case (step m n)
    from step.hyps(2) obtain q where q: "q \<in> set st" "q_subject q = m" "n \<in> set (owned_objects q)" by (auto simp: follows_def)
    with step.hyps(1) own have "q_graph q = g" by (auto simp: record_quads_def)
    with q have "(m, n) \<in> owns st g" by (auto simp: owns_def)
    with step.IH show ?case by (auto simp: owned_closure_def intro: rtrancl_into_rtrancl)
  qed simp
  with owned_within [of st g "NamedNode s"] own
  show "set (delete_subject s g st) = set st - record_quads st s"
    by (auto simp: set_delete_subject record_quads_def)
qed

text \<open>
  C34. Describing a record gives exactly its own statements and those of everything it owns, each
  once and whatever graph it is in, although each query looks only so many levels deep: the
  levels are deepened until nothing is missing, and a record whose parts are at most 32 levels
  below it is never cut off. A transaction that replaces the record in one graph of the store deletes
  nothing else, and all of it if its statements and those of what it owns are in that graph.
\<close>

theorem describe_returns_the_owned_closure:
  assumes "valid_iri s" "keys_apart st"
    and "\<forall>n. speaks st n \<and> (NamedNode s, n) \<in> (follows st)\<^sup>* \<longrightarrow> (\<exists>d \<le> MAX_DEPTH. (NamedNode s, n) \<in> follows st ^^ d)"
  shows "\<exists>qs. describe valid_iri st s = Some (Inr qs) \<and> distinct qs \<and> set qs = record_quads st s
     \<and> (\<forall>g st'. apply_tx valid_iri (replace_subject s g new_tx) st = Inr st' \<longrightarrow>
          set st - set qs \<subseteq> set st' \<and> set st' \<subseteq> set st \<and> ((\<forall>q \<in> set qs. q_graph q = g) \<longrightarrow> set st' = set st - set qs))"
proof -
  obtain D where D: "DEFAULT_DEPTH \<le> D" "describe_loop st s DEFAULT_DEPTH = Some (dedup (map snd (describe_rows st s D)))"
    "\<not> truncated (map (\<lambda>(d, q). (d, subject_key (q_subject q))) (describe_rows st s D)) D \<or> MAX_DEPTH \<le> D"
    using describe_loop_result [of DEFAULT_DEPTH st s] by (auto simp: DEFAULT_DEPTH_def)
  have deep: "\<exists>d \<le> D. (NamedNode s, n) \<in> follows st ^^ d" if n: "speaks st n" "(NamedNode s, n) \<in> (follows st)\<^sup>*" for n
    using D(3)
  proof
    assume "\<not> truncated (map (\<lambda>(d, q). (d, subject_key (q_subject q))) (describe_rows st s D)) D"
    note new = not_truncated [OF assms(2) this]
    from n(2) obtain k where k: "(NamedNode s, n) \<in> follows st ^^ k" by (auto dest: rtrancl_imp_relpow)
    show ?thesis by (rule no_new_speakers [OF new k n(1)])
  next
    assume "MAX_DEPTH \<le> D"
    moreover obtain d where "d \<le> MAX_DEPTH" "(NamedNode s, n) \<in> follows st ^^ d" using assms(3) n by blast
    ultimately show ?thesis by (intro exI [of _ d]) simp
  qed
  have set: "set (dedup (map snd (describe_rows st s D))) = record_quads st s"
  proof (rule set_eqI)
    fix q
    have "(\<exists>d \<le> D. (NamedNode s, q_subject q) \<in> follows st ^^ d) \<longleftrightarrow> (NamedNode s, q_subject q) \<in> (follows st)\<^sup>*" if "q \<in> set st"
    proof -
      have "speaks st (q_subject q)" using that by (auto simp: speaks_def)
      then show ?thesis using deep relpow_imp_rtrancl by meson
    qed
    then show "q \<in> set (dedup (map snd (describe_rows st s D))) \<longleftrightarrow> q \<in> record_quads st s"
      unfolding described record_quads_def mem_Collect_eq Image_singleton_iff by blast
  qed
  have "st' = delete_subject s g st" if "apply_tx valid_iri (replace_subject s g new_tx) st = Inr st'" for g st'
    using that by (simp add: apply_tx_def replace_subject_def new_tx_def Let_def split: option.splits)
  then have tx: "set st - record_quads st s \<subseteq> set st' \<and> set st' \<subseteq> set st
      \<and> ((\<forall>q \<in> record_quads st s. q_graph q = g) \<longrightarrow> set st' = set st - record_quads st s)"
    if "apply_tx valid_iri (replace_subject s g new_tx) st = Inr st'" for g st'
    using that deleted_record [of st s g] set_delete_subject [of s g st] by auto
  show ?thesis
  proof (intro exI conjI)
    show "describe valid_iri st s = Some (Inr (dedup (map snd (describe_rows st s D))))"
      using D(2) assms(1) by (simp add: describe_def)
  qed (use set tx in simp_all)
qed

text \<open>A record with a distribution and its checksum, and a statement of another graph.\<close>

definition demo_store :: store where
  "demo_store =
     [\<lparr>q_subject = NamedNode ''a'', q_predicate = ''http://www.w3.org/ns/dcat#distribution'', q_object = Node (NamedNode ''d''), q_graph = G_LOCAL\<rparr>,
      \<lparr>q_subject = NamedNode ''d'', q_predicate = ''http://spdx.org/rdf/terms#checksum'', q_object = Node (BlankNode ''c''), q_graph = G_LOCAL\<rparr>,
      \<lparr>q_subject = BlankNode ''c'', q_predicate = ''v'', q_object = Literal ''x'' ''t'' None, q_graph = G_LOCAL\<rparr>,
      \<lparr>q_subject = NamedNode ''p'', q_predicate = ''v'', q_object = Literal ''x'' ''t'' None, q_graph = G_SHAPES\<rparr>]"

lemma demo_follows: "follows demo_store = {(NamedNode ''a'', NamedNode ''d''), (NamedNode ''d'', BlankNode ''c'')}"
  by (auto simp: follows_def demo_store_def owned_objects_def is_owned_subresource_def OWNED_SUBRESOURCE_PREDICATES_def)

theorem describe_returns_the_owned_closure_witness:
  "\<exists>qs st'. describe (\<lambda>_. True) demo_store ''a'' = Some (Inr qs) \<and> distinct qs
     \<and> apply_tx (\<lambda>_. True) (replace_subject ''a'' G_LOCAL new_tx) demo_store = Inr st' \<and> set st' = set demo_store - set qs"
proof -
  have apart: "keys_apart demo_store" by (auto simp: keys_apart_def demo_store_def inj_on_def subject_key_def)
  have "\<exists>d \<le> MAX_DEPTH. (NamedNode ''a'', n) \<in> follows demo_store ^^ d" if "(NamedNode ''a'', n) \<in> (follows demo_store)\<^sup>*" for n
  proof -
    have "n = NamedNode ''a'' \<or> n = NamedNode ''d'' \<or> n = BlankNode ''c''"
      using that by induction (auto simp: demo_follows)
    moreover have "(NamedNode ''a'', NamedNode ''a'') \<in> follows demo_store ^^ 0"
      "(NamedNode ''a'', NamedNode ''d'') \<in> follows demo_store ^^ Suc 0"
      "(NamedNode ''a'', BlankNode ''c'') \<in> follows demo_store ^^ Suc (Suc 0)"
      by (auto simp: demo_follows)
    moreover have "0 \<le> MAX_DEPTH" "Suc 0 \<le> MAX_DEPTH" "Suc (Suc 0) \<le> MAX_DEPTH" by (simp_all add: MAX_DEPTH_def)
    ultimately show ?thesis by blast
  qed
  then have deep: "\<forall>n. speaks demo_store n \<and> (NamedNode ''a'', n) \<in> (follows demo_store)\<^sup>*
      \<longrightarrow> (\<exists>d \<le> MAX_DEPTH. (NamedNode ''a'', n) \<in> follows demo_store ^^ d)" by blast
  obtain st' where tx: "apply_tx (\<lambda>_. True) (replace_subject ''a'' G_LOCAL new_tx) demo_store = Inr st'"
    by (simp add: apply_tx_def tx_iris_def replace_subject_def new_tx_def Let_def)
  note described = describe_returns_the_owned_closure [of "\<lambda>_. True", OF TrueI apart deep]
  obtain qs where
    qs: "describe (\<lambda>_. True) demo_store ''a'' = Some (Inr qs)" "distinct qs" "set qs = record_quads demo_store ''a''"
    and all: "\<forall>g st'. apply_tx (\<lambda>_. True) (replace_subject ''a'' g new_tx) demo_store = Inr st' \<longrightarrow>
      set demo_store - set qs \<subseteq> set st' \<and> set st' \<subseteq> set demo_store \<and> ((\<forall>q \<in> set qs. q_graph q = g) \<longrightarrow> set st' = set demo_store - set qs)"
    by (insert described, elim exE conjE, rule that)
  have "n \<noteq> NamedNode ''p''" if "(NamedNode ''a'', n) \<in> (follows demo_store)\<^sup>*" for n
    using that by induction (auto simp: demo_follows)
  then have "\<forall>q \<in> set qs. q_subject q \<noteq> NamedNode ''p'' \<and> q \<in> set demo_store"
    by (auto simp: qs(3) record_quads_def)
  moreover have "\<forall>q \<in> set demo_store. q_subject q = NamedNode ''p'' \<or> q_graph q = G_LOCAL" by (simp add: demo_store_def)
  ultimately have own: "\<forall>q \<in> set qs. q_graph q = G_LOCAL" by blast
  from all [THEN spec, THEN spec, THEN mp, OF tx] own have "set st' = set demo_store - set qs" by blast
  with qs(1,2) tx show ?thesis by (intro exI conjI)
qed

text \<open>The local graph speaks for a record whenever it says anything of it.\<close>

lemma graph_of_local:
  assumes "\<lparr>q_subject = NamedNode s, q_predicate = p, q_object = v, q_graph = G_LOCAL\<rparr> \<in> set st"
  shows "graph_of st s = Some G_LOCAL"
proof -
  let ?gs = "sort_key graph_rank (sort (map q_graph (filter (\<lambda>q. q_subject q = NamedNode s) st)))"
  have "G_LOCAL \<in> set ?gs" using assms by force
  then obtain g gs where gs: "?gs = g # gs" by (cases ?gs) auto
  have "sorted (map graph_rank (g # gs))" unfolding gs [symmetric] by (rule sorted_sort_key)
  with \<open>G_LOCAL \<in> set ?gs\<close> gs have "graph_rank g \<le> graph_rank G_LOCAL" by auto
  then have "g = G_LOCAL" by (simp add: graph_rank_def split: if_splits)
  with gs show ?thesis by (simp add: graph_of_def)
qed

end
