(* ===== verification/Keywords.thy ===== *)
theory Keywords
  imports Tar_Prelude
begin

text \<open>
  The registry's own keyword list for artifacts (\<open>src/domain/keywords.rs\<close>): the entries, the
  fold that decides when two spellings name the same keyword, and the rewriting of a caller's
  keywords. Case and letters outside ASCII come from the Unicode tables of the standard library:
  the argument \<open>uni\<close> gives, for the UTF-8 bytes of one such character, its lower case if it is
  alphanumeric and nothing otherwise.
\<close>

record keyword =
  kw_slug :: string
  kw_label :: string
  kw_definition :: string
  kw_aliases :: "string list"

definition KEYWORDS :: "keyword list" where
  "KEYWORDS =
     [\<lparr>kw_slug = ''embeddings'', kw_label = ''Embeddings'',
       kw_definition = ''Dense vector representations of terms, documents or graph nodes.'',
       kw_aliases = [''embedding'', ''vector embeddings'', ''embedding vectors'', ''word embeddings'']\<rparr>,
      \<lparr>kw_slug = ''owl'', kw_label = ''OWL'',
       kw_definition = ''An OWL ontology, or a module of one.'',
       kw_aliases = [''owl ontology'', ''owl 2'', ''owl2'', ''web ontology language'']\<rparr>,
      \<lparr>kw_slug = ''rdf-graphs'', kw_label = ''RDF Graphs'',
       kw_definition = ''RDF data in any serialisation, named or default graph.'',
       kw_aliases = [''rdf graph'', ''rdf'', ''rdf data'', ''rdf dataset'', ''triples'', ''quads'']\<rparr>,
      \<lparr>kw_slug = ''shacl'', kw_label = ''SHACL'',
       kw_definition = ''SHACL shapes, or the reports a SHACL processor produces from them.'',
       kw_aliases = [''shacl shapes'', ''shapes constraint language'', ''shacl shapes graph'']\<rparr>,
      \<lparr>kw_slug = ''shex'', kw_label = ''SHEX'',
       kw_definition = ''ShEx schemas, or the results of validating against them.'',
       kw_aliases = [''shex'', ''shape expressions'', ''shex schema'']\<rparr>,
      \<lparr>kw_slug = ''mappings'', kw_label = ''Mappings'',
       kw_definition = ''Declarative mappings from non-RDF sources into RDF.'',
       kw_aliases = [''mapping'', ''rml'', ''rml mapping'', ''r2rml'', ''yarrrml'', ''obda mapping'']\<rparr>,
      \<lparr>kw_slug = ''sparql-query'', kw_label = ''SPARQL query'',
       kw_definition = ''A SPARQL query, or a stored set of them.'',
       kw_aliases = [''sparql'', ''sparql queries'', ''sparql query'']\<rparr>]"

definition keyword_iri :: "string \<Rightarrow> string \<Rightarrow> string" where
  "keyword_iri base slug = trim_end_matches (CHR ''/'') base @ ''/keyword/'' @ slug"

definition keyword_scheme_iri :: "string \<Rightarrow> string" where
  "keyword_scheme_iri base = trim_end_matches (CHR ''/'') base @ ''/scheme/artifact-keywords''"

section \<open>Folding\<close>

text \<open>\<open>str::chars\<close> on UTF-8: a lead byte with the continuation bytes after it.\<close>

function utf8_chars :: "string \<Rightarrow> string list" where
  "utf8_chars [] = []"
| "utf8_chars (c # cs) = (c # takeWhile is_continuation cs) # utf8_chars (dropWhile is_continuation cs)"
  by pat_completeness auto
termination by (relation "measure length") (auto simp: le_imp_less_Suc length_dropWhile_le)

definition fold_char :: "(string \<Rightarrow> string) \<Rightarrow> string \<Rightarrow> string" where
  "fold_char uni ch =
     (case ch of
        [c] \<Rightarrow> if byte c < 128 then (if is_ascii_alphanumeric c then [ascii_lower_char c] else []) else uni ch
      | _ \<Rightarrow> uni ch)"

definition fold_keyword :: "(string \<Rightarrow> string) \<Rightarrow> string \<Rightarrow> string" where
  "fold_keyword uni s = concat (map (fold_char uni) (utf8_chars s))"

text \<open>The names of an entry: its label, its slug and its aliases.\<close>

definition keyword_names :: "keyword \<Rightarrow> string list" where
  "keyword_names k = kw_label k # kw_slug k # kw_aliases k"

definition lookup_keyword :: "(string \<Rightarrow> string) \<Rightarrow> string \<Rightarrow> keyword option" where
  "lookup_keyword uni s =
     (let key = fold_keyword uni s
      in if key = [] then None
         else find (\<lambda>k. fold_keyword uni (kw_label k) = key \<or> fold_keyword uni (kw_slug k) = key
                        \<or> (\<exists>a \<in> set (kw_aliases k). fold_keyword uni a = key)) KEYWORDS)"

section \<open>Rewriting a caller's keywords\<close>

definition normalise_keyword ::
  "(string \<Rightarrow> string) \<Rightarrow> string \<Rightarrow> string \<Rightarrow> string list \<times> string list \<Rightarrow> string list \<times> string list" where
  "normalise_keyword uni base raw acc =
     (let trimmed = trim raw
      in if trimmed = [] then acc
         else case lookup_keyword uni trimmed of
                Some k \<Rightarrow> (push_new (kw_label k) (fst acc), push_new (keyword_iri base (kw_slug k)) (snd acc))
              | None \<Rightarrow> (push_new trimmed (fst acc), snd acc))"

definition normalise_keywords ::
  "(string \<Rightarrow> string) \<Rightarrow> string \<Rightarrow> string list \<Rightarrow> string list \<times> string list" where
  "normalise_keywords uni base keywords = fold (normalise_keyword uni base) keywords ([], [])"

section \<open>The list\<close>

lemma utf8_chars_ascii: "\<forall>c \<in> set s. \<not> is_continuation c \<Longrightarrow> utf8_chars s = map (\<lambda>c. [c]) s"
proof (induction s)
  case (Cons c cs)
  have "takeWhile is_continuation cs = [] \<and> dropWhile is_continuation cs = cs"
    using Cons.prems by (cases cs) auto
  with Cons show ?case by simp
qed simp

lemma fold_keyword_ascii:
  assumes "\<forall>c \<in> set s. byte c < 128"
  shows "fold_keyword uni s = map ascii_lower_char (filter is_ascii_alphanumeric s)"
proof -
  have "\<forall>c \<in> set s. \<not> is_continuation c" using assms by (auto simp: is_continuation_def)
  then have "fold_keyword uni s = concat (map (fold_char uni \<circ> (\<lambda>c. [c])) s)"
    by (simp add: fold_keyword_def utf8_chars_ascii)
  also have "\<dots> = map ascii_lower_char (filter is_ascii_alphanumeric s)"
    using assms by (induction s) (auto simp: fold_char_def)
  finally show ?thesis .
qed

lemma lookup_keyword_cong: "fold_keyword uni a = fold_keyword uni b \<Longrightarrow> lookup_keyword uni a = lookup_keyword uni b"
  by (simp add: lookup_keyword_def)

definition ascii_fold :: "string \<Rightarrow> string" where
  "ascii_fold s = map ascii_lower_char (filter is_ascii_alphanumeric s)"

text \<open>The folded names of the entries, as they are and in their order; no name is in two of them.\<close>

definition FOLDED_NAMES :: "string list list" where
  "FOLDED_NAMES =
     [[''embeddings'', ''embeddings'', ''embedding'', ''vectorembeddings'', ''embeddingvectors'', ''wordembeddings''],
      [''owl'', ''owl'', ''owlontology'', ''owl2'', ''owl2'', ''webontologylanguage''],
      [''rdfgraphs'', ''rdfgraphs'', ''rdfgraph'', ''rdf'', ''rdfdata'', ''rdfdataset'', ''triples'', ''quads''],
      [''shacl'', ''shacl'', ''shaclshapes'', ''shapesconstraintlanguage'', ''shaclshapesgraph''],
      [''shex'', ''shex'', ''shex'', ''shapeexpressions'', ''shexschema''],
      [''mappings'', ''mappings'', ''mapping'', ''rml'', ''rmlmapping'', ''r2rml'', ''yarrrml'', ''obdamapping''],
      [''sparqlquery'', ''sparqlquery'', ''sparql'', ''sparqlqueries'', ''sparqlquery'']]"

lemma folded_names: "map (\<lambda>k. map ascii_fold (keyword_names k)) KEYWORDS = FOLDED_NAMES"
  by code_simp

lemma ascii_names: "list_all (\<lambda>k. list_all (\<lambda>n. list_all (\<lambda>c. byte c < 128) n) (keyword_names k)) KEYWORDS"
  by code_simp

lemma trimmed_labels: "list_all (\<lambda>k. trim (kw_label k) = kw_label k) KEYWORDS"
  by code_simp

lemma names_apart:
  "list_all (\<lambda>i. list_all (\<lambda>n. n \<noteq> [] \<and> list_all (\<lambda>j. n \<in> set (FOLDED_NAMES ! j) \<longrightarrow> i = j) [0..<7]) (FOLDED_NAMES ! i)) [0..<7]"
  by code_simp

lemma length_KEYWORDS: "length KEYWORDS = 7"
  by (simp add: KEYWORDS_def)

lemma folded_names_nth: "i < 7 \<Longrightarrow> FOLDED_NAMES ! i = map ascii_fold (keyword_names (KEYWORDS ! i))"
  by (simp add: folded_names [symmetric] length_KEYWORDS)

lemma keyword_name_ok:
  assumes "k \<in> set KEYWORDS" "n \<in> set (keyword_names k)"
  shows "\<forall>c \<in> set n. byte c < 128" "ascii_fold n \<noteq> []"
    "find (\<lambda>k'. ascii_fold n \<in> set (map ascii_fold (keyword_names k'))) KEYWORDS = Some k"
proof -
  show "\<forall>c \<in> set n. byte c < 128"
    using ascii_names assms unfolding list_all_iff by blast
  obtain i where i: "i < 7" "k = KEYWORDS ! i" using assms(1) by (auto simp: in_set_conv_nth length_KEYWORDS)
  have n: "ascii_fold n \<in> set (FOLDED_NAMES ! i)" using assms(2) i by (simp add: folded_names_nth)
  have in_range: "j \<in> set [0..<7]" if "j < 7" for j :: nat using that by (simp only: set_upt atLeastLessThan_iff le0 simp_thms)
  note own = bspec [OF bspec [OF names_apart [unfolded list_all_iff] in_range [OF i(1)]] n]
  have apart: "ascii_fold n \<noteq> []" by (rule conjunct1 [OF own])
  have apart2: "i = j" if "j < 7" "ascii_fold n \<in> set (FOLDED_NAMES ! j)" for j
    by (rule bspec [OF conjunct2 [OF own] in_range [OF that(1)], THEN mp, OF that(2)])
  show "ascii_fold n \<noteq> []" by (rule apart)
  show "find (\<lambda>k'. ascii_fold n \<in> set (map ascii_fold (keyword_names k'))) KEYWORDS = Some k"
  proof (rule find_unique [OF assms(1)])
    show "ascii_fold n \<in> set (map ascii_fold (keyword_names k))" using assms(2) by simp
    fix k' assume "k' \<in> set KEYWORDS" "ascii_fold n \<in> set (map ascii_fold (keyword_names k'))"
    then obtain j where "j < 7" "k' = KEYWORDS ! j" "ascii_fold n \<in> set (FOLDED_NAMES ! j)"
      by (auto simp: in_set_conv_nth length_KEYWORDS folded_names_nth)
    with apart2 [of j] i(2) show "k' = k" by simp
  qed
qed

lemma fold_keyword_name:
  "k \<in> set KEYWORDS \<Longrightarrow> n \<in> set (keyword_names k) \<Longrightarrow> fold_keyword uni n = ascii_fold n"
  using keyword_name_ok(1) by (simp add: fold_keyword_ascii ascii_fold_def)

lemma lookup_keyword_fold:
  "lookup_keyword uni s =
     (if fold_keyword uni s = [] then None
      else find (\<lambda>k. fold_keyword uni s \<in> set (map ascii_fold (keyword_names k))) KEYWORDS)"
  unfolding lookup_keyword_def Let_def
proof (intro if_cong refl find_cong)
  fix k assume k: "k \<in> set KEYWORDS"
  note f = fold_keyword_name [OF k]
  have "ascii_fold (kw_label k) = fold_keyword uni (kw_label k)" "ascii_fold (kw_slug k) = fold_keyword uni (kw_slug k)"
    by (simp_all add: f keyword_names_def)
  moreover have "ascii_fold ` set (kw_aliases k) = fold_keyword uni ` set (kw_aliases k)"
    by (rule image_cong) (simp_all add: f keyword_names_def)
  moreover have "(\<exists>a \<in> set (kw_aliases k). fold_keyword uni a = fold_keyword uni s)
      = (fold_keyword uni s \<in> fold_keyword uni ` set (kw_aliases k))"
    unfolding image_iff by (intro bex_cong) auto
  ultimately show "(fold_keyword uni (kw_label k) = fold_keyword uni s \<or> fold_keyword uni (kw_slug k) = fold_keyword uni s
      \<or> (\<exists>a \<in> set (kw_aliases k). fold_keyword uni a = fold_keyword uni s))
    = (fold_keyword uni s \<in> set (map ascii_fold (keyword_names k)))"
    by (auto simp: keyword_names_def)
qed

lemma lookup_keyword_name:
  assumes "k \<in> set KEYWORDS" "n \<in> set (keyword_names k)" shows "lookup_keyword uni n = Some k"
  using keyword_name_ok(2,3) [OF assms] fold_keyword_name [OF assms] by (simp add: lookup_keyword_fold)

lemma lookup_keyword_known: "lookup_keyword uni s = Some k \<Longrightarrow> k \<in> set KEYWORDS"
  by (auto simp: lookup_keyword_def Let_def split: if_splits dest: find_SomeD)

section \<open>Normalised keywords\<close>

definition canonical_keyword :: "(string \<Rightarrow> string) \<Rightarrow> string \<Rightarrow> string" where
  "canonical_keyword uni raw = (case lookup_keyword uni (trim raw) of Some k \<Rightarrow> kw_label k | None \<Rightarrow> trim raw)"

definition keyword_theme :: "(string \<Rightarrow> string) \<Rightarrow> string \<Rightarrow> string \<Rightarrow> string option" where
  "keyword_theme uni base raw = map_option (keyword_iri base \<circ> kw_slug) (lookup_keyword uni (trim raw))"

lemma label_trimmed: "k \<in> set KEYWORDS \<Longrightarrow> trim (kw_label k) = kw_label k"
  using trimmed_labels unfolding list_all_iff by blast

lemma lookup_label: "k \<in> set KEYWORDS \<Longrightarrow> lookup_keyword uni (trim (kw_label k)) = Some k"
  by (simp add: label_trimmed lookup_keyword_name keyword_names_def)

lemma lookup_canonical [simp]: "lookup_keyword uni (trim (canonical_keyword uni raw)) = lookup_keyword uni (trim raw)"
  by (auto simp: canonical_keyword_def lookup_label dest: lookup_keyword_known split: option.split)

lemma canonical_idem [simp]: "canonical_keyword uni (canonical_keyword uni raw) = canonical_keyword uni raw"
  unfolding canonical_keyword_def [of uni "canonical_keyword uni raw"]
  by (simp split: option.split) (auto simp: canonical_keyword_def)

lemma theme_canonical [simp]: "keyword_theme uni base (canonical_keyword uni raw) = keyword_theme uni base raw"
  by (simp add: keyword_theme_def)

lemma canonical_not_blank: "trim raw \<noteq> [] \<Longrightarrow> trim (canonical_keyword uni raw) \<noteq> []"
proof -
  have "kw_label k \<noteq> []" if "k \<in> set KEYWORDS" for k
    using keyword_name_ok(2) [OF that, of "kw_label k"] by (auto simp: keyword_names_def ascii_fold_def)
  then show "trim raw \<noteq> [] \<Longrightarrow> ?thesis"
    by (auto simp: canonical_keyword_def label_trimmed dest!: lookup_keyword_known split: option.split)
qed

lemma normalise_keywords_fold:
  "fold (normalise_keyword uni base) ks (ls, ts) =
     (fold push_new (map (canonical_keyword uni) (filter (\<lambda>r. trim r \<noteq> []) ks)) ls,
      fold push_new (List.map_filter (keyword_theme uni base) (filter (\<lambda>r. trim r \<noteq> []) ks)) ts)"
  by (induction ks arbitrary: ls ts)
    (auto simp: normalise_keyword_def Let_def canonical_keyword_def keyword_theme_def map_filter_simps split: option.split)

lemma normalise_keywords_eq:
  "normalise_keywords uni base ks =
     (dedup (map (canonical_keyword uni) (filter (\<lambda>r. trim r \<noteq> []) ks)),
      dedup (List.map_filter (keyword_theme uni base) (filter (\<lambda>r. trim r \<noteq> []) ks)))"
  by (simp add: normalise_keywords_def normalise_keywords_fold dedup_def)

text \<open>
  The keyword list does what it is for: whatever spelling of an entry is given, with any case,
  punctuation and spacing, the artifact gets the one label and the one concept of the entry, and
  writing the rewritten keywords again changes nothing, so that the several write paths that
  normalise cannot drift apart.
\<close>

theorem keywords_are_canonical:
  assumes "k \<in> set KEYWORDS" "n \<in> set (keyword_names k)" "fold_keyword uni (trim s) = fold_keyword uni n"
  shows "normalise_keywords uni base [s] = ([kw_label k], [keyword_iri base (kw_slug k)])
     \<and> normalise_keywords uni base (fst (normalise_keywords uni base ks)) = normalise_keywords uni base ks
     \<and> distinct (fst (normalise_keywords uni base ks)) \<and> distinct (snd (normalise_keywords uni base ks))"
proof -
  have l: "lookup_keyword uni (trim s) = Some k"
    using lookup_keyword_cong [OF assms(3)] lookup_keyword_name [OF assms(1,2)] by simp
  then have "trim s \<noteq> []" by (auto simp: lookup_keyword_def fold_keyword_def)
  with l have one: "normalise_keywords uni base [s] = ([kw_label k], [keyword_iri base (kw_slug k)])"
    by (simp add: normalise_keywords_def normalise_keyword_def push_new_def)
  let ?nb = "filter (\<lambda>r. trim r \<noteq> []) ks"
  let ?labels = "dedup (map (canonical_keyword uni) ?nb)"
  have nb: "filter (\<lambda>r. trim r \<noteq> []) ?labels = ?labels"
    by (auto simp: filter_id_conv canonical_not_blank)
  have "map (canonical_keyword uni) ?labels = ?labels"
    by (rule map_idI) auto
  moreover have "dedup (List.map_filter (keyword_theme uni base) ?labels) = dedup (List.map_filter (keyword_theme uni base) ?nb)"
    by (simp add: dedup_map_filter_dedup map_filter_map comp_def)
  ultimately have again: "normalise_keywords uni base (fst (normalise_keywords uni base ks)) = normalise_keywords uni base ks"
    by (simp add: normalise_keywords_eq nb)
  show ?thesis using one again by (simp add: normalise_keywords_eq)
qed

theorem keywords_are_canonical_witness:
  "normalise_keywords (\<lambda>_. []) ''https://reg.test/'' ['' SHACL-Shapes ''] = ([''SHACL''], [''https://reg.test/keyword/shacl''])"
proof -
  let ?k = "KEYWORDS ! 3"
  have k: "?k \<in> set KEYWORDS" "''shacl shapes'' \<in> set (keyword_names ?k)"
    by (simp_all add: KEYWORDS_def keyword_names_def)
  have "fold_keyword (\<lambda>_. []) (trim '' SHACL-Shapes '') = fold_keyword (\<lambda>_. []) ''shacl shapes''" by code_simp
  from keywords_are_canonical [OF k this, of "''https://reg.test/''" "[]"]
  show ?thesis by (simp add: KEYWORDS_def keyword_iri_def trim_end_matches_def)
qed

end
