(* ===== verification/Content_Ids.thy ===== *)
theory Content_Ids
  imports Tar_Prelude
begin

text \<open>
  Content identifiers (\<open>src/domain/content.rs\<close>): a digest in any spelling is turned into one name
  of the form \<open>ni:///sha-256;<base64url>\<close>. Hex and base64 are those of the \<open>hex\<close> and \<open>base64\<close>
  crates: an argument with the decoder of each alphabet and padding the code tries.
\<close>

datatype b64_engine = URL_SAFE_NO_PAD | URL_SAFE | STANDARD_NO_PAD | STANDARD

record codec =
  hex_decode :: "string \<Rightarrow> string option"
  hex_encode :: "string \<Rightarrow> string"
  b64_decode :: "b64_engine \<Rightarrow> string \<Rightarrow> string option"
  b64url_encode :: "string \<Rightarrow> string"

definition NI_PREFIX :: string where "NI_PREFIX = ''ni:///''"

record digest_algorithm =
  da_name :: string
  da_aliases :: "string list"
  da_bytes :: nat
  da_derives :: bool

definition ALGORITHMS :: "digest_algorithm list" where
  "ALGORITHMS =
     [\<lparr>da_name = ''sha-256'', da_aliases = [''sha256'', ''sha2256''], da_bytes = 32, da_derives = True\<rparr>,
      \<lparr>da_name = ''sha-384'', da_aliases = [''sha384'', ''sha2384''], da_bytes = 48, da_derives = True\<rparr>,
      \<lparr>da_name = ''sha-512'', da_aliases = [''sha512'', ''sha2512''], da_bytes = 64, da_derives = True\<rparr>,
      \<lparr>da_name = ''sha-224'', da_aliases = [''sha224''], da_bytes = 28, da_derives = False\<rparr>,
      \<lparr>da_name = ''sha3-256'', da_aliases = [''sha3256''], da_bytes = 32, da_derives = False\<rparr>,
      \<lparr>da_name = ''sha3-384'', da_aliases = [''sha3384''], da_bytes = 48, da_derives = False\<rparr>,
      \<lparr>da_name = ''sha3-512'', da_aliases = [''sha3512''], da_bytes = 64, da_derives = False\<rparr>,
      \<lparr>da_name = ''blake2b-256'', da_aliases = [''blake2b256''], da_bytes = 32, da_derives = False\<rparr>,
      \<lparr>da_name = ''blake2b-512'', da_aliases = [''blake2b512''], da_bytes = 64, da_derives = False\<rparr>,
      \<lparr>da_name = ''blake3'', da_aliases = [''blake3''], da_bytes = 32, da_derives = False\<rparr>,
      \<lparr>da_name = ''sha-1'', da_aliases = [''sha1''], da_bytes = 20, da_derives = False\<rparr>,
      \<lparr>da_name = ''md5'', da_aliases = [''md5''], da_bytes = 16, da_derives = False\<rparr>]"

definition deriving_names :: "string list" where
  "deriving_names = map da_name (filter da_derives ALGORITHMS)"

definition normalise_algorithm :: "string \<Rightarrow> string" where
  "normalise_algorithm s = filter (\<lambda>c. c \<noteq> CHR ''-'' \<and> c \<noteq> CHR ''_'' \<and> c \<noteq> CHR '' '') (to_ascii_lowercase s)"

definition find_algorithm :: "string \<Rightarrow> digest_algorithm option" where
  "find_algorithm name =
     (let n = normalise_algorithm name
      in find (\<lambda>a. normalise_algorithm (da_name a) = n \<or> n \<in> set (da_aliases a)) ALGORITHMS)"

datatype digest_problem = Unknown_Algorithm | Malformed_Digest nat | Not_Derivable

definition problem_message :: "string \<Rightarrow> digest_problem \<Rightarrow> string" where
  "problem_message a p =
     (case p of
        Unknown_Algorithm \<Rightarrow> ''`'' @ a @ ''` is not a digest algorithm this registry recognises, so it cannot check the digest is even the right length. Use one of: ''
          @ join '', '' (map da_name ALGORITHMS) @ ''.''
      | Malformed_Digest n \<Rightarrow> ''that is not a '' @ a @ '' digest: it must be '' @ show_nat n
          @ '' hexadecimal characters (what `sha256sum` and `openssl dgst` print), or the same digest in base64. A digest of the wrong length or alphabet cannot match anything, here or at any other registry.''
      | Not_Derivable \<Rightarrow> ''a stable content identifier is not derived from '' @ a @ ''; use one of: ''
          @ join '', '' deriving_names @ ''.'')"

record content_id =
  ci_iri :: string
  ci_algorithm :: string
  ci_hex :: string
  ci_base64url :: string

definition base64_attempts :: "codec \<Rightarrow> string \<Rightarrow> string option list" where
  "base64_attempts cd v = map (\<lambda>e. b64_decode cd e v) [URL_SAFE_NO_PAD, URL_SAFE, STANDARD_NO_PAD, STANDARD]"

definition decode_base64 :: "codec \<Rightarrow> string \<Rightarrow> nat \<Rightarrow> string option" where
  "decode_base64 cd v bytes = find (\<lambda>raw. length raw = bytes) (List.map_filter id (base64_attempts cd v))"

definition decode_digest :: "codec \<Rightarrow> string \<Rightarrow> nat \<Rightarrow> string option" where
  "decode_digest cd value bytes =
     (let v = trim value
      in if length v = bytes * 2 \<and> hex_decode cd v \<noteq> None then hex_decode cd v else decode_base64 cd v bytes)"

definition content_name :: "codec \<Rightarrow> digest_algorithm \<Rightarrow> string \<Rightarrow> content_id" where
  "content_name cd alg raw =
     \<lparr>ci_iri = NI_PREFIX @ da_name alg @ '';'' @ b64url_encode cd raw, ci_algorithm = da_name alg,
      ci_hex = hex_encode cd raw, ci_base64url = b64url_encode cd raw\<rparr>"

definition identify_content :: "codec \<Rightarrow> string \<Rightarrow> string \<Rightarrow> digest_problem + content_id" where
  "identify_content cd name value =
     (case find_algorithm name of
        None \<Rightarrow> Inl Unknown_Algorithm
      | Some alg \<Rightarrow>
          (case decode_digest cd value (da_bytes alg) of
             None \<Rightarrow> Inl (Malformed_Digest (da_bytes alg * 2))
           | Some raw \<Rightarrow> if da_derives alg then Inr (content_name cd alg raw) else Inl Not_Derivable))"

definition check_digest :: "codec \<Rightarrow> string \<Rightarrow> string \<Rightarrow> digest_problem + unit" where
  "check_digest cd name value =
     (case identify_content cd name value of
        Inr _ \<Rightarrow> Inr () | Inl Not_Derivable \<Rightarrow> Inr () | Inl e \<Rightarrow> Inl e)"

definition ok_iri :: "digest_problem + content_id \<Rightarrow> string option" where
  "ok_iri r = (case r of Inl _ \<Rightarrow> None | Inr c \<Rightarrow> Some (ci_iri c))"

definition parse_content_query :: "codec \<Rightarrow> string \<Rightarrow> string option" where
  "parse_content_query cd value =
     (let v = trim value
      in if v = [] then None
         else case strip_prefix NI_PREFIX v of
                Some rest \<Rightarrow>
                  (case split_once (CHR '';'') rest of
                     None \<Rightarrow> None
                   | Some (alg, digest) \<Rightarrow> ok_iri (identify_content cd alg digest))
              | None \<Rightarrow> find_map (\<lambda>a. ok_iri (identify_content cd (da_name a) v)) (filter da_derives ALGORITHMS))"

section \<open>What the name says\<close>

text \<open>
  What the crates document of one text \<open>v\<close>: hex reads two characters a byte; a base64 text of
  n bytes has at least 4n/3 characters and at most two more than that before it is rounded up to
  whole groups; no alphabet has a colon; and the engines that accept a text read the same bytes.
\<close>

definition reads_as_documented :: "codec \<Rightarrow> string \<Rightarrow> bool" where
  "reads_as_documented cd v \<longleftrightarrow>
     (case hex_decode cd v of None \<Rightarrow> True | Some x \<Rightarrow> length v = 2 * length x \<and> CHR '':'' \<notin> set v)
     \<and> list_all (\<lambda>a. case a of None \<Rightarrow> True
          | Some x \<Rightarrow> 4 * length x \<le> 3 * length v \<and> 3 * length v \<le> 4 * length x + 8 \<and> CHR '':'' \<notin> set v) (base64_attempts cd v)
     \<and> (\<forall>x \<in> set (base64_attempts cd v). \<forall>y \<in> set (base64_attempts cd v). x = None \<or> y = None \<or> x = y)"

text \<open>The text \<open>v\<close> spells the bytes \<open>r\<close>: as hex, or as base64 in either alphabet, padded or not.\<close>

definition spells :: "codec \<Rightarrow> string \<Rightarrow> string \<Rightarrow> bool" where
  "spells cd v r \<longleftrightarrow>
     hex_decode cd (trim v) = Some r
     \<or> (\<exists>e \<in> {URL_SAFE_NO_PAD, URL_SAFE, STANDARD_NO_PAD, STANDARD}. b64_decode cd e (trim v) = Some r)"

text \<open>The base64 the name is written in is visible text, and is read back by its own engine.\<close>

definition writes_as_documented :: "codec \<Rightarrow> string \<Rightarrow> bool" where
  "writes_as_documented cd r \<longleftrightarrow>
     b64_decode cd URL_SAFE_NO_PAD (b64url_encode cd r) = Some r \<and> visible (b64url_encode cd r)
     \<and> reads_as_documented cd (b64url_encode cd r)"

definition deriving :: "digest_algorithm list" where
  "deriving = [\<lparr>da_name = ''sha-256'', da_aliases = [''sha256'', ''sha2256''], da_bytes = 32, da_derives = True\<rparr>,
      \<lparr>da_name = ''sha-384'', da_aliases = [''sha384'', ''sha2384''], da_bytes = 48, da_derives = True\<rparr>,
      \<lparr>da_name = ''sha-512'', da_aliases = [''sha512'', ''sha2512''], da_bytes = 64, da_derives = True\<rparr>]"

lemma filter_derives: "filter da_derives ALGORITHMS = deriving"
  by (simp add: ALGORITHMS_def deriving_def)

lemma deriving_ok: "list_all (\<lambda>a. find_algorithm (da_name a) = Some a \<and> visible (da_name a) \<and> CHR '';'' \<notin> set (da_name a)) deriving"
  by code_simp

lemma visible_prefix: "visible NI_PREFIX" "visible '';''"
  by code_simp+

lemma identify_content_Inr:
  "identify_content cd a v = Inr c \<longleftrightarrow>
     (\<exists>alg raw. find_algorithm a = Some alg \<and> alg \<in> set deriving
        \<and> decode_digest cd v (da_bytes alg) = Some raw \<and> c = content_name cd alg raw)"
proof -
  have "alg \<in> set deriving \<longleftrightarrow> da_derives alg" if "find_algorithm a = Some alg" for alg
    using that unfolding filter_derives [symmetric] find_algorithm_def Let_def by (auto dest: find_SomeD)
  then show ?thesis by (auto simp: identify_content_def split: option.splits if_splits)
qed

lemma content_name_inject:
  assumes "a \<in> set deriving" "b \<in> set deriving"
  shows "ci_iri (content_name cd a r) = ci_iri (content_name cd b s) \<longleftrightarrow> a = b \<and> b64url_encode cd r = b64url_encode cd s"
proof
  assume "ci_iri (content_name cd a r) = ci_iri (content_name cd b s)"
  then have eq: "da_name a @ CHR '';'' # b64url_encode cd r = da_name b @ CHR '';'' # b64url_encode cd s"
    by (simp add: content_name_def)
  from deriving_ok assms have "CHR '';'' \<notin> set (da_name a)" "CHR '';'' \<notin> set (da_name b)"
      "find_algorithm (da_name a) = Some a" "find_algorithm (da_name b) = Some b"
    by (auto simp: list_all_iff)
  with eq show "a = b \<and> b64url_encode cd r = b64url_encode cd s"
    by (metis option.inject prod.inject split_once_append)
qed (simp add: content_name_def)

lemma spelled_base64:
  assumes "reads_as_documented cd v" "Some x \<in> set (base64_attempts cd v)"
  shows "4 * length x \<le> 3 * length v" "3 * length v \<le> 4 * length x + 8" "CHR '':'' \<notin> set v"
    "decode_base64 cd v n = (if length x = n then Some x else None)"
proof -
  from assms show "4 * length x \<le> 3 * length v" "3 * length v \<le> 4 * length x + 8" "CHR '':'' \<notin> set v"
    by (fastforce simp: reads_as_documented_def list_all_iff)+
  have same: "y = x" if "y \<in> set (List.map_filter id (base64_attempts cd v))" for y
  proof -
    from that have "Some y \<in> set (base64_attempts cd v)" by (auto simp: set_map_filter)
    with assms show ?thesis by (fastforce simp: reads_as_documented_def)
  qed
  have "x \<in> set (List.map_filter id (base64_attempts cd v))" using assms(2) by (force simp: set_map_filter)
  then have "find P (List.map_filter id (base64_attempts cd v)) = (if P x then Some x else None)"
    for P
  proof (cases "find P (List.map_filter id (base64_attempts cd v))")
    case None
    with \<open>x \<in> _\<close> show ?thesis by (metis find_None_iff)
  next
    case (Some y)
    with find_SomeD [OF Some] same show ?thesis by metis
  qed
  then show "decode_base64 cd v n = (if length x = n then Some x else None)"
    unfolding decode_base64_def by simp
qed

lemma spells_cases:
  assumes "spells cd v r"
  obtains (hex) "hex_decode cd (trim v) = Some r" | (base64) "Some r \<in> set (base64_attempts cd (trim v))"
  using assms by (auto simp: spells_def base64_attempts_def)

text \<open>A digest is read as the bytes that it spells, and no shorter algorithm takes it, but for one case.\<close>

lemma decode_spelled:
  assumes "reads_as_documented cd (trim v)" "spells cd v r" "length r \<in> {32, 48, 64}"
  shows "decode_digest cd v (length r) = Some r"
  using assms(2)
proof (cases rule: spells_cases)
  case hex
  with assms(1) show ?thesis by (simp add: decode_digest_def Let_def reads_as_documented_def)
next
  case base64
  with spelled_base64 [OF assms(1) this] assms(3) show ?thesis by (auto simp: decode_digest_def Let_def)
qed

lemma decode_shorter:
  assumes "reads_as_documented cd (trim v)" "spells cd v r" "length r \<in> {48, 64}" "n < length r" "n \<in> {32, 48}"
    and "\<not> (length r = 48 \<and> length (trim v) = 64 \<and> hex_decode cd (trim v) \<noteq> None)"
  shows "decode_digest cd v n = None"
  using assms(2)
proof (cases rule: spells_cases)
  case hex
  with assms(1) have l: "length (trim v) = 2 * length r" by (simp add: reads_as_documented_def)
  have "decode_base64 cd (trim v) n = None"
  proof (cases "\<exists>x. Some x \<in> set (base64_attempts cd (trim v))")
    case True
    then obtain x where x: "Some x \<in> set (base64_attempts cd (trim v))" by blast
    from spelled_base64 [OF assms(1) x] l assms(3-5) show ?thesis by auto
  next
    case False
    then show ?thesis by (auto simp: decode_base64_def find_None_iff set_map_filter)
  qed
  with l assms(4) show ?thesis by (simp add: decode_digest_def Let_def)
next
  case base64
  note b = spelled_base64 [OF assms(1) this]
  have "\<not> (length (trim v) = n * 2 \<and> hex_decode cd (trim v) \<noteq> None)"
    using b(1,2) assms(3-6) by auto
  with b(4) [of n] assms(4) show ?thesis by (auto simp: decode_digest_def Let_def)
qed

lemma decode_base64_length: "decode_base64 cd v n = Some raw \<Longrightarrow> length raw = n"
  by (auto simp: decode_base64_def dest: find_SomeD)

lemma deriving_member:
  assumes "a \<in> set deriving"
  shows "find_algorithm (da_name a) = Some a" "visible (da_name a)" "CHR '';'' \<notin> set (da_name a)" "da_bytes a \<in> {32, 48, 64}"
  using deriving_ok assms by (auto simp: list_all_iff) (auto simp: deriving_def)

lemma identify_own:
  assumes "a \<in> set deriving" "decode_digest cd v (da_bytes a) = Some r"
  shows "identify_content cd (da_name a) v = Inr (content_name cd a r)"
  unfolding identify_content_Inr using assms deriving_member(1) [OF assms(1)] by blast

lemma identify_spelled:
  assumes "find_algorithm a = Some alg" "alg \<in> set deriving" "reads_as_documented cd (trim v)" "spells cd v r" "length r = da_bytes alg"
  shows "identify_content cd a v = Inr (content_name cd alg r)"
proof -
  have "decode_digest cd v (da_bytes alg) = Some r"
    using decode_spelled [OF assms(3,4)] deriving_member(4) [OF assms(2)] assms(5) by simp
  then show ?thesis unfolding identify_content_Inr using assms(1,2) by blast
qed

text \<open>A digest put into the \<open>ni\<close> form under any name of its algorithm, in any spelling.\<close>

lemma parse_ni:
  assumes "find_algorithm a = Some alg" "alg \<in> set deriving" "reads_as_documented cd (trim v)" "spells cd v r" "length r = da_bytes alg"
    and "visible a" "visible v" "CHR '';'' \<notin> set a"
  shows "parse_content_query cd (NI_PREFIX @ a @ '';'' @ v) = Some (ci_iri (content_name cd alg r))"
proof -
  have "visible (NI_PREFIX @ a @ '';'' @ v)"
    using visible_prefix assms(6,7) visible_append [of "'';''" v] by simp
  then have "trim (NI_PREFIX @ a @ '';'' @ v) = NI_PREFIX @ a @ '';'' @ v" by (rule trim_visible)
  moreover have "split_once (CHR '';'') (a @ '';'' @ v) = Some (a, v)" using assms(8) by simp
  ultimately show ?thesis
    using identify_spelled [OF assms(1-5)] by (simp add: parse_content_query_def ok_iri_def)
qed

lemma find_map_first:
  assumes "a \<in> set xs" "f a = Some y" "\<And>b. b \<in> set xs \<Longrightarrow> key b < key a \<Longrightarrow> f b = None"
    and "sorted_wrt (\<lambda>b c. (key b :: nat) < key c) xs"
  shows "find_map f xs = Some y"
  using assms by (induction xs) auto

lemma deriving_by_length: "sorted_wrt (\<lambda>b c. da_bytes b < da_bytes c) deriving"
  by (simp add: deriving_def)

lemma parse_spelled:
  assumes "a \<in> set deriving" "reads_as_documented cd (trim v)" "spells cd v r" "length r = da_bytes a"
    and "\<not> (length r = 48 \<and> length (trim v) = 64 \<and> hex_decode cd (trim v) \<noteq> None)"
  shows "parse_content_query cd v = Some (ci_iri (content_name cd a r))"
proof -
  let ?att = "\<lambda>b. ok_iri (identify_content cd (da_name b) (trim v))"
  have twice: "trim (trim v) = trim v" by simp
  have again: "reads_as_documented cd (trim (trim v))" "spells cd (trim v) r"
    using assms(2,3) by (simp_all only: twice spells_def)
  have own: "?att a = Some (ci_iri (content_name cd a r))"
    using identify_spelled [OF deriving_member(1) [OF assms(1)] assms(1) again assms(4)] by (simp add: ok_iri_def)
  have other: "?att b = None" if "b \<in> set deriving" "da_bytes b < length r" for b
  proof -
    have "decode_digest cd (trim v) (da_bytes b) = None"
      using decode_shorter [OF again _ that(2)] that deriving_member(4) [OF assms(1)] deriving_member(4) [OF that(1)] assms(4,5)
      by (auto simp: twice)
    then show ?thesis using deriving_member(1) [OF that(1)] by (simp add: identify_content_def ok_iri_def)
  qed
  have "find_map ?att deriving = Some (ci_iri (content_name cd a r))"
    using find_map_first [where f = ?att and key = da_bytes, OF assms(1) own _ deriving_by_length] other assms(4) by simp
  moreover have "CHR '':'' \<notin> set (trim v)"
    using assms(3) by (cases rule: spells_cases) (use assms(2) spelled_base64(3) [OF assms(2)] in \<open>auto simp: reads_as_documented_def\<close>)
  then have "strip_prefix NI_PREFIX (trim v) = None"
    by (auto simp: strip_prefix_None NI_PREFIX_def prefix_def)
  moreover have "length r \<noteq> 0" using assms(1,4) deriving_member(4) [OF assms(1)] by auto
  have "trim v \<noteq> []"
    using assms(3) by (cases rule: spells_cases)
      (use assms(2) \<open>length r \<noteq> 0\<close> spelled_base64(1) [OF assms(2)] in \<open>auto simp: reads_as_documented_def\<close>)
  ultimately show ?thesis by (simp add: parse_content_query_def filter_derives)
qed

text \<open>
  C35. A content identifier names bytes. A digest spelled as hex, or as base64 in either alphabet with or
  without padding, under any name of an algorithm that identifiers are derived from, gives an
  identifier; two are equal exactly when the algorithm and the bytes are. A filter
  finds the identifier again from itself, from the \<open>ni\<close> form with the digest and the algorithm
  as they were spelled, and from the bare digest as it was spelled, unless that is the base64 of a
  SHA-384 digest of which every character is a hex digit.
\<close>

theorem content_identifier_names_the_bytes:
  assumes "find_algorithm a = Some alg" "da_derives alg" "spells cd v r" "length r = da_bytes alg"
    and "find_algorithm b = Some blg" "da_derives blg" "spells cd w s" "length s = da_bytes blg"
    and "reads_as_documented cd (trim v)" "reads_as_documented cd (trim w)" "writes_as_documented cd r"
    and "b64url_encode cd r = b64url_encode cd s \<longrightarrow> r = s"
  shows "\<exists>c d. identify_content cd a v = Inr c \<and> identify_content cd b w = Inr d
     \<and> (ci_iri c = ci_iri d \<longleftrightarrow> alg = blg \<and> r = s)
     \<and> parse_content_query cd (ci_iri c) = Some (ci_iri c)
     \<and> (visible a \<and> visible v \<and> CHR '';'' \<notin> set a \<longrightarrow> parse_content_query cd (NI_PREFIX @ a @ '';'' @ v) = Some (ci_iri c))
     \<and> (\<not> (da_bytes alg = 48 \<and> length (trim v) = 64 \<and> hex_decode cd (trim v) \<noteq> None) \<longrightarrow> parse_content_query cd v = Some (ci_iri c))"
proof -
  have m: "x \<in> set deriving" if "find_algorithm y = Some x" "da_derives x" for x y
    using that unfolding filter_derives [symmetric] find_algorithm_def Let_def by (auto dest: find_SomeD)
  note alg = m [OF assms(1,2)] and blg = m [OF assms(5,6)]
  let ?c = "content_name cd alg r" and ?d = "content_name cd blg s"
  have c: "identify_content cd a v = Inr ?c" by (rule identify_spelled [OF assms(1) alg assms(9,3,4)])
  have d: "identify_content cd b w = Inr ?d" by (rule identify_spelled [OF assms(5) blg assms(10,7,8)])
  let ?text = "b64url_encode cd r"
  have "trim ?text = ?text" using assms(11) by (simp add: writes_as_documented_def trim_visible)
  then have "spells cd ?text r" "reads_as_documented cd (trim ?text)" "visible ?text"
    using assms(11) by (simp_all add: writes_as_documented_def spells_def)
  with parse_ni [OF deriving_member(1) [OF alg] alg _ _ assms(4) deriving_member(2) [OF alg] _ deriving_member(3) [OF alg], of cd ?text]
  have ni: "parse_content_query cd (ci_iri ?c) = Some (ci_iri ?c)" by (simp add: content_name_def)
  have "parse_content_query cd (NI_PREFIX @ a @ '';'' @ v) = Some (ci_iri ?c)" if "visible a" "visible v" "CHR '';'' \<notin> set a"
    by (rule parse_ni [OF assms(1) alg assms(9,3,4) that])
  moreover have "parse_content_query cd v = Some (ci_iri ?c)"
    if "\<not> (da_bytes alg = 48 \<and> length (trim v) = 64 \<and> hex_decode cd (trim v) \<noteq> None)"
    using parse_spelled [OF alg assms(9,3,4)] that assms(4) by simp
  ultimately show ?thesis
    using c d ni content_name_inject [OF alg blg, of cd r s] assms(12) by (intro exI [of _ ?c] exI [of _ ?d]) auto
qed

definition demo_codec :: codec where
  "demo_codec =
     \<lparr>hex_decode = (\<lambda>v. if length v = 64 then Some (replicate 32 (hd v)) else None), hex_encode = (\<lambda>r. replicate (2 * length r) (hd r)),
      b64_decode = (\<lambda>e v. if length v = 43 then Some (replicate 32 (hd v)) else None),
      b64url_encode = (\<lambda>r. replicate ((4 * length r + 2) div 3) (hd r))\<rparr>"

theorem content_identifier_names_the_bytes_witness:
  "\<exists>c. identify_content demo_codec ''SHA-256'' (replicate 64 (CHR ''A'')) = Inr c
     \<and> identify_content demo_codec ''sha256'' (replicate 43 (CHR ''A'')) = Inr c
     \<and> parse_content_query demo_codec (ci_iri c) = Some (ci_iri c)
     \<and> parse_content_query demo_codec (replicate 64 (CHR ''A'')) = Some (ci_iri c)"
proof -
  let ?r = "replicate 32 (CHR ''A'')" and ?v = "replicate 64 (CHR ''A'')" and ?w = "replicate 43 (CHR ''A'')"
  let ?alg = "ALGORITHMS ! 0"
  have a: "find_algorithm ''SHA-256'' = Some ?alg" "find_algorithm ''sha256'' = Some ?alg" by code_simp+
  have m: "da_derives ?alg" "length ?r = da_bytes ?alg" "da_bytes ?alg \<noteq> 48" by (simp_all add: ALGORITHMS_def)
  have s: "spells demo_codec ?v ?r" "spells demo_codec ?w ?r" by code_simp+
  have l: "reads_as_documented demo_codec (trim ?v)" "reads_as_documented demo_codec (trim ?w)" "writes_as_documented demo_codec ?r"
    by code_simp+
  from content_identifier_names_the_bytes [OF a(1) m(1) s(1) m(2) a(2) m(1) s(2) m(2) l] m(3) obtain c d where
    "identify_content demo_codec ''SHA-256'' ?v = Inr c" "identify_content demo_codec ''sha256'' ?w = Inr d" "ci_iri c = ci_iri d"
    "parse_content_query demo_codec (ci_iri c) = Some (ci_iri c)" "parse_content_query demo_codec ?v = Some (ci_iri c)"
    by blast
  moreover from this(1,2) have "c = content_name demo_codec ?alg ?r" "d = content_name demo_codec ?alg ?r"
    using identify_spelled [OF a(1) _ l(1) s(1) m(2)] identify_spelled [OF a(2) _ l(2) s(2) m(2)]
    by (simp_all add: filter_derives [symmetric] ALGORITHMS_def)
  ultimately show ?thesis by metis
qed

end
