(* ===== verification/Records.thy ===== *)
theory Records
  imports Rdf_Build Ids Keywords Content_Ids
begin

text \<open>
  What the registry writes and reads for agents, runs, distributions and artifacts
  (\<open>src/domain/mod.rs\<close>, \<open>run.rs\<close>, \<open>artifact.rs\<close>), with the input and output shapes of
  \<open>src/model.rs\<close>. The random parts of minted IRIs and blank node labels are drawn one after the
  other from the supply \<open>bw_fresh\<close>, whose next position is passed along.
\<close>

record build_world = rdf_world +
  bw_base :: string
  bw_fresh :: "nat \<Rightarrow> string"
  bw_codec :: codec
  bw_unicode :: "string \<Rightarrow> string"

definition fresh_iri :: "build_world \<Rightarrow> rec_kind \<Rightarrow> nat \<Rightarrow> string" where
  "fresh_iri w k n = mint (bw_base w) k (bw_fresh w n)"

abbreviation core :: "build_world \<Rightarrow> rdf_world" where
  "core w \<equiv> rdf_world.truncate w"

definition non_empty :: "string option \<Rightarrow> string option" where
  "non_empty v = (case v of Some s \<Rightarrow> if s \<noteq> [] then Some s else None | None \<Rightarrow> None)"

section \<open>Agents\<close>

record agent_in =
  ag_iri :: "string option"
  ag_name :: "string option"
  ag_kind :: "string option"
  ag_identifier :: "string option"
  ag_email :: "string option"
  ag_homepage :: "string option"
  ag_version :: "string option"

definition agent_types :: "string option \<Rightarrow> (rdf_node \<Rightarrow> rdf_node) list" where
  "agent_types k =
     (if k = Some ''person'' then [add_type (SCHEMA @ ''Person'')]
      else if k = Some ''organization'' then [add_type (SCHEMA @ ''Organization'')]
      else if k = Some ''software'' then [add_type (PROV @ ''SoftwareAgent''), add_type (SCHEMA @ ''SoftwareApplication'')]
      else [add_type (PROV @ ''Agent'')])"

definition agent_body :: "rdf_world \<Rightarrow> agent_in \<Rightarrow> rdf_node \<Rightarrow> rdf_node" where
  "agent_body w a n =
     build (agent_types (ag_kind a) @
       [add_type (PROV @ ''Agent''),
        add_opt_text SCHEMA ''name'' (ag_name a),
        opt_link w SCHEMA ''identifier'' (ag_identifier a),
        add_opt_text SCHEMA ''email'' (ag_email a),
        opt_link w SCHEMA ''url'' (ag_homepage a),
        add_opt_text SCHEMA ''softwareVersion'' (ag_version a)]) n"

definition described_agent :: "rdf_world \<Rightarrow> string \<Rightarrow> agent_in \<Rightarrow> quad list" where
  "described_agent w iri a = finish (agent_body w a (local_node iri))"

definition agent_quads :: "build_world \<Rightarrow> agent_in \<Rightarrow> nat \<Rightarrow> (string option \<times> quad list) \<times> nat" where
  "agent_quads w a n =
     (case non_empty (ag_iri a) of
        Some iri \<Rightarrow>
          if ag_name a = None \<and> ag_email a = None \<and> ag_homepage a = None then ((Some iri, []), n)
          else ((Some iri, described_agent (core w) iri a), n)
      | None \<Rightarrow>
          (case ag_identifier a of
             Some i \<Rightarrow>
               if prefix ''http'' i then ((Some i, described_agent (core w) i a), n)
               else if ag_name a = None then ((None, []), n)
               else ((Some (fresh_iri w Agent n), described_agent (core w) (fresh_iri w Agent n) a), Suc n)
           | None \<Rightarrow>
               if ag_name a = None then ((None, []), n)
               else ((Some (fresh_iri w Agent n), described_agent (core w) (fresh_iri w Agent n) a), Suc n)))"

section \<open>Runs\<close>

definition TYPE_ACTIVITY :: string where "TYPE_ACTIVITY = ''http://www.w3.org/ns/prov#Activity''"
definition TYPE_SCHEMA_ACTION :: string where "TYPE_SCHEMA_ACTION = ''https://schema.org/Action''"
definition RUN_STATUSES :: "string list" where "RUN_STATUSES = [''success'', ''failed'', ''running'', ''aborted'']"

record run_in =
  ru_external_key :: "string option"
  ru_label :: "string option"
  ru_started_at :: "string option"
  ru_ended_at :: "string option"
  ru_status :: "string option"
  ru_release :: "string option"

definition action_status :: "string \<Rightarrow> string option" where
  "action_status s =
     (if s = ''success'' then Some (SCHEMA @ ''CompletedActionStatus'')
      else if s = ''failed'' \<or> s = ''aborted'' then Some (SCHEMA @ ''FailedActionStatus'')
      else if s = ''running'' then Some (SCHEMA @ ''ActiveActionStatus'')
      else None)"

definition run_association :: "rdf_world \<Rightarrow> string \<Rightarrow> string \<Rightarrow> string option \<Rightarrow> rdf_node" where
  "run_association w b inst release =
     build [add_type (PROV @ ''Association''), add_link w PROV ''agent'' inst,
            (case release of Some r \<Rightarrow> add_link w PROV ''hadPlan'' r | None \<Rightarrow> id)] (blank_node b G_LOCAL)"

definition run_quads :: "build_world \<Rightarrow> string \<Rightarrow> run_in \<Rightarrow> string \<Rightarrow> string \<Rightarrow> nat \<Rightarrow> quad list \<times> nat" where
  "run_quads w iri input inst actor n =
     (let status = (case ru_status input of Some s \<Rightarrow> s | None \<Rightarrow> ''success'') in
      (finish (build
         [add_type TYPE_ACTIVITY, add_type TYPE_SCHEMA_ACTION,
          add_opt_text RDFS ''label'' (ru_label input),
          add_datetime (core w) PROV ''startedAtTime'' (case ru_started_at input of Some t \<Rightarrow> t | None \<Rightarrow> rw_now w),
          add_opt_datetime (core w) PROV ''endedAtTime'' (ru_ended_at input),
          add_text TAR ''status'' status,
          (case action_status status of Some st \<Rightarrow> add_link (core w) SCHEMA ''actionStatus'' st | None \<Rightarrow> id),
          add_opt_text DCT ''identifier'' (ru_external_key input),
          add_link (core w) PROV ''wasAssociatedWith'' inst,
          opt_link (core w) TAR ''usedRelease'' (ru_release input),
          add_child PROV ''qualifiedAssociation'' (run_association (core w) (bw_fresh w n) inst (ru_release input)),
          attribution (core w) actor] (local_node iri)),
       Suc n))"

section \<open>Distributions\<close>

definition TYPE_DATASET :: string where "TYPE_DATASET = ''http://www.w3.org/ns/dcat#Dataset''"
definition TYPE_ENTITY :: string where "TYPE_ENTITY = ''http://www.w3.org/ns/prov#Entity''"
definition TYPE_DISTRIBUTION :: string where "TYPE_DISTRIBUTION = ''http://www.w3.org/ns/dcat#Distribution''"
definition TYPE_ARTIFACT_SERIES :: string where "TYPE_ARTIFACT_SERIES = ''https://w3id.org/tar/ns#ArtifactSeries''"
definition ROLE_PRODUCING_SYSTEM :: string where "ROLE_PRODUCING_SYSTEM = ''https://w3id.org/tar/ns#producingSystem''"
definition ROLE_PRODUCING_USER :: string where "ROLE_PRODUCING_USER = ''https://w3id.org/tar/ns#producingUser''"

record checksum_in =
  ck_algorithm :: string
  ck_value :: string

record distribution_in =
  di_title :: "string option"
  di_access_url :: "string option"
  di_download_url :: "string option"
  di_media_type :: "string option"
  di_byte_size :: "int option"
  di_checksum :: "checksum_in option"
  di_conforms_to :: "string option"
  di_license :: "string option"
  di_access_service :: "string option"
  di_access_protocol :: "string option"
  di_auth_method :: "string option"
  di_availability :: "string option"
  di_access_request_url :: "string option"

definition access_right :: "string \<Rightarrow> string option" where
  "access_right a =
     (if a = ''public'' then Some (EU_ACCESS_RIGHT @ ''PUBLIC'')
      else if a = ''restricted'' then Some (EU_ACCESS_RIGHT @ ''RESTRICTED'')
      else if a = ''embargoed'' \<or> a = ''metadata-only'' then Some (EU_ACCESS_RIGHT @ ''NON_PUBLIC'')
      else None)"

definition checksum_node :: "rdf_world \<Rightarrow> string \<Rightarrow> checksum_in \<Rightarrow> rdf_node" where
  "checksum_node w b c =
     build [add_type (SPDX @ ''Checksum''),
            add_link w SPDX ''algorithm'' (SPDX @ ''checksumAlgorithm_'' @ ck_algorithm c),
            add_text SPDX ''checksumValue'' (ck_value c)] (blank_node b G_LOCAL)"

text \<open>The checksum of a distribution: the calls on its node, and the quads of the bytes it names.\<close>

definition checksum_steps :: "build_world \<Rightarrow> checksum_in \<Rightarrow> nat \<Rightarrow> (rdf_node \<Rightarrow> rdf_node) list \<times> quad list" where
  "checksum_steps w c n =
     (let child = add_child SPDX ''checksum'' (checksum_node (core w) (bw_fresh w n) c) in
      case identify_content (bw_codec w) (ck_algorithm c) (ck_value c) of
        Inl _ \<Rightarrow> ([child], [])
      | Inr cid \<Rightarrow> ([child, add_link (core w) PROV ''specializationOf'' (ci_iri cid)],
                    finish (add_type TYPE_ENTITY (local_node (ci_iri cid)))))"

definition distribution_quads :: "build_world \<Rightarrow> string \<Rightarrow> distribution_in \<Rightarrow> nat \<Rightarrow> quad list \<times> nat" where
  "distribution_quads w iri d n =
     (let availability = (case di_availability d of Some a \<Rightarrow> a | None \<Rightarrow> ''public'');
          (steps, extra) = (case di_checksum d of None \<Rightarrow> ([], []) | Some c \<Rightarrow> checksum_steps w c n) in
      (finish (build
         ([add_type TYPE_DISTRIBUTION,
           add_opt_text DCT ''title'' (di_title d),
           opt_link (core w) DCAT ''accessURL'' (di_access_url d),
           (if availability \<noteq> ''metadata-only'' then opt_link (core w) DCAT ''downloadURL'' (di_download_url d) else id),
           add_opt_text DCAT ''mediaType'' (di_media_type d),
           add_opt_text DCT ''format'' (di_media_type d),
           add_opt_int DCAT ''byteSize'' (di_byte_size d),
           opt_link (core w) DCT ''conformsTo'' (di_conforms_to d),
           opt_link (core w) DCT ''license'' (di_license d),
           opt_link (core w) DCAT ''accessService'' (di_access_service d),
           add_opt_text TAR ''accessProtocol'' (di_access_protocol d),
           add_opt_text TAR ''authMethod'' (di_auth_method d),
           add_text TAR ''availability'' availability,
           (case access_right availability of Some ar \<Rightarrow> add_link (core w) DCT ''accessRights'' ar | None \<Rightarrow> id),
           opt_link (core w) TAR ''accessRequestURL'' (di_access_request_url d)] @ steps) (local_node iri)) @ extra,
       (case di_checksum d of None \<Rightarrow> n | Some _ \<Rightarrow> Suc n)))"

section \<open>Artifacts\<close>

record artifact_in =
  ar_iri :: "string option"
  ar_title :: "string option"
  ar_description :: "string option"
  ar_conforms_to :: "string option"
  ar_license :: "string option"
  ar_keywords :: "string list"
  ar_issued :: "string option"
  ar_publisher :: "agent_in option"
  ar_creators :: "agent_in list"
  ar_contributors :: "agent_in list"
  ar_contact :: "agent_in option"
  ar_produced_by :: "agent_in option"
  ar_produced_by_user :: "agent_in option"
  ar_modified :: "string option"
  ar_version :: "string option"
  ar_landing_page :: "string option"
  ar_documentation :: "string option"
  ar_source :: "string option"
  ar_language :: "string list"
  ar_spatial :: "string option"
  ar_temporal_start :: "string option"
  ar_temporal_end :: "string option"
  ar_was_derived_from :: "string list"
  ar_was_revision_of :: "string option"
  ar_is_version_of :: "string option"
  ar_external_key :: "string option"
  ar_distributions :: "distribution_in list"

text \<open>The record's own node, the quads of other nodes, and the next fresh position.\<close>

type_synonym building = "rdf_node \<times> quad list \<times> nat"

definition on_node :: "(rdf_node \<Rightarrow> rdf_node) \<Rightarrow> building \<Rightarrow> building" where
  "on_node f b = (case b of (node, quads, n) \<Rightarrow> (f node, quads, n))"

definition role_local :: "string \<Rightarrow> string" where
  "role_local role = rev (takeWhile (\<lambda>c. c \<noteq> CHR ''#'' \<and> c \<noteq> CHR ''/'') (rev role))"

definition role_attribution :: "rdf_world \<Rightarrow> string \<Rightarrow> string \<Rightarrow> string \<Rightarrow> rdf_node" where
  "role_attribution w iri role agent =
     build [add_type (PROV @ ''Attribution''), add_link w PROV ''agent'' agent, add_link w PROV ''hadRole'' role]
       (local_node (iri @ ''#'' @ role_local role))"

text \<open>One round of the loop over the two producing roles; the agent's IRI, if it has one.\<close>

definition add_producer :: "build_world \<Rightarrow> string \<Rightarrow> agent_in option \<Rightarrow> string \<Rightarrow> building \<Rightarrow> building \<times> string option" where
  "add_producer w iri agent role b =
     (case b of (node, quads, n) \<Rightarrow>
        (case agent of
           None \<Rightarrow> (b, None)
         | Some a \<Rightarrow>
             (case agent_quads w a n of ((ai, body), n') \<Rightarrow>
                (case ai of
                   None \<Rightarrow> ((node, quads, n'), None)
                 | Some agent_iri \<Rightarrow>
                     ((add_child PROV ''qualifiedAttribution'' (role_attribution (core w) iri role agent_iri) node, quads @ body, n'),
                      Some agent_iri)))))"

definition link_agent :: "build_world \<Rightarrow> string \<Rightarrow> string \<Rightarrow> agent_in \<Rightarrow> building \<Rightarrow> building" where
  "link_agent w ns l a b =
     (case b of (node, quads, n) \<Rightarrow>
        (case agent_quads w a n of ((ai, body), n') \<Rightarrow>
           (case ai of Some i \<Rightarrow> add_link (core w) ns l i node | None \<Rightarrow> node, quads @ body, n')))"

definition link_opt_agent :: "build_world \<Rightarrow> string \<Rightarrow> string \<Rightarrow> agent_in option \<Rightarrow> building \<Rightarrow> building" where
  "link_opt_agent w ns l a b = (case a of Some x \<Rightarrow> link_agent w ns l x b | None \<Rightarrow> b)"

definition link_agents :: "build_world \<Rightarrow> string \<Rightarrow> string \<Rightarrow> agent_in list \<Rightarrow> building \<Rightarrow> building" where
  "link_agents w ns l agents b = fold (link_agent w ns l) agents b"

definition add_distribution :: "build_world \<Rightarrow> distribution_in \<Rightarrow> building \<Rightarrow> building" where
  "add_distribution w d b =
     (case b of (node, quads, n) \<Rightarrow>
        (let d_iri = fresh_iri w Distribution n; (dq, n') = distribution_quads w d_iri d (Suc n)
         in (add_link (core w) DCAT ''distribution'' d_iri node, quads @ dq, n')))"

definition delegation :: "rdf_world \<Rightarrow> string option \<Rightarrow> string option \<Rightarrow> quad list" where
  "delegation w system user =
     (case (system, user) of
        (Some s, Some u) \<Rightarrow> finish (add_link w PROV ''actedOnBehalfOf'' u (local_node s))
      | _ \<Rightarrow> [])"

definition series_of :: "build_world \<Rightarrow> artifact_in \<Rightarrow> nat \<Rightarrow> string \<times> nat" where
  "series_of w input n =
     (case ar_is_version_of input of Some s \<Rightarrow> (s, n) | None \<Rightarrow> (fresh_iri w ArtifactSeries n, Suc n))"

definition series_quads :: "string \<Rightarrow> artifact_in \<Rightarrow> quad list" where
  "series_quads series input =
     finish (build [add_type TYPE_ARTIFACT_SERIES, add_opt_text SKOS ''prefLabel'' (ar_title input)] (local_node series))"

definition describe_artifact :: "build_world \<Rightarrow> artifact_in \<Rightarrow> rdf_node \<Rightarrow> rdf_node" where
  "describe_artifact w input node =
     (let (keywords, themes) = normalise_keywords (bw_unicode w) (bw_base w) (ar_keywords input) in
      build [add_type TYPE_DATASET, add_type TYPE_ENTITY,
             add_opt_text DCT ''title'' (ar_title input),
             add_opt_text DCT ''description'' (ar_description input),
             opt_link (core w) DCT ''conformsTo'' (ar_conforms_to input),
             opt_link (core w) DCT ''license'' (ar_license input),
             add_texts DCAT ''keyword'' keywords,
             add_links (core w) DCAT ''theme'' themes,
             add_datetime (core w) DCT ''issued'' (case ar_issued input of Some t \<Rightarrow> t | None \<Rightarrow> rw_now w),
             add_links (core w) PROV ''wasDerivedFrom'' (ar_was_derived_from input),
             opt_link (core w) PROV ''wasRevisionOf'' (ar_was_revision_of input),
             add_opt_text DCT ''identifier'' (ar_external_key input)] node)"

definition artifact_rest :: "build_world \<Rightarrow> artifact_in \<Rightarrow> rdf_node \<Rightarrow> rdf_node" where
  "artifact_rest w input node =
     build [add_opt_text DCAT ''version'' (ar_version input),
            opt_link (core w) DCAT ''landingPage'' (ar_landing_page input),
            opt_link (core w) FOAF ''page'' (ar_documentation input),
            opt_link (core w) DCT ''source'' (ar_source input),
            add_texts DCT ''language'' (ar_language input),
            add_opt_text DCT ''spatial'' (ar_spatial input),
            add_opt_datetime (core w) TAR ''temporalStart'' (ar_temporal_start input),
            add_opt_datetime (core w) TAR ''temporalEnd'' (ar_temporal_end input)] node"

definition artifact_quads :: "build_world \<Rightarrow> string \<Rightarrow> artifact_in \<Rightarrow> string \<Rightarrow> string option \<Rightarrow> nat \<Rightarrow> quad list \<times> nat" where
  "artifact_quads w iri input actor run n =
     (let b0 = (describe_artifact w input (local_node iri), [], n);
          (b1, system) = add_producer w iri (ar_produced_by input) ROLE_PRODUCING_SYSTEM b0;
          (b2, user) = add_producer w iri (ar_produced_by_user input) ROLE_PRODUCING_USER b1;
          (node, quads, n2) = b2;
          node1 = (case run of Some r \<Rightarrow> add_link (core w) PROV ''wasGeneratedBy'' r node | None \<Rightarrow> node);
          (series, n3) = series_of w input n2;
          b3 = (attribution_at (core w) actor (ar_modified input) (add_link (core w) DCT ''isVersionOf'' series node1),
                quads @ delegation (core w) system user @ series_quads series input, n3);
          b4 = link_opt_agent w DCT ''publisher'' (ar_publisher input) b3;
          b5 = link_agents w DCT ''contributor'' (ar_contributors input) (link_agents w DCT ''creator'' (ar_creators input) b4);
          b6 = link_opt_agent w CODEMETA ''maintainer'' (ar_contact input) b5;
          (node7, quads7, n7) = fold (add_distribution w) (ar_distributions input) (on_node (artifact_rest w input) b6)
      in (quads7 @ finish node7, n7))"

definition demo_build_world :: build_world where
  "demo_build_world =
     \<lparr>rw_valid_iri = (\<lambda>s. prefix ''http'' s \<or> prefix ''ni:'' s), rw_datetime = Some, rw_now = ''2026-01-01T00:00:00Z'',
      rw_show = term_value, bw_base = ''https://reg.org'', bw_fresh = show_nat, bw_codec = demo_codec, bw_unicode = (\<lambda>_. [])\<rparr>"

definition demo_distribution :: distribution_in where
  "demo_distribution =
     \<lparr>di_title = Some ''data'', di_access_url = None, di_download_url = Some ''https://h.org/f'', di_media_type = Some ''text/turtle'',
      di_byte_size = Some 12, di_checksum = Some \<lparr>ck_algorithm = ''sha256'', ck_value = replicate 64 (CHR ''A'')\<rparr>,
      di_conforms_to = None, di_license = None, di_access_service = None, di_access_protocol = None, di_auth_method = None,
      di_availability = Some ''metadata-only'', di_access_request_url = None\<rparr>"

section \<open>What the calls add\<close>

text \<open>What each call on a node adds to it, as pairs of predicate and object.\<close>

definition quad_of :: "rdf_node \<Rightarrow> string \<times> rdf_term \<Rightarrow> quad" where
  "quad_of n x = \<lparr>q_subject = rn_subject n, q_predicate = fst x, q_object = snd x, q_graph = rn_graph n\<rparr>"

definition emit :: "(string \<times> rdf_term) list \<Rightarrow> rdf_node \<Rightarrow> rdf_node" where
  "emit ps n = n\<lparr>rn_quads := rn_quads n @ map (quad_of n) ps\<rparr>"

definition link_pairs :: "rdf_world \<Rightarrow> string \<Rightarrow> string option \<Rightarrow> (string \<times> rdf_term) list" where
  "link_pairs w p v = (case non_empty v of None \<Rightarrow> [] | Some t \<Rightarrow> [(p, link_term w t)])"

definition text_pairs :: "string \<Rightarrow> string option \<Rightarrow> (string \<times> rdf_term) list" where
  "text_pairs p v = (case non_empty v of None \<Rightarrow> [] | Some t \<Rightarrow> [(p, simple_literal t)])"

definition int_pairs :: "string \<Rightarrow> int option \<Rightarrow> (string \<times> rdf_term) list" where
  "int_pairs p v = (case v of None \<Rightarrow> [] | Some i \<Rightarrow> [(p, Literal (show_int i) (XSD @ ''integer'') None)])"

definition date_pairs :: "rdf_world \<Rightarrow> string \<Rightarrow> string option \<Rightarrow> (string \<times> rdf_term) list" where
  "date_pairs w p v =
     (case non_empty v of
        None \<Rightarrow> []
      | Some t \<Rightarrow> [(p, case rw_datetime w t of Some utc \<Rightarrow> Literal utc (XSD @ ''dateTime'') None | None \<Rightarrow> simple_literal t)])"

lemma emit_push: "push_quad p v = emit [(p, v)]"
  by (rule ext) (simp add: push_quad_def emit_def quad_of_def)

lemma emit_none: "id = emit []" "(\<lambda>n. n) = emit []"
  by (auto simp: emit_def fun_eq_iff)

lemma emit_calls:
  "add_type t = emit [(rdf_type, Node (NamedNode t))]"
  "opt_link w ns l v = emit (link_pairs w (ns @ l) v)"
  "add_link w ns l s = emit (link_pairs w (ns @ l) (Some s))"
  "add_opt_text ns l v = emit (text_pairs (ns @ l) v)"
  "add_text ns l s = emit (text_pairs (ns @ l) (Some s))"
  "add_datetime w ns l s = emit (date_pairs w (ns @ l) (Some s))"
  "add_opt_datetime w ns l v = emit (date_pairs w (ns @ l) v)"
  "add_opt_int ns l i = emit (int_pairs (ns @ l) i)"
  by (auto simp: fun_eq_iff add_type_def opt_link_def add_link_def add_opt_text_def add_text_def add_opt_int_def add_int_def
      add_datetime_def add_opt_datetime_def date_pairs_def
      emit_push link_pairs_def text_pairs_def int_pairs_def non_empty_def emit_def [of "[]"] split: option.splits)

lemma emit_emit [simp]: "emit b (emit a n) = emit (a @ b) n"
  by (simp add: emit_def quad_of_def)

lemma emit_fields [simp]: "rn_subject (emit a n) = rn_subject n" "rn_graph (emit a n) = rn_graph n"
  by (simp_all add: emit_def)

lemma rn_add_child:
  "rn_quads (add_child ns l child n) = rn_quads n @ quad_of n (ns @ l, node_term child) # rn_quads child"
  "rn_subject (add_child ns l child n) = rn_subject n" "rn_graph (add_child ns l child n) = rn_graph n"
  by (simp_all add: add_child_def push_quad_def quad_of_def Let_def)

lemma rn_emit [simp]: "rn_quads (emit ps n) = rn_quads n @ map (quad_of n) ps"
  by (simp add: emit_def)

lemma local_node_fields [simp]: "rn_subject (local_node s) = NamedNode s" "rn_graph (local_node s) = G_LOCAL" "rn_quads (local_node s) = []"
  by (simp_all add: local_node_def iri_node_def)

lemma blank_node_fields [simp]: "rn_subject (blank_node b g) = BlankNode b" "rn_graph (blank_node b g) = g" "rn_quads (blank_node b g) = []"
  by (simp_all add: blank_node_def)

lemma quad_of_child: "quad_of (add_child ns l child n) = quad_of n" "quad_of (emit ps n) = quad_of n"
  by (simp_all add: quad_of_def fun_eq_iff rn_add_child)

end
