(* ===== verification/Record_Reads.thy ===== *)
theory Record_Reads
  imports Records Describe Federation Errors Json
begin

text \<open>
  Reading records back from the graph (\<open>src/domain/mod.rs\<close>, \<open>run.rs\<close>, \<open>artifact.rs\<close>): origins, type
  and agent references, distributions, artifacts and runs, and that a distribution reads back as it was
  written. The rows of the two label queries, the parsing of times and the comparison of a
  literal with the instant thirty days ago are arguments, and so is the message of a query that does not parse; descriptions are those of the store.
\<close>

record read_world = rdf_world +
  cx_base :: string
  cx_peers :: "peer list"
  cx_type_rows :: "string list \<Rightarrow> (string \<times> string option \<times> string option) list option list"
  cx_label_rows :: "string list \<Rightarrow> (string \<times> string) list option"
  cx_time :: "string \<Rightarrow> int option"
  cx_json :: "string \<Rightarrow> json option"
  cx_recent :: "rdf_term \<Rightarrow> bool"
  cx_query_error :: string

definition described :: "'a rdf_world_scheme \<Rightarrow> store \<Rightarrow> string \<Rightarrow> string + quad list" where
  "described w st iri = (case Describe.describe (rw_valid_iri w) st iri of Some r \<Rightarrow> r | None \<Rightarrow> Inl [])"

section \<open>Where a record comes from\<close>

definition peer_origin :: "peer \<Rightarrow> origin" where
  "peer_origin p =
     \<lparr>or_kind = ''peer'', or_peer_id = Some (pr_id p), or_peer_title = pr_title p, or_peer_base_iri = Some (pr_base_iri p),
      or_cached_at = pr_last_seen_at p, or_resolve_status = Some (pr_resolve_status p), or_stale = pr_stale p\<rparr>"

definition unknown_peer :: "string option \<Rightarrow> origin" where
  "unknown_peer i = local_origin\<lparr>or_kind := ''peer'', or_peer_id := i\<rparr>"

text \<open>\<open>str::trim_start_matches\<close> with a word removes it as often as it is there.\<close>

definition trim_start_word :: "string \<Rightarrow> string \<Rightarrow> string" where
  "trim_start_word p s = strip_words [p] s"

definition origin_of_graph :: "read_world \<Rightarrow> string option \<Rightarrow> origin" where
  "origin_of_graph w g =
     (case g of
        None \<Rightarrow> local_origin
      | Some g \<Rightarrow>
          if g = G_LOCAL then local_origin
          else if prefix G_PEER_PREFIX g then
            (case find (\<lambda>p. peer_graph (pr_id p) = g) (rev (cx_peers w)) of
               Some p \<Rightarrow> peer_origin p
             | None \<Rightarrow> unknown_peer (Some (trim_start_word G_PEER_PREFIX g)))
          else local_origin)"

definition origin_of_iri :: "read_world \<Rightarrow> string \<Rightarrow> origin" where
  "origin_of_iri w iri =
     (if is_local (cx_base w) iri then local_origin
      else case find (\<lambda>p. prefix (pr_base_iri p) iri) (cx_peers w) of
             Some p \<Rightarrow> peer_origin p | None \<Rightarrow> unknown_peer None)"

section \<open>Types, agents and labels\<close>

record type_ref =
  tr_iri :: string
  tr_label :: "string option"
  tr_definition :: "string option"
  tr_source :: string

definition type_source :: "string \<Rightarrow> string \<Rightarrow> string" where
  "type_source base iri =
     (if prefix ''http://edamontology.org/'' iri \<or> prefix ''http://data.europa.eu/8mn/euroscivoc/'' iri then ''bundled''
      else if is_local base iri then ''local'' else ''external'')"

text \<open>The rows of both stores in turn; a value once found stays.\<close>

definition type_labels :: "(string \<times> string option \<times> string option) list option list \<Rightarrow> string \<Rightarrow> string option \<times> string option" where
  "type_labels answers t =
     (let rows = filter (\<lambda>(x, _). x = t) (concat (map (\<lambda>a. case a of Some r \<Rightarrow> r | None \<Rightarrow> []) answers))
      in fold (\<lambda>(_, l, d) (l0, d0). (first_some l0 l, first_some d0 d)) rows (None, None))"

definition type_refs :: "read_world \<Rightarrow> string list \<Rightarrow> type_ref list" where
  "type_refs w iris =
     (let web = filter (prefix ''http'') iris;
          answers = (if web = [] then [] else cx_type_rows w web)
      in map (\<lambda>iri. \<lparr>tr_iri = iri,
                tr_label = Some (case fst (type_labels answers iri) of Some l \<Rightarrow> l | None \<Rightarrow> iri_tail iri),
                tr_definition = snd (type_labels answers iri), tr_source = type_source (cx_base w) iri\<rparr>) iris)"

definition type_ref_of :: "read_world \<Rightarrow> string \<Rightarrow> type_ref" where
  "type_ref_of w iri = last (type_refs w [iri])"

definition labels_of :: "read_world \<Rightarrow> string list \<Rightarrow> string \<Rightarrow> string option" where
  "labels_of w iris =
     (let web = filter (prefix ''http'') iris
      in if web = [] then Map.empty
         else case cx_label_rows w web of None \<Rightarrow> Map.empty | Some rows \<Rightarrow> map_of rows)"

record agent_view =
  af_iri :: string
  af_name :: "string option"
  af_kind :: "string option"
  af_identifier :: "string option"
  af_email :: "string option"
  af_homepage :: "string option"
  af_version :: "string option"

definition agent_kind :: "'a node_props_scheme \<Rightarrow> string option" where
  "agent_kind p =
     (if has_type p (SCHEMA @ ''Person'') then Some ''person''
      else if has_type p (SCHEMA @ ''Organization'') then Some ''organization''
      else if has_type p (PROV @ ''SoftwareAgent'') then Some ''software''
      else None)"

definition agent_ref :: "read_world \<Rightarrow> store \<Rightarrow> string \<Rightarrow> agent_view" where
  "agent_ref w st iri =
     (let p = from_quads iri (case described w st iri of Inr qs \<Rightarrow> qs | Inl _ \<Rightarrow> [])
      in \<lparr>af_iri = iri, af_name = first_some (get_str p SCHEMA ''name'') (get_str p RDFS ''label''), af_kind = agent_kind p,
          af_identifier = first_some (get_iri p SCHEMA ''identifier'') (get_str p SCHEMA ''identifier''),
          af_email = get_str p SCHEMA ''email'', af_homepage = get_iri p SCHEMA ''url'',
          af_version = get_str p SCHEMA ''softwareVersion''\<rparr>)"

definition attributed_agent :: "read_world \<Rightarrow> store \<Rightarrow> props \<Rightarrow> string \<Rightarrow> agent_view option" where
  "attributed_agent w st p role =
     (case find (\<lambda>k. case nested_for p k of None \<Rightarrow> False | Some a \<Rightarrow> get_iri a PROV ''hadRole'' = Some role)
             (node_keys (rdf_world.truncate w) p PROV ''qualifiedAttribution'') of
        None \<Rightarrow> None
      | Some k \<Rightarrow> Option.bind (nested_for p k) (\<lambda>a. map_option (agent_ref w st) (get_iri a PROV ''agent'')))"

section \<open>Distributions\<close>

record distribution =
  ds_iri :: string
  ds_content_identifier :: "string option"
  ds_title :: "string option"
  ds_access_url :: "string option"
  ds_download_url :: "string option"
  ds_media_type :: "string option"
  ds_byte_size :: "int option"
  ds_checksum :: "checksum_in option"
  ds_conforms_to :: "string option"
  ds_license :: "string option"
  ds_access_service :: "string option"
  ds_access_protocol :: "string option"
  ds_auth_method :: "string option"
  ds_availability :: string
  ds_access_request_url :: "string option"

definition content_identifier :: "'a node_props_scheme \<Rightarrow> string option" where
  "content_identifier d = find (prefix ''ni:'') (get_iris d PROV ''specializationOf'')"

definition checksum_from :: "node_props \<Rightarrow> checksum_in" where
  "checksum_from c =
     \<lparr>ck_algorithm = (case get_iri c SPDX ''algorithm'' of
        Some a \<Rightarrow> trim_start_word ''checksumAlgorithm_'' (iri_tail a) | None \<Rightarrow> ''sha256''),
      ck_value = (case get_str c SPDX ''checksumValue'' of Some v \<Rightarrow> v | None \<Rightarrow> [])\<rparr>"

definition distribution_from :: "rdf_world \<Rightarrow> props \<Rightarrow> string \<Rightarrow> distribution option" where
  "distribution_from w p key =
     (case nested_for p key of
        None \<Rightarrow> None
      | Some d \<Rightarrow> Some
          \<lparr>ds_iri = key, ds_content_identifier = content_identifier d,
           ds_title = get_str d DCT ''title'', ds_access_url = get_iri d DCAT ''accessURL'',
           ds_download_url = get_iri d DCAT ''downloadURL'', ds_media_type = get_str d DCAT ''mediaType'',
           ds_byte_size = get_i64 d DCAT ''byteSize'',
           ds_checksum = (case node_keys w d SPDX ''checksum'' of
              [] \<Rightarrow> None | k # _ \<Rightarrow> map_option checksum_from (nested_for p k)),
           ds_conforms_to = get_iri d DCT ''conformsTo'', ds_license = get_iri d DCT ''license'',
           ds_access_service = get_iri d DCAT ''accessService'', ds_access_protocol = get_str d TAR ''accessProtocol'',
           ds_auth_method = get_str d TAR ''authMethod'',
           ds_availability = (case get_str d TAR ''availability'' of Some a \<Rightarrow> a | None \<Rightarrow> ''public''),
           ds_access_request_url = get_iri d TAR ''accessRequestURL''\<rparr>)"

definition availability_rank :: "string \<Rightarrow> nat" where
  "availability_rank a =
     (if a = ''public'' then 0 else if a = ''restricted'' then 1 else if a = ''embargoed'' then 2 else 3)"

text \<open>\<open>min_by_key\<close> keeps the first of several least elements.\<close>

definition overall_availability :: "distribution list \<Rightarrow> string" where
  "overall_availability ds =
     (case sort_key availability_rank (map ds_availability ds) of [] \<Rightarrow> ''metadata-only'' | a # _ \<Rightarrow> a)"

section \<open>Runs and artifacts\<close>

record run_summary =
  rs_iri :: string
  rs_id :: string
  rs_label :: "string option"
  rs_status :: string
  rs_started_at :: "string option"
  rs_ended_at :: "string option"
  rs_duration_seconds :: "int option"
  rs_external_key :: "string option"
  rs_instance :: "string option"
  rs_instance_label :: "string option"
  rs_release :: "string option"
  rs_release_version :: "string option"
  rs_software :: "string option"
  rs_software_name :: "string option"
  rs_used_count :: nat
  rs_generated_count :: nat
  rs_origin :: origin

text \<open>\<open>TimeDelta::num_seconds\<close> rounds toward zero.\<close>

definition whole_seconds :: "int \<Rightarrow> int" where
  "whole_seconds ns = (if 0 \<le> ns then ns div 10 ^ 9 else - ((- ns) div 10 ^ 9))"

definition short_id :: "string \<Rightarrow> string \<Rightarrow> string" where
  "short_id base iri = (case local_id base iri of Some (_, i) \<Rightarrow> i | None \<Rightarrow> iri_tail iri)"

definition run_duration :: "(string \<Rightarrow> int option) \<Rightarrow> string option \<Rightarrow> string option \<Rightarrow> int option" where
  "run_duration time started ended =
     (case (Option.bind started time, Option.bind ended time) of
        (Some s, Some e) \<Rightarrow> Some (whole_seconds (e - s)) | _ \<Rightarrow> None)"

definition run_summary_from_props :: "read_world \<Rightarrow> string \<Rightarrow> props \<Rightarrow> run_summary" where
  "run_summary_from_props w iri p =
     (let started = get_str p PROV ''startedAtTime''; ended = get_str p PROV ''endedAtTime''
      in \<lparr>rs_iri = iri, rs_id = short_id (cx_base w) iri, rs_label = get_str p RDFS ''label'',
          rs_status = (case get_str p TAR ''status'' of Some s \<Rightarrow> s | None \<Rightarrow> ''unknown''),
          rs_started_at = started, rs_ended_at = ended, rs_duration_seconds = run_duration (cx_time w) started ended,
          rs_external_key = first_some (get_str p DCT ''identifier'') (get_str p TAR ''externalKey''),
          rs_instance = first_some (get_iri p PROV ''wasAssociatedWith'') (get_iri p TAR ''atInstance''),
          rs_instance_label = None, rs_release = get_iri p TAR ''usedRelease'', rs_release_version = None,
          rs_software = None, rs_software_name = None, rs_used_count = length (get_iris p PROV ''used''),
          rs_generated_count = 0, rs_origin = origin_of_graph w (np_graph p)\<rparr>)"

text \<open>The runs' artifacts: the subjects that say they were generated by it.\<close>

definition generated_iris :: "store \<Rightarrow> string \<Rightarrow> string list" where
  "generated_iris st run =
     List.map_filter (\<lambda>q. if q_predicate q = PROV @ ''wasGeneratedBy'' \<and> q_object q = Node (NamedNode run)
        then (case q_subject q of NamedNode n \<Rightarrow> Some n | BlankNode _ \<Rightarrow> None) else None) st"

text \<open>Which software each deployment is an instance of; a later row replaces an earlier one.\<close>

definition instance_software :: "store \<Rightarrow> (string \<times> string) list" where
  "instance_software st =
     rev (List.map_filter (\<lambda>q. if q_predicate q = TAR @ ''instanceOf'' then
            (case (q_subject q, q_object q) of (NamedNode i, Node (NamedNode sw)) \<Rightarrow> Some (i, sw) | _ \<Rightarrow> None) else None) st)"

definition decorate :: "read_world \<Rightarrow> store \<Rightarrow> run_summary list \<Rightarrow> run_summary list" where
  "decorate w st runs =
     (let labels = labels_of w (concat (map (\<lambda>r. List.map_filter id [rs_instance r, rs_release r]) runs));
          inst_sw = map_of (instance_software st);
          sw_labels = labels_of w (List.map_filter inst_sw (dedup (map fst (instance_software st))))
      in map (\<lambda>r. let sw = Option.bind (rs_instance r) inst_sw in
                r\<lparr>rs_instance_label := Option.bind (rs_instance r) labels,
                  rs_release_version := Option.bind (rs_release r) labels,
                  rs_software := sw, rs_software_name := Option.bind sw sw_labels\<rparr>) runs)"

definition load_run_summary :: "read_world \<Rightarrow> store \<Rightarrow> string \<Rightarrow> app_error + run_summary" where
  "load_run_summary w st iri =
     (case described w st iri of
        Inl e \<Rightarrow> Inl (internal e)
      | Inr [] \<Rightarrow> Inl (not_found (''no run at '' @ iri))
      | Inr qs \<Rightarrow> Inr (hd (decorate w st [(run_summary_from_props w iri (from_quads iri qs))
            \<lparr>rs_generated_count := length (generated_iris st iri)\<rparr>])))"

record artifact =
  at_iri :: string
  at_id :: string
  at_title :: "string option"
  at_description :: "string option"
  at_conforms_to :: "type_ref option"
  at_license :: "string option"
  at_keywords :: "string list"
  at_issued :: "string option"
  at_publisher :: "agent_view option"
  at_creators :: "agent_view list"
  at_contributors :: "agent_view list"
  at_contact :: "agent_view option"
  at_modified :: "string option"
  at_version :: "string option"
  at_landing_page :: "string option"
  at_documentation :: "string option"
  at_source :: "string option"
  at_language :: "string list"
  at_spatial :: "string option"
  at_temporal_start :: "string option"
  at_temporal_end :: "string option"
  at_attributed_to :: "string option"
  at_produced_by :: "agent_view option"
  at_produced_by_user :: "agent_view option"
  at_distributions :: "distribution list"
  at_content_identifiers :: "string list"
  at_availability :: string
  at_was_derived_from :: "string list"
  at_was_revision_of :: "string option"
  at_is_version_of :: "string option"
  at_was_generated_by :: "string option"
  at_generated_by_run :: "run_summary option"
  at_external_key :: "string option"
  at_origin :: origin
  at_tombstoned :: bool

definition distributions_of :: "rdf_world \<Rightarrow> props \<Rightarrow> distribution list" where
  "distributions_of w p = List.map_filter (distribution_from w p) (node_keys w p DCAT ''distribution'')"

definition artifact_from_props :: "read_world \<Rightarrow> store \<Rightarrow> string \<Rightarrow> props \<Rightarrow> artifact" where
  "artifact_from_props w st iri p =
     (let ds = distributions_of (rdf_world.truncate w) p in
      \<lparr>at_iri = iri, at_id = short_id (cx_base w) iri, at_title = get_str p DCT ''title'',
       at_description = get_str p DCT ''description'',
       at_conforms_to = map_option (type_ref_of w) (get_iri p DCT ''conformsTo''),
       at_license = get_iri p DCT ''license'', at_keywords = get_strs p DCAT ''keyword'', at_issued = get_str p DCT ''issued'',
       at_publisher = map_option (agent_ref w st) (get_iri p DCT ''publisher''),
       at_creators = map (agent_ref w st) (get_iris p DCT ''creator''),
       at_contributors = map (agent_ref w st) (get_iris p DCT ''contributor''),
       at_contact = map_option (agent_ref w st) (first_some (get_iri p CODEMETA ''maintainer'') (get_iri p TAR ''contact'')),
       at_modified = get_str p DCT ''modified'', at_version = get_str p DCAT ''version'',
       at_landing_page = get_iri p DCAT ''landingPage'', at_documentation = get_iri p FOAF ''page'',
       at_source = get_iri p DCT ''source'', at_language = get_strs p DCT ''language'', at_spatial = get_str p DCT ''spatial'',
       at_temporal_start = get_str p TAR ''temporalStart'', at_temporal_end = get_str p TAR ''temporalEnd'',
       at_attributed_to = get_iri p PROV ''wasAttributedTo'',
       at_produced_by = attributed_agent w st p ROLE_PRODUCING_SYSTEM,
       at_produced_by_user = attributed_agent w st p ROLE_PRODUCING_USER,
       at_distributions = ds, at_content_identifiers = List.map_filter ds_content_identifier ds,
       at_availability = overall_availability ds,
       at_was_derived_from = get_iris p PROV ''wasDerivedFrom'', at_was_revision_of = get_iri p PROV ''wasRevisionOf'',
       at_is_version_of = get_iri p DCT ''isVersionOf'', at_was_generated_by = get_iri p PROV ''wasGeneratedBy'',
       at_generated_by_run = None,
       at_external_key = first_some (get_str p DCT ''identifier'') (get_str p TAR ''externalKey''),
       at_origin = origin_of_graph w (np_graph p),
       at_tombstoned = (case get_bool p TAR ''tombstoned'' of Some b \<Rightarrow> b | None \<Rightarrow> False)\<rparr>)"

definition load_artifact :: "read_world \<Rightarrow> store \<Rightarrow> string \<Rightarrow> app_error + artifact" where
  "load_artifact w st iri =
     (case described w st iri of
        Inl e \<Rightarrow> Inl (internal e)
      | Inr [] \<Rightarrow> Inl (not_found (''no artifact at '' @ iri))
      | Inr qs \<Rightarrow>
          (let a = artifact_from_props w st iri (from_quads iri qs)
           in Inr (case at_was_generated_by a of
                     None \<Rightarrow> a
                   | Some run \<Rightarrow> a\<lparr>at_generated_by_run := (case load_run_summary w st run of Inr r \<Rightarrow> Some r | Inl _ \<Rightarrow> None)\<rparr>)))"

record artifact_view =
  aref_iri :: string
  aref_title :: "string option"
  aref_conforms_to :: "type_ref option"
  aref_availability :: "string option"
  aref_origin :: origin
  aref_unresolved :: bool

definition artifact_ref :: "read_world \<Rightarrow> store \<Rightarrow> string \<Rightarrow> artifact_view" where
  "artifact_ref w st iri =
     (let quads = (case described w st iri of Inr qs \<Rightarrow> qs | Inl _ \<Rightarrow> []); p = from_quads iri quads in
      if quads = [] then
        \<lparr>aref_iri = iri, aref_title = None, aref_conforms_to = None, aref_availability = None,
         aref_origin = origin_of_iri w iri, aref_unresolved = True\<rparr>
      else
        \<lparr>aref_iri = iri, aref_title = first_some (get_str p DCT ''title'') (get_str p SKOS ''prefLabel''),
         aref_conforms_to = map_option (type_ref_of w) (get_iri p DCT ''conformsTo''),
         aref_availability = Some (overall_availability (distributions_of (rdf_world.truncate w) p)),
         aref_origin = origin_of_graph w (np_graph p), aref_unresolved = False\<rparr>)"

record run_details =
  rd_summary :: run_summary
  rd_used :: "artifact_view list"
  rd_generated :: "artifact_view list"
  rd_payload :: "json option"

definition load_run :: "read_world \<Rightarrow> store \<Rightarrow> string \<Rightarrow> app_error + run_details" where
  "load_run w st iri =
     (case described w st iri of
        Inl e \<Rightarrow> Inl (internal e)
      | Inr [] \<Rightarrow> Inl (not_found (''no run at '' @ iri))
      | Inr qs \<Rightarrow>
          (let p = from_quads iri qs;
               used = map (artifact_ref w st) (get_iris p PROV ''used'');
               generated = map (artifact_ref w st) (generated_iris st iri)
           in Inr \<lparr>rd_summary = hd (decorate w st [(run_summary_from_props w iri p)
                      \<lparr>rs_used_count := length used, rs_generated_count := length generated\<rparr>]),
                   rd_used = used, rd_generated = generated,
                   rd_payload = Option.bind (get_str p TAR ''openLineagePayload'') (cx_json w)\<rparr>))"

section \<open>A distribution reads back as it was written\<close>

definition plookup :: "(string \<times> rdf_term) list \<Rightarrow> string \<Rightarrow> rdf_term list" where
  "plookup ps k = map snd (filter (\<lambda>x. fst x = k) ps)"

lemma plookup_append [simp]: "plookup (a @ b) k = plookup a k @ plookup b k"
  by (simp add: plookup_def)

lemma plookup_pairs [simp]:
  "plookup [] k = []"
  "plookup (x # xs) k = (if fst x = k then snd x # plookup xs k else plookup xs k)"
  "plookup (link_pairs w p v) k = (if p = k then map (link_term w) (case non_empty v of None \<Rightarrow> [] | Some t \<Rightarrow> [t]) else [])"
  "plookup (text_pairs p v) k = (if p = k then map simple_literal (case non_empty v of None \<Rightarrow> [] | Some t \<Rightarrow> [t]) else [])"
  "plookup (int_pairs p i) k = (if p = k then map snd (int_pairs p i) else [])"
  by (auto simp: plookup_def link_pairs_def text_pairs_def int_pairs_def split: option.splits)

lemma terms_plookup: "terms p ns l = plookup (np_pairs p) (ns @ l)"
  by (simp add: terms_def plookup_def)

lemma nested_for_from_quads:
  "nested_for (from_quads parent qs) k = (if quads_about k qs = [] then None else Some (props_of k qs))"
proof -
  have "map_of (map (\<lambda>k. (k, props_of k qs)) ks) k = (if k \<in> set ks then Some (props_of k qs) else None)" for ks
    by (induction ks) auto
  moreover have "k \<in> set (dedup (map (\<lambda>q. subject_key (q_subject q)) qs)) \<longleftrightarrow> quads_about k qs \<noteq> []"
    by (auto simp: quads_about_def filter_empty_conv)
  ultimately show ?thesis by (simp add: nested_for_def from_quads_def node_props.defs)
qed

lemma quads_about_append [simp]: "quads_about k (a @ b) = quads_about k a @ quads_about k b"
  by (simp add: quads_about_def)

lemma quads_about_emitted:
  "quads_about k (map (quad_of n) ps) = (if subject_key (rn_subject n) = k then map (quad_of n) ps else [])"
  by (auto simp: quads_about_def quad_of_def comp_def)

lemma pairs_of_emitted: "map (\<lambda>q. (q_predicate q, q_object q)) (map (quad_of n) ps) = ps"
  by (simp add: quad_of_def comp_def)

definition valid_link :: "rdf_world \<Rightarrow> string option \<Rightarrow> string option" where
  "valid_link w v = (case non_empty v of None \<Rightarrow> None | Some t \<Rightarrow> if rw_valid_iri w t then Some t else None)"

lemma term_value_simple [simp]: "term_value (simple_literal s) = s"
  by (simp add: term_value_def simple_literal_def)

lemma named_link [simp]: "named (link_term w t) = (if rw_valid_iri w t then Some t else None)"
  by (simp add: named_def link_term_def simple_literal_def)

text \<open>The pairs of a distribution's node in the order of the code, without its checksum.\<close>

definition distribution_pairs :: "rdf_world \<Rightarrow> distribution_in \<Rightarrow> string \<Rightarrow> (string \<times> rdf_term) list" where
  "distribution_pairs w d availability =
     [(rdf_type, Node (NamedNode TYPE_DISTRIBUTION))]
     @ text_pairs (DCT @ ''title'') (di_title d)
     @ link_pairs w (DCAT @ ''accessURL'') (di_access_url d)
     @ link_pairs w (DCAT @ ''downloadURL'') (if availability \<noteq> ''metadata-only'' then di_download_url d else None)
     @ text_pairs (DCAT @ ''mediaType'') (di_media_type d)
     @ text_pairs (DCT @ ''format'') (di_media_type d)
     @ int_pairs (DCAT @ ''byteSize'') (di_byte_size d)
     @ link_pairs w (DCT @ ''conformsTo'') (di_conforms_to d)
     @ link_pairs w (DCT @ ''license'') (di_license d)
     @ link_pairs w (DCAT @ ''accessService'') (di_access_service d)
     @ text_pairs (TAR @ ''accessProtocol'') (di_access_protocol d)
     @ text_pairs (TAR @ ''authMethod'') (di_auth_method d)
     @ text_pairs (TAR @ ''availability'') (Some availability)
     @ link_pairs w (DCT @ ''accessRights'') (access_right availability)
     @ link_pairs w (TAR @ ''accessRequestURL'') (di_access_request_url d)"

lemma access_right_link:
  "(case access_right a of Some ar \<Rightarrow> add_link w ns l ar | None \<Rightarrow> id) = emit (link_pairs w (ns @ l) (access_right a))"
  by (auto simp: emit_calls emit_none link_pairs_def non_empty_def split: option.split)

lemma download_link:
  "(if c then opt_link w ns l v else id) = emit (link_pairs w (ns @ l) (if c then v else None))"
  by (simp add: emit_calls emit_none link_pairs_def non_empty_def)

lemma build_distribution:
  "build ([add_type TYPE_DISTRIBUTION,
           add_opt_text DCT ''title'' (di_title d),
           opt_link w DCAT ''accessURL'' (di_access_url d),
           (if availability \<noteq> ''metadata-only'' then opt_link w DCAT ''downloadURL'' (di_download_url d) else id),
           add_opt_text DCAT ''mediaType'' (di_media_type d),
           add_opt_text DCT ''format'' (di_media_type d),
           add_opt_int DCAT ''byteSize'' (di_byte_size d),
           opt_link w DCT ''conformsTo'' (di_conforms_to d),
           opt_link w DCT ''license'' (di_license d),
           opt_link w DCAT ''accessService'' (di_access_service d),
           add_opt_text TAR ''accessProtocol'' (di_access_protocol d),
           add_opt_text TAR ''authMethod'' (di_auth_method d),
           add_text TAR ''availability'' availability,
           (case access_right availability of Some ar \<Rightarrow> add_link w DCT ''accessRights'' ar | None \<Rightarrow> id),
           opt_link w TAR ''accessRequestURL'' (di_access_request_url d)] @ steps) n
   = build steps (emit (distribution_pairs w d availability) n)"
  unfolding build_def fold_append comp_apply access_right_link download_link
  by (simp only: emit_calls fold_simps emit_emit distribution_pairs_def append.assoc append_Cons append_Nil)

lemmas namespaces = TAR_def DCAT_def DCT_def PROV_def SCHEMA_def RDF_def RDFS_def SKOS_def SPDX_def XSD_def FOAF_def
  CODEMETA_def rdf_type_def

lemma distribution_lookups:
  fixes w :: rdf_world and d :: distribution_in and a :: string
  defines "look \<equiv> plookup (distribution_pairs w d a)"
  shows "look (DCT @ ''title'') = map simple_literal (case non_empty (di_title d) of None \<Rightarrow> [] | Some t \<Rightarrow> [t])"
    "look (DCAT @ ''accessURL'') = map (link_term w) (case non_empty (di_access_url d) of None \<Rightarrow> [] | Some t \<Rightarrow> [t])"
    "look (DCAT @ ''downloadURL'') = map (link_term w)
       (case non_empty (if a \<noteq> ''metadata-only'' then di_download_url d else None) of None \<Rightarrow> [] | Some t \<Rightarrow> [t])"
    "look (DCAT @ ''mediaType'') = map simple_literal (case non_empty (di_media_type d) of None \<Rightarrow> [] | Some t \<Rightarrow> [t])"
    "look (DCAT @ ''byteSize'') = map snd (int_pairs (DCAT @ ''byteSize'') (di_byte_size d))"
    "look (DCT @ ''conformsTo'') = map (link_term w) (case non_empty (di_conforms_to d) of None \<Rightarrow> [] | Some t \<Rightarrow> [t])"
    "look (DCT @ ''license'') = map (link_term w) (case non_empty (di_license d) of None \<Rightarrow> [] | Some t \<Rightarrow> [t])"
    "look (DCAT @ ''accessService'') = map (link_term w) (case non_empty (di_access_service d) of None \<Rightarrow> [] | Some t \<Rightarrow> [t])"
    "look (TAR @ ''accessProtocol'') = map simple_literal (case non_empty (di_access_protocol d) of None \<Rightarrow> [] | Some t \<Rightarrow> [t])"
    "look (TAR @ ''authMethod'') = map simple_literal (case non_empty (di_auth_method d) of None \<Rightarrow> [] | Some t \<Rightarrow> [t])"
    "look (TAR @ ''availability'') = map simple_literal (case non_empty (Some a) of None \<Rightarrow> [] | Some t \<Rightarrow> [t])"
    "look (TAR @ ''accessRequestURL'') = map (link_term w) (case non_empty (di_access_request_url d) of None \<Rightarrow> [] | Some t \<Rightarrow> [t])"
    "look (SPDX @ ''checksum'') = []" "look (PROV @ ''specializationOf'') = []"
  unfolding look_def distribution_pairs_def by (simp_all only: plookup_append plookup_pairs)
    (simp_all add: namespaces)

lemma one_plookup: "one p ns l = (case plookup (np_pairs p) (ns @ l) of [] \<Rightarrow> None | t # _ \<Rightarrow> Some t)"
  by (simp add: one_def terms_plookup)

lemma get_plookup:
  "plookup (np_pairs p) (ns @ l) = map simple_literal (case v of None \<Rightarrow> [] | Some t \<Rightarrow> [t]) \<Longrightarrow> get_str p ns l = v"
  "plookup (np_pairs p) (ns @ l) = map (link_term w) (case non_empty v of None \<Rightarrow> [] | Some t \<Rightarrow> [t]) \<Longrightarrow> get_iri p ns l = valid_link w v"
  "plookup (np_pairs p) (ns @ l) = map snd (int_pairs k i) \<Longrightarrow> (\<And>v. i = Some v \<Longrightarrow> - (2 ^ 63) \<le> v \<and> v < 2 ^ 63) \<Longrightarrow> get_i64 p ns l = i"
  by (auto simp: get_str_def get_iri_def one_plookup valid_link_def split: option.splits)
    (auto simp: get_i64_def get_str_def one_plookup int_pairs_def term_value_def parse_i64_show_int split: option.splits)

lemma map_quad_of: "map (quad_of n) ps = map (\<lambda>x. \<lparr>q_subject = rn_subject n, q_predicate = fst x, q_object = snd x, q_graph = rn_graph n\<rparr>) ps"
  by (simp add: quad_of_def)

definition checksum_pairs :: "rdf_world \<Rightarrow> checksum_in \<Rightarrow> (string \<times> rdf_term) list" where
  "checksum_pairs w c =
     [(rdf_type, Node (NamedNode (SPDX @ ''Checksum'')))]
     @ link_pairs w (SPDX @ ''algorithm'') (Some (SPDX @ ''checksumAlgorithm_'' @ ck_algorithm c))
     @ text_pairs (SPDX @ ''checksumValue'') (Some (ck_value c))"

lemma checksum_node_quads:
  "rn_quads (checksum_node w b c) = map (quad_of (blank_node b G_LOCAL)) (checksum_pairs w c)"
  "rn_subject (checksum_node w b c) = BlankNode b"
proof -
  have e: "checksum_node w b c = emit (checksum_pairs w c) (blank_node b G_LOCAL)"
    unfolding checksum_node_def build_def checksum_pairs_def
    by (simp only: emit_calls fold_simps emit_emit append.assoc)
  show "rn_quads (checksum_node w b c) = map (quad_of (blank_node b G_LOCAL)) (checksum_pairs w c)"
    "rn_subject (checksum_node w b c) = BlankNode b"
    by (simp_all add: e emit_def blank_node_def)
qed

lemma checksum_lookups:
  "plookup (checksum_pairs w c) (SPDX @ ''algorithm'') = [link_term w (SPDX @ ''checksumAlgorithm_'' @ ck_algorithm c)]"
  "plookup (checksum_pairs w c) (SPDX @ ''checksumValue'') = map simple_literal (case non_empty (Some (ck_value c)) of None \<Rightarrow> [] | Some t \<Rightarrow> [t])"
  unfolding checksum_pairs_def by (simp_all add: namespaces non_empty_def)

definition plain_algorithm :: "rdf_world \<Rightarrow> string \<Rightarrow> bool" where
  "plain_algorithm w a \<longleftrightarrow> rw_valid_iri w (SPDX @ ''checksumAlgorithm_'' @ a) \<and> CHR ''#'' \<notin> set a \<and> CHR ''/'' \<notin> set a
     \<and> \<not> prefix ''checksumAlgorithm_'' a"

lemma split_on_any_absent: "set s \<inter> cs = {} \<Longrightarrow> split_on_any cs s = [s]"
  by (induction s) auto

lemma split_on_any_last:
  "c \<in> cs \<Longrightarrow> set s \<inter> cs = {} \<Longrightarrow> \<exists>ps. split_on_any cs (p @ c # s) = ps @ [s] \<and> ps \<noteq> []"
proof (induction p)
  case (Cons x p)
  then obtain ps where ps: "split_on_any cs (p @ c # s) = ps @ [s]" "ps \<noteq> []" by blast
  then obtain q qs where "ps = q # qs" by (cases ps) auto
  with ps(1) show ?case
    by (cases "x \<in> cs") (auto intro: exI [of _ "[] # ps"] exI [of _ "(x # q) # qs"])
qed (simp add: split_on_any_absent)

lemma iri_tail_algorithm:
  assumes "plain_algorithm w a"
  shows "trim_start_word ''checksumAlgorithm_'' (iri_tail (SPDX @ ''checksumAlgorithm_'' @ a)) = a"
proof -
  let ?s = "''checksumAlgorithm_'' @ a"
  have s: "SPDX @ ?s = ''http://spdx.org/rdf/terms'' @ CHR ''#'' # ?s" by (simp add: SPDX_def)
  have "set ?s \<inter> {CHR ''#'', CHR ''/''} = {}" using assms by (auto simp: plain_algorithm_def)
  from split_on_any_last [OF _ this, of "CHR ''#''" "''http://spdx.org/rdf/terms''"]
  obtain ps where "split_on_any {CHR ''#'', CHR ''/''} (SPDX @ ?s) = ps @ [?s]"
    unfolding s by blast
  then have "iri_tail (SPDX @ ?s) = ?s" by (simp add: iri_tail_def del: split_on_any.simps)
  moreover have "trim_start_word ''checksumAlgorithm_'' ?s = a"
  proof -
    have "strip_words [''checksumAlgorithm_''] a = a"
      by (rule strip_words_stuck) (use assms in \<open>auto simp: plain_algorithm_def\<close>)
    then show ?thesis unfolding trim_start_word_def by (subst strip_words.simps) simp
  qed
  ultimately show ?thesis by simp
qed

text \<open>What a reader is shown of a distribution that was written as \<open>d\<close>.\<close>

definition shown_distribution :: "build_world \<Rightarrow> string \<Rightarrow> distribution_in \<Rightarrow> distribution" where
  "shown_distribution w key d =
     (let a = (case di_availability d of Some a \<Rightarrow> a | None \<Rightarrow> ''public'') in
      \<lparr>ds_iri = key,
       ds_content_identifier = Option.bind (di_checksum d) (\<lambda>c.
          Option.bind (ok_iri (identify_content (bw_codec w) (ck_algorithm c) (ck_value c))) (\<lambda>i. valid_link (core w) (Some i))),
       ds_title = non_empty (di_title d), ds_access_url = valid_link (core w) (di_access_url d),
       ds_download_url = (if a \<noteq> ''metadata-only'' then valid_link (core w) (di_download_url d) else None),
       ds_media_type = non_empty (di_media_type d), ds_byte_size = di_byte_size d, ds_checksum = di_checksum d,
       ds_conforms_to = valid_link (core w) (di_conforms_to d), ds_license = valid_link (core w) (di_license d),
       ds_access_service = valid_link (core w) (di_access_service d), ds_access_protocol = non_empty (di_access_protocol d),
       ds_auth_method = non_empty (di_auth_method d),
       ds_availability = (if a = [] then ''public'' else a),
       ds_access_request_url = valid_link (core w) (di_access_request_url d)\<rparr>)"

lemma identified_ni: "ok_iri (identify_content cd a v) = Some i \<Longrightarrow> prefix ''ni:'' i \<and> i \<noteq> []"
  by (auto simp: ok_iri_def identify_content_def content_name_def NI_PREFIX_def split: option.splits sum.splits if_splits)

text \<open>The pairs a checksum adds to its distribution's node.\<close>

definition checksum_links :: "build_world \<Rightarrow> distribution_in \<Rightarrow> nat \<Rightarrow> (string \<times> rdf_term) list" where
  "checksum_links w d n =
     (case di_checksum d of
        None \<Rightarrow> []
      | Some c \<Rightarrow> (SPDX @ ''checksum'', Node (BlankNode (bw_fresh w n)))
          # link_pairs (core w) (PROV @ ''specializationOf'') (ok_iri (identify_content (bw_codec w) (ck_algorithm c) (ck_value c))))"

lemma distribution_statements:
  assumes "prefix ''http'' key"
  shows "quads_about key (fst (distribution_quads w key d n))
      = map (quad_of (local_node key))
          (distribution_pairs (core w) d (case di_availability d of Some a \<Rightarrow> a | None \<Rightarrow> ''public'') @ checksum_links w d n)"
    "di_checksum d = Some c \<Longrightarrow> quads_about (''_:'' @ bw_fresh w n) (fst (distribution_quads w key d n))
      = map (quad_of (blank_node (bw_fresh w n) G_LOCAL)) (checksum_pairs (core w) c)"
proof -
  let ?P = "distribution_pairs (core w) d (case di_availability d of Some a \<Rightarrow> a | None \<Rightarrow> ''public'')"
  have key: "key \<noteq> ''_:'' @ x" "\<not> prefix ''ni:'' key" for x using assms by (auto simp: prefix_def)
  have sk: "subject_key (NamedNode s) = s" "subject_key (BlankNode b) = ''_:'' @ b" for s b by (simp_all add: subject_key_def)
  have fst_dq: "fst (distribution_quads w key d n) =
      finish (build (fst (case di_checksum d of None \<Rightarrow> ([], []) | Some c \<Rightarrow> checksum_steps w c n)) (emit ?P (local_node key)))
        @ snd (case di_checksum d of None \<Rightarrow> ([], []) | Some c \<Rightarrow> checksum_steps w c n)"
    unfolding distribution_quads_def Let_def build_distribution by (simp split: prod.split)
  note rules = build_def finish_def rn_add_child quad_of_child checksum_node_quads quads_about_emitted sk checksum_links_def node_term_def
    emit_calls(1-3) key quads_about_def quad_of_def comp_def
  have both: "quads_about key (fst (distribution_quads w key d n)) = map (quad_of (local_node key)) (?P @ checksum_links w d n)
     \<and> (\<forall>c. di_checksum d = Some c \<longrightarrow> quads_about (''_:'' @ bw_fresh w n) (fst (distribution_quads w key d n))
          = map (quad_of (blank_node (bw_fresh w n) G_LOCAL)) (checksum_pairs (core w) c))"
  proof (cases "di_checksum d")
    case None
    then show ?thesis unfolding fst_dq by (simp add: rules)
  next
    case (Some c)
    show ?thesis
    proof (cases "ok_iri (identify_content (bw_codec w) (ck_algorithm c) (ck_value c))")
      case None
      then have "checksum_steps w c n = ([add_child SPDX ''checksum'' (checksum_node (core w) (bw_fresh w n) c)], [])"
        by (auto simp: checksum_steps_def Let_def ok_iri_def split: sum.splits)
      with Some None key(1) [THEN not_sym] show ?thesis unfolding fst_dq
        by (auto simp: rules link_pairs_def non_empty_def filter_empty_conv)
    next
      case ni: (Some i)
      then have "checksum_steps w c n = ([add_child SPDX ''checksum'' (checksum_node (core w) (bw_fresh w n) c),
          add_link (core w) PROV ''specializationOf'' i], finish (add_type TYPE_ENTITY (local_node i)))"
        by (auto simp: checksum_steps_def Let_def ok_iri_def split: sum.splits)
      moreover have "i \<noteq> key" "i \<noteq> ''_:'' @ bw_fresh w n" using identified_ni [OF ni] key(2) by (auto simp: prefix_def)
      ultimately show ?thesis using Some ni key(1) [THEN not_sym] unfolding fst_dq by (auto simp: rules filter_empty_conv)
    qed
  qed
  then show "quads_about key (fst (distribution_quads w key d n)) = map (quad_of (local_node key)) (?P @ checksum_links w d n)"
    "di_checksum d = Some c \<Longrightarrow> quads_about (''_:'' @ bw_fresh w n) (fst (distribution_quads w key d n))
      = map (quad_of (blank_node (bw_fresh w n) G_LOCAL)) (checksum_pairs (core w) c)" by blast+
qed

text \<open>
  C36. What a producer says of a distribution is what a reader is shown: every field comes back, the
  links that are no IRI and the empty texts left out, a download address hidden for a distribution
  of metadata only, and the content identifier derived from the checksum. \<open>qs\<close> is any description of
  the record that holds the statements written for it.
\<close>

theorem distribution_reads_back:
  assumes "prefix ''http'' key"
    and "quads_about key qs = quads_about key (fst (distribution_quads w key d n))"
    and "quads_about (''_:'' @ bw_fresh w n) qs = quads_about (''_:'' @ bw_fresh w n) (fst (distribution_quads w key d n))"
    and "\<forall>v. di_byte_size d = Some v \<longrightarrow> - (2 ^ 63) \<le> v \<and> v < 2 ^ 63"
    and "\<forall>c. di_checksum d = Some c \<longrightarrow> plain_algorithm (core w) (ck_algorithm c) \<and> ck_value c \<noteq> []"
  shows "distribution_from (core w) (from_quads parent qs) key = Some (shown_distribution w key d)"
proof -
  let ?a = "case di_availability d of Some a \<Rightarrow> a | None \<Rightarrow> ''public''"
  let ?d = "props_of key qs"
  have pairs: "np_pairs ?d = distribution_pairs (core w) d ?a @ checksum_links w d n"
    unfolding props_of_def node_props.simps assms(2) distribution_statements(1) [OF assms(1)] by (rule pairs_of_emitted)
  have nested: "nested_for (from_quads parent qs) key = Some ?d"
    unfolding nested_for_from_quads assms(2) distribution_statements(1) [OF assms(1)] by (simp add: distribution_pairs_def)
  have other: "plookup (checksum_links w d n) k = []" if "k \<noteq> SPDX @ ''checksum''" "k \<noteq> PROV @ ''specializationOf''" for k
    using that by (auto simp: checksum_links_def split: option.splits)
  have apart: "SPDX @ ''checksum'' \<noteq> PROV @ ''specializationOf''" by (simp add: namespaces)
  have look: "plookup (np_pairs ?d) k = plookup (distribution_pairs (core w) d ?a) k"
    if "k \<noteq> SPDX @ ''checksum''" "k \<noteq> PROV @ ''specializationOf''" for k
    using other [OF that] by (simp add: pairs)
  note looks = distribution_lookups(1-12) [of "core w" d ?a]
  have texts: "get_str ?d DCT ''title'' = non_empty (di_title d)" "get_str ?d DCAT ''mediaType'' = non_empty (di_media_type d)"
    "get_str ?d TAR ''accessProtocol'' = non_empty (di_access_protocol d)"
    "get_str ?d TAR ''authMethod'' = non_empty (di_auth_method d)" "get_str ?d TAR ''availability'' = non_empty (Some ?a)"
    by (intro get_plookup(1); subst look; (simp only: looks)?; simp add: namespaces)+
  have links: "get_iri ?d DCAT ''accessURL'' = valid_link (core w) (di_access_url d)"
    "get_iri ?d DCAT ''downloadURL'' = valid_link (core w) (if ?a \<noteq> ''metadata-only'' then di_download_url d else None)"
    "get_iri ?d DCT ''conformsTo'' = valid_link (core w) (di_conforms_to d)"
    "get_iri ?d DCT ''license'' = valid_link (core w) (di_license d)"
    "get_iri ?d DCAT ''accessService'' = valid_link (core w) (di_access_service d)"
    "get_iri ?d TAR ''accessRequestURL'' = valid_link (core w) (di_access_request_url d)"
    by (intro get_plookup(2); subst look; (simp only: looks)?; simp add: namespaces)+
  have size: "get_i64 ?d DCAT ''byteSize'' = di_byte_size d"
  proof (rule get_plookup(3) [where k = "DCAT @ ''byteSize''"])
    show "plookup (np_pairs ?d) (DCAT @ ''byteSize'') = map snd (int_pairs (DCAT @ ''byteSize'') (di_byte_size d))"
      by (subst look; (simp only: looks)?; simp add: namespaces)
  next
    fix v assume "di_byte_size d = Some v"
    with assms(4) show "- (2 ^ 63) \<le> v \<and> v < 2 ^ 63" by blast
  qed
  have cid: "content_identifier ?d = Option.bind (di_checksum d) (\<lambda>c.
      Option.bind (ok_iri (identify_content (bw_codec w) (ck_algorithm c) (ck_value c))) (\<lambda>i. valid_link (core w) (Some i)))"
    using apart distribution_lookups(14) [of "core w" d ?a] identified_ni
    by (auto simp: content_identifier_def get_iris_def terms_plookup pairs checksum_links_def valid_link_def non_empty_def
        map_filter_simps split: option.split)
  have keys: "node_keys (core w) ?d SPDX ''checksum'' = (case di_checksum d of None \<Rightarrow> [] | Some c \<Rightarrow> [''_:'' @ bw_fresh w n])"
    using apart distribution_lookups(13) [of "core w" d ?a]
    by (auto simp: node_keys_def terms_plookup pairs checksum_links_def term_key_def subject_key_def split: option.split)
  have sum: "(case node_keys (core w) ?d SPDX ''checksum'' of [] \<Rightarrow> None
      | k # _ \<Rightarrow> map_option checksum_from (nested_for (from_quads parent qs) k)) = di_checksum d"
  proof (cases "di_checksum d")
    case (Some c)
    let ?c = "props_of (''_:'' @ bw_fresh w n) qs"
    note st = distribution_statements(2) [OF assms(1) Some]
    have cp: "np_pairs ?c = checksum_pairs (core w) c"
      unfolding props_of_def node_props.simps assms(3) st by (rule pairs_of_emitted)
    have nc: "nested_for (from_quads parent qs) (''_:'' @ bw_fresh w n) = Some ?c"
      unfolding nested_for_from_quads assms(3) st by (simp add: checksum_pairs_def)
    have ok: "plain_algorithm (core w) (ck_algorithm c)" "ck_value c \<noteq> []" using assms(5) Some by blast+
    have "get_iri ?c SPDX ''algorithm'' = Some (SPDX @ ''checksumAlgorithm_'' @ ck_algorithm c)"
      using ok(1) unfolding get_iri_def one_plookup cp checksum_lookups by (simp add: plain_algorithm_def)
    moreover have "get_str ?c SPDX ''checksumValue'' = Some (ck_value c)"
      using ok(2) unfolding get_str_def one_plookup cp checksum_lookups by (simp add: non_empty_def)
    ultimately have "checksum_from ?c = c"
      using iri_tail_algorithm [OF ok(1)] by (simp add: checksum_from_def)
    with nc show ?thesis by (simp add: keys Some)
  qed (simp add: keys)
  have avail: "(case non_empty (Some ?a) of Some a \<Rightarrow> a | None \<Rightarrow> ''public'') = (if ?a = [] then ''public'' else ?a)"
    by (simp add: non_empty_def)
  have down: "valid_link (core w) (if ?a \<noteq> ''metadata-only'' then di_download_url d else None)
      = (if ?a \<noteq> ''metadata-only'' then valid_link (core w) (di_download_url d) else None)"
    by (simp add: valid_link_def non_empty_def)
  show ?thesis
    unfolding distribution_from_def nested option.case texts links size cid sum avail down shown_distribution_def Let_def ..
qed

theorem distribution_reads_back_witness:
  "distribution_from (core demo_build_world)
     (from_quads ''https://reg.org/artifact/1'' (fst (distribution_quads demo_build_world ''https://reg.org/distribution/2'' demo_distribution 0)))
     ''https://reg.org/distribution/2''
   = Some (shown_distribution demo_build_world ''https://reg.org/distribution/2'' demo_distribution)"
proof (rule distribution_reads_back [OF _ refl refl])
  have "plain_algorithm (core demo_build_world) ''sha256''" by code_simp
  then show "\<forall>c. di_checksum demo_distribution = Some c \<longrightarrow> plain_algorithm (core demo_build_world) (ck_algorithm c) \<and> ck_value c \<noteq> []"
    by (simp add: demo_distribution_def)
qed (simp_all add: demo_distribution_def)

end
