(* ===== verification/Shacl.thy ===== *)
theory Shacl
  imports Record_Reads "HOL-Library.Product_Lexorder" "HOL-Library.List_Lexorder" "HOL-Library.Char_ord"
begin

text \<open>
  Write validation (\<open>src/shacl.rs\<close>) and the digest rule of \<open>src/domain/content.rs\<close>: findings, the
  report, which input field a finding is about, and what lets a write through. The results of the SHACL
  engine on the shapes and of the vocabulary rule are arguments.
\<close>

datatype severity = Violation | Warning

record finding =
  fi_severity :: severity
  fi_focus :: string
  fi_path :: string
  fi_constraint :: string
  fi_message :: string
  fi_field :: string
  fi_value :: "string option"

type_synonym report = "finding list"

definition is_violation :: "finding \<Rightarrow> bool" where
  "is_violation f \<longleftrightarrow> fi_severity f = Violation"

definition conforms :: "report \<Rightarrow> bool" where
  "conforms r \<longleftrightarrow> \<not> list_ex is_violation r"

definition violations :: "report \<Rightarrow> finding list" where
  "violations r = filter is_violation r"

definition summary :: "report \<Rightarrow> string" where
  "summary r =
     (let v = map (\<lambda>f. if fi_field f = [] then fi_message f else fi_field f @ '': '' @ fi_message f) (violations r)
      in if v = [] then ''no violations'' else join ''; '' v)"

section \<open>The report as Turtle\<close>

definition turtle_escape :: "string \<Rightarrow> string" where
  "turtle_escape s =
     replace_str [CHR 0x0A] [CHR 0x5C, CHR ''n'']
       (replace_str [CHR 0x22] [CHR 0x5C, CHR 0x22] (replace_str [CHR 0x5C] [CHR 0x5C, CHR 0x5C] s))"

definition quoted :: "string \<Rightarrow> string" where
  "quoted s = [CHR 0x22] @ s @ [CHR 0x22]"

definition turtle_line :: "string \<Rightarrow> string" where
  "turtle_line s = ''        '' @ s @ '' ;'' @ [CHR 0x0A]"

definition finding_turtle :: "finding \<Rightarrow> string" where
  "finding_turtle f =
     '';'' @ [CHR 0x0A] @ ''    sh:result ['' @ [CHR 0x0A] @ turtle_line ''a sh:ValidationResult''
     @ turtle_line (''sh:resultSeverity sh:'' @ (case fi_severity f of Violation \<Rightarrow> ''Violation'' | Warning \<Rightarrow> ''Warning''))
     @ turtle_line (''sh:focusNode '' @ (if prefix ''http'' (fi_focus f) then ''<'' @ fi_focus f @ ''>'' else quoted (turtle_escape (fi_focus f))))
     @ (if fi_path f \<noteq> [] then turtle_line (''sh:resultPath <'' @ fi_path f @ ''>'') else [])
     @ (if fi_constraint f \<noteq> [] then turtle_line (''sh:sourceConstraintComponent sh:'' @ fi_constraint f) else [])
     @ (case fi_value f of Some v \<Rightarrow> turtle_line (''sh:value '' @ quoted (turtle_escape v)) | None \<Rightarrow> [])
     @ (if fi_field f \<noteq> [] then turtle_line (''tar:jsonField '' @ quoted (turtle_escape (fi_field f))) else [])
     @ ''        sh:resultMessage '' @ quoted (turtle_escape (fi_message f)) @ [CHR 0x0A] @ ''    ] ''"

definition turtle_prefixes :: string where
  "turtle_prefixes =
     concat (map (\<lambda>l. l @ [CHR 0x0A])
       [''@prefix sh:     <http://www.w3.org/ns/shacl#> .'', ''@prefix tar:    <https://w3id.org/tar/ns#> .'',
        ''@prefix dcat:   <http://www.w3.org/ns/dcat#> .'', ''@prefix dct:    <http://purl.org/dc/terms/> .'',
        ''@prefix schema: <https://schema.org/> .'', ''@prefix rdfs:   <http://www.w3.org/2000/01/rdf-schema#> .'',
        ''@prefix prov:   <http://www.w3.org/ns/prov#> .'', '''', ''[] a sh:ValidationReport ;''])"

definition to_turtle :: "report \<Rightarrow> string" where
  "to_turtle r =
     turtle_prefixes @ ''    sh:conforms '' @ (if conforms r then ''true'' else ''false'') @ '' ''
       @ concat (map finding_turtle r) @ ''.'' @ [CHR 0x0A]"

section \<open>Fields\<close>

text \<open>
  The named distributions of each subject, numbered in order; a distribution of several subjects keeps
  the number that was put in last.
\<close>

definition distribution_links :: "quad list \<Rightarrow> (node \<times> string) list" where
  "distribution_links data =
     List.map_filter (\<lambda>q. if q_predicate q = DCAT @ ''distribution'' then map_option (Pair (q_subject q)) (named (q_object q)) else None) data"

definition field_hints :: "quad list \<Rightarrow> (string \<times> string) list" where
  "field_hints data =
     (let links = distribution_links data
      in rev (concat (map (\<lambda>s. let ds = map snd (filter (\<lambda>x. fst x = s) links)
              in map (\<lambda>(i, d). (d, ''distributions['' @ show_nat i @ '']'')) (enumerate 0 ds)) (dedup (map fst links)))))"

definition FIELD_NAMES :: "(string \<times> string) list" where
  "FIELD_NAMES =
     [(SCHEMA @ ''name'', ''name''), (DCT @ ''abstract'', ''tagline''), (SCHEMA @ ''description'', ''description''),
      (SCHEMA @ ''url'', ''homepage''), (SCHEMA @ ''codeRepository'', ''code_repository''),
      (SCHEMA @ ''softwareHelp'', ''documentation''), (SCHEMA @ ''softwareVersion'', ''version''),
      (DCT @ ''license'', ''license''), (SCHEMA @ ''applicationCategory'', ''kind''),
      (CODEMETA @ ''developmentStatus'', ''maturity''), (DCT @ ''subject'', ''topics''), (SCHEMA @ ''keywords'', ''keywords''),
      (RDFS @ ''label'', ''label''), (TAR @ ''instanceOf'', ''software''), (TAR @ ''runsRelease'', ''release''),
      (DCAT @ ''endpointURL'', ''endpoint_url''), (DCAT @ ''endpointDescription'', ''endpoint_description''),
      (TAR @ ''jurisdiction'', ''jurisdiction''), (TAR @ ''registrationClient'', ''registration_clients''),
      (TAR @ ''registrationIssuer'', ''registration_issuer''), (TAR @ ''selfRegisteredIssuer'', ''self_registered_issuer''),
      (TAR @ ''oidcClientId'', ''oidc_client_id''), (TAR @ ''oidcIssuer'', ''oidc_issuer''),
      (TAR @ ''allowedScope'', ''allowed_scopes''), (TAR @ ''produces'', ''capability.produces''),
      (TAR @ ''consumes'', ''capability.consumes''), (DCT @ ''title'', ''title''), (DCT @ ''conformsTo'', ''conforms_to''),
      (DCAT @ ''keyword'', ''keywords''), (PROV @ ''wasDerivedFrom'', ''was_derived_from''),
      (DCT @ ''isVersionOf'', ''is_version_of''), (DCAT @ ''distribution'', ''distributions''),
      (DCAT @ ''accessURL'', ''access_url''), (DCAT @ ''downloadURL'', ''download_url''), (DCAT @ ''byteSize'', ''byte_size''),
      (DCAT @ ''mediaType'', ''media_type''), (TAR @ ''accessProtocol'', ''access_protocol''),
      (TAR @ ''authMethod'', ''auth_method''), (TAR @ ''availability'', ''availability''),
      (DCT @ ''accessRights'', ''availability''), (TAR @ ''accessRequestURL'', ''access_request_url''),
      (PROV @ ''startedAtTime'', ''run.started_at''), (PROV @ ''endedAtTime'', ''run.ended_at''),
      (TAR @ ''status'', ''run.status''), (SCHEMA @ ''actionStatus'', ''run.status''),
      (PROV @ ''wasAssociatedWith'', ''run.instance'')]"

definition field_for :: "string \<Rightarrow> string \<Rightarrow> (string \<times> string) list \<Rightarrow> string" where
  "field_for path focus hints =
     (case (map_of hints focus, map_of FIELD_NAMES path) of
        (Some pre, Some field) \<Rightarrow> pre @ ''.'' @ field
      | (Some pre, None) \<Rightarrow> pre
      | (None, Some field) \<Rightarrow> field
      | (None, None) \<Rightarrow> [])"

text \<open>A result of the engine: whether it is a violation, its path, focus, component, messages and value.\<close>

record engine_result =
  er_violation :: bool
  er_path :: "string option"
  er_focus :: string
  er_component :: "string option"
  er_messages :: "string list"
  er_value :: "string option"

definition best_message :: "string list \<Rightarrow> string" where
  "best_message ms = (if ms = [] then ''constraint violated'' else last ms)"

definition component_name :: "string \<Rightarrow> string" where
  "component_name c = role_local c"

definition engine_finding :: "(string \<times> string) list \<Rightarrow> engine_result \<Rightarrow> finding" where
  "engine_finding hints r =
     (let path = (case er_path r of Some p \<Rightarrow> p | None \<Rightarrow> []); focus = er_focus r in
      \<lparr>fi_severity = (if er_violation r then Violation else Warning), fi_focus = focus, fi_path = path,
       fi_constraint = (case er_component r of Some c \<Rightarrow> component_name c | None \<Rightarrow> []),
       fi_message = best_message (er_messages r), fi_field = field_for path focus hints, fi_value = er_value r\<rparr>)"

text \<open>The engine fails to build its dataset, finds the shapes broken, or gives its results.\<close>

datatype engine_answer = No_Dataset | Broken_Shapes string | Results "engine_result list"

definition sort_findings :: "finding list \<Rightarrow> finding list" where
  "sort_findings fs = sort_key (\<lambda>f. (fi_field f, fi_message f)) fs"

definition shapes_finding :: "string \<Rightarrow> finding" where
  "shapes_finding e =
     \<lparr>fi_severity = Violation, fi_focus = ''urn:tar:shapes'', fi_path = [], fi_constraint = ''ShapesGraphError'',
      fi_message = ''the registry's SHACL shapes could not be parsed: '' @ e, fi_field = [], fi_value = None\<rparr>"

definition validate_quads :: "(quad list \<Rightarrow> engine_answer) \<Rightarrow> quad list \<Rightarrow> report" where
  "validate_quads engine quads =
     (case engine quads of
        No_Dataset \<Rightarrow> []
      | Broken_Shapes e \<Rightarrow> [shapes_finding e]
      | Results rs \<Rightarrow> sort_findings (map (engine_finding (field_hints quads)) rs))"

section \<open>Digests\<close>

text \<open>Maps filled in the order of the quads, a later insert replacing an earlier one.\<close>

definition algorithms_in :: "quad list \<Rightarrow> string \<Rightarrow> string option" where
  "algorithms_in quads =
     map_of (rev (List.map_filter (\<lambda>q. if q_predicate q = SPDX @ ''algorithm'' then
        map_option (\<lambda>n. (subject_key (q_subject q), strip_words [''checksumAlgorithm_''] (iri_tail n))) (named (q_object q)) else None) quads))"

definition digest_values :: "quad list \<Rightarrow> (string \<times> string) list" where
  "digest_values quads =
     rev (List.map_filter (\<lambda>q. if q_predicate q = SPDX @ ''checksumValue'' then
        (case q_object q of Literal v d l \<Rightarrow> Some (subject_key (q_subject q), v) | Node _ \<Rightarrow> None) else None) quads)"

definition checksums_in :: "quad list \<Rightarrow> (string \<times> string \<times> string) list" where
  "checksums_in quads =
     sort (List.map_filter (\<lambda>s. case (map_of (digest_values quads) s, algorithms_in quads s) of
             (Some v, Some a) \<Rightarrow> Some (s, a, v) | _ \<Rightarrow> None) (dedup (map fst (digest_values quads))))"

text \<open>The number of a distribution among those of its parent, and the field of its checksum.\<close>

definition distribution_index :: "rdf_world \<Rightarrow> quad list \<Rightarrow> (string \<times> nat) list" where
  "distribution_index w quads =
     (let ds = filter (\<lambda>q. q_predicate q = DCAT @ ''distribution'') quads
      in rev (map (\<lambda>(i, q). (term_key w (q_object q),
            length (filter (\<lambda>p. subject_key (q_subject p) = subject_key (q_subject q)) (take i ds)))) (enumerate 0 ds)))"

definition checksum_fields :: "rdf_world \<Rightarrow> quad list \<Rightarrow> (string \<times> string) list" where
  "checksum_fields w quads =
     rev (List.map_filter (\<lambda>q. if q_predicate q = SPDX @ ''checksum'' then
        map_option (\<lambda>i. (term_key w (q_object q), ''distributions['' @ show_nat i @ ''].checksum.value''))
          (map_of (distribution_index w quads) (subject_key (q_subject q))) else None) quads)"

definition digest_finding :: "rdf_world \<Rightarrow> codec \<Rightarrow> quad list \<Rightarrow> string \<times> string \<times> string \<Rightarrow> finding option" where
  "digest_finding w cd quads x =
     (case x of (subject, alg, v) \<Rightarrow>
        (case check_digest cd alg v of
           Inr _ \<Rightarrow> None
         | Inl problem \<Rightarrow> Some
             \<lparr>fi_severity = (if problem = Unknown_Algorithm then Warning else Violation), fi_focus = subject,
              fi_path = SPDX @ ''checksumValue'', fi_constraint = ''PatternConstraintComponent'',
              fi_message = problem_message alg problem,
              fi_field = (case map_of (checksum_fields w quads) subject of Some f \<Rightarrow> f | None \<Rightarrow> ''distributions.checksum.value''),
              fi_value = Some v\<rparr>))"

definition digest_findings :: "rdf_world \<Rightarrow> codec \<Rightarrow> quad list \<Rightarrow> finding list" where
  "digest_findings w cd quads = List.map_filter (digest_finding w cd quads) (checksums_in quads)"

section \<open>Letting a write through\<close>

definition enforce :: "report \<Rightarrow> bool \<Rightarrow> app_error + report" where
  "enforce r blocking = (if blocking \<and> \<not> conforms r then Inl (validation (to_turtle r) (summary r)) else Inr r)"

record write_rules =
  wr_engine :: "quad list \<Rightarrow> engine_answer"
  wr_validate_writes :: bool
  wr_vocabulary :: "quad list \<Rightarrow> finding list"

definition enforce_write :: "write_rules \<Rightarrow> rdf_world \<Rightarrow> codec \<Rightarrow> quad list \<Rightarrow> app_error + report" where
  "enforce_write rules w cd quads =
     (let shapes = validate_quads (wr_engine rules) quads;
          shapes' = (if wr_validate_writes rules then shapes else map (\<lambda>f. f\<lparr>fi_severity := Warning\<rparr>) shapes)
      in enforce (sort_findings (shapes' @ wr_vocabulary rules quads @ digest_findings w cd quads)) True)"

section \<open>What gets through\<close>

lemma enforce_write_Inr:
  "enforce_write rules w cd quads = Inr r \<longleftrightarrow>
     r = sort_findings ((if wr_validate_writes rules then validate_quads (wr_engine rules) quads
           else map (\<lambda>f. f\<lparr>fi_severity := Warning\<rparr>) (validate_quads (wr_engine rules) quads))
         @ wr_vocabulary rules quads @ digest_findings w cd quads) \<and> (\<forall>f \<in> set r. \<not> is_violation f)"
  by (auto simp: enforce_write_def enforce_def conforms_def Let_def list_ex_iff)

text \<open>
  A checksum node as its statements give it: every algorithm it states is the IRI of \<open>a\<close>, every value
  the text \<open>v\<close>, and it states both.
\<close>

definition states_checksum :: "quad list \<Rightarrow> string \<Rightarrow> string \<Rightarrow> string \<Rightarrow> bool" where
  "states_checksum quads k a v \<longleftrightarrow>
     (\<exists>q \<in> set quads. subject_key (q_subject q) = k \<and> q_predicate q = SPDX @ ''algorithm'')
     \<and> (\<exists>q \<in> set quads. subject_key (q_subject q) = k \<and> q_predicate q = SPDX @ ''checksumValue'')
     \<and> (\<forall>q \<in> set quads. subject_key (q_subject q) = k \<longrightarrow>
          (q_predicate q = SPDX @ ''algorithm'' \<longrightarrow> q_object q = Node (NamedNode (SPDX @ ''checksumAlgorithm_'' @ a)))
          \<and> (q_predicate q = SPDX @ ''checksumValue'' \<longrightarrow> (\<exists>d l. q_object q = Literal v d l)))"

lemma map_of_all: "(\<exists>x \<in> set xs. fst x = k) \<Longrightarrow> \<forall>x \<in> set xs. fst x = k \<longrightarrow> snd x = v \<Longrightarrow> map_of xs k = Some v"
  by (induction xs) auto

lemma normalised_known:
  assumes "find_algorithm a = Some alg"
  shows "CHR ''#'' \<notin> set a" "CHR ''/'' \<notin> set a" "\<not> prefix ''checksumAlgorithm_'' a"
proof -
  let ?n = "normalise_algorithm a"
  have "list_all (\<lambda>x. list_all (\<lambda>n. CHR ''#'' \<notin> set n \<and> CHR ''/'' \<notin> set n \<and> \<not> prefix ''checksumalgorithm'' n)
      (normalise_algorithm (da_name x) # da_aliases x)) ALGORITHMS"
    by code_simp
  moreover from assms have "alg \<in> set ALGORITHMS" "?n \<in> set (normalise_algorithm (da_name alg) # da_aliases alg)"
    unfolding find_algorithm_def Let_def by (auto dest!: find_SomeD)
  ultimately have n: "CHR ''#'' \<notin> set ?n" "CHR ''/'' \<notin> set ?n" "\<not> prefix ''checksumalgorithm'' ?n"
    unfolding list_all_iff by blast+
  have keep: "c \<in> set ?n" if "c \<in> set a" "ascii_lower_char c = c" "c \<notin> {CHR ''-'', CHR ''_'', CHR '' ''}" for c
  proof -
    have "ascii_lower_char c \<in> set (to_ascii_lowercase a)" using that(1) unfolding to_ascii_lowercase_def by simp
    with that show ?thesis by (simp add: normalise_algorithm_def)
  qed
  have "ascii_lower_char (CHR ''#'') = CHR ''#''" "ascii_lower_char (CHR ''/'') = CHR ''/''" by code_simp+
  with keep n(1,2) show "CHR ''#'' \<notin> set a" "CHR ''/'' \<notin> set a" by fastforce+
  show "\<not> prefix ''checksumAlgorithm_'' a"
  proof
    assume "prefix ''checksumAlgorithm_'' a"
    then obtain z where "a = ''checksumAlgorithm_'' @ z" by (auto simp: prefix_def)
    then have "?n = normalise_algorithm ''checksumAlgorithm_'' @ normalise_algorithm z"
      by (simp only: normalise_algorithm_def to_ascii_lowercase_def map_append filter_append)
    moreover have "normalise_algorithm ''checksumAlgorithm_'' = ''checksumalgorithm''" by code_simp
    ultimately show False using n(3) by (simp only: prefixI not_True_eq_False)
  qed
qed

lemma stated_checksum_is_read:
  assumes "states_checksum quads k a v" "find_algorithm a = Some alg"
  shows "(k, a, v) \<in> set (checksums_in quads)"
proof -
  let ?w = "\<lparr>rw_valid_iri = (\<lambda>_. True), rw_datetime = Some, rw_now = [], rw_show = term_value\<rparr>"
  have "plain_algorithm ?w a" using normalised_known [OF assms(2)] by (simp add: plain_algorithm_def)
  from iri_tail_algorithm [OF this] have named_tail: "strip_words [''checksumAlgorithm_''] (iri_tail (SPDX @ ''checksumAlgorithm_'' @ a)) = a"
    by (simp only: trim_start_word_def)
  define i where "i = SPDX @ ''checksumAlgorithm_'' @ a"
  have tail: "strip_words [''checksumAlgorithm_''] (iri_tail i) = a" unfolding i_def by (rule named_tail)
  note stated = assms(1) [unfolded states_checksum_def, folded i_def]
  have alg: "algorithms_in quads k = Some a"
    unfolding algorithms_in_def
  proof (rule map_of_all)
    obtain q where q: "q \<in> set quads" "subject_key (q_subject q) = k" "q_predicate q = SPDX @ ''algorithm''"
      "q_object q = Node (NamedNode i)"
      using stated by metis
    then show "\<exists>x \<in> set (rev (List.map_filter (\<lambda>q. if q_predicate q = SPDX @ ''algorithm'' then
        map_option (\<lambda>n. (subject_key (q_subject q), strip_words [''checksumAlgorithm_''] (iri_tail n))) (named (q_object q)) else None) quads)). fst x = k"
      by (intro bexI [of _ "(k, a)"]) (auto simp: set_map_filter named_def tail intro!: bexI [of _ q])
  qed (use stated in \<open>auto simp: set_map_filter named_def tail split: if_splits\<close>)
  have vals: "(k, v) \<in> set (digest_values quads)" "map_of (digest_values quads) k = Some v"
  proof -
    from assms(1) obtain q d l where "q \<in> set quads" "subject_key (q_subject q) = k" "q_predicate q = SPDX @ ''checksumValue''"
      "q_object q = Literal v d l"
      unfolding states_checksum_def by metis
    then show mem: "(k, v) \<in> set (digest_values quads)"
      by (auto simp: digest_values_def set_map_filter intro!: bexI [of _ q])
    have "\<forall>x \<in> set (digest_values quads). fst x = k \<longrightarrow> snd x = v"
    proof (intro ballI impI)
      fix x assume "x \<in> set (digest_values quads)" "fst x = k"
      then obtain q where q: "q \<in> set quads" "(if q_predicate q = SPDX @ ''checksumValue'' then
          (case q_object q of Literal v d l \<Rightarrow> Some (subject_key (q_subject q), v) | Node _ \<Rightarrow> None) else None) = Some x"
        unfolding digest_values_def set_rev set_map_filter by blast
      with \<open>fst x = k\<close> stated show "snd x = v" by (cases "q_object q") (auto split: if_splits)
    qed
    with mem show "map_of (digest_values quads) k = Some v" by (intro map_of_all) force+
  qed
  with alg show ?thesis by (auto simp: checksums_in_def set_map_filter intro!: bexI [OF _ vals(1)])
qed

text \<open>
  C40. A write that goes through holds no broken digest, whatever the operator turned off: if the statements of
  a checksum node name one algorithm by its IRI, one that the registry knows, and one value, then
  the value decodes to a digest of that algorithm's length. Switching shape validation off lets no
  violation of the vocabulary through either, and a broken shapes file lets nothing through
  unless validation is off.
\<close>

theorem accepted_digests_are_digests:
  assumes "enforce_write rules w cd quads = Inr r"
  shows "(\<forall>k a v alg. states_checksum quads k a v \<longrightarrow> find_algorithm a = Some alg \<longrightarrow>
       (\<exists>raw. decode_digest cd v (da_bytes alg) = Some raw))
     \<and> (\<forall>f \<in> set (wr_vocabulary rules quads). \<not> is_violation f)
     \<and> (wr_validate_writes rules \<longrightarrow> (\<forall>e. wr_engine rules quads \<noteq> Broken_Shapes e))"
proof -
  from assms have r: "r = sort_findings ((if wr_validate_writes rules then validate_quads (wr_engine rules) quads
           else map (\<lambda>f. f\<lparr>fi_severity := Warning\<rparr>) (validate_quads (wr_engine rules) quads))
         @ wr_vocabulary rules quads @ digest_findings w cd quads)" "\<forall>f \<in> set r. \<not> is_violation f"
    unfolding enforce_write_Inr by auto
  have all: "\<not> is_violation f" if "f \<in> set (digest_findings w cd quads) \<union> set (wr_vocabulary rules quads)" for f
    using r that by (auto simp: sort_findings_def)
  have "decode_digest cd v (da_bytes alg) \<noteq> None"
    if "(s, a, v) \<in> set (checksums_in quads)" "find_algorithm a = Some alg" for s a v alg
  proof
    assume none: "decode_digest cd v (da_bytes alg) = None"
    then have "check_digest cd a v = Inl (Malformed_Digest (da_bytes alg * 2))"
      using that(2) by (simp add: check_digest_def identify_content_def)
    then obtain f where f: "digest_finding w cd quads (s, a, v) = Some f" "is_violation f"
      by (auto simp: digest_finding_def is_violation_def)
    with that(1) have "f \<in> set (digest_findings w cd quads)"
      unfolding digest_findings_def set_map_filter by blast
    with all f(2) show False by blast
  qed
  moreover have "wr_engine rules quads \<noteq> Broken_Shapes e" if "wr_validate_writes rules" for e
    using r that by (auto simp: validate_quads_def sort_findings_def shapes_finding_def is_violation_def)
  ultimately show ?thesis using all stated_checksum_is_read by (metis UnI2 not_None_eq)
qed

definition demo_rules :: write_rules where
  "demo_rules = \<lparr>wr_engine = (\<lambda>_. Results []), wr_validate_writes = False, wr_vocabulary = (\<lambda>_. [])\<rparr>"

definition demo_quads :: "quad list" where
  "demo_quads =
     [\<lparr>q_subject = BlankNode ''0'', q_predicate = SPDX @ ''algorithm'', q_object = Node (NamedNode (SPDX @ ''checksumAlgorithm_sha256'')), q_graph = G_LOCAL\<rparr>,
      \<lparr>q_subject = BlankNode ''0'', q_predicate = SPDX @ ''checksumValue'', q_object = Literal (replicate 64 (CHR ''A'')) [] None, q_graph = G_LOCAL\<rparr>]"

theorem accepted_digests_are_digests_witness:
  "enforce_write demo_rules (core demo_build_world) demo_codec demo_quads = Inr []
     \<and> (\<exists>raw. decode_digest demo_codec (replicate 64 (CHR ''A'')) (da_bytes (ALGORITHMS ! 0)) = Some raw)"
proof -
  have cs: "states_checksum demo_quads ''_:0'' ''sha256'' (replicate 64 (CHR ''A''))"
    by (simp add: states_checksum_def demo_quads_def subject_key_def SPDX_def)
  have fs: "digest_findings (core demo_build_world) demo_codec demo_quads = []" by code_simp
  have ok: "enforce_write demo_rules (core demo_build_world) demo_codec demo_quads = Inr []"
    by (simp add: enforce_write_Inr demo_rules_def fs validate_quads_def sort_findings_def)
  have "find_algorithm ''sha256'' = Some (ALGORITHMS ! 0)" by code_simp
  with accepted_digests_are_digests [OF ok] cs ok show ?thesis by blast
qed

text \<open>
  An algorithm with a space in its name is recognised, but the writer cannot make an IRI of it
  and writes it as a text, which the digest rule does not read: the write goes through
  with a value that is no digest.
\<close>

definition demo_strict_world :: build_world where
  "demo_strict_world = demo_build_world\<lparr>rw_valid_iri := (\<lambda>s. prefix ''http'' s \<and> CHR '' '' \<notin> set s)\<rparr>"

definition demo_spaced :: "quad list" where
  "demo_spaced = fst (distribution_quads demo_strict_world ''https://reg.org/distribution/2''
     (demo_distribution\<lparr>di_checksum := Some \<lparr>ck_algorithm = ''sha 256'', ck_value = ''x''\<rparr>\<rparr>) 0)"

theorem spaced_algorithm_is_not_checked:
  "map_option da_bytes (find_algorithm ''sha 256'') = Some 32 \<and> decode_digest demo_codec ''x'' 32 = None
   \<and> (\<exists>q \<in> set demo_spaced. q_predicate q = SPDX @ ''checksumValue'' \<and> q_object q = simple_literal ''x'')
   \<and> enforce_write demo_rules (core demo_strict_world) demo_codec demo_spaced = Inr []"
proof -
  have "map_option da_bytes (find_algorithm ''sha 256'') = Some 32" "decode_digest demo_codec ''x'' 32 = None"
    "\<exists>q \<in> set demo_spaced. q_predicate q = SPDX @ ''checksumValue'' \<and> q_object q = simple_literal ''x''"
    "digest_findings (core demo_strict_world) demo_codec demo_spaced = []"
    by code_simp+
  then show ?thesis by (simp add: enforce_write_Inr demo_rules_def validate_quads_def sort_findings_def)
qed

end
