(* ===== verification/Advertise.thy ===== *)
theory Advertise
  imports Shacl Subscription_Api Peers
begin

text \<open>
  The advertisement endpoints (\<open>src/api/advertise.rs\<close>): a deployment tells what artifacts a run of
  it produced or consumed. The handler checks the caller and the write, finds or mints the run and the
  artifacts, claims each advertisement, commits one graph transaction and notifies subscribers. The
  tables are written as the loop goes, so that they keep what was written before an error.
  SHA-256, the loading of an artifact for its notification and the SHACL engine are arguments; a
  failing SQLite is not modelled.
\<close>

datatype advertise_role = Produced | Consumed

fun role_text :: "advertise_role \<Rightarrow> string" where
  "role_text Produced = ''produced''"
| "role_text Consumed = ''consumed''"

fun role_scope :: "advertise_role \<Rightarrow> string" where
  "role_scope Produced = SCOPE_ADVERTISE_PRODUCE"
| "role_scope Consumed = SCOPE_ADVERTISE_CONSUME"

record advertise_in =
  ai_run :: run_in
  ai_artifacts :: "artifact_in list"

record advertise_out =
  ao_run :: string
  ao_artifacts :: "string list"
  ao_created :: bool
  ao_queued :: "string list"

record advertise_world = build_world +
  aw_now :: int
  aw_rules :: write_rules
  aw_sha256 :: "string \<Rightarrow> string"
  aw_notify :: "store \<Rightarrow> notify_world"

record ad_state =
  ad_graph :: store
  ad_runs :: "run_key list"
  ad_arts :: "artifact_key list"
  ad_claims :: "advertise_row list"
  ad_resolve :: "resolve_row list"
  ad_subs :: sub_db
  ad_audit :: "audit_row list"
  ad_next :: nat

abbreviation builder :: "advertise_world \<Rightarrow> build_world" where
  "builder w \<equiv> build_world.truncate w"

text \<open>The error of an IRI that does not parse is rendered up to the parser's own words, which follow it.\<close>

definition exists_in :: "advertise_world \<Rightarrow> string \<Rightarrow> ad_state \<Rightarrow> app_error + bool" where
  "exists_in w iri st =
     (if rw_valid_iri w iri then Inr (store_exists (ad_graph st) iri) else Inl (internal (''bad IRI '' @ iri)))"

section \<open>Runs\<close>

definition outcome_quads :: "rdf_world \<Rightarrow> string \<Rightarrow> run_in \<Rightarrow> quad list" where
  "outcome_quads w run input =
     finish (build
       [(if ru_ended_at input \<noteq> None then add_opt_datetime w PROV ''endedAtTime'' (ru_ended_at input) else id),
        (case ru_status input of Some s \<Rightarrow> add_text TAR ''status'' s | None \<Rightarrow> id),
        (case ru_status input of
           Some s \<Rightarrow> (case action_status s of Some st \<Rightarrow> add_link w SCHEMA ''actionStatus'' st | None \<Rightarrow> id)
         | None \<Rightarrow> id)] (local_node run))"

definition update_run_outcome :: "rdf_world \<Rightarrow> string \<Rightarrow> run_in \<Rightarrow> graph_tx \<Rightarrow> graph_tx" where
  "update_run_outcome w run input tx =
     (if ru_ended_at input = None \<and> ru_status input = None then tx
      else
        let tx1 = (if ru_ended_at input \<noteq> None then replace_property run (PROV @ ''endedAtTime'') G_LOCAL tx else tx);
            tx2 = (if ru_status input \<noteq> None
                   then replace_property run (SCHEMA @ ''actionStatus'') G_LOCAL (replace_property run (TAR @ ''status'') G_LOCAL tx1)
                   else tx1)
        in tx_extend (outcome_quads w run input) tx2)"

definition run_key_of :: "run_in \<Rightarrow> string option" where
  "run_key_of input = non_empty (ru_external_key input)"

text \<open>The run of a payload: the one its key is remembered for, with its outcome updated, or a new one.\<close>

definition ensure_run :: "advertise_world \<Rightarrow> string \<Rightarrow> string \<Rightarrow> run_in \<Rightarrow> graph_tx \<Rightarrow> ad_state \<Rightarrow> string \<times> bool \<times> graph_tx \<times> ad_state" where
  "ensure_run w who inst input tx st =
     (case Option.bind (run_key_of input) (\<lambda>k. run_for_key k inst (ad_runs st)) of
        Some iri \<Rightarrow> (iri, False, update_run_outcome (core (builder w)) iri input tx, st)
      | None \<Rightarrow>
          (let iri = fresh_iri (builder w) Run (ad_next st);
               (quads, n) = run_quads (builder w) iri input inst who (Suc (ad_next st))
           in (iri, True, tx_extend quads tx,
               st\<lparr>ad_next := n,
                  ad_runs := (case run_key_of input of Some k \<Rightarrow> remember_run (aw_now w) k inst iri (ad_runs st) | None \<Rightarrow> ad_runs st)\<rparr>)))"

section \<open>Artifacts\<close>

definition unwrap_text :: "string option \<Rightarrow> string" where
  "unwrap_text v = (case v of Some s \<Rightarrow> s | None \<Rightarrow> [])"

definition derived_key :: "advertise_world \<Rightarrow> string \<Rightarrow> artifact_in \<Rightarrow> string" where
  "derived_key w run_key a =
     ''urn:tar:derived:'' @ hex_encode (bw_codec w)
       (take 16 (aw_sha256 w (run_key @ unwrap_text (ar_title a) @ unwrap_text (ar_conforms_to a)
          @ concat (map (\<lambda>d. unwrap_text (di_download_url d) @ unwrap_text (di_access_url d)) (ar_distributions a)))))"

definition artifact_key_of :: "advertise_world \<Rightarrow> run_in \<Rightarrow> artifact_in \<Rightarrow> string option" where
  "artifact_key_of w run a =
     first_some (non_empty (ar_external_key a)) (map_option (\<lambda>rk. derived_key w rk a) (ru_external_key run))"

record progress =
  pg_tx :: graph_tx
  pg_created :: bool
  pg_iris :: "string list"
  pg_queued :: "string list"

text \<open>A foreign IRI that is not in the graph is queued for resolution.\<close>

definition note_foreign :: "advertise_world \<Rightarrow> string \<Rightarrow> progress \<Rightarrow> ad_state \<Rightarrow> (app_error + progress) \<times> ad_state" where
  "note_foreign w iri pg st =
     (if is_local (bw_base w) iri then (Inr pg, st)
      else case exists_in w iri st of
             Inl e \<Rightarrow> (Inl e, st)
           | Inr True \<Rightarrow> (Inr pg, st)
           | Inr False \<Rightarrow> (Inr (pg\<lparr>pg_queued := pg_queued pg @ [iri]\<rparr>), st\<lparr>ad_resolve := queue_resolve (aw_now w) iri None (ad_resolve st)\<rparr>))"

fun note_parents :: "advertise_world \<Rightarrow> string list \<Rightarrow> progress \<Rightarrow> ad_state \<Rightarrow> (app_error + progress) \<times> ad_state" where
  "note_parents w [] pg st = (Inr pg, st)"
| "note_parents w (p # ps) pg st =
     (case note_foreign w p pg st of
        (Inl e, st') \<Rightarrow> (Inl e, st')
      | (Inr pg', st') \<Rightarrow> note_parents w ps pg' st')"

definition new_artifact ::
  "advertise_world \<Rightarrow> advertise_role \<Rightarrow> string \<Rightarrow> string \<Rightarrow> string option \<Rightarrow> artifact_in \<Rightarrow> progress \<Rightarrow> ad_state \<Rightarrow>
   (app_error + string \<times> progress) \<times> ad_state" where
  "new_artifact w role who run key a pg st =
     (let iri = fresh_iri (builder w) Artifact (ad_next st);
          (quads, n) = artifact_quads (builder w) iri a who (if role = Produced then Some run else None) (Suc (ad_next st))
      in case note_parents w (ar_was_derived_from a) (pg\<lparr>pg_tx := tx_extend quads (pg_tx pg)\<rparr>) (st\<lparr>ad_next := n\<rparr>) of
           (Inl e, st') \<Rightarrow> (Inl e, st')
         | (Inr pg', st') \<Rightarrow>
             (Inr (iri, pg'\<lparr>pg_created := True\<rparr>),
              st'\<lparr>ad_arts := (case key of Some k \<Rightarrow> remember_artifact (aw_now w) k iri (ad_arts st') | None \<Rightarrow> ad_arts st')\<rparr>))"

definition place_artifact ::
  "advertise_world \<Rightarrow> advertise_role \<Rightarrow> string \<Rightarrow> string \<Rightarrow> run_in \<Rightarrow> artifact_in \<Rightarrow> progress \<Rightarrow> ad_state \<Rightarrow>
   (app_error + string \<times> progress) \<times> ad_state" where
  "place_artifact w role who run input a pg st =
     (case non_empty (ar_iri a) of
        Some iri \<Rightarrow>
          (case note_foreign w iri pg st of
             (Inl e, st') \<Rightarrow> (Inl e, st')
           | (Inr pg', st') \<Rightarrow> (Inr (iri, pg'), st'))
      | None \<Rightarrow>
          (let key = artifact_key_of w input a in
           case Option.bind key (\<lambda>k. artifact_for_key k (ad_arts st)) of
             Some iri \<Rightarrow> (Inr (iri, pg), st)
           | None \<Rightarrow> new_artifact w role who run key a pg st))"

definition edge_quads :: "rdf_world \<Rightarrow> advertise_role \<Rightarrow> string \<Rightarrow> string \<Rightarrow> quad list" where
  "edge_quads w role run art =
     (case role of
        Consumed \<Rightarrow> finish (add_link w PROV ''used'' art (local_node run))
      | Produced \<Rightarrow> finish (add_link w PROV ''wasGeneratedBy'' run (local_node art)))"

definition claim_artifact :: "advertise_world \<Rightarrow> advertise_role \<Rightarrow> string \<Rightarrow> string \<Rightarrow> progress \<Rightarrow> ad_state \<Rightarrow> progress \<times> ad_state" where
  "claim_artifact w role run art pg st =
     (case claim_advertisement (aw_now w) run art (role_text role) (ad_claims st) of
        (fresh, claims) \<Rightarrow>
          ((if fresh then pg\<lparr>pg_created := True, pg_tx := tx_extend (edge_quads (core (builder w)) role run art) (pg_tx pg)\<rparr> else pg)
             \<lparr>pg_iris := pg_iris pg @ [art]\<rparr>,
           st\<lparr>ad_claims := claims\<rparr>))"

fun advertise_all ::
  "advertise_world \<Rightarrow> advertise_role \<Rightarrow> string \<Rightarrow> string \<Rightarrow> run_in \<Rightarrow> artifact_in list \<Rightarrow> progress \<Rightarrow> ad_state \<Rightarrow>
   (app_error + progress) \<times> ad_state" where
  "advertise_all w role who run input [] pg st = (Inr pg, st)"
| "advertise_all w role who run input (a # rest) pg st =
     (case place_artifact w role who run input a pg st of
        (Inl e, st') \<Rightarrow> (Inl e, st')
      | (Inr (art, pg'), st') \<Rightarrow>
          (case claim_artifact w role run art pg' st' of
             (pg'', st'') \<Rightarrow> advertise_all w role who run input rest pg'' st''))"

section \<open>The handler\<close>

text \<open>What is validated before anything is written: throwaway quads of the run and of the artifacts without an IRI.\<close>

fun candidate_artifacts :: "build_world \<Rightarrow> string \<Rightarrow> artifact_in list \<Rightarrow> nat \<Rightarrow> quad list \<times> nat" where
  "candidate_artifacts w who [] n = ([], n)"
| "candidate_artifacts w who (a # rest) n =
     (if ar_iri a \<noteq> None then candidate_artifacts w who rest n
      else let (qs, n1) = artifact_quads w (fresh_iri w Artifact n) a who None (Suc n);
               (more, n2) = candidate_artifacts w who rest n1
           in (qs @ more, n2))"

definition candidate_quads :: "build_world \<Rightarrow> string \<Rightarrow> string \<Rightarrow> advertise_in \<Rightarrow> nat \<Rightarrow> quad list \<times> nat" where
  "candidate_quads w who inst input n =
     (let (run, n1) = run_quads w (fresh_iri w Run n) (ai_run input) inst who (Suc n);
          (arts, n2) = candidate_artifacts w who (ai_artifacts input) n1
      in (run @ arts, n2))"

definition resolved_run :: "advertise_world \<Rightarrow> run_in \<Rightarrow> run_in" where
  "resolved_run w r = r\<lparr>ru_release := map_option (iri_for (bw_base w) Release) (ru_release r)\<rparr>"

definition check_advertisement :: "advertise_world \<Rightarrow> principal \<Rightarrow> advertise_in \<Rightarrow> advertise_role \<Rightarrow> ad_state \<Rightarrow> app_error + string" where
  "check_advertisement w p input role st =
     and_then (require_scope (role_scope role) p) (\<lambda>_.
     and_then (require_instance p) (\<lambda>inst.
     and_then (exists_in w inst st) (\<lambda>known.
     if \<not> known then Inl (forbidden (''credential names Instance '' @ inst @ '', which this registry does not know''))
     else and_then (enforce_write (aw_rules w) (core (builder w)) (bw_codec w)
                      (fst (candidate_quads (builder w) (subject p) inst input (ad_next st)))) (\<lambda>_. Inr inst))))"

definition commit :: "advertise_world \<Rightarrow> graph_tx \<Rightarrow> ad_state \<Rightarrow> app_error + ad_state" where
  "commit w tx st =
     (if tx_is_empty tx then Inr st
      else case apply_tx (rw_valid_iri w) tx (ad_graph st) of
             Inl e \<Rightarrow> Inl (internal e) | Inr g \<Rightarrow> Inr (st\<lparr>ad_graph := g\<rparr>))"

definition announce :: "advertise_world \<Rightarrow> principal \<Rightarrow> string \<Rightarrow> string \<Rightarrow> advertise_role \<Rightarrow> string list \<Rightarrow> ad_state \<Rightarrow> ad_state" where
  "announce w p inst run role arts st =
     st\<lparr>ad_subs := notify_advertised (aw_notify w (ad_graph st)) (Some inst) (Some run) arts (role_text role) (ad_subs st),
        ad_audit := audit (aw_now w) (Some (subject p)) (actor_kind p) (''advertise.'' @ role_text role) (Some run)
          (Some (show_nat (length arts) @ '' artifact(s)'')) None (ad_audit st)\<rparr>"

text \<open>Everything after the checks; the counter stands after the throwaway candidates.\<close>

definition carry_out ::
  "advertise_world \<Rightarrow> principal \<Rightarrow> string \<Rightarrow> advertise_in \<Rightarrow> advertise_role \<Rightarrow> ad_state \<Rightarrow> (app_error + nat \<times> advertise_out) \<times> ad_state" where
  "carry_out w p inst input role st =
     (let run_input = resolved_run w (ai_run input);
          (run, created, tx, st1) = ensure_run w (subject p) inst run_input new_tx st
      in case advertise_all w role (subject p) run run_input (ai_artifacts input)
                \<lparr>pg_tx = tx, pg_created = created, pg_iris = [], pg_queued = []\<rparr> st1 of
           (Inl e, st2) \<Rightarrow> (Inl e, st2)
         | (Inr pg, st2) \<Rightarrow>
             (case commit w (pg_tx pg) st2 of
                Inl e \<Rightarrow> (Inl e, st2)
              | Inr st3 \<Rightarrow>
                  (Inr (if pg_created pg then 201 else 200,
                        \<lparr>ao_run = run, ao_artifacts = pg_iris pg, ao_created = pg_created pg, ao_queued = pg_queued pg\<rparr>),
                   announce w p inst run role (pg_iris pg) st3)))"

definition advertise ::
  "advertise_world \<Rightarrow> principal \<Rightarrow> advertise_in \<Rightarrow> advertise_role \<Rightarrow> ad_state \<Rightarrow> (app_error + nat \<times> advertise_out) \<times> ad_state" where
  "advertise w p input role st =
     (case check_advertisement w p input role st of
        Inl e \<Rightarrow> (Inl e, st)
      | Inr inst \<Rightarrow>
          carry_out w p inst input role
            (st\<lparr>ad_next := snd (candidate_quads (builder w) (subject p) inst input (ad_next st))\<rparr>))"

end
