(* ===== verification/Advertise_Retry.thy ===== *)
theory Advertise_Retry
  imports Advertise
begin

text \<open>
  What the advertisement handler guarantees when it is called again: the tables never forget a key or a
  claim, a settled payload passes through the loop unchanged, no quad of an artifact touches the outcome
  of a run, and therefore a retry changes nothing. The last section shows what the checks miss.
\<close>

section \<open>What the tables keep\<close>

definition claimed :: "string \<Rightarrow> string \<Rightarrow> advertise_role \<Rightarrow> ad_state \<Rightarrow> bool" where
  "claimed run art role st \<longleftrightarrow> list_ex (\<lambda>r. ai_key r = advertise_key run art (role_text role)) (ad_claims st)"

text \<open>Nothing the loop does to the tables forgets a key or a claim.\<close>

definition remembers :: "ad_state \<Rightarrow> ad_state \<Rightarrow> bool" where
  "remembers st st' \<longleftrightarrow>
     (\<forall>k v. artifact_for_key k (ad_arts st) = Some v \<longrightarrow> artifact_for_key k (ad_arts st') = Some v) \<and>
     (\<forall>run art role. claimed run art role st \<longrightarrow> claimed run art role st') \<and>
     ad_runs st' = ad_runs st \<and> ad_graph st' = ad_graph st"

lemma remembers_refl [simp, intro]: "remembers st st"
  by (simp add: remembers_def)

lemma remembers_trans [trans]: "remembers a b \<Longrightarrow> remembers b c \<Longrightarrow> remembers a c"
  by (simp add: remembers_def)

lemma remembersD:
  assumes "remembers st st'"
  shows "artifact_for_key k (ad_arts st) = Some v \<Longrightarrow> artifact_for_key k (ad_arts st') = Some v"
    and "claimed run art role st \<Longrightarrow> claimed run art role st'"
    and "ad_runs st' = ad_runs st" and "ad_graph st' = ad_graph st"
  using assms by (auto simp: remembers_def)

lemma artifact_for_remembered:
  "artifact_for_key k (remember_artifact now k' art rows) =
     (case artifact_for_key k rows of Some v \<Rightarrow> Some v | None \<Rightarrow> if k = k' then Some art else None)"
proof (cases "artifact_for_key k' rows")
  case None
  then have "\<not> list_ex (\<lambda>r. ak_external_key r = k') rows"
    by (auto simp: artifact_for_key_def list_ex_iff find_None_iff)
  then show ?thesis
    by (induction rows) (auto simp: remember_artifact_def artifact_for_key_def)
next
  case (Some v)
  then have "remember_artifact now k' art rows = rows"
    by (auto simp: artifact_for_key_def remember_artifact_def list_ex_iff find_Some_iff)
  with Some show ?thesis by (auto split: option.splits)
qed

lemma remembers_simps [simp]:
  "remembers st (st'\<lparr>ad_resolve := r\<rparr>) \<longleftrightarrow> remembers st st'"
  "remembers st (st'\<lparr>ad_next := n\<rparr>) \<longleftrightarrow> remembers st st'"
  "remembers (st\<lparr>ad_next := n\<rparr>) st' \<longleftrightarrow> remembers st st'"
  by (simp_all add: remembers_def claimed_def)

lemma remembers_new_key:
  "remembers st st' \<Longrightarrow> remembers st (st'\<lparr>ad_arts := remember_artifact now k art (ad_arts st')\<rparr>)"
  by (auto simp: remembers_def claimed_def artifact_for_remembered)

lemma note_foreign_remembers: "note_foreign w iri pg st = (r, st') \<Longrightarrow> remembers st st'"
  by (auto simp: note_foreign_def split: if_splits sum.splits bool.splits)

lemma note_parents_remembers: "note_parents w ps pg st = (r, st') \<Longrightarrow> remembers st st'"
proof (induction w ps pg st rule: note_parents.induct)
  case (2 w p ps pg st)
  then show ?case
    by (auto split: prod.splits sum.splits dest: note_foreign_remembers intro: remembers_trans)
qed simp

section \<open>Retrying\<close>

text \<open>The tables already give this artifact of a payload its IRI and hold its claim.\<close>

definition settled :: "advertise_world \<Rightarrow> advertise_role \<Rightarrow> string \<Rightarrow> run_in \<Rightarrow> ad_state \<Rightarrow> artifact_in \<Rightarrow> string \<Rightarrow> bool" where
  "settled w role run input st a art \<longleftrightarrow>
     claimed run art role st \<and>
     (case non_empty (ar_iri a) of
        Some iri \<Rightarrow> art = iri \<and> (is_local (bw_base w) iri \<or> rw_valid_iri w iri)
      | None \<Rightarrow> Option.bind (artifact_key_of w input a) (\<lambda>k. artifact_for_key k (ad_arts st)) = Some art)"

lemma settled_remembered: "settled w role run input st a art \<Longrightarrow> remembers st st' \<Longrightarrow> settled w role run input st' a art"
  by (auto simp: settled_def remembersD bind_eq_Some_conv split: option.splits)

lemma claim_artifact_settles:
  assumes "claim_artifact w role run art pg st = (pg', st')"
  shows "remembers st st'" "claimed run art role st'" "pg_iris pg' = pg_iris pg @ [art]"
  using assms
  by (auto simp: claim_artifact_def claim_advertisement_def remembers_def claimed_def split: if_splits)

lemma note_foreign_iris: "note_foreign w iri pg st = (Inr pg', st') \<Longrightarrow> pg_iris pg' = pg_iris pg \<and> (is_local (bw_base w) iri \<or> rw_valid_iri w iri)"
  by (auto simp: note_foreign_def exists_in_def split: if_splits sum.splits bool.splits)

lemma note_foreign_arts: "note_foreign w iri pg st = (r, st') \<Longrightarrow> ad_arts st' = ad_arts st"
  by (auto simp: note_foreign_def split: if_splits sum.splits bool.splits)

lemma note_parents_iris:
  "note_parents w ps pg st = (Inr pg', st') \<Longrightarrow> pg_iris pg' = pg_iris pg \<and> ad_arts st' = ad_arts st"
proof (induction w ps pg st rule: note_parents.induct)
  case (2 w p ps pg st)
  then show ?case by (auto split: prod.splits sum.splits dest: note_foreign_iris note_foreign_arts)
qed simp

lemma new_artifact_settles:
  assumes "new_artifact w role who run (Some k) a pg st = (Inr (art, pg'), st')"
    and "artifact_for_key k (ad_arts st) = None"
  shows "remembers st st'" "pg_iris pg' = pg_iris pg" "artifact_for_key k (ad_arts st') = Some art"
proof -
  from assms(1) obtain quads n pg1 st1 where
    parents: "note_parents w (ar_was_derived_from a) (pg\<lparr>pg_tx := tx_extend quads (pg_tx pg)\<rparr>) (st\<lparr>ad_next := n\<rparr>) = (Inr pg1, st1)"
    and art: "pg' = pg1\<lparr>pg_created := True\<rparr>" "st' = st1\<lparr>ad_arts := remember_artifact (aw_now w) k art (ad_arts st1)\<rparr>"
    by (auto simp: new_artifact_def Let_def split: prod.splits sum.splits)
  from note_parents_remembers [OF parents] have "remembers st st1" by simp
  then show "remembers st st'" unfolding art by (rule remembers_new_key)
  show "pg_iris pg' = pg_iris pg" using note_parents_iris [OF parents] by (simp add: art)
  show "artifact_for_key k (ad_arts st') = Some art"
    using note_parents_iris [OF parents] assms(2) by (simp add: art artifact_for_remembered)
qed

lemma keyed_run_keys: "ru_external_key input = Some rk \<Longrightarrow> \<exists>k. artifact_key_of w input a = Some k"
  by (auto simp: artifact_key_of_def first_some_def split: option.split)

lemma place_artifact_settles:
  assumes placed: "place_artifact w role who run input a pg st = (Inr (art, pg'), st')"
    and key: "ru_external_key input = Some rk"
    and claimed: "claimed run art role st2" and after: "remembers st' st2"
  shows "remembers st st'" "pg_iris pg' = pg_iris pg" "settled w role run input st2 a art"
proof -
  obtain k where k: "artifact_key_of w input a = Some k" using keyed_run_keys [OF key] by blast
  have "remembers st st' \<and> pg_iris pg' = pg_iris pg \<and> settled w role run input st2 a art"
  proof (cases "non_empty (ar_iri a)")
    case (Some iri)
    with placed have "note_foreign w iri pg st = (Inr pg', st')" "art = iri"
      by (auto simp: place_artifact_def split: prod.splits sum.splits)
    with Some claimed show ?thesis by (auto simp: settled_def dest: note_foreign_iris note_foreign_remembers)
  next
    case none: None
    show ?thesis
    proof (cases "artifact_for_key k (ad_arts st)")
      case None
      with placed none k have "new_artifact w role who run (Some k) a pg st = (Inr (art, pg'), st')"
        by (simp add: place_artifact_def Let_def)
      from new_artifact_settles [OF this None] none k claimed after show ?thesis
        by (auto simp: settled_def remembersD)
    next
      case (Some v)
      with placed none k have "art = v" "pg' = pg" "st' = st" by (auto simp: place_artifact_def Let_def)
      with none k claimed after Some show ?thesis by (auto simp: settled_def remembersD)
    qed
  qed
  then show "remembers st st'" "pg_iris pg' = pg_iris pg" "settled w role run input st2 a art" by auto
qed

lemma advertise_all_settles:
  assumes "advertise_all w role who run input as pg st = (Inr pg', st')" "ru_external_key input = Some rk"
  shows "remembers st st' \<and> (\<exists>arts. pg_iris pg' = pg_iris pg @ arts \<and> list_all2 (settled w role run input st') as arts)"
  using assms(1)
proof (induction "as" arbitrary: pg st)
  case (Cons a as)
  from Cons.prems obtain art pg1 st1 pg2 st2 where
    place: "place_artifact w role who run input a pg st = (Inr (art, pg1), st1)"
    and claim: "claim_artifact w role run art pg1 st1 = (pg2, st2)"
    and rest: "advertise_all w role who run input as pg2 st2 = (Inr pg', st')"
    by (auto split: prod.splits sum.splits)
  note c = claim_artifact_settles [OF claim]
  note p = place_artifact_settles [OF place assms(2) c(2,1)]
  from Cons.IH [OF rest] obtain arts where ih: "remembers st2 st'" "pg_iris pg' = pg_iris pg2 @ arts"
    "list_all2 (settled w role run input st') as arts" by blast
  have "remembers st st'" using p(1) c(1) ih(1) remembers_trans by blast
  moreover have "settled w role run input st' a art" using settled_remembered [OF p(3) ih(1)] .
  ultimately show ?case using ih(2,3) p(2) c(3) by (intro conjI exI [of _ "art # arts"]) simp_all
qed simp

text \<open>What a retry does to a settled payload: it passes through, queueing at most foreign IRIs again.\<close>

definition passes :: "ad_state \<Rightarrow> progress \<Rightarrow> (app_error + progress) \<times> ad_state \<Rightarrow> string list \<Rightarrow> bool" where
  "passes st pg result arts \<longleftrightarrow>
     (\<exists>queued rows. result =
        (Inr (pg\<lparr>pg_queued := pg_queued pg @ queued, pg_iris := pg_iris pg @ arts\<rparr>), st\<lparr>ad_resolve := rows\<rparr>))"

lemma note_foreign_passes:
  "is_local (bw_base w) iri \<or> rw_valid_iri w iri \<Longrightarrow>
     \<exists>queued rows. note_foreign w iri pg st = (Inr (pg\<lparr>pg_queued := pg_queued pg @ queued\<rparr>), st\<lparr>ad_resolve := rows\<rparr>)"
  by (cases "is_local (bw_base w) iri \<or> store_exists (ad_graph st) iri"; cases pg; cases st)
    (auto simp: note_foreign_def exists_in_def intro: exI [of _ "[]"])

lemma settled_passes:
  assumes "settled w role run input st a art"
  obtains pg1 st1 where "place_artifact w role who run input a pg st = (Inr (art, pg1), st1)"
    "passes st pg (Inr (fst (claim_artifact w role run art pg1 st1)), snd (claim_artifact w role run art pg1 st1)) [art]"
proof (cases "non_empty (ar_iri a)")
  case (Some iri)
  with assms obtain queued rows where
    f: "note_foreign w iri pg st = (Inr (pg\<lparr>pg_queued := pg_queued pg @ queued\<rparr>), st\<lparr>ad_resolve := rows\<rparr>)" "art = iri"
    using note_foreign_passes [of w iri pg st] by (auto simp: settled_def)
  show ?thesis
    by (rule that [of "pg\<lparr>pg_queued := pg_queued pg @ queued\<rparr>" "st\<lparr>ad_resolve := rows\<rparr>"])
      (use Some f assms in \<open>auto simp: place_artifact_def passes_def claim_artifact_def claim_advertisement_def settled_def claimed_def\<close>)
next
  case None
  then show ?thesis
    by (intro that [of pg st])
      (use assms in \<open>auto simp: place_artifact_def Let_def settled_def passes_def claim_artifact_def claim_advertisement_def claimed_def
         intro!: exI [of _ "[]"] exI [of _ "ad_resolve st"]\<close>)
qed

lemma settled_resolve [simp]: "settled w role run input (st\<lparr>ad_resolve := r\<rparr>) = settled w role run input st"
  by (auto simp: settled_def claimed_def fun_eq_iff split: option.split)

lemma advertise_all_settled:
  assumes "list_all2 (settled w role run input st) as arts"
  shows "passes st pg (advertise_all w role who run input as pg st) arts"
  using assms
proof (induction "as" arbitrary: arts pg st)
  case Nil
  then show ?case by (cases pg; cases st) (auto simp: passes_def intro!: exI [of _ "[]"])
next
  case (Cons a as)
  then obtain art arts' where arts: "arts = art # arts'" and a: "settled w role run input st a art"
    and rest: "list_all2 (settled w role run input st) as arts'" by (auto simp: list_all2_Cons1)
  obtain pg1 st1 where place: "place_artifact w role who run input a pg st = (Inr (art, pg1), st1)"
    and claim: "passes st pg (Inr (fst (claim_artifact w role run art pg1 st1)), snd (claim_artifact w role run art pg1 st1)) [art]"
    using settled_passes [OF a] by metis
  from claim obtain queued rows where
    c: "claim_artifact w role run art pg1 st1 =
      (pg\<lparr>pg_queued := pg_queued pg @ queued, pg_iris := pg_iris pg @ [art]\<rparr>, st\<lparr>ad_resolve := rows\<rparr>)"
    by (auto simp: passes_def prod_eq_iff)
  have "list_all2 (settled w role run input (st\<lparr>ad_resolve := rows\<rparr>)) as arts'" using rest by simp
  from Cons.IH [OF this, of "pg\<lparr>pg_queued := pg_queued pg @ queued, pg_iris := pg_iris pg @ [art]\<rparr>"]
  obtain more rows' where "advertise_all w role who run input as
      (pg\<lparr>pg_queued := pg_queued pg @ queued, pg_iris := pg_iris pg @ [art]\<rparr>) (st\<lparr>ad_resolve := rows\<rparr>) =
     (Inr (pg\<lparr>pg_queued := pg_queued pg @ (queued @ more), pg_iris := pg_iris pg @ arts\<rparr>), st\<lparr>ad_resolve := rows'\<rparr>)"
    by (cases pg) (auto simp: passes_def arts)
  then show ?case unfolding passes_def by (simp add: place c) blast
qed

section \<open>The outcome of a run\<close>

definition OUTCOME :: "string list" where
  "OUTCOME = [PROV @ ''endedAtTime'', TAR @ ''status'', SCHEMA @ ''actionStatus'']"

definition outcome_of :: "quad list \<Rightarrow> quad list" where
  "outcome_of qs = filter (\<lambda>q. q_predicate q \<in> set OUTCOME) qs"

lemma outcome_names [simp]:
  "PROV @ l \<in> set OUTCOME \<longleftrightarrow> l = ''endedAtTime''" "TAR @ l \<in> set OUTCOME \<longleftrightarrow> l = ''status''"
  "SCHEMA @ l \<in> set OUTCOME \<longleftrightarrow> l = ''actionStatus''"
  "DCT @ l \<notin> set OUTCOME" "DCAT @ l \<notin> set OUTCOME" "RDFS @ l \<notin> set OUTCOME" "SKOS @ l \<notin> set OUTCOME"
  "SPDX @ l \<notin> set OUTCOME" "FOAF @ l \<notin> set OUTCOME" "CODEMETA @ l \<notin> set OUTCOME" "rdf_type \<notin> set OUTCOME"
  by (auto simp: OUTCOME_def PROV_def TAR_def SCHEMA_def DCT_def DCAT_def RDFS_def SKOS_def SPDX_def FOAF_def CODEMETA_def
      rdf_type_def RDF_def)

lemma outcome_of_append [simp]: "outcome_of (xs @ ys) = outcome_of xs @ outcome_of ys" "outcome_of [] = []"
  by (simp_all add: outcome_of_def)

lemma outcome_of_push [simp]:
  "p \<notin> set OUTCOME \<Longrightarrow> outcome_of (rn_quads (push_quad p v n)) = outcome_of (rn_quads n)"
  by (simp add: outcome_of_def push_quad_def)

text \<open>No call that states another property adds to the outcome.\<close>

lemma outcome_of_steps [simp]:
  "outcome_of (rn_quads (add_type t n)) = outcome_of (rn_quads n)"
  "ns @ l \<notin> set OUTCOME \<Longrightarrow> outcome_of (rn_quads (add_link w ns l i n)) = outcome_of (rn_quads n)"
  "ns @ l \<notin> set OUTCOME \<Longrightarrow> outcome_of (rn_quads (opt_link w ns l oi n)) = outcome_of (rn_quads n)"
  "ns @ l \<notin> set OUTCOME \<Longrightarrow> outcome_of (rn_quads (add_text ns l s n)) = outcome_of (rn_quads n)"
  "ns @ l \<notin> set OUTCOME \<Longrightarrow> outcome_of (rn_quads (add_opt_text ns l os n)) = outcome_of (rn_quads n)"
  "ns @ l \<notin> set OUTCOME \<Longrightarrow> outcome_of (rn_quads (add_opt_int ns l oint n)) = outcome_of (rn_quads n)"
  "ns @ l \<notin> set OUTCOME \<Longrightarrow> outcome_of (rn_quads (add_datetime w ns l s n)) = outcome_of (rn_quads n)"
  "ns @ l \<notin> set OUTCOME \<Longrightarrow> outcome_of (rn_quads (add_opt_datetime w ns l os n)) = outcome_of (rn_quads n)"
  "ns @ l \<notin> set OUTCOME \<Longrightarrow> outcome_of (rn_quads (add_child ns l child n)) = outcome_of (rn_quads n) @ outcome_of (rn_quads child)"
  by (auto simp: add_type_def add_link_def opt_link_def add_text_def add_opt_text_def add_opt_int_def add_int_def
      add_datetime_def add_opt_datetime_def add_child_def Let_def split: option.splits)

lemma outcome_of_fold:
  "(\<And>x n. outcome_of (rn_quads (f x n)) = outcome_of (rn_quads n)) \<Longrightarrow>
     outcome_of (rn_quads (fold f xs n)) = outcome_of (rn_quads n)"
  by (induction xs arbitrary: n) simp_all

lemma outcome_of_many [simp]:
  "ns @ l \<notin> set OUTCOME \<Longrightarrow> outcome_of (rn_quads (add_texts ns l xs n)) = outcome_of (rn_quads n)"
  "ns @ l \<notin> set OUTCOME \<Longrightarrow> outcome_of (rn_quads (add_links w ns l xs n)) = outcome_of (rn_quads n)"
  unfolding add_texts_def add_links_def by (rule outcome_of_fold; simp)+

lemma outcome_of_start [simp]:
  "outcome_of (rn_quads (local_node iri)) = []" "outcome_of (rn_quads (blank_node b g)) = []"
  by (simp_all add: local_node_def iri_node_def blank_node_def)

lemma outcome_of_agent [simp]: "outcome_of (snd (fst (agent_quads w a n))) = []"
  by (auto simp: agent_quads_def described_agent_def finish_def agent_body_def agent_types_def build_def split: option.split)

text \<open>The quads of an artifact say nothing about outcomes, and neither does an edge.\<close>

definition quiet :: "building \<Rightarrow> bool" where
  "quiet b \<longleftrightarrow> outcome_of (rn_quads (fst b)) = [] \<and> outcome_of (fst (snd b)) = []"

lemma outcome_of_agentD: "agent_quads w a n = ((i, qs), n') \<Longrightarrow> outcome_of qs = []"
  using outcome_of_agent [of w a n] by simp

lemma quiet_producer: "quiet b \<Longrightarrow> quiet (fst (add_producer w iri a role b))"
  by (auto simp: quiet_def add_producer_def role_attribution_def build_def split: prod.splits option.splits dest: outcome_of_agentD)

lemma quiet_link_agent: "ns @ l \<notin> set OUTCOME \<Longrightarrow> quiet b \<Longrightarrow> quiet (link_agent w ns l a b)"
  by (auto simp: quiet_def link_agent_def split: prod.splits option.splits dest: outcome_of_agentD)

lemma quiet_link_opt_agent: "ns @ l \<notin> set OUTCOME \<Longrightarrow> quiet b \<Longrightarrow> quiet (link_opt_agent w ns l a b)"
  by (simp add: link_opt_agent_def quiet_link_agent split: option.split)

lemma quiet_link_agents: "ns @ l \<notin> set OUTCOME \<Longrightarrow> quiet b \<Longrightarrow> quiet (link_agents w ns l as b)"
  unfolding link_agents_def by (induction "as" arbitrary: b) (simp_all add: quiet_link_agent)

lemma outcome_of_distribution: "outcome_of (fst (distribution_quads w iri d n)) = []"
  by (auto simp: distribution_quads_def checksum_steps_def checksum_node_def finish_def build_def Let_def
      split: option.splits sum.splits if_splits)

lemma quiet_distribution: "quiet b \<Longrightarrow> quiet (add_distribution w d b)"
  using outcome_of_distribution [of w]
  by (auto simp: quiet_def add_distribution_def Let_def split: prod.splits dest!: arg_cong [of "distribution_quads _ _ _ _" _ fst])

lemma quiet_distributions: "quiet b \<Longrightarrow> quiet (fold (add_distribution w) ds b)"
  by (induction ds arbitrary: b) (simp_all add: quiet_distribution)

lemma quiet_start: "quiet (describe_artifact w input (local_node iri), [], n)"
  by (auto simp: quiet_def describe_artifact_def build_def split: prod.split)

lemma quiet_rest: "quiet b \<Longrightarrow> quiet (on_node (artifact_rest w input) b)"
  by (auto simp: quiet_def on_node_def artifact_rest_def build_def split: prod.split)

lemma quiet_middle:
  assumes "quiet (node, quads, n)"
  shows "quiet (attribution_at w actor m (add_link w DCT ''isVersionOf'' series
           (case run of Some r \<Rightarrow> add_link w PROV ''wasGeneratedBy'' r node | None \<Rightarrow> node)),
         quads @ delegation w system user @ series_quads series input, n')"
  using assms
  by (auto simp: quiet_def attribution_at_def delegation_def series_quads_def finish_def build_def split: option.split)

lemma outcome_of_artifact: "outcome_of (fst (artifact_quads w iri input actor run n)) = []"
proof -
  obtain b1 system where b1: "add_producer w iri (ar_produced_by input) ROLE_PRODUCING_SYSTEM
      (describe_artifact w input (local_node iri), [], n) = (b1, system)" by fastforce
  obtain node quads n2 user where b2:
    "add_producer w iri (ar_produced_by_user input) ROLE_PRODUCING_USER b1 = ((node, quads, n2), user)"
    by (metis surj_pair)
  obtain series n3 where s: "series_of w input n2 = (series, n3)" by fastforce
  have "quiet b1" using quiet_producer [OF quiet_start] b1 by (metis fst_conv)
  from quiet_producer [OF this] b2 have "quiet (node, quads, n2)" by (metis fst_conv)
  note q3 = quiet_middle [OF this, of "core w" actor "ar_modified input" series run system user input n3]
  let ?b3 = "(attribution_at (core w) actor (ar_modified input) (add_link (core w) DCT ''isVersionOf'' series
      (case run of Some r \<Rightarrow> add_link (core w) PROV ''wasGeneratedBy'' r node | None \<Rightarrow> node)),
    quads @ delegation (core w) system user @ series_quads series input, n3)"
  let ?b = "fold (add_distribution w) (ar_distributions input) (on_node (artifact_rest w input)
    (link_opt_agent w CODEMETA ''maintainer'' (ar_contact input) (link_agents w DCT ''contributor'' (ar_contributors input)
      (link_agents w DCT ''creator'' (ar_creators input) (link_opt_agent w DCT ''publisher'' (ar_publisher input) ?b3)))))"
  have "quiet ?b"
    by (intro quiet_distributions quiet_rest quiet_link_opt_agent quiet_link_agents q3) simp_all
  then show ?thesis
    by (auto simp: artifact_quads_def b1 b2 s Let_def finish_def quiet_def split: prod.splits)
qed

lemma outcome_of_edge: "outcome_of (edge_quads w role run art) = []"
  by (auto simp: edge_quads_def finish_def split: advertise_role.split)

text \<open>The properties a payload replaces on a run that exists, and what its graph then says of them.\<close>

definition replaced :: "run_in \<Rightarrow> string list" where
  "replaced input = (if ru_ended_at input \<noteq> None then [PROV @ ''endedAtTime''] else []) @
     (if ru_status input \<noteq> None then [TAR @ ''status'', SCHEMA @ ''actionStatus''] else [])"

definition about_outcome :: "string \<Rightarrow> run_in \<Rightarrow> quad \<Rightarrow> bool" where
  "about_outcome run input q \<longleftrightarrow>
     q_subject q = NamedNode run \<and> q_predicate q \<in> set (replaced input) \<and> q_graph q = G_LOCAL"

lemma replaced_outcome: "set (replaced input) \<subseteq> set OUTCOME"
  by (auto simp: replaced_def OUTCOME_def)

lemma update_run_outcome_tx:
  "update_run_outcome w run input tx =
     tx\<lparr>insert_quads := insert_quads tx @ outcome_quads w run input,
        delete_properties := delete_properties tx @ map (\<lambda>p. (run, p, G_LOCAL)) (replaced input)\<rparr>"
  by (cases tx; cases "ru_ended_at input"; cases "ru_status input")
    (simp_all add: update_run_outcome_def outcome_quads_def replaced_def replace_property_def tx_extend_def Let_def
      build_def finish_def local_node_def iri_node_def)

lemma set_delete_properties:
  "q \<in> set (fold (\<lambda>(s, p, g). delete_property s p g) ds st) \<longleftrightarrow>
     q \<in> set st \<and> (\<forall>(s, p, g) \<in> set ds. \<not> (q_subject q = NamedNode s \<and> q_predicate q = p \<and> q_graph q = g))"
  by (induction ds arbitrary: st) (auto simp: set_delete_property)

lemma apply_small_tx:
  assumes "apply_tx v t g = Inr g'" "clear_graphs t = []" "delete_subjects t = []"
  shows "set g' = {q \<in> set g. \<forall>(s, p, gr) \<in> set (delete_properties t).
            \<not> (q_subject q = NamedNode s \<and> q_predicate q = p \<and> q_graph q = gr)} \<union> set (insert_quads t)"
  using assms by (auto simp: apply_tx_def Let_def set_delete_properties split: option.splits)

lemma outcome_quads_about: "q \<in> set (outcome_quads w run input) \<Longrightarrow> about_outcome run input q"
  by (auto simp: outcome_quads_def finish_def build_def add_opt_datetime_def add_datetime_def add_text_def add_link_def
      push_quad_def local_node_def iri_node_def about_outcome_def replaced_def split: if_splits option.splits)

lemma about_outcome_filter:
  "outcome_of qs = [] \<Longrightarrow> q \<in> set qs \<Longrightarrow> \<not> about_outcome run input q"
  using replaced_outcome by (auto simp: outcome_of_def about_outcome_def filter_empty_conv)

text \<open>The run quads of a new run hold the same outcome an update would write.\<close>

lemma emitted_filter [simp]:
  "filter (\<lambda>x. fst x \<in> R) (text_pairs p v) = (if p \<in> R then text_pairs p v else [])"
  "filter (\<lambda>x. fst x \<in> R) (link_pairs w p v) = (if p \<in> R then link_pairs w p v else [])"
  "filter (\<lambda>x. fst x \<in> R) (date_pairs w p v) = (if p \<in> R then date_pairs w p v else [])"
  by (auto simp: text_pairs_def link_pairs_def date_pairs_def split: option.splits)

lemma replaced_names [simp]:
  "PROV @ l \<in> set (replaced input) \<longleftrightarrow> l = ''endedAtTime'' \<and> ru_ended_at input \<noteq> None"
  "TAR @ l \<in> set (replaced input) \<longleftrightarrow> l = ''status'' \<and> ru_status input \<noteq> None"
  "SCHEMA @ l \<in> set (replaced input) \<longleftrightarrow> l = ''actionStatus'' \<and> ru_status input \<noteq> None"
  "DCT @ l \<notin> set (replaced input)" "RDFS @ l \<notin> set (replaced input)" "rdf_type \<notin> set (replaced input)"
  by (auto simp: replaced_def PROV_def TAR_def SCHEMA_def DCT_def RDFS_def rdf_type_def RDF_def)

lemma about_emitted:
  "filter (about_outcome run input) (map (quad_of (local_node run)) ps) =
     map (quad_of (local_node run)) (filter (\<lambda>x. fst x \<in> set (replaced input)) ps)"
  by (simp add: filter_map comp_def about_outcome_def quad_of_def)

lemma about_one [simp]:
  "about_outcome run input (quad_of (local_node run) x) \<longleftrightarrow> fst x \<in> set (replaced input)"
  "\<not> about_outcome run input (quad_of (blank_node b g) x)"
  by (simp_all add: about_outcome_def quad_of_def)

lemma about_blank [simp]: "filter (about_outcome run input) (map (quad_of (blank_node b g)) ps) = []"
  by (simp add: filter_map comp_def)

lemma emit_option:
  "(case v of None \<Rightarrow> id | Some t \<Rightarrow> add_link w ns l t) = emit (link_pairs w (ns @ l) v)"
  "(case v of None \<Rightarrow> id | Some t \<Rightarrow> add_text ns l t) = emit (text_pairs (ns @ l) v)"
  "(case v of None \<Rightarrow> id | Some s \<Rightarrow> case f s of None \<Rightarrow> id | Some t \<Rightarrow> add_link w ns l t)
     = emit (link_pairs w (ns @ l) (Option.bind v f))"
  "(if ov \<noteq> None then add_opt_datetime w ns l ov else id) = emit (date_pairs w (ns @ l) ov)"
  by (auto simp: emit_calls emit_none link_pairs_def text_pairs_def date_pairs_def non_empty_def split: option.split)

lemma run_quads_outcome:
  "filter (about_outcome run input) (fst (run_quads w run input inst who n)) = outcome_quads (core w) run input"
proof -
  have "Option.bind (ru_status input) action_status = None" if "ru_status input = None" using that by simp
  moreover have "link_pairs (core w) p None = []" "text_pairs p None = []" "date_pairs (core w) p None = []" for p
    by (simp_all add: link_pairs_def text_pairs_def date_pairs_def non_empty_def)
  ultimately show ?thesis
    unfolding run_quads_def outcome_quads_def finish_def build_def Let_def fst_conv emit_option
    by (cases "ru_status input"; cases "ru_ended_at input")
      (simp_all add: emit_calls emit_option attribution_def attribution_at_def rn_add_child quad_of_child
        run_association_def build_def about_emitted)
qed

section \<open>What the loop adds to the transaction\<close>

definition extends_quietly :: "graph_tx \<Rightarrow> graph_tx \<Rightarrow> bool" where
  "extends_quietly t t' \<longleftrightarrow> (\<exists>qs. t' = tx_extend qs t \<and> outcome_of qs = [])"

lemma extends_quietly_refl [simp]: "extends_quietly t t"
  by (auto simp: extends_quietly_def tx_extend_def intro: exI [of _ "[]"])

lemma extends_quietly_trans:
  assumes "extends_quietly a b" "extends_quietly b c"
  shows "extends_quietly a c"
proof -
  from assms obtain qs rs where "c = tx_extend (qs @ rs) a" "outcome_of (qs @ rs) = []"
    by (auto simp: extends_quietly_def tx_extend_def)
  then show ?thesis unfolding extends_quietly_def by blast
qed

lemma extends_quietly_extend [simp]: "outcome_of qs = [] \<Longrightarrow> extends_quietly t (tx_extend qs t)"
  by (auto simp: extends_quietly_def)

lemma note_foreign_tx: "note_foreign w iri pg st = (Inr pg', st') \<Longrightarrow> pg_tx pg' = pg_tx pg"
  by (auto simp: note_foreign_def split: if_splits sum.splits bool.splits)

lemma note_parents_tx: "note_parents w ps pg st = (Inr pg', st') \<Longrightarrow> pg_tx pg' = pg_tx pg"
proof (induction w ps pg st rule: note_parents.induct)
  case (2 w p ps pg st)
  then show ?case by (auto split: prod.splits sum.splits dest: note_foreign_tx)
qed simp

lemma place_artifact_tx:
  assumes "place_artifact w role who run input a pg st = (Inr (art, pg'), st')"
  shows "extends_quietly (pg_tx pg) (pg_tx pg')"
proof -
  have "extends_quietly (pg_tx pg) (pg_tx pg')" if "new_artifact w role who run key a pg st = (Inr (art, pg'), st')" for key
    using that outcome_of_artifact [of "builder w" "fresh_iri (builder w) Artifact (ad_next st)" a who _ "Suc (ad_next st)"]
    by (auto simp: new_artifact_def Let_def split: prod.splits sum.splits dest!: note_parents_tx) (metis extends_quietly_extend fst_conv)+
  with assms show ?thesis
    by (auto simp: place_artifact_def Let_def dest: note_foreign_tx split: option.splits sum.splits prod.splits)
qed

lemma claim_artifact_tx: "extends_quietly (pg_tx pg) (pg_tx (fst (claim_artifact w role run art pg st)))"
  by (simp add: claim_artifact_def outcome_of_edge split: prod.split)

lemma advertise_all_tx:
  "advertise_all w role who run input as pg st = (Inr pg', st') \<Longrightarrow> extends_quietly (pg_tx pg) (pg_tx pg')"
proof (induction "as" arbitrary: pg st)
  case (Cons a as)
  from Cons.prems obtain art pg1 st1 pg2 st2 where
    place: "place_artifact w role who run input a pg st = (Inr (art, pg1), st1)"
    and claim: "claim_artifact w role run art pg1 st1 = (pg2, st2)"
    and rest: "advertise_all w role who run input as pg2 st2 = (Inr pg', st')"
    by (auto split: prod.splits sum.splits)
  from claim_artifact_tx [of pg1 w role run art st1] claim have "extends_quietly (pg_tx pg1) (pg_tx pg2)" by simp
  with place_artifact_tx [OF place] Cons.IH [OF rest] show ?case using extends_quietly_trans by blast
qed simp

section \<open>A retry changes nothing\<close>

text \<open>The graph says of the run's outcome exactly what this payload states.\<close>

definition outcome_stands :: "advertise_world \<Rightarrow> string \<Rightarrow> run_in \<Rightarrow> store \<Rightarrow> bool" where
  "outcome_stands w run input g \<longleftrightarrow>
     {q \<in> set g. about_outcome run input q} = set (outcome_quads (core (builder w)) run input)"

lemma commit_graph:
  assumes "commit w tx st = Inr st'" "clear_graphs tx = []" "delete_subjects tx = []"
  shows "set (ad_graph st') = {q \<in> set (ad_graph st). \<forall>(s, p, gr) \<in> set (delete_properties tx).
            \<not> (q_subject q = NamedNode s \<and> q_predicate q = p \<and> q_graph q = gr)} \<union> set (insert_quads tx)"
  using assms apply_small_tx [OF _ assms(2,3)]
  by (auto simp: commit_def tx_is_empty_def split: if_splits sum.splits)

lemma commit_keeps:
  "commit w tx st = Inr st' \<Longrightarrow> ad_runs st' = ad_runs st \<and> ad_arts st' = ad_arts st \<and> ad_claims st' = ad_claims st"
  by (auto simp: commit_def split: if_splits sum.splits)

text \<open>Committing an update, or a new run, with anything quiet beside it makes the outcome stand.\<close>

lemma update_stands:
  assumes "commit w tx st = Inr st'" "extends_quietly (update_run_outcome (core (builder w)) run input new_tx) tx"
  shows "outcome_stands w run input (ad_graph st')"
proof -
  let ?o = "outcome_quads (core (builder w)) run input"
  from assms(2) obtain qs where tx: "tx = tx_extend qs (update_run_outcome (core (builder w)) run input new_tx)"
    and qs: "outcome_of qs = []" by (auto simp: extends_quietly_def)
  have g: "set (ad_graph st') = {q \<in> set (ad_graph st). \<not> about_outcome run input q} \<union> set ?o \<union> set qs"
    using commit_graph [OF assms(1)]
    by (auto simp: tx update_run_outcome_tx tx_extend_def new_tx_def about_outcome_def)
  show ?thesis using outcome_quads_about about_outcome_filter [OF qs]
    by (auto simp: outcome_stands_def g)
qed

lemma new_run_stands:
  assumes "commit w tx st = Inr st'" "extends_quietly (tx_extend (fst (run_quads (builder w) run input inst who n)) new_tx) tx"
    and fresh: "\<forall>q \<in> set (ad_graph st). q_subject q \<noteq> NamedNode run"
  shows "outcome_stands w run input (ad_graph st')"
proof -
  let ?r = "fst (run_quads (builder w) run input inst who n)"
  from assms(2) obtain qs where tx: "tx = tx_extend qs (tx_extend ?r new_tx)" and qs: "outcome_of qs = []"
    by (auto simp: extends_quietly_def)
  have g: "set (ad_graph st') = set (ad_graph st) \<union> set ?r \<union> set qs"
    using commit_graph [OF assms(1)] by (auto simp: tx tx_extend_def new_tx_def)
  have "{q \<in> set ?r. about_outcome run input q} = set (outcome_quads (core (builder w)) run input)"
    using arg_cong [OF run_quads_outcome [of run input "builder w" inst who n], of set] by simp
  moreover have "\<not> about_outcome run input q" if "q \<in> set (ad_graph st)" for q
    using fresh that by (auto simp: about_outcome_def)
  moreover have "\<not> about_outcome run input q" if "q \<in> set qs" for q using about_outcome_filter [OF qs that] .
  ultimately show ?thesis by (auto simp: outcome_stands_def g)
qed

lemma outcome_quads_none: "replaced input = [] \<Longrightarrow> outcome_quads w run input = []"
  using outcome_quads_about [of _ w run input] by (cases "outcome_quads w run input") (force simp: about_outcome_def)+

lemma retry_commit:
  assumes stands: "outcome_stands w run input (ad_graph st)"
    and valid: "\<forall>i \<in> {run, G_LOCAL} \<union> set OUTCOME. rw_valid_iri w i"
  obtains st' where "commit w (update_run_outcome (core (builder w)) run input new_tx) st = Inr st'"
    "set (ad_graph st') = set (ad_graph st)"
proof -
  let ?tx = "update_run_outcome (core (builder w)) run input new_tx"
  have "find (\<lambda>s. \<not> rw_valid_iri w s) (tx_iris ?tx) = None"
    using valid replaced_outcome [of input]
    by (auto simp: find_None_iff tx_iris_def update_run_outcome_tx new_tx_def)
  then obtain st' where c: "commit w ?tx st = Inr st'"
    by (cases "tx_is_empty ?tx") (simp_all add: commit_def apply_tx_def Let_def)
  have "set (ad_graph st') = {q \<in> set (ad_graph st). \<not> about_outcome run input q} \<union> set (outcome_quads (core (builder w)) run input)"
    using commit_graph [OF c] by (auto simp: update_run_outcome_tx new_tx_def about_outcome_def)
  with stands have "set (ad_graph st') = set (ad_graph st)" by (auto simp: outcome_stands_def)
  with c show ?thesis using that by blast
qed

lemma check_names_instance: "check_advertisement w p input role st = Inr inst \<Longrightarrow> require_instance p = Inr inst"
  by (auto simp: check_advertisement_def and_then_def split: sum.splits if_splits)

lemma advertise_parts:
  assumes "advertise w p input role st = (Inr (code, out), st')"
  obtains inst created tx st1 pg st2 st3 where
    "check_advertisement w p input role st = Inr inst"
    "ensure_run w (subject p) inst (resolved_run w (ai_run input)) new_tx
       (st\<lparr>ad_next := snd (candidate_quads (builder w) (subject p) inst input (ad_next st))\<rparr>) = (ao_run out, created, tx, st1)"
    "advertise_all w role (subject p) (ao_run out) (resolved_run w (ai_run input)) (ai_artifacts input)
       \<lparr>pg_tx = tx, pg_created = created, pg_iris = [], pg_queued = []\<rparr> st1 = (Inr pg, st2)"
    "commit w (pg_tx pg) st2 = Inr st3" "ao_artifacts out = pg_iris pg"
    "st' = announce w p inst (ao_run out) role (pg_iris pg) st3"
  using assms by (auto simp: advertise_def carry_out_def Let_def split: prod.splits sum.splits)

lemma announce_keeps [simp]:
  "ad_graph (announce w p inst run role arts st) = ad_graph st" "ad_runs (announce w p inst run role arts st) = ad_runs st"
  "ad_arts (announce w p inst run role arts st) = ad_arts st" "ad_claims (announce w p inst run role arts st) = ad_claims st"
  by (simp_all add: announce_def)

lemma run_for_remembered:
  "run_for_key k i rows = None \<Longrightarrow> run_for_key k i (remember_run now k i run rows) = Some run"
  by (induction rows) (auto simp: run_for_key_def remember_run_def list_ex_iff find_None_iff split: if_splits)

lemma ensure_run_cases:
  assumes "ensure_run w who inst input tx st = (run, created, tx', st')" "run_key_of input = Some k"
  shows "run_for_key k inst (ad_runs st') = Some run \<and> ad_graph st' = ad_graph st \<and>
     ((run_for_key k inst (ad_runs st) = Some run \<and> tx' = update_run_outcome (core (builder w)) run input tx) \<or>
      (run_for_key k inst (ad_runs st) = None \<and> (\<exists>n. tx' = tx_extend (fst (run_quads (builder w) run input inst who n)) tx)))"
  using assms
  by (auto simp: ensure_run_def Let_def run_for_remembered split: option.splits prod.splits) (metis fst_conv)

text \<open>Neither clock matters to what is settled or to what an outcome states.\<close>

lemma clock_free [simp]:
  "update_run_outcome (core (builder (w\<lparr>rw_now := now, aw_now := later\<rparr>))) run input tx = update_run_outcome (core (builder w)) run input tx"
  "outcome_stands (w\<lparr>rw_now := now, aw_now := later\<rparr>) run input g = outcome_stands w run input g"
  "resolved_run (w\<lparr>rw_now := now, aw_now := later\<rparr>) r = resolved_run w r"
  by (auto simp: update_run_outcome_tx outcome_stands_def resolved_run_def outcome_quads_def build_def finish_def
      add_opt_datetime_def add_datetime_def add_link_def link_term_def build_world.defs rdf_world.defs
      split: option.split)

lemma settled_later:
  "settled w role run input st a art \<Longrightarrow> ad_arts st' = ad_arts st \<Longrightarrow> ad_claims st' = ad_claims st \<Longrightarrow>
     settled (w\<lparr>rw_now := now, aw_now := later\<rparr>) role run input st' a art"
  by (simp add: settled_def claimed_def artifact_key_of_def derived_key_def build_world.defs split: option.splits)

text \<open>
  C3. A retried advertisement of a run with a key is harmless: a second identical call that is
  accepted answers 200 with the same run and the same artifacts, says that nothing was created, and
  leaves the graph and the run, artifact and claim tables as the first call left them, whatever
  the clock says. (It is audited, queued for resolving and offered to subscriptions again.)
\<close>

theorem readvertising_changes_nothing:
  assumes first: "advertise w p input role st = (Inr (code, out), st')"
    and key: "ru_external_key (ai_run input) = Some k" "k \<noteq> []"
    and again: "check_advertisement (w\<lparr>rw_now := now, aw_now := later\<rparr>) p input role st' = Inr inst"
    and unused: "run_for_key k inst (ad_runs st) = None \<longrightarrow> (\<forall>q \<in> set (ad_graph st). q_subject q \<noteq> NamedNode (ao_run out))"
    and valid: "\<forall>i \<in> {ao_run out, G_LOCAL} \<union> set OUTCOME. rw_valid_iri w i"
  shows "\<exists>out2 st2. advertise (w\<lparr>rw_now := now, aw_now := later\<rparr>) p input role st' = (Inr (200, out2), st2) \<and>
     ao_run out2 = ao_run out \<and> ao_artifacts out2 = ao_artifacts out \<and> \<not> ao_created out2 \<and>
     set (ad_graph st2) = set (ad_graph st') \<and> ad_runs st2 = ad_runs st' \<and> ad_arts st2 = ad_arts st' \<and> ad_claims st2 = ad_claims st'"
proof -
  let ?w = "w\<lparr>rw_now := now, aw_now := later\<rparr>" and ?in = "resolved_run w (ai_run input)" and ?run = "ao_run out"
  from first obtain inst0 created tx st1 pg st2 st3 where
    check: "check_advertisement w p input role st = Inr inst0"
    and ensure: "ensure_run w (subject p) inst0 ?in new_tx
       (st\<lparr>ad_next := snd (candidate_quads (builder w) (subject p) inst0 input (ad_next st))\<rparr>) = (?run, created, tx, st1)"
    and all: "advertise_all w role (subject p) ?run ?in (ai_artifacts input)
       \<lparr>pg_tx = tx, pg_created = created, pg_iris = [], pg_queued = []\<rparr> st1 = (Inr pg, st2)"
    and commit: "commit w (pg_tx pg) st2 = Inr st3" and arts: "ao_artifacts out = pg_iris pg"
    and st': "st' = announce w p inst0 ?run role (pg_iris pg) st3"
    by (rule advertise_parts)
  have inst: "inst0 = inst" using check_names_instance [OF check] check_names_instance [OF again] by simp
  have k: "run_key_of ?in = Some k" using key by (simp add: run_key_of_def resolved_run_def non_empty_def)
  have rk: "ru_external_key ?in = Some k" using key by (simp add: resolved_run_def)
  note ens = ensure_run_cases [OF ensure k]
  from advertise_all_settles [OF all rk] have rem: "remembers st1 st2"
    and settled: "list_all2 (settled w role ?run ?in st2) (ai_artifacts input) (ao_artifacts out)" by (auto simp: arts)
  have ext: "extends_quietly tx (pg_tx pg)" using advertise_all_tx [OF all] by simp
  have small: "clear_graphs (pg_tx pg) = [] \<and> delete_subjects (pg_tx pg) = []"
    using ext ens by (auto simp: extends_quietly_def tx_extend_def update_run_outcome_tx new_tx_def)
  note keeps = commit_keeps [OF commit]
  have stands: "outcome_stands w ?run ?in (ad_graph st')"
    using ens update_stands [OF commit] new_run_stands [OF commit] ext unused remembersD(4) [OF rem]
    by (auto simp: st' inst)
  have run: "run_for_key k inst (ad_runs st') = Some ?run"
    using ens remembersD(3) [OF rem] keeps by (simp add: st' inst)
  obtain n where n: "advertise ?w p input role st' = carry_out ?w p inst input role (st'\<lparr>ad_next := n\<rparr>)"
    using again by (simp add: advertise_def)
  have second: "ensure_run ?w (subject p) inst ?in new_tx (st'\<lparr>ad_next := n\<rparr>) =
     (?run, False, update_run_outcome (core (builder w)) ?run ?in new_tx, st'\<lparr>ad_next := n\<rparr>)"
    using run k by (simp add: ensure_run_def)
  have "list_all2 (settled ?w role ?run ?in (st'\<lparr>ad_next := n\<rparr>)) (ai_artifacts input) (ao_artifacts out)"
    using settled by (rule list_all2_mono) (use keeps in \<open>auto simp: st' intro!: settled_later [where st = st2]\<close>)
  from advertise_all_settled [OF this, of "\<lparr>pg_tx = update_run_outcome (core (builder w)) ?run ?in new_tx,
      pg_created = False, pg_iris = [], pg_queued = []\<rparr>" "subject p"]
  obtain queued rows where loop: "advertise_all ?w role (subject p) ?run ?in (ai_artifacts input)
      \<lparr>pg_tx = update_run_outcome (core (builder w)) ?run ?in new_tx, pg_created = False, pg_iris = [], pg_queued = []\<rparr>
      (st'\<lparr>ad_next := n\<rparr>) =
    (Inr \<lparr>pg_tx = update_run_outcome (core (builder w)) ?run ?in new_tx, pg_created = False, pg_iris = ao_artifacts out,
          pg_queued = queued\<rparr>, st'\<lparr>ad_next := n, ad_resolve := rows\<rparr>)" by (auto simp: passes_def)
  have "outcome_stands ?w ?run ?in (ad_graph (st'\<lparr>ad_next := n, ad_resolve := rows\<rparr>))" using stands by simp
  from retry_commit [OF this] valid obtain st4 where
    again: "commit ?w (update_run_outcome (core (builder w)) ?run ?in new_tx) (st'\<lparr>ad_next := n, ad_resolve := rows\<rparr>) = Inr st4"
    and same: "set (ad_graph st4) = set (ad_graph st')" by auto
  from commit_keeps [OF again] same show ?thesis by (simp add: n carry_out_def second loop again)
qed

definition demo_advertise_world :: advertise_world where
  "demo_advertise_world =
     build_world.extend (demo_build_world\<lparr>rw_valid_iri := (\<lambda>s. CHR '':'' \<in> set s)\<rparr>)
       \<lparr>aw_now = 5, aw_rules = demo_rules, aw_sha256 = rev, aw_notify = (\<lambda>_. demo_notify_world)\<rparr>"

definition demo_deployment :: principal where
  "demo_deployment =
     \<lparr>credential = LocalToken, instance_iri = Some ''https://reg.org/instance/1'', software_iri = None, subject = ''token:1'',
      display_name = None, scopes = {SCOPE_ADVERTISE_PRODUCE}, roles = {}, issuer = None\<rparr>"

definition demo_artifact :: artifact_in where
  "demo_artifact =
     \<lparr>ar_iri = None, ar_title = Some ''t'', ar_description = None, ar_conforms_to = None, ar_license = None, ar_keywords = [],
      ar_issued = None, ar_publisher = None, ar_creators = [], ar_contributors = [], ar_contact = None, ar_produced_by = None,
      ar_produced_by_user = None, ar_modified = None, ar_version = None, ar_landing_page = None, ar_documentation = None,
      ar_source = None, ar_language = [], ar_spatial = None, ar_temporal_start = None, ar_temporal_end = None,
      ar_was_derived_from = [], ar_was_revision_of = None, ar_is_version_of = None, ar_external_key = None, ar_distributions = []\<rparr>"

definition demo_run :: run_in where
  "demo_run =
     \<lparr>ru_external_key = Some ''ci-7'', ru_label = None, ru_started_at = None, ru_ended_at = None, ru_status = Some ''running'',
      ru_release = None\<rparr>"

definition demo_payload :: advertise_in where
  "demo_payload = \<lparr>ai_run = demo_run, ai_artifacts = [demo_artifact, demo_artifact\<lparr>ar_iri := Some ''https://h.org/a''\<rparr>]\<rparr>"

definition demo_ad_state :: ad_state where
  "demo_ad_state =
     \<lparr>ad_graph = [\<lparr>q_subject = NamedNode ''https://reg.org/instance/1'', q_predicate = rdf_type,
                    q_object = simple_literal ''i'', q_graph = G_LOCAL\<rparr>],
      ad_runs = [], ad_arts = [], ad_claims = [], ad_resolve = [], ad_subs = \<lparr>sub_rows = [], del_rows = [], next_seq = 1\<rparr>,
      ad_audit = [], ad_next = 0\<rparr>"

lemma check_accepts:
  assumes "has_scope p (role_scope role)" "require_instance p = Inr inst" "store_exists (ad_graph st) inst" "rw_valid_iri w inst"
    and "aw_rules w = demo_rules"
    and "digest_findings (core (builder w)) (bw_codec w) (fst (candidate_quads (builder w) (subject p) inst input (ad_next st))) = []"
  shows "check_advertisement w p input role st = Inr inst"
proof -
  have "enforce_write demo_rules (core (builder w)) (bw_codec w)
      (fst (candidate_quads (builder w) (subject p) inst input (ad_next st))) = Inr []"
    by (simp add: enforce_write_Inr demo_rules_def assms(6) validate_quads_def sort_findings_def)
  moreover have "require_authenticated p = Inr ()"
    using assms(2) by (auto simp: require_instance_def and_then_def split: sum.splits)
  ultimately show ?thesis
    using assms by (simp add: check_advertisement_def require_scope_def and_then_def exists_in_def)
qed

abbreviation demo_instance_iri :: string where
  "demo_instance_iri \<equiv> ''https://reg.org/instance/1''"

lemma tx_iris_none: "tx_iris t = [] \<Longrightarrow> clear_graphs t = [] \<and> delete_subjects t = [] \<and> delete_properties t = []"
  by (cases "delete_subjects t"; cases "delete_properties t") (auto simp: tx_iris_def)

lemma carry_out_commits:
  assumes "ensure_run w (subject p) inst (resolved_run w (ai_run input)) new_tx st = (run, created, tx, st1)"
    and "advertise_all w role (subject p) run (resolved_run w (ai_run input)) (ai_artifacts input)
      \<lparr>pg_tx = tx, pg_created = created, pg_iris = [], pg_queued = []\<rparr> st1 = (Inr pg, st2)"
    and plain: "tx_iris (pg_tx pg) = []"
  shows "\<exists>code out st'. carry_out w p inst input role st = (Inr (code, out), st') \<and> ao_run out = run \<and>
     set (ad_graph st2) \<subseteq> set (ad_graph st') \<and> ad_next st' = ad_next st2"
proof -
  note none = tx_iris_none [OF plain]
  obtain st3 where c: "commit w (pg_tx pg) st2 = Inr st3"
    using plain by (cases "tx_is_empty (pg_tx pg)") (simp_all add: commit_def apply_tx_def Let_def)
  moreover have "ad_next st3 = ad_next st2" using c by (auto simp: commit_def split: if_splits sum.splits)
  moreover have "set (ad_graph st2) \<subseteq> set (ad_graph st3)" using commit_graph [OF c] none by auto
  ultimately show ?thesis by (simp add: carry_out_def assms(1,2) announce_def)
qed

abbreviation demo_again :: advertise_world where
  "demo_again \<equiv> demo_advertise_world\<lparr>rw_now := ''later'', aw_now := 9\<rparr>"

definition demo_loop :: "string \<times> (app_error + progress) \<times> ad_state" where
  "demo_loop =
     (case ensure_run demo_advertise_world ''token:1'' demo_instance_iri demo_run new_tx (demo_ad_state\<lparr>ad_next := 4\<rparr>) of
        (run, created, tx, st) \<Rightarrow>
          (run, advertise_all demo_advertise_world Produced ''token:1'' run demo_run (ai_artifacts demo_payload)
             \<lparr>pg_tx = tx, pg_created = created, pg_iris = [], pg_queued = []\<rparr> st))"

lemma demo_loop_facts:
  "(case demo_loop of
      (run, Inr pg, st) \<Rightarrow> run = ''https://reg.org/run/4'' \<and> tx_iris (pg_tx pg) = [] \<and> store_exists (ad_graph st) demo_instance_iri \<and> ad_next st = 8
    | _ \<Rightarrow> False)"
  by code_simp

lemma demo_candidates:
  "candidate_quads (builder demo_advertise_world) ''token:1'' demo_instance_iri demo_payload 0 =
     (fst (candidate_quads (builder demo_advertise_world) ''token:1'' demo_instance_iri demo_payload 0), 4)"
  "digest_findings (core (builder demo_advertise_world)) (bw_codec demo_advertise_world)
     (fst (candidate_quads (builder demo_advertise_world) ''token:1'' demo_instance_iri demo_payload 0)) = []"
  "digest_findings (core (builder demo_again)) (bw_codec demo_again)
     (fst (candidate_quads (builder demo_again) ''token:1'' demo_instance_iri demo_payload 8)) = []"
  by code_simp+

theorem readvertising_changes_nothing_witness:
  "\<exists>code out st' out2 st2. advertise demo_advertise_world demo_deployment demo_payload Produced demo_ad_state = (Inr (code, out), st')
     \<and> advertise demo_again demo_deployment demo_payload Produced st' = (Inr (200, out2), st2)
     \<and> ao_run out2 = ''https://reg.org/run/4'' \<and> set (ad_graph st2) = set (ad_graph st')"
proof -
  have scope: "has_scope demo_deployment (role_scope Produced)" by code_simp
  have inst: "require_instance demo_deployment = Inr demo_instance_iri"
    by (simp add: require_instance_def require_authenticated_def is_anonymous_def and_then_def ok_or_def demo_deployment_def)
  have fields: "subject demo_deployment = ''token:1''" "ad_next demo_ad_state = 0" "ai_run demo_payload = demo_run"
    "resolved_run demo_advertise_world demo_run = demo_run"
    by (simp_all add: demo_deployment_def demo_ad_state_def demo_payload_def resolved_run_def demo_run_def)
  have rules: "aw_rules demo_advertise_world = demo_rules" "aw_rules demo_again = demo_rules"
    by (simp_all add: demo_advertise_world_def build_world.defs)
  have ok: "rw_valid_iri demo_advertise_world demo_instance_iri" "rw_valid_iri demo_again demo_instance_iri"
    "store_exists (ad_graph demo_ad_state) demo_instance_iri" by code_simp+
  have check: "check_advertisement demo_advertise_world demo_deployment demo_payload Produced demo_ad_state = Inr demo_instance_iri"
    using check_accepts [OF scope inst ok(3,1) rules(1)] demo_candidates(2) by (simp add: fields)
  obtain run created tx st1 where ensure: "ensure_run demo_advertise_world ''token:1'' demo_instance_iri demo_run new_tx
      (demo_ad_state\<lparr>ad_next := 4\<rparr>) = (run, created, tx, st1)" by (metis surj_pair)
  with demo_loop_facts obtain pg st2 where loop: "advertise_all demo_advertise_world Produced ''token:1'' run demo_run
      (ai_artifacts demo_payload) \<lparr>pg_tx = tx, pg_created = created, pg_iris = [], pg_queued = []\<rparr> st1 = (Inr pg, st2)"
    and run: "run = ''https://reg.org/run/4''" and plain: "tx_iris (pg_tx pg) = []"
    and known: "store_exists (ad_graph st2) demo_instance_iri" and next8: "ad_next st2 = 8"
    by (auto simp: demo_loop_def split: prod.splits sum.splits)
  obtain code out st' where did: "carry_out demo_advertise_world demo_deployment demo_instance_iri demo_payload Produced
      (demo_ad_state\<lparr>ad_next := 4\<rparr>) = (Inr (code, out), st')" "ao_run out = run"
      "set (ad_graph st2) \<subseteq> set (ad_graph st')" "ad_next st' = 8"
    using carry_out_commits [where w = demo_advertise_world and p = demo_deployment and input = demo_payload,
      unfolded fields, OF ensure loop plain] next8 by auto
  have first: "advertise demo_advertise_world demo_deployment demo_payload Produced demo_ad_state = (Inr (code, out), st')"
    using did(1) arg_cong [OF demo_candidates(1), of snd] by (simp add: advertise_def check fields)
  have "store_exists (ad_graph st') demo_instance_iri" using known did(3) by (auto simp: store_exists_def)
  then have again: "check_advertisement demo_again demo_deployment demo_payload Produced st' = Inr demo_instance_iri"
    using check_accepts [OF scope inst _ ok(2) rules(2)] demo_candidates(3) by (simp add: fields did(4))
  have "ru_external_key (ai_run demo_payload) = Some ''ci-7''" by (simp add: demo_payload_def demo_run_def)
  moreover have "\<forall>q \<in> set (ad_graph demo_ad_state). q_subject q \<noteq> NamedNode (ao_run out)"
    by (simp add: demo_ad_state_def did(2) run)
  moreover have "\<forall>i \<in> {ao_run out, G_LOCAL} \<union> set OUTCOME. rw_valid_iri demo_advertise_world i"
    unfolding did(2) run by code_simp
  ultimately obtain out2 st3 where second: "advertise demo_again demo_deployment demo_payload Produced st' = (Inr (200, out2), st3)"
    and same: "ao_run out2 = ao_run out" "set (ad_graph st3) = set (ad_graph st')"
    using readvertising_changes_nothing [OF first _ _ again] by auto
  have "ao_run out2 = ''https://reg.org/run/4''" using same(1) did(2) run by simp
  with first second same(2) show ?thesis by blast
qed

section \<open>What the checks miss\<close>

text \<open>
  C38. A reference that is no IRI fails after the run's key was written: the call answers with an internal
  error and the graph is unchanged, but the key now stands for a run that was never committed, and every
  later advertisement under that key attaches to it.
\<close>

theorem bad_reference_leaves_ghost_run:
  assumes check: "check_advertisement w p input role st = Inr inst"
    and key: "run_key_of (ai_run input) = Some k" "run_for_key k inst (ad_runs st) = None"
    and bad: "ai_artifacts input = a # rest" "ar_iri a = Some iri" "iri \<noteq> []" "\<not> is_local (bw_base w) iri" "\<not> rw_valid_iri w iri"
  shows "\<exists>run st'. advertise w p input role st = (Inl (internal (''bad IRI '' @ iri)), st') \<and>
     ad_graph st' = ad_graph st \<and> run_for_key k inst (ad_runs st') = Some run \<and>
     (\<forall>later st2 tx. run_for_key k inst (ad_runs st2) = Some run \<longrightarrow> run_key_of later = Some k \<longrightarrow>
        ensure_run w (subject p) inst later tx st2 = (run, False, update_run_outcome (core (builder w)) run later tx, st2))"
proof -
  let ?st = "st\<lparr>ad_next := snd (candidate_quads (builder w) (subject p) inst input (ad_next st))\<rparr>"
  obtain run created tx st1 where ensure: "ensure_run w (subject p) inst (resolved_run w (ai_run input)) new_tx ?st = (run, created, tx, st1)"
    by (metis surj_pair)
  have "run_key_of (resolved_run w (ai_run input)) = Some k" using key(1) by (simp add: run_key_of_def resolved_run_def)
  note ens = ensure_run_cases [OF ensure this]
  have "place_artifact w role (subject p) run (resolved_run w (ai_run input)) a pg st1 = (Inl (internal (''bad IRI '' @ iri)), st1)" for pg
    using bad by (simp add: place_artifact_def non_empty_def note_foreign_def exists_in_def)
  then have "advertise w p input role st = (Inl (internal (''bad IRI '' @ iri)), st1)"
    by (simp add: advertise_def check carry_out_def ensure bad(1))
  with ens show ?thesis by (intro exI [of _ run] exI [of _ st1]) (auto simp: ensure_run_def)
qed

theorem bad_reference_leaves_ghost_run_witness:
  "\<exists>run st'. advertise demo_advertise_world demo_deployment
       \<lparr>ai_run = demo_run, ai_artifacts = [demo_artifact\<lparr>ar_iri := Some ''not an iri''\<rparr>]\<rparr> Produced demo_ad_state
     = (Inl (internal ''bad IRI not an iri''), st') \<and>
     ad_graph st' = ad_graph demo_ad_state \<and> run_for_key ''ci-7'' demo_instance_iri (ad_runs st') = Some run"
proof -
  let ?in = "\<lparr>ai_run = demo_run, ai_artifacts = [demo_artifact\<lparr>ar_iri := Some ''not an iri''\<rparr>]\<rparr>"
  have "has_scope demo_deployment (role_scope Produced)" by code_simp
  moreover have "require_instance demo_deployment = Inr demo_instance_iri"
    by (simp add: require_instance_def require_authenticated_def is_anonymous_def and_then_def ok_or_def demo_deployment_def)
  moreover have "aw_rules demo_advertise_world = demo_rules" by (simp add: demo_advertise_world_def build_world.defs)
  moreover have "store_exists (ad_graph demo_ad_state) demo_instance_iri" "rw_valid_iri demo_advertise_world demo_instance_iri"
    by code_simp+
  moreover have "digest_findings (core (builder demo_advertise_world)) (bw_codec demo_advertise_world)
     (fst (candidate_quads (builder demo_advertise_world) (subject demo_deployment) demo_instance_iri ?in (ad_next demo_ad_state))) = []"
    by code_simp
  ultimately have check: "check_advertisement demo_advertise_world demo_deployment ?in Produced demo_ad_state = Inr demo_instance_iri"
    by (intro check_accepts) auto
  have bad: "\<not> is_local (bw_base demo_advertise_world) ''not an iri''" "\<not> rw_valid_iri demo_advertise_world ''not an iri''"
    by code_simp+
  show ?thesis
    using bad_reference_leaves_ghost_run [OF check, of "''ci-7''" "demo_artifact\<lparr>ar_iri := Some ''not an iri''\<rparr>" "[]" "''not an iri''"] bad
    by (auto simp: run_key_of_def non_empty_def demo_run_def demo_ad_state_def run_for_key_def)
qed

text \<open>
  C32. An artifact with an empty IRI is described and minted like one that has none, but the check before
  the write leaves it out: whatever its content, the payload is accepted exactly when the run alone would be.
\<close>

theorem empty_iri_escapes_validation:
  assumes "\<forall>a \<in> set arts. ar_iri a = Some []"
  shows "check_advertisement w p \<lparr>ai_run = r, ai_artifacts = arts\<rparr> role st =
      check_advertisement w p \<lparr>ai_run = r, ai_artifacts = []\<rparr> role st
    \<and> (\<forall>a \<in> set arts. place_artifact w role who run r a pg st = place_artifact w role who run r (a\<lparr>ar_iri := None\<rparr>) pg st)"
proof -
  have "candidate_artifacts b who arts n = ([], n)" for b n who
    using assms by (induction arts) simp_all
  then have "candidate_quads b i who \<lparr>ai_run = r, ai_artifacts = arts\<rparr> n = candidate_quads b i who \<lparr>ai_run = r, ai_artifacts = []\<rparr> n" for b who i n
    by (simp add: candidate_quads_def)
  moreover have "place_artifact w role who run r a pg st = place_artifact w role who run r (a\<lparr>ar_iri := None\<rparr>) pg st"
    if "a \<in> set arts" for a
  proof -
    have rest: "artifact_rest b (a\<lparr>ar_iri := None\<rparr>) = artifact_rest b a" for b
      by (simp add: fun_eq_iff artifact_rest_def)
    have "artifact_quads b i (a\<lparr>ar_iri := None\<rparr>) = artifact_quads b i a" for b i
      by (intro ext) (simp add: rest artifact_quads_def describe_artifact_def series_of_def series_quads_def Let_def
          cong del: prod.case_cong_weak option.case_cong_weak)
    moreover have "artifact_key_of w r (a\<lparr>ar_iri := None\<rparr>) = artifact_key_of w r a"
      by (simp add: artifact_key_of_def derived_key_def)
    ultimately show ?thesis using assms that
      by (simp add: place_artifact_def new_artifact_def [abs_def] non_empty_def Let_def split: option.split)
  qed
  ultimately show ?thesis by (simp add: check_advertisement_def cong: if_cong)
qed

theorem empty_iri_escapes_validation_witness:
  "check_advertisement demo_advertise_world demo_deployment
       \<lparr>ai_run = demo_run, ai_artifacts = [demo_artifact\<lparr>ar_iri := Some [], ar_distributions := [demo_distribution]\<rparr>]\<rparr> Produced demo_ad_state
     = check_advertisement demo_advertise_world demo_deployment \<lparr>ai_run = demo_run, ai_artifacts = []\<rparr> Produced demo_ad_state"
  by (rule empty_iri_escapes_validation [THEN conjunct1]) simp

end
