(* ===== verification/Software_Records.thy ===== *)
theory Software_Records
  imports Record_Reads
begin

text \<open>
  Software, releases and capabilities: their shapes (\<open>src/model.rs\<close>), the statements they are
  stored as and how they are read back (\<open>src/domain/software.rs\<close>). The rows of the SPARQL queries are
  selected from the store; the engine's order of rows is that of the store.
\<close>

section \<open>Shapes\<close>

record api_doc =
  ad_url :: string
  ad_format :: string
  ad_title :: "string option"
  ad_description :: "string option"

definition API_FORMATS :: "(string \<times> string) list" where
  "API_FORMATS =
     [(''openapi'', ''https://spec.openapis.org/oas/latest.html''),
      (''asyncapi'', ''https://www.asyncapi.com/docs/reference/specification/latest''),
      (''graphql'', ''https://spec.graphql.org/''),
      (''sparql-service-description'', ''http://www.w3.org/ns/sparql-service-description''),
      (''ols4'', ''https://www.ebi.ac.uk/ols4/api''),
      (''postman'', ''https://schema.postman.com/collection/'')]"

definition api_format_iri :: "string \<Rightarrow> string option" where
  "api_format_iri f = map_of API_FORMATS f"

definition api_format_from_iri :: "string \<Rightarrow> string option" where
  "api_format_from_iri iri =
     find (\<lambda>f. api_format_iri f = Some iri)
       [''openapi'', ''asyncapi'', ''graphql'', ''sparql-service-description'', ''ols4'', ''postman'']"

definition normalised_format :: "api_doc \<Rightarrow> string" where
  "normalised_format d =
     (if trim (ad_format d) \<noteq> [] then to_ascii_lowercase (trim (ad_format d))
      else let u = to_ascii_lowercase (ad_url d) in
           if contains_str u ''openapi'' \<or> contains_str u ''swagger'' then ''openapi''
           else if contains_str u ''asyncapi'' then ''asyncapi''
           else if contains_str u ''graphql'' then ''graphql''
           else if contains_str u ''sparql'' then ''sparql-service-description''
           else ''other'')"

record capability_in =
  cp_produces :: "string list"
  cp_consumes :: "string list"

record sync_in =
  sy_source :: string
  sy_repo :: string
  sy_fields :: "string list"
  sy_enabled :: bool

record sync_status =
  ss_source :: string
  ss_repo :: string
  ss_fields :: "string list"
  ss_enabled :: bool
  ss_last_synced_at :: "string option"
  ss_last_status :: string
  ss_last_error :: "string option"
  ss_last_changed :: "string list"

record software_in =
  so_name :: string
  so_tagline :: "string option"
  so_description :: "string option"
  so_homepage :: "string option"
  so_code_repository :: "string option"
  so_documentation :: "string option"
  so_download_url :: "string option"
  so_image :: "string option"
  so_screenshots :: "string list"
  so_readme :: "string option"
  so_readme_base_url :: "string option"
  so_api_docs :: "api_doc list"
  so_registration_clients :: "string list"
  so_registration_issuer :: "string option"
  so_license :: "string option"
  so_kinds :: "string list"
  so_kind :: "string option"
  so_maturity :: "string option"
  so_deployable :: "bool option"
  so_topics :: "string list"
  so_keywords :: "string list"
  so_publisher :: "agent_in option"
  so_contact :: "agent_in option"
  so_publications :: "string list"
  so_capability :: "capability_in option"
  so_sync :: "sync_in option"

definition SYNCABLE_FIELDS :: "string list" where
  "SYNCABLE_FIELDS =
     [''tagline'', ''description'', ''readme'', ''homepage'', ''license'', ''keywords'', ''maturity'', ''releases'', ''image'']"

definition resolved_kinds :: "software_in \<Rightarrow> string list" where
  "resolved_kinds input =
     dedup (filter (\<lambda>k. k \<noteq> []) (map trim (so_kinds input @ (case so_kind input of Some k \<Rightarrow> [k] | None \<Rightarrow> []))))"

record download_in =
  dl_url :: string
  dl_label :: "string option"
  dl_platform :: "string option"
  dl_byte_size :: "int option"
  dl_availability :: "string option"

record release_in =
  rl_version :: string
  rl_date_published :: "string option"
  rl_container_image :: "string option"
  rl_image_digest :: "string option"
  rl_changelog :: "string option"
  rl_install_command :: "string option"
  rl_downloads :: "download_in list"
  rl_capability :: "capability_in option"

record capability_view =
  cv_iri :: string
  cv_produces :: "type_ref list"
  cv_consumes :: "type_ref list"
  cv_declared_at :: string

record release_view =
  rv_iri :: string
  rv_id :: string
  rv_version :: string
  rv_date_published :: "string option"
  rv_container_image :: "string option"
  rv_image_digest :: "string option"
  rv_changelog :: "string option"
  rv_install_command :: "string option"
  rv_downloads :: "download_in list"
  rv_software :: "string option"
  rv_software_name :: "string option"
  rv_capability :: "capability_view option"
  rv_origin :: origin

record software_view =
  sw_iri :: string
  sw_id :: string
  sw_name :: string
  sw_tagline :: "string option"
  sw_description :: "string option"
  sw_homepage :: "string option"
  sw_code_repository :: "string option"
  sw_documentation :: "string option"
  sw_download_url :: "string option"
  sw_image :: "string option"
  sw_screenshots :: "string list"
  sw_readme :: "string option"
  sw_readme_base_url :: "string option"
  sw_api_docs :: "api_doc list"
  sw_registration_clients :: "string list"
  sw_registration_issuer :: "string option"
  sw_license :: "string option"
  sw_kinds :: "string list"
  sw_kind :: "string option"
  sw_maturity :: "string option"
  sw_deployable :: bool
  sw_topics :: "type_ref list"
  sw_keywords :: "string list"
  sw_publisher :: "agent_view option"
  sw_contact :: "agent_view option"
  sw_publications :: "string list"
  sw_capability :: "capability_view option"
  sw_sync :: "sync_status option"
  sw_latest_release :: "release_view option"
  sw_instance_count :: nat
  sw_release_count :: nat
  sw_runs_30d :: nat
  sw_created :: "string option"
  sw_modified :: "string option"
  sw_origin :: origin
  sw_tombstoned :: bool

section \<open>Writes\<close>

definition TYPE_SOFTWARE :: string where "TYPE_SOFTWARE = ''https://schema.org/SoftwareApplication''"
definition TYPE_TAR_SOFTWARE :: string where "TYPE_TAR_SOFTWARE = ''https://w3id.org/tar/ns#Software''"
definition TYPE_TAR_RELEASE :: string where "TYPE_TAR_RELEASE = ''https://w3id.org/tar/ns#Release''"
definition TYPE_SOURCE :: string where "TYPE_SOURCE = ''https://schema.org/SoftwareSourceCode''"
definition TYPE_RELEASE_PLAN :: string where "TYPE_RELEASE_PLAN = ''http://www.w3.org/ns/prov#Plan''"
definition TYPE_CAPABILITY :: string where "TYPE_CAPABILITY = ''https://w3id.org/tar/ns#Capability''"

definition repostatus_iri :: "string \<Rightarrow> string option" where
  "repostatus_iri v =
     (let c = to_ascii_lowercase (trim v) in
      if c \<in> set [''concept'', ''wip'', ''suspended'', ''abandoned'', ''active'', ''inactive'', ''unsupported'', ''moved'']
      then Some (''https://www.repostatus.org/#'' @ c) else None)"

definition api_doc_node :: "rdf_world \<Rightarrow> api_doc \<Rightarrow> rdf_node" where
  "api_doc_node w d =
     build [add_type (DCT @ ''Standard''),
            add_text TAR ''apiFormat'' (normalised_format d),
            (case api_format_iri (normalised_format d) of Some spec \<Rightarrow> add_link w DCT ''conformsTo'' spec | None \<Rightarrow> id),
            add_opt_text DCT ''title'' (ad_title d),
            add_opt_text DCT ''description'' (ad_description d)] (local_node (trim (ad_url d)))"

definition add_api_docs :: "rdf_world \<Rightarrow> api_doc list \<Rightarrow> rdf_node \<Rightarrow> rdf_node" where
  "add_api_docs w docs n =
     fold (\<lambda>d n. if trim (ad_url d) = [] then n else add_child DCAT ''endpointDescription'' (api_doc_node w d) n) docs n"

definition sync_node :: "string \<Rightarrow> sync_in \<Rightarrow> rdf_node" where
  "sync_node iri s =
     build [add_type (TAR @ ''RepositorySync''),
            add_text TAR ''syncSource'' (sy_source s),
            add_text TAR ''syncRepo'' (sy_repo s),
            add_texts TAR ''syncField'' (sy_fields s),
            add_boolean TAR ''syncEnabled'' (sy_enabled s)] (local_node (iri @ ''#sync''))"

definition capability_quads :: "rdf_world \<Rightarrow> string \<Rightarrow> capability_in \<Rightarrow> quad list" where
  "capability_quads w iri c =
     finish (build [add_type TYPE_CAPABILITY, add_type TYPE_RELEASE_PLAN,
                    add_links w TAR ''produces'' (cp_produces c), add_links w TAR ''consumes'' (cp_consumes c)] (local_node iri))"

text \<open>A capability given inline gets a fresh IRI and is linked from the record.\<close>

definition link_capability :: "build_world \<Rightarrow> capability_in option \<Rightarrow> building \<Rightarrow> building" where
  "link_capability w c b =
     (case (c, b) of
        (None, _) \<Rightarrow> b
      | (Some cap, node, quads, n) \<Rightarrow>
          (add_link (core w) TAR ''hasCapability'' (fresh_iri w Capability n) node,
           quads @ capability_quads (core w) (fresh_iri w Capability n) cap, Suc n))"

definition describe_software :: "build_world \<Rightarrow> software_in \<Rightarrow> string \<Rightarrow> string option \<Rightarrow> rdf_node \<Rightarrow> rdf_node" where
  "describe_software w input actor created node =
     build [add_type TYPE_SOFTWARE, add_type TYPE_SOURCE, add_type TYPE_TAR_SOFTWARE,
            add_text SCHEMA ''name'' (so_name input),
            add_opt_text DCT ''abstract'' (so_tagline input),
            add_opt_text SCHEMA ''description'' (so_description input),
            opt_link (core w) SCHEMA ''url'' (so_homepage input),
            opt_link (core w) SCHEMA ''codeRepository'' (so_code_repository input),
            opt_link (core w) SCHEMA ''softwareHelp'' (so_documentation input),
            opt_link (core w) SCHEMA ''downloadUrl'' (so_download_url input),
            opt_link (core w) SCHEMA ''image'' (so_image input),
            add_links (core w) SCHEMA ''screenshot'' (so_screenshots input),
            add_opt_text TAR ''readme'' (so_readme input),
            opt_link (core w) TAR ''readmeBaseURL'' (so_readme_base_url input),
            add_api_docs (core w) (so_api_docs input),
            opt_link (core w) DCT ''license'' (so_license input),
            add_texts SCHEMA ''applicationCategory'' (resolved_kinds input),
            add_opt_text TAR ''maturity'' (so_maturity input),
            (if so_deployable input = Some False then add_boolean TAR ''deployable'' False else id),
            (case Option.bind (so_maturity input) repostatus_iri of
               Some i \<Rightarrow> add_link (core w) CODEMETA ''developmentStatus'' i | None \<Rightarrow> id),
            add_texts TAR ''registrationClient'' (so_registration_clients input),
            (if so_registration_clients input \<noteq> [] then add_opt_text TAR ''registrationIssuer'' (so_registration_issuer input) else id),
            add_links (core w) DCT ''subject'' (so_topics input),
            add_texts SCHEMA ''keywords'' (so_keywords input),
            add_links (core w) DCT ''references'' (so_publications input),
            add_datetime (core w) DCT ''created'' (case created of Some c \<Rightarrow> c | None \<Rightarrow> rw_now w),
            attribution (core w) actor] node"

definition software_quads ::
  "build_world \<Rightarrow> string \<Rightarrow> software_in \<Rightarrow> string \<Rightarrow> string option \<Rightarrow> nat \<Rightarrow> quad list \<times> nat" where
  "software_quads w iri input actor created n =
     (let b0 = (describe_software w input actor created (local_node iri), [], n);
          b1 = link_opt_agent w DCT ''publisher'' (so_publisher input) b0;
          b2 = link_opt_agent w CODEMETA ''maintainer'' (so_contact input) b1;
          b3 = on_node (case so_sync input of Some s \<Rightarrow> add_child TAR ''sync'' (sync_node iri s) | None \<Rightarrow> id) b2;
          (node, quads, n') = link_capability w (so_capability input) b3
      in (quads @ finish node, n'))"

definition replace_software ::
  "build_world \<Rightarrow> string \<Rightarrow> software_in \<Rightarrow> string \<Rightarrow> string option \<Rightarrow> nat \<Rightarrow> graph_tx \<times> nat" where
  "replace_software w iri input actor created n =
     (let (quads, n') = software_quads w iri input actor created n
      in (tx_extend quads (replace_subject iri G_LOCAL new_tx), n'))"

definition download_node :: "rdf_world \<Rightarrow> string \<Rightarrow> download_in \<Rightarrow> rdf_node" where
  "download_node w iri d =
     (let availability = (case dl_availability d of Some a \<Rightarrow> a | None \<Rightarrow> ''public'') in
      build [add_type TYPE_DISTRIBUTION,
             add_link w DCAT ''downloadURL'' (dl_url d),
             add_opt_text DCT ''title'' (dl_label d),
             add_opt_text SCHEMA ''operatingSystem'' (dl_platform d),
             add_opt_int DCAT ''byteSize'' (dl_byte_size d),
             add_text TAR ''availability'' availability,
             (case access_right availability of Some r \<Rightarrow> add_link w DCT ''accessRights'' r | None \<Rightarrow> id)] (local_node iri))"

definition add_download :: "build_world \<Rightarrow> download_in \<Rightarrow> building \<Rightarrow> building" where
  "add_download w d b =
     (case b of (node, quads, n) \<Rightarrow>
        (add_child DCAT ''distribution'' (download_node (core w) (fresh_iri w Distribution n) d) node, quads, Suc n))"

definition release_quads ::
  "build_world \<Rightarrow> string \<Rightarrow> string \<Rightarrow> release_in \<Rightarrow> string \<Rightarrow> nat \<Rightarrow> quad list \<times> nat" where
  "release_quads w iri software input actor n =
     (let b0 = (build [add_type TYPE_SOFTWARE, add_type TYPE_RELEASE_PLAN, add_type TYPE_TAR_RELEASE,
                       add_text SCHEMA ''softwareVersion'' (rl_version input),
                       add_opt_datetime (core w) SCHEMA ''datePublished'' (rl_date_published input),
                       add_opt_text TAR ''containerImage'' (rl_container_image input),
                       add_opt_text TAR ''imageDigest'' (rl_image_digest input),
                       opt_link (core w) SCHEMA ''releaseNotes'' (rl_changelog input),
                       add_opt_text TAR ''installCommand'' (rl_install_command input)] (local_node iri), [], n);
          b1 = fold (add_download w) (rl_downloads input) b0;
          b2 = on_node (build [add_link (core w) DCT ''isVersionOf'' software, attribution (core w) actor]) b1;
          (node, quads, n') = link_capability w (rl_capability input) b2
      in (quads @ finish node, n'))"

section \<open>Reads\<close>

definition text_or :: "string \<Rightarrow> string option \<Rightarrow> string" where
  "text_or d v = (case v of Some s \<Rightarrow> s | None \<Rightarrow> d)"

definition capability_from :: "read_world \<Rightarrow> store \<Rightarrow> string \<Rightarrow> string \<Rightarrow> capability_view option" where
  "capability_from w st iri layer =
     (case described w st iri of
        Inl _ \<Rightarrow> None
      | Inr [] \<Rightarrow> None
      | Inr qs \<Rightarrow>
          (let p = from_quads iri qs in
           Some \<lparr>cv_iri = iri, cv_produces = type_refs w (get_iris p TAR ''produces''),
                 cv_consumes = type_refs w (get_iris p TAR ''consumes''), cv_declared_at = layer\<rparr>))"

text \<open>The key of a node without the angle brackets that only a printed term would have.\<close>

definition strip_brackets :: "string \<Rightarrow> string" where
  "strip_brackets k = trim_end_matches (CHR ''>'') (dropWhile (\<lambda>c. c = CHR ''<'') k)"

definition api_doc_from :: "props \<Rightarrow> string \<Rightarrow> api_doc option" where
  "api_doc_from p k =
     (case nested_for p k of
        None \<Rightarrow> None
      | Some d \<Rightarrow> Some
          \<lparr>ad_url = strip_brackets k,
           ad_format = text_or ''other'' (first_some (get_str d TAR ''apiFormat'')
              (Option.bind (get_iri d DCT ''conformsTo'') api_format_from_iri)),
           ad_title = get_str d DCT ''title'', ad_description = get_str d DCT ''description''\<rparr>)"

definition sync_from :: "node_props \<Rightarrow> sync_status option" where
  "sync_from s =
     map_option (\<lambda>repo.
       \<lparr>ss_source = text_or ''github'' (get_str s TAR ''syncSource''), ss_repo = repo,
        ss_fields = get_strs s TAR ''syncField'',
        ss_enabled = (case get_bool s TAR ''syncEnabled'' of Some b \<Rightarrow> b | None \<Rightarrow> True),
        ss_last_synced_at = get_str s TAR ''syncedAt'', ss_last_status = text_or ''never'' (get_str s TAR ''syncStatus''),
        ss_last_error = get_str s TAR ''syncError'', ss_last_changed = get_strs s TAR ''syncChanged''\<rparr>)
       (get_str s TAR ''syncRepo'')"

definition stored_kinds :: "props \<Rightarrow> string list" where
  "stored_kinds p =
     sort (if get_strs p SCHEMA ''applicationCategory'' = [] then get_strs p TAR ''kind'' else get_strs p SCHEMA ''applicationCategory'')"

definition after_last_hash :: "string \<Rightarrow> string" where
  "after_last_hash s = rev (takeWhile (\<lambda>c. c \<noteq> CHR ''#'') (rev s))"

definition stored_maturity :: "props \<Rightarrow> string option" where
  "stored_maturity p =
     first_some (get_str p TAR ''maturity'') (map_option after_last_hash (get_iri p CODEMETA ''developmentStatus''))"

definition software_from_props :: "read_world \<Rightarrow> store \<Rightarrow> string \<Rightarrow> props \<Rightarrow> software_view" where
  "software_from_props w st iri p =
     (let c = rdf_world.truncate w; kinds = stored_kinds p in
      \<lparr>sw_iri = iri, sw_id = short_id (cx_base w) iri,
       sw_name = text_or (iri_tail iri) (get_str p SCHEMA ''name''),
       sw_tagline = first_some (get_str p DCT ''abstract'') (get_str p TAR ''tagline''),
       sw_description = get_str p SCHEMA ''description'', sw_homepage = get_iri p SCHEMA ''url'',
       sw_code_repository = get_iri p SCHEMA ''codeRepository'', sw_documentation = get_iri p SCHEMA ''softwareHelp'',
       sw_download_url = get_iri p SCHEMA ''downloadUrl'', sw_image = get_iri p SCHEMA ''image'',
       sw_screenshots = get_iris p SCHEMA ''screenshot'', sw_readme = get_str p TAR ''readme'',
       sw_readme_base_url = get_iri p TAR ''readmeBaseURL'',
       sw_api_docs = List.map_filter (api_doc_from p) (node_keys c p DCAT ''endpointDescription''),
       sw_registration_clients = get_strs p TAR ''registrationClient'',
       sw_registration_issuer = get_str p TAR ''registrationIssuer'',
       sw_license = get_iri p DCT ''license'', sw_kinds = kinds,
       sw_kind = (case kinds of [] \<Rightarrow> None | k # _ \<Rightarrow> Some k), sw_maturity = stored_maturity p,
       sw_deployable = (case get_bool p TAR ''deployable'' of Some b \<Rightarrow> b | None \<Rightarrow> True),
       sw_topics = type_refs w (get_iris p DCT ''subject''), sw_keywords = get_strs p SCHEMA ''keywords'',
       sw_publisher = map_option (agent_ref w st) (get_iri p DCT ''publisher''),
       sw_contact = map_option (agent_ref w st) (first_some (get_iri p CODEMETA ''maintainer'') (get_iri p TAR ''contact'')),
       sw_publications = get_iris p DCT ''references'',
       sw_capability = Option.bind (get_iri p TAR ''hasCapability'') (\<lambda>k. capability_from w st k ''software''),
       sw_sync = (case node_keys c p TAR ''sync'' of [] \<Rightarrow> None | k # _ \<Rightarrow> Option.bind (nested_for p k) sync_from),
       sw_latest_release = None, sw_instance_count = 0, sw_release_count = 0, sw_runs_30d = 0,
       sw_created = get_str p DCT ''created'', sw_modified = get_str p DCT ''modified'',
       sw_origin = origin_of_graph w (np_graph p),
       sw_tombstoned = (case get_bool p TAR ''tombstoned'' of Some b \<Rightarrow> b | None \<Rightarrow> False)\<rparr>)"

definition download_from :: "props \<Rightarrow> string \<Rightarrow> download_in option" where
  "download_from p k =
     Option.bind (nested_for p k) (\<lambda>d.
       map_option (\<lambda>url. \<lparr>dl_url = url, dl_label = get_str d DCT ''title'', dl_platform = get_str d SCHEMA ''operatingSystem'',
                          dl_byte_size = get_i64 d DCAT ''byteSize'', dl_availability = get_str d TAR ''availability''\<rparr>)
         (get_iri d DCAT ''downloadURL''))"

definition release_from_props :: "read_world \<Rightarrow> store \<Rightarrow> string \<Rightarrow> props \<Rightarrow> release_view" where
  "release_from_props w st iri p =
     \<lparr>rv_iri = iri, rv_id = (case local_id (cx_base w) iri of Some (_, i) \<Rightarrow> i | None \<Rightarrow> []),
      rv_version = text_or [] (get_str p SCHEMA ''softwareVersion''),
      rv_date_published = get_str p SCHEMA ''datePublished'', rv_container_image = get_str p TAR ''containerImage'',
      rv_image_digest = get_str p TAR ''imageDigest'',
      rv_changelog = first_some (get_iri p SCHEMA ''releaseNotes'') (get_str p SCHEMA ''releaseNotes''),
      rv_install_command = get_str p TAR ''installCommand'',
      rv_downloads = List.map_filter (download_from p) (node_keys (rdf_world.truncate w) p DCAT ''distribution''),
      rv_software = get_iri p DCT ''isVersionOf'', rv_software_name = None,
      rv_capability = Option.bind (get_iri p TAR ''hasCapability'') (\<lambda>k. capability_from w st k ''release''),
      rv_origin = origin_of_graph w (np_graph p)\<rparr>"

section \<open>Releases and counts\<close>

text \<open>A row for each version a release states in the graph that says whose version it is.\<close>

definition release_rows :: "store \<Rightarrow> string \<Rightarrow> node list" where
  "release_rows st sw =
     concat (map (\<lambda>q. map (\<lambda>_. q_subject q)
         (filter (\<lambda>v. q_subject v = q_subject q \<and> q_graph v = q_graph q \<and> q_predicate v = SCHEMA @ ''softwareVersion'') st))
       (filter (\<lambda>q. q_predicate q = DCT @ ''isVersionOf'' \<and> q_object q = Node (NamedNode sw) \<and> \<not> is_tombstoned st (q_subject q)) st))"

definition select_from :: "read_world \<Rightarrow> string \<Rightarrow> 'r list \<Rightarrow> app_error + 'r list" where
  "select_from w iri rows = (if rw_valid_iri w iri then Inr rows else Inl (internal (cx_query_error w)))"

definition described_props :: "read_world \<Rightarrow> store \<Rightarrow> string \<Rightarrow> app_error + props" where
  "described_props w st iri = (case described w st iri of Inl e \<Rightarrow> Inl (internal e) | Inr qs \<Rightarrow> Inr (from_quads iri qs))"

definition release_date :: "release_view \<Rightarrow> string" where
  "release_date r = text_or [] (rv_date_published r)"

text \<open>\<open>sort_by\<close> with the arguments swapped: descending, and stable.\<close>

definition newest_first :: "release_view list \<Rightarrow> release_view list" where
  "newest_first rs = rev (sort_key (\<lambda>r. (release_date r, rv_iri r)) (rev rs))"

definition list_releases :: "read_world \<Rightarrow> store \<Rightarrow> string \<Rightarrow> app_error + release_view list" where
  "list_releases w st sw =
     and_then (select_from w sw (release_rows st sw)) (\<lambda>rows.
     and_then (collect_results (map (\<lambda>i. and_then (described_props w st i) (\<lambda>p. Inr (release_from_props w st i p)))
                 (List.map_filter iri_of rows))) (\<lambda>rs. Inr (newest_first rs)))"

record software_counts =
  sc_instances :: nat
  sc_runs_30d :: nat

definition deployments_of :: "store \<Rightarrow> string \<Rightarrow> node list" where
  "deployments_of st sw =
     dedup (map q_subject (filter (\<lambda>q. q_predicate q = TAR @ ''instanceOf'' \<and> q_object q = Node (NamedNode sw) \<and>
        \<not> is_tombstoned st (q_subject q)) st))"

definition quad_in :: "store \<Rightarrow> string \<Rightarrow> node \<Rightarrow> string \<Rightarrow> rdf_term list" where
  "quad_in st g n p = map q_object (filter (\<lambda>q. q_graph q = g \<and> q_subject q = n \<and> q_predicate q = p) st)"

text \<open>The nodes a run acts for: \<open>prov:wasAssociatedWith|tar:atInstance\<close>, in one graph.\<close>

definition run_agents :: "store \<Rightarrow> string \<Rightarrow> node \<Rightarrow> rdf_term list" where
  "run_agents st g run = quad_in st g run (PROV @ ''wasAssociatedWith'') @ quad_in st g run (TAR @ ''atInstance'')"

definition is_activity :: "store \<Rightarrow> string \<Rightarrow> node \<Rightarrow> bool" where
  "is_activity st g run \<longleftrightarrow> Node (NamedNode TYPE_ACTIVITY) \<in> set (quad_in st g run rdf_type)"

definition started_recently :: "read_world \<Rightarrow> store \<Rightarrow> string \<Rightarrow> node \<Rightarrow> bool" where
  "started_recently w st g run \<longleftrightarrow> list_ex (cx_recent w) (quad_in st g run (PROV @ ''startedAtTime''))"

definition recent_runs_of :: "read_world \<Rightarrow> store \<Rightarrow> string \<Rightarrow> node list" where
  "recent_runs_of w st sw =
     dedup (List.map_filter (\<lambda>q. if q_predicate q \<in> {PROV @ ''wasAssociatedWith'', TAR @ ''atInstance''} \<and>
           is_activity st (q_graph q) (q_subject q) \<and> started_recently w st (q_graph q) (q_subject q) \<and>
           (case q_object q of Node i \<Rightarrow> Node (NamedNode sw) \<in> set (quad_in st (q_graph q) i (TAR @ ''instanceOf'')) | _ \<Rightarrow> False)
        then Some (q_subject q) else None) st)"

text \<open>An aggregate query has a group, and so an entry, only where something was counted.\<close>

definition software_counts_of :: "read_world \<Rightarrow> store \<Rightarrow> string option \<Rightarrow> app_error + (string \<Rightarrow> software_counts option)" where
  "software_counts_of w st only =
     (if (case only of Some s \<Rightarrow> \<not> rw_valid_iri w s | None \<Rightarrow> False) then Inl (internal (cx_query_error w))
      else Inr (\<lambda>sw.
        if (case only of Some s \<Rightarrow> sw \<noteq> s | None \<Rightarrow> False) then None
        else if deployments_of st sw = [] \<and> recent_runs_of w st sw = [] then None
        else Some \<lparr>sc_instances = length (deployments_of st sw), sc_runs_30d = length (recent_runs_of w st sw)\<rparr>))"

definition counted :: "software_counts option \<Rightarrow> software_view \<Rightarrow> software_view" where
  "counted c s =
     (case c of None \<Rightarrow> s | Some k \<Rightarrow> s\<lparr>sw_instance_count := sc_instances k, sw_runs_30d := sc_runs_30d k\<rparr>)"

definition load_software :: "read_world \<Rightarrow> store \<Rightarrow> string \<Rightarrow> app_error + software_view" where
  "load_software w st iri =
     (case described w st iri of
        Inl e \<Rightarrow> Inl (internal e)
      | Inr [] \<Rightarrow> Inl (not_found (''no software at '' @ iri))
      | Inr qs \<Rightarrow>
          (let p = from_quads iri qs in
           if \<not> has_type p TYPE_SOFTWARE \<and> \<not> has_type p TYPE_SOURCE
           then Inl (not_found (iri @ '' is not a Software record''))
           else
             and_then (list_releases w st iri) (\<lambda>rs.
             and_then (software_counts_of w st (Some iri)) (\<lambda>counts.
               Inr (counted (counts iri)
                 ((software_from_props w st iri p)
                    \<lparr>sw_latest_release := (case rs of [] \<Rightarrow> None | r # _ \<Rightarrow> Some r), sw_release_count := length rs\<rparr>))))))"

end
