(* ===== verification/Serde.thy ===== *)
theory Serde
  imports Json
begin

text \<open>
  Decoding JSON values into the input shapes of \<open>src/model.rs\<close> the way the derived \<open>serde\<close> code does,
  and the merge that a \<open>PATCH\<close> makes of a stored record and a request body
  (\<open>merge_json\<close> of \<open>src/api/instances.rs\<close>). The members of an object have different names. A decoder
  that refuses a value gives no reason: its text is serde's.
\<close>

definition dec_text :: "json \<Rightarrow> string option" where
  "dec_text j = as_text j"

definition dec_bool :: "json \<Rightarrow> bool option" where
  "dec_bool j = (case j of JBool b \<Rightarrow> Some b | _ \<Rightarrow> None)"

definition dec_i64 :: "json \<Rightarrow> int option" where
  "dec_i64 j = (case j of JInt i \<Rightarrow> if - (2 ^ 63) \<le> i \<and> i < 2 ^ 63 then Some i else None | _ \<Rightarrow> None)"

definition dec_option :: "(json \<Rightarrow> 'a option) \<Rightarrow> json \<Rightarrow> 'a option option" where
  "dec_option d j = (if j = JNull then Some None else map_option Some (d j))"

definition dec_list :: "(json \<Rightarrow> 'a option) \<Rightarrow> json \<Rightarrow> 'a list option" where
  "dec_list d j = (case j of JArray xs \<Rightarrow> those (map d xs) | _ \<Rightarrow> None)"

text \<open>
  A derived struct is read from an object by name, or from an array by position. In an array every field up
  to the last one without a default must be there, and nothing may follow the last field.
\<close>

definition struct_fields :: "string list \<Rightarrow> nat \<Rightarrow> json \<Rightarrow> (string \<Rightarrow> json option) option" where
  "struct_fields names least j =
     (case j of
        JObject ms \<Rightarrow> Some (map_of ms)
      | JArray xs \<Rightarrow> if least \<le> length xs \<and> length xs \<le> length names then Some (map_of (zip names xs)) else None
      | _ \<Rightarrow> None)"

definition required :: "(json \<Rightarrow> 'a option) \<Rightarrow> string \<Rightarrow> (string \<Rightarrow> json option) \<Rightarrow> 'a option" where
  "required d k fs = (case fs k of None \<Rightarrow> None | Some j \<Rightarrow> d j)"

definition defaulted :: "'a \<Rightarrow> (json \<Rightarrow> 'a option) \<Rightarrow> string \<Rightarrow> (string \<Rightarrow> json option) \<Rightarrow> 'a option" where
  "defaulted x d k fs = (case fs k of None \<Rightarrow> Some x | Some j \<Rightarrow> d j)"

abbreviation opt_field :: "(json \<Rightarrow> 'a option) \<Rightarrow> string \<Rightarrow> (string \<Rightarrow> json option) \<Rightarrow> 'a option option" where
  "opt_field d k fs \<equiv> defaulted None (dec_option d) k fs"

abbreviation text_field :: "string \<Rightarrow> (string \<Rightarrow> json option) \<Rightarrow> string option option" where
  "text_field k fs \<equiv> opt_field dec_text k fs"

abbreviation texts_field :: "string \<Rightarrow> (string \<Rightarrow> json option) \<Rightarrow> string list option" where
  "texts_field k fs \<equiv> defaulted [] (dec_list dec_text) k fs"

text \<open>Field decoders one after the other; the first refusal ends the decoding.\<close>

definition field :: "'a option \<Rightarrow> ('a \<Rightarrow> 'b option) \<Rightarrow> 'b option" where
  "field x f = Option.bind x f"

lemma field_Some [simp]: "field (Some x) f = f x" "field None f = None"
  by (simp_all add: field_def)

lemma field_eq_Some: "field x f = Some y \<longleftrightarrow> (\<exists>v. x = Some v \<and> f v = Some y)"
  by (cases x) (auto simp: field_def)

lemma fieldE: "field x f = Some y \<Longrightarrow> (\<And>v. x = Some v \<Longrightarrow> f v = Some y \<Longrightarrow> thesis) \<Longrightarrow> thesis"
  by (auto simp: field_eq_Some)

lemma dec_text_JText [simp]: "dec_text (JText s) = Some s" "dec_text JNull = None"
  by (simp_all add: dec_text_def as_text_def)

lemma dec_option_opt_text [simp]: "dec_option dec_text (opt_text v) = Some v"
  by (cases v) (simp_all add: dec_option_def opt_text_def)

lemma those_map_Some [simp]: "those (map (\<lambda>x. Some (f x)) xs) = Some (map f xs)"
  by (induction xs) auto

lemma dec_texts [simp]: "dec_list dec_text (JArray (map JText xs)) = Some xs"
  by (simp add: dec_list_def comp_def)

section \<open>Merging\<close>

definition member_or_null :: "string \<Rightarrow> (string \<times> json) list \<Rightarrow> json" where
  "member_or_null k ms = (case map_of ms k of Some v \<Rightarrow> v | None \<Rightarrow> JNull)"

function (sequential) merge_json :: "json \<Rightarrow> json \<Rightarrow> json"
  and merge_members :: "(string \<times> json) list \<Rightarrow> (string \<times> json) list \<Rightarrow> (string \<times> json) list" where
  "merge_json (JObject b) (JObject p) = JObject (merge_members b p)"
| "merge_json b p = p"
| "merge_members b [] = b"
| "merge_members b ((k, JObject o') # ps) = merge_members (members_insert k (merge_json (member_or_null k b) (JObject o')) b) ps"
| "merge_members b ((k, v) # ps) = merge_members (members_insert k v b) ps"
  by pat_completeness auto

termination
  by (relation "measure (\<lambda>x. case x of Inl (b, p) \<Rightarrow> size p | Inr (b, ps) \<Rightarrow> size_list (\<lambda>(k, v). Suc (size v)) ps)")
     (auto simp: size_prod_def)

text \<open>The base of a merge is read with its first member of a name, so it is kept without doubles.\<close>

lemma map_of_members_insert [simp]: "map_of (members_insert k' v ms) k = (if k = k' then Some v else map_of ms k)"
  by (induction ms) (auto simp: members_insert_def)

text \<open>What a merged record holds under a name: the patch's value, or the stored one where the patch is silent.\<close>

definition merged_member :: "(string \<times> json) list \<Rightarrow> (string \<times> json) list \<Rightarrow> string \<Rightarrow> json option" where
  "merged_member b p k =
     (case map_of p k of
        None \<Rightarrow> map_of b k
      | Some (JObject q) \<Rightarrow> Some (merge_json (member_or_null k b) (JObject q))
      | Some v \<Rightarrow> Some v)"

lemma merged_member_silent: "map_of p k = None \<Longrightarrow> merged_member b p k = map_of b k"
  by (simp add: merged_member_def)

lemma map_of_merge_members:
  assumes "distinct (map fst p)"
  shows "map_of (merge_members b p) k = merged_member b p k"
  using assms
proof (induction p arbitrary: b)
  case Nil
  show ?case by (simp add: merged_member_def)
next
  case (Cons m ps)
  obtain k' v where m: "m = (k', v)" by (cases m)
  with Cons.prems have new: "k' \<notin> fst ` set ps" and d: "distinct (map fst ps)" by auto
  then have "map_of ps k' = None" by (simp add: map_of_eq_None_iff)
  with Cons.IH [OF d] m show ?case
    by (cases v) (auto simp: merged_member_def member_or_null_def split: option.split json.split)
qed

lemma merge_nothing [simp]: "merge_json (JObject b) (JObject []) = JObject b"
  by simp

end
