(* ===== verification/Forge.thy ===== *)
theory Forge
  imports Software_Records Peers Serde
begin

text \<open>
  Keeping a software record in step with its repository (\<open>src/domain/forge.rs\<close>): what a
  repository string names, the sync that copies only the managed fields, and the poller of the
  liveness numbers. The answers of GitHub and the clock are arguments.
\<close>

section \<open>Which repository\<close>

definition GITHUB_PREFIXES :: "string list" where
  "GITHUB_PREFIXES = [''https://github.com/'', ''http://github.com/'', ''https://www.github.com/'', ''http://www.github.com/'']"

text \<open>\<open>trim_end_matches\<close> with a word removes it as often as it is there.\<close>

definition trim_end_word :: "string \<Rightarrow> string \<Rightarrow> string" where
  "trim_end_word p s = rev (strip_words [rev p] (rev s))"

definition github_path :: "string \<Rightarrow> string option" where
  "github_path s =
     first_some (find_map (\<lambda>p. strip_prefix p s) GITHUB_PREFIXES) (if contains_str s ''://'' then None else Some s)"

definition before_query :: "string \<Rightarrow> string" where
  "before_query s = takeWhile (\<lambda>c. c \<noteq> CHR ''?'' \<and> c \<noteq> CHR ''#'') s"

definition github_repo :: "string \<Rightarrow> string option" where
  "github_repo s =
     (case github_path (trim s) of
        None \<Rightarrow> None
      | Some path \<Rightarrow>
          (case filter (\<lambda>p. p \<noteq> []) (split_on (CHR ''/'') (before_query path)) of
             own # nm # _ \<Rightarrow>
               (let name = trim_end_word ''.git'' nm in
                if CHR ''.'' \<in> set own \<or> name = [] then None else Some (own @ ''/'' @ name))
           | _ \<Rightarrow> None))"

definition repo_of :: "string option \<Rightarrow> string option \<Rightarrow> string option" where
  "repo_of sync_repo code_repository =
     (case sync_repo of Some s \<Rightarrow> github_repo s | None \<Rightarrow> Option.bind code_repository github_repo)"

definition check_fields :: "string list \<Rightarrow> app_error + unit" where
  "check_fields names =
     (let unknown = filter (\<lambda>f. f \<notin> set SYNCABLE_FIELDS) names in
      if unknown \<noteq> [] then
        Inl (bad_request (''cannot sync '' @ join '', '' unknown @ '' from a repository; syncable fields are '' @ join '', '' SYNCABLE_FIELDS))
      else Inr ())"

definition token_for :: "(string \<Rightarrow> string option) \<Rightarrow> string option \<Rightarrow> string option" where
  "token_for env_var brokered =
     first_some brokered (case env_var ''TAR_FORGE_TOKEN'' of Some t \<Rightarrow> if trim t \<noteq> [] then Some t else None | None \<Rightarrow> None)"

section \<open>What GitHub answers\<close>

record gh_repo =
  gh_description :: "string option"
  gh_homepage :: "string option"
  gh_topics :: "string list"
  gh_archived :: bool
  gh_default_branch :: "string option"
  gh_license :: "string option option"
  gh_private :: bool
  gh_stars :: "int option"
  gh_forks :: "int option"
  gh_pushed_at :: "string option"

definition repo_license :: "json \<Rightarrow> string option option" where
  "repo_license j = Option.bind (struct_fields [''spdx_id''] 0 j) (text_field ''spdx_id'')"

definition repo_from_json :: "json \<Rightarrow> gh_repo option" where
  "repo_from_json j =
     field (struct_fields [''description'', ''homepage'', ''topics'', ''archived'', ''default_branch'', ''license'', ''private'',
                           ''stargazers_count'', ''forks_count'', ''pushed_at''] 0 j) (\<lambda>fs.
     field (text_field ''description'' fs) (\<lambda>description.
     field (text_field ''homepage'' fs) (\<lambda>homepage.
     field (texts_field ''topics'' fs) (\<lambda>topics.
     field (defaulted False dec_bool ''archived'' fs) (\<lambda>archived.
     field (text_field ''default_branch'' fs) (\<lambda>branch.
     field (opt_field repo_license ''license'' fs) (\<lambda>license.
     field (defaulted False dec_bool ''private'' fs) (\<lambda>priv.
     field (opt_field dec_i64 ''stargazers_count'' fs) (\<lambda>stars.
     field (opt_field dec_i64 ''forks_count'' fs) (\<lambda>forks.
     field (text_field ''pushed_at'' fs) (\<lambda>pushed.
       Some \<lparr>gh_description = description, gh_homepage = homepage, gh_topics = topics, gh_archived = archived,
             gh_default_branch = branch, gh_license = license, gh_private = priv, gh_stars = stars, gh_forks = forks,
             gh_pushed_at = pushed\<rparr>)))))))))))"

record gh_asset =
  ga_name :: string
  ga_url :: string
  ga_size :: "int option"

record gh_release =
  gr_tag_name :: "string option"
  gr_published_at :: "string option"
  gr_html_url :: "string option"
  gr_draft :: bool
  gr_prerelease :: bool
  gr_assets :: "gh_asset list"

definition asset_from_json :: "json \<Rightarrow> gh_asset option" where
  "asset_from_json j =
     field (struct_fields [''name'', ''browser_download_url'', ''size''] 2 j) (\<lambda>fs.
     field (required dec_text ''name'' fs) (\<lambda>name.
     field (required dec_text ''browser_download_url'' fs) (\<lambda>url.
     field (opt_field dec_i64 ''size'' fs) (\<lambda>size. Some \<lparr>ga_name = name, ga_url = url, ga_size = size\<rparr>))))"

definition release_from_json :: "json \<Rightarrow> gh_release option" where
  "release_from_json j =
     field (struct_fields [''tag_name'', ''published_at'', ''html_url'', ''draft'', ''prerelease'', ''assets''] 0 j) (\<lambda>fs.
     field (text_field ''tag_name'' fs) (\<lambda>tag.
     field (text_field ''published_at'' fs) (\<lambda>published.
     field (text_field ''html_url'' fs) (\<lambda>html.
     field (defaulted False dec_bool ''draft'' fs) (\<lambda>draft.
     field (defaulted False dec_bool ''prerelease'' fs) (\<lambda>pre.
     field (defaulted [] (dec_list asset_from_json) ''assets'' fs) (\<lambda>assets.
       Some \<lparr>gr_tag_name = tag, gr_published_at = published, gr_html_url = html, gr_draft = draft, gr_prerelease = pre,
             gr_assets = assets\<rparr>)))))))"

definition readme_from_json :: "json \<Rightarrow> string option option" where
  "readme_from_json j = Option.bind (struct_fields [''download_url''] 0 j) (text_field ''download_url'')"

datatype http_reply = No_Reply string | Reply nat "json option" "string option"

text \<open>
  A request to the forge with the credential it carries. A reply holds its status, the body read
  as JSON and as text, where that can be done. The texts of a status, of the decoder's refusal and of
  Rust's debug form follow.
\<close>

record forge_world =
  fg_get :: "string \<Rightarrow> string option \<Rightarrow> http_reply"
  fg_status_text :: "nat \<Rightarrow> string"
  fg_unreadable :: "string \<Rightarrow> string"
  fg_debug :: "string \<Rightarrow> string"

definition API :: string where "API = ''https://api.github.com''"

definition forge_get :: "forge_world \<Rightarrow> (json \<Rightarrow> 'a option) \<Rightarrow> string \<Rightarrow> string option \<Rightarrow> string + 'a option" where
  "forge_get w d url token =
     (case fg_get w url token of
        No_Reply e \<Rightarrow> Inl (url @ '': '' @ e)
      | Reply code body _ \<Rightarrow>
          if code = 200 then
            (case Option.bind body d of
               Some x \<Rightarrow> Inr (Some x) | None \<Rightarrow> Inl (url @ '': unreadable response: '' @ fg_unreadable w url))
          else if code = 404 then Inr None
          else if code = 401 \<or> code = 403 then
            Inl (url @ '': GitHub refused the request ('' @ fg_status_text w code
                 @ ''). A private repository needs a token '' @ [CHR 0xE2, CHR 0x80, CHR 0x94] @ '' sign in with GitHub, or set TAR_FORGE_TOKEN.'')
          else Inl (url @ '': GitHub returned '' @ show_nat code))"

section \<open>Synchronising\<close>

record sync_outcome =
  sn_changed :: "string list"
  sn_releases :: "release_in list"
  sn_skipped :: "string list"

type_synonym syncing = "software_in \<times> sync_outcome"

definition managed :: "string list \<Rightarrow> string \<Rightarrow> bool" where
  "managed names n \<longleftrightarrow> n \<in> set names"

definition changed :: "string \<Rightarrow> sync_outcome \<Rightarrow> sync_outcome" where
  "changed n out = out\<lparr>sn_changed := sn_changed out @ [n]\<rparr>"

definition skipped :: "string \<Rightarrow> sync_outcome \<Rightarrow> sync_outcome" where
  "skipped why out = out\<lparr>sn_skipped := sn_skipped out @ [why]\<rparr>"

definition not_blank :: "string option \<Rightarrow> string option" where
  "not_blank v = (case v of Some s \<Rightarrow> if trim s \<noteq> [] then Some s else None | None \<Rightarrow> None)"

text \<open>The closure \<open>set\<close>: a blank value never replaces, and an equal one is no change.\<close>

definition set_field :: "string \<Rightarrow> string option \<Rightarrow> string option \<Rightarrow> (string option \<Rightarrow> software_in) \<Rightarrow> syncing \<Rightarrow> syncing" where
  "set_field n current next put s =
     (if not_blank next \<noteq> None \<and> not_blank next \<noteq> current then (put (not_blank next), changed n (snd s)) else s)"

definition sync_tagline :: "gh_repo \<Rightarrow> syncing \<Rightarrow> syncing" where
  "sync_tagline meta s =
     set_field ''tagline'' (so_tagline (fst s)) (gh_description meta) (\<lambda>v. (fst s)\<lparr>so_tagline := v\<rparr>) s"

definition sync_homepage :: "gh_repo \<Rightarrow> syncing \<Rightarrow> syncing" where
  "sync_homepage meta s =
     set_field ''homepage'' (so_homepage (fst s))
       (case gh_homepage meta of Some h \<Rightarrow> if prefix ''http'' h then Some h else None | None \<Rightarrow> None)
       (\<lambda>v. (fst s)\<lparr>so_homepage := v\<rparr>) s"

definition spdx_licence :: "gh_repo \<Rightarrow> string option" where
  "spdx_licence meta =
     (case gh_license meta of
        Some (Some i) \<Rightarrow> if i \<noteq> [] \<and> i \<noteq> ''NOASSERTION'' then Some (''https://spdx.org/licenses/'' @ i) else None
      | _ \<Rightarrow> None)"

definition sync_license :: "gh_repo \<Rightarrow> syncing \<Rightarrow> syncing" where
  "sync_license meta s =
     (let s' = (if spdx_licence meta = None then (fst s, skipped ''license (the repository declares none)'' (snd s)) else s)
      in set_field ''license'' (so_license (fst s')) (spdx_licence meta) (\<lambda>v. (fst s')\<lparr>so_license := v\<rparr>) s')"

definition merged_topics :: "string list \<Rightarrow> string list \<Rightarrow> string list" where
  "merged_topics topics keywords =
     fold (\<lambda>k out. if list_ex (\<lambda>m. eq_ignore_ascii_case m k) out then out else out @ [k]) keywords topics"

definition sync_keywords :: "gh_repo \<Rightarrow> syncing \<Rightarrow> syncing" where
  "sync_keywords meta s =
     (let m = merged_topics (gh_topics meta) (so_keywords (fst s))
      in if gh_topics meta = [] \<or> m = so_keywords (fst s) then s
         else ((fst s)\<lparr>so_keywords := m\<rparr>, changed ''keywords'' (snd s)))"

definition sync_maturity :: "gh_repo \<Rightarrow> syncing \<Rightarrow> syncing" where
  "sync_maturity meta s =
     (if gh_archived meta
      then set_field ''maturity'' (so_maturity (fst s)) (Some ''inactive'') (\<lambda>v. (fst s)\<lparr>so_maturity := v\<rparr>) s else s)"

definition default_branch :: "gh_repo \<Rightarrow> string" where
  "default_branch meta = (case gh_default_branch meta of Some b \<Rightarrow> b | None \<Rightarrow> ''main'')"

definition raw_base :: "string \<Rightarrow> gh_repo \<Rightarrow> string option" where
  "raw_base repo meta =
     (if gh_private meta then None
      else Some (''https://raw.githubusercontent.com/'' @ repo @ ''/'' @ default_branch meta @ ''/''))"

definition put_readme :: "string \<Rightarrow> gh_repo \<Rightarrow> string \<Rightarrow> syncing \<Rightarrow> syncing" where
  "put_readme repo meta body s =
     (let (i1, o1) = (if body \<noteq> [] \<and> so_readme (fst s) \<noteq> Some body
                      then ((fst s)\<lparr>so_readme := Some body\<rparr>, changed ''readme'' (snd s)) else s)
      in if raw_base repo meta \<noteq> None \<and> so_readme_base_url i1 \<noteq> raw_base repo meta
         then (i1\<lparr>so_readme_base_url := raw_base repo meta\<rparr>, changed ''readme_base_url'' o1)
         else if gh_private meta
         then (i1, skipped ''readme_base_url (private repository has no public raw root)'' o1)
         else (i1, o1))"

definition sync_readme :: "forge_world \<Rightarrow> string option \<Rightarrow> string \<Rightarrow> gh_repo \<Rightarrow> syncing \<Rightarrow> string + syncing" where
  "sync_readme w token repo meta s =
     and_then (forge_get w readme_from_json (API @ ''/repos/'' @ repo @ ''/readme'') token) (\<lambda>r.
       case r of
         Some (Some url) \<Rightarrow>
           (case fg_get w url token of
              Reply code _ body \<Rightarrow>
                if 200 \<le> code \<and> code < 300
                then Inr (put_readme repo meta (case body of Some b \<Rightarrow> b | None \<Rightarrow> []) s)
                else Inr (fst s, skipped ''readme (could not download it)'' (snd s))
            | No_Reply _ \<Rightarrow> Inr (fst s, skipped ''readme (could not download it)'' (snd s)))
       | _ \<Rightarrow> Inr (fst s, skipped ''readme (the repository has none)'' (snd s)))"

definition ends_with :: "string \<Rightarrow> string \<Rightarrow> bool" where
  "ends_with s e \<longleftrightarrow> suffix e s"

definition platform_of :: "string \<Rightarrow> string option" where
  "platform_of name =
     (let n = to_ascii_lowercase name in
      if ends_with n ''.exe'' \<or> ends_with n ''.msi'' \<or> contains_str n ''windows'' \<or> contains_str n ''win64'' then Some ''Windows''
      else if ends_with n ''.dmg'' \<or> contains_str n ''mac'' \<or> contains_str n ''darwin'' \<or> contains_str n ''osx'' then Some ''macOS''
      else if ends_with n ''.appimage'' \<or> ends_with n ''.deb'' \<or> ends_with n ''.rpm'' \<or> contains_str n ''linux'' then Some ''Linux''
      else None)"

definition release_of :: "string \<Rightarrow> gh_release \<Rightarrow> release_in" where
  "release_of version r =
     \<lparr>rl_version = version, rl_date_published = gr_published_at r, rl_container_image = None, rl_image_digest = None,
      rl_changelog = gr_html_url r, rl_install_command = None,
      rl_downloads = map (\<lambda>a. \<lparr>dl_url = ga_url a, dl_label = Some (ga_name a), dl_platform = platform_of (ga_name a),
                              dl_byte_size = ga_size a, dl_availability = Some ''public''\<rparr>) (gr_assets r),
      rl_capability = None\<rparr>"

text \<open>The loop over the releases; the versions seen so far are those collected.\<close>

fun collect_releases :: "gh_release list \<Rightarrow> string list \<Rightarrow> sync_outcome \<Rightarrow> sync_outcome" where
  "collect_releases [] seen out = out"
| "collect_releases (r # rs) seen out =
     (case non_empty (gr_tag_name r) of
        None \<Rightarrow> collect_releases rs seen out
      | Some tag \<Rightarrow>
          (let version = dropWhile (\<lambda>c. c = CHR ''v'') tag in
           if version \<in> set seen then collect_releases rs seen out
           else let out1 = out\<lparr>sn_releases := sn_releases out @ [release_of version r]\<rparr>
                in collect_releases rs (version # seen)
                     (if gr_prerelease r then skipped (tag @ '' is a pre-release'') out1 else out1)))"

definition sync_releases :: "forge_world \<Rightarrow> string option \<Rightarrow> string \<Rightarrow> syncing \<Rightarrow> string + syncing" where
  "sync_releases w token repo s =
     and_then (forge_get w (dec_list release_from_json) (API @ ''/repos/'' @ repo @ ''/releases?per_page=20'') token) (\<lambda>r.
       Inr (case r of
              None \<Rightarrow> s
            | Some rs \<Rightarrow> (fst s, collect_releases (filter (\<lambda>r. \<not> gr_draft r) rs) [] (snd s))))"

definition applied_if :: "bool \<Rightarrow> ('a \<Rightarrow> 'a) \<Rightarrow> 'a \<Rightarrow> 'a" where
  "applied_if b f x = (if b then f x else x)"

definition copy_fields :: "string list \<Rightarrow> gh_repo \<Rightarrow> syncing \<Rightarrow> syncing" where
  "copy_fields names meta s =
     applied_if (managed names ''maturity'') (sync_maturity meta)
       (applied_if (managed names ''keywords'') (sync_keywords meta)
         (applied_if (managed names ''license'') (sync_license meta)
           (applied_if (managed names ''homepage'') (sync_homepage meta)
             (applied_if (managed names ''tagline'') (sync_tagline meta) s))))"

definition sync_into ::
  "forge_world \<Rightarrow> string \<Rightarrow> string list \<Rightarrow> string option \<Rightarrow> software_in \<Rightarrow> string + syncing" where
  "sync_into w repo0 names token input =
     (case github_repo repo0 of
        None \<Rightarrow> Inl (fg_debug w repo0 @ '' is not an owner/name repository'')
      | Some repo \<Rightarrow>
          and_then (forge_get w repo_from_json (API @ ''/repos/'' @ repo) token) (\<lambda>m.
            case m of
              None \<Rightarrow> Inl (''no repository '' @ repo @ '', or it is private and the credential cannot see it'')
            | Some meta \<Rightarrow>
                (let s = copy_fields names meta (input, \<lparr>sn_changed = [], sn_releases = [], sn_skipped = []\<rparr>) in
                 and_then (if managed names ''readme'' then sync_readme w token repo meta s else Inr s) (\<lambda>s.
                   if managed names ''releases'' then sync_releases w token repo s else Inr s))))"

section \<open>Polling\<close>

record repo_stats =
  fs_stars :: "int option"
  fs_forks :: "int option"
  fs_pushed_at :: "string option"

definition fetch_stats :: "forge_world \<Rightarrow> string \<Rightarrow> string option \<Rightarrow> string + repo_stats" where
  "fetch_stats w repo token =
     and_then (forge_get w repo_from_json (API @ ''/repos/'' @ repo) token) (\<lambda>m.
       case m of
         None \<Rightarrow> Inl (''no repository '' @ repo @ '', or it is private and the credential cannot see it'')
       | Some meta \<Rightarrow> Inr \<lparr>fs_stars = gh_stars meta, fs_forks = gh_forks meta, fs_pushed_at = gh_pushed_at meta\<rparr>)"

text \<open>Durations are nanoseconds; a division by more than \<open>u32\<close> holds is not made.\<close>

definition pace :: "nat \<Rightarrow> nat \<Rightarrow> nat \<Rightarrow> nat" where
  "pace interval due least = (if 0 < due \<and> due < 2 ^ 32 then max (interval div due) least else least)"

text \<open>The rows of the query: a repository link and a sync repository, each if there is one.\<close>

definition target_rows :: "store \<Rightarrow> (node \<times> rdf_term option \<times> rdf_term option) list" where
  "target_rows st =
     concat (map (\<lambda>q. if q_predicate q = rdf_type \<and> q_object q = Node (NamedNode TYPE_SOFTWARE) \<and> q_graph q = G_LOCAL \<and>
                        \<not> is_tombstoned st (q_subject q)
          then concat (map (\<lambda>c. map (\<lambda>s. (q_subject q, c, s))
                 (optional (concat (map (\<lambda>n. case n of Node m \<Rightarrow> local_values st m (TAR @ ''syncRepo'') | _ \<Rightarrow> [])
                    (local_values st (q_subject q) (TAR @ ''sync''))))))
               (optional (local_values st (q_subject q) (SCHEMA @ ''codeRepository''))))
          else []) st)"

text \<open>The first repository found for each record.\<close>

definition targets :: "store \<Rightarrow> (string \<times> string) list" where
  "targets st =
     fold (\<lambda>(n, code, sync) out.
         case (iri_of n, repo_of (map_option term_value sync) (Option.bind code named)) of
           (Some iri, Some repo) \<Rightarrow> if iri \<in> fst ` set out then out else out @ [(iri, repo)]
         | _ \<Rightarrow> out) (target_rows st) []"

definition is_fresh_stat :: "int \<Rightarrow> repository_stats list \<Rightarrow> string \<times> string \<Rightarrow> bool" where
  "is_fresh_stat cutoff rows t =
     (case stats_for (fst t) rows of None \<Rightarrow> False | Some l \<Rightarrow> rs_repo l = snd t \<and> cutoff < rs_checked_at l)"

definition due_targets :: "int \<Rightarrow> repository_stats list \<Rightarrow> store \<Rightarrow> (string \<times> string) list" where
  "due_targets cutoff rows st = filter (\<lambda>t. \<not> is_fresh_stat cutoff rows t) (targets st)"

definition poll_target :: "(string \<Rightarrow> string + repo_stats) \<Rightarrow> int \<Rightarrow> string \<times> string \<Rightarrow> repository_stats list \<Rightarrow> repository_stats list" where
  "poll_target fetch now t rows =
     (case fetch (snd t) of
        Inr x \<Rightarrow> record_repository_stats now (fst t) (snd t) (fs_stars x) (fs_forks x) (fs_pushed_at x) rows
      | Inl e \<Rightarrow> record_repository_error now (fst t) (snd t) e rows)"

text \<open>The clock is read for the cutoff and again for every record, whose number is the argument.\<close>

definition poll_once ::
  "(string \<Rightarrow> string + repo_stats) \<Rightarrow> int \<Rightarrow> (nat \<Rightarrow> int) \<Rightarrow> int \<Rightarrow> store \<Rightarrow> repository_stats list \<Rightarrow> nat \<times> repository_stats list" where
  "poll_once fetch start clock interval st rows =
     (let due = due_targets (start - interval) rows st
      in (length due, fold (\<lambda>(i, t). poll_target fetch (clock i) t) (enumerate 0 due) rows))"

definition poll_sleep :: "nat \<Rightarrow> nat" where
  "poll_sleep interval = max (60 * 10 ^ 9) (min interval (3600 * 10 ^ 9))"

definition poll_floor :: "string option \<Rightarrow> nat" where
  "poll_floor token = (if token \<noteq> None then 2 * 10 ^ 9 else 120 * 10 ^ 9)"

section \<open>A sync copies the managed fields only\<close>

definition log_if :: "bool \<Rightarrow> string \<Rightarrow> string list" where
  "log_if b n = (if b then [n] else [])"

text \<open>The names of the fields in which two records differ, in the order the sync visits them.\<close>

definition differing :: "software_in \<Rightarrow> software_in \<Rightarrow> string list" where
  "differing i j =
     log_if (so_tagline j \<noteq> so_tagline i) ''tagline'' @ log_if (so_homepage j \<noteq> so_homepage i) ''homepage'' @
     log_if (so_license j \<noteq> so_license i) ''license'' @ log_if (so_keywords j \<noteq> so_keywords i) ''keywords'' @
     log_if (so_maturity j \<noteq> so_maturity i) ''maturity'' @ log_if (so_readme j \<noteq> so_readme i) ''readme'' @
     log_if (so_readme_base_url j \<noteq> so_readme_base_url i) ''readme_base_url''"

text \<open>A record with the fields a sync may set blanked out.\<close>

definition other_fields :: "software_in \<Rightarrow> software_in" where
  "other_fields i =
     i\<lparr>so_tagline := None, so_homepage := None, so_license := None, so_keywords := [], so_maturity := None,
       so_readme := None, so_readme_base_url := None\<rparr>"

lemma tagline_effect:
  "\<exists>v. fst (sync_tagline m s) = (fst s)\<lparr>so_tagline := v\<rparr> \<and>
       sn_changed (snd (sync_tagline m s)) = sn_changed (snd s) @ log_if (v \<noteq> so_tagline (fst s)) ''tagline''"
  by (auto simp: sync_tagline_def set_field_def changed_def log_if_def)

lemma homepage_effect:
  "\<exists>v. fst (sync_homepage m s) = (fst s)\<lparr>so_homepage := v\<rparr> \<and>
       sn_changed (snd (sync_homepage m s)) = sn_changed (snd s) @ log_if (v \<noteq> so_homepage (fst s)) ''homepage''"
  by (auto simp: sync_homepage_def set_field_def changed_def log_if_def)

lemma license_effect:
  "\<exists>v. fst (sync_license m s) = (fst s)\<lparr>so_license := v\<rparr> \<and>
       sn_changed (snd (sync_license m s)) = sn_changed (snd s) @ log_if (v \<noteq> so_license (fst s)) ''license''"
  by (auto simp: sync_license_def set_field_def changed_def skipped_def log_if_def Let_def)

lemma maturity_effect:
  "\<exists>v. fst (sync_maturity m s) = (fst s)\<lparr>so_maturity := v\<rparr> \<and>
       sn_changed (snd (sync_maturity m s)) = sn_changed (snd s) @ log_if (v \<noteq> so_maturity (fst s)) ''maturity''"
  by (auto simp: sync_maturity_def set_field_def changed_def log_if_def)

lemma merged_topics_keep:
  "set ts \<subseteq> set (merged_topics ts ks) \<and> (\<forall>k \<in> set ks. \<exists>m \<in> set (merged_topics ts ks). eq_ignore_ascii_case m k)"
proof (induction ks arbitrary: ts)
  case Nil
  show ?case by (simp add: merged_topics_def)
next
  case (Cons k ks)
  define ts' where "ts' = (if list_ex (\<lambda>m. eq_ignore_ascii_case m k) ts then ts else ts @ [k])"
  have step: "merged_topics ts (k # ks) = merged_topics ts' ks" by (simp add: merged_topics_def ts'_def)
  have "eq_ignore_ascii_case k k" by (simp add: eq_ignore_ascii_case_def)
  then have "set ts \<subseteq> set ts'" "\<exists>m \<in> set ts'. eq_ignore_ascii_case m k" by (auto simp: ts'_def list_ex_iff)
  with Cons.IH [of ts'] show ?case unfolding step by auto
qed

lemma keywords_effect:
  "\<exists>v. fst (sync_keywords m s) = (fst s)\<lparr>so_keywords := v\<rparr> \<and>
       sn_changed (snd (sync_keywords m s)) = sn_changed (snd s) @ log_if (v \<noteq> so_keywords (fst s)) ''keywords'' \<and>
       (\<forall>k \<in> set (so_keywords (fst s)). \<exists>x \<in> set v. eq_ignore_ascii_case x k)"
proof (cases "gh_topics m = [] \<or> merged_topics (gh_topics m) (so_keywords (fst s)) = so_keywords (fst s)")
  case True
  then show ?thesis
    by (intro exI [of _ "so_keywords (fst s)"]) (auto simp: sync_keywords_def log_if_def Let_def eq_ignore_ascii_case_def)
next
  case False
  with merged_topics_keep [of "gh_topics m" "so_keywords (fst s)"] show ?thesis
    by (intro exI [of _ "merged_topics (gh_topics m) (so_keywords (fst s))"])
      (auto simp: sync_keywords_def changed_def log_if_def Let_def)
qed

text \<open>A step that is taken only when its field is managed: otherwise the field stays, and so does the log.\<close>

lemma managed_effect:
  assumes "\<exists>v. fst (f s) = put v \<and> sn_changed (snd (f s)) = sn_changed (snd s) @ log_if (v \<noteq> c) n \<and> P v"
    and "fst s = put c" "P c"
  shows "\<exists>v. fst (applied_if b f s) = put v \<and> sn_changed (snd (applied_if b f s)) = sn_changed (snd s) @ log_if (v \<noteq> c) n
     \<and> (v \<noteq> c \<longrightarrow> b) \<and> P v"
proof (cases b)
  case True
  with assms(1) show ?thesis by (simp add: applied_if_def)
next
  case False
  with assms(2,3) show ?thesis by (intro exI [of _ c]) (simp add: applied_if_def log_if_def)
qed

lemma copy_fields_effect:
  "\<exists>t h l k m. fst (copy_fields names meta s) =
       (fst s)\<lparr>so_tagline := t, so_homepage := h, so_license := l, so_keywords := k, so_maturity := m\<rparr>
     \<and> sn_changed (snd (copy_fields names meta s)) = sn_changed (snd s) @ log_if (t \<noteq> so_tagline (fst s)) ''tagline''
          @ log_if (h \<noteq> so_homepage (fst s)) ''homepage'' @ log_if (l \<noteq> so_license (fst s)) ''license''
          @ log_if (k \<noteq> so_keywords (fst s)) ''keywords'' @ log_if (m \<noteq> so_maturity (fst s)) ''maturity''
     \<and> (t \<noteq> so_tagline (fst s) \<longrightarrow> managed names ''tagline'') \<and> (h \<noteq> so_homepage (fst s) \<longrightarrow> managed names ''homepage'')
     \<and> (l \<noteq> so_license (fst s) \<longrightarrow> managed names ''license'') \<and> (k \<noteq> so_keywords (fst s) \<longrightarrow> managed names ''keywords'')
     \<and> (m \<noteq> so_maturity (fst s) \<longrightarrow> managed names ''maturity'')
     \<and> (\<forall>x \<in> set (so_keywords (fst s)). \<exists>y \<in> set k. eq_ignore_ascii_case y x)"
proof -
  define s1 where "s1 = applied_if (managed names ''tagline'') (sync_tagline meta) s"
  define s2 where "s2 = applied_if (managed names ''homepage'') (sync_homepage meta) s1"
  define s3 where "s3 = applied_if (managed names ''license'') (sync_license meta) s2"
  define s4 where "s4 = applied_if (managed names ''keywords'') (sync_keywords meta) s3"
  define s5 where "s5 = applied_if (managed names ''maturity'') (sync_maturity meta) s4"
  obtain t where t: "fst s1 = (fst s)\<lparr>so_tagline := t\<rparr>"
    "sn_changed (snd s1) = sn_changed (snd s) @ log_if (t \<noteq> so_tagline (fst s)) ''tagline''" "t \<noteq> so_tagline (fst s) \<longrightarrow> managed names ''tagline''"
    using managed_effect [of "sync_tagline meta" s "\<lambda>v. (fst s)\<lparr>so_tagline := v\<rparr>" "so_tagline (fst s)" "''tagline''" "\<lambda>_. True"]
      tagline_effect [of meta s] unfolding s1_def by auto
  obtain h where h: "fst s2 = (fst s1)\<lparr>so_homepage := h\<rparr>"
    "sn_changed (snd s2) = sn_changed (snd s1) @ log_if (h \<noteq> so_homepage (fst s1)) ''homepage''" "h \<noteq> so_homepage (fst s1) \<longrightarrow> managed names ''homepage''"
    using managed_effect [of "sync_homepage meta" s1 "\<lambda>v. (fst s1)\<lparr>so_homepage := v\<rparr>" "so_homepage (fst s1)" "''homepage''" "\<lambda>_. True"]
      homepage_effect [of meta s1] unfolding s2_def by auto
  obtain l where l: "fst s3 = (fst s2)\<lparr>so_license := l\<rparr>"
    "sn_changed (snd s3) = sn_changed (snd s2) @ log_if (l \<noteq> so_license (fst s2)) ''license''" "l \<noteq> so_license (fst s2) \<longrightarrow> managed names ''license''"
    using managed_effect [of "sync_license meta" s2 "\<lambda>v. (fst s2)\<lparr>so_license := v\<rparr>" "so_license (fst s2)" "''license''" "\<lambda>_. True"]
      license_effect [of meta s2] unfolding s3_def by auto
  have kept: "\<forall>x \<in> set (so_keywords (fst s3)). \<exists>y \<in> set (so_keywords (fst s3)). eq_ignore_ascii_case y x"
    by (auto simp: eq_ignore_ascii_case_def)
  obtain k where k: "fst s4 = (fst s3)\<lparr>so_keywords := k\<rparr>"
    "sn_changed (snd s4) = sn_changed (snd s3) @ log_if (k \<noteq> so_keywords (fst s3)) ''keywords''" "k \<noteq> so_keywords (fst s3) \<longrightarrow> managed names ''keywords''"
    "\<forall>x \<in> set (so_keywords (fst s3)). \<exists>y \<in> set k. eq_ignore_ascii_case y x"
    using managed_effect [of "sync_keywords meta" s3 "\<lambda>v. (fst s3)\<lparr>so_keywords := v\<rparr>" "so_keywords (fst s3)" "''keywords''",
        OF keywords_effect _ kept, of "managed names ''keywords''"] unfolding s4_def [symmetric] by auto
  obtain m where m: "fst s5 = (fst s4)\<lparr>so_maturity := m\<rparr>"
    "sn_changed (snd s5) = sn_changed (snd s4) @ log_if (m \<noteq> so_maturity (fst s4)) ''maturity''" "m \<noteq> so_maturity (fst s4) \<longrightarrow> managed names ''maturity''"
    using managed_effect [of "sync_maturity meta" s4 "\<lambda>v. (fst s4)\<lparr>so_maturity := v\<rparr>" "so_maturity (fst s4)" "''maturity''" "\<lambda>_. True"]
      maturity_effect [of meta s4] unfolding s5_def by auto
  have "copy_fields names meta s = s5" by (simp add: copy_fields_def s1_def s2_def s3_def s4_def s5_def)
  then show ?thesis using t h l k m
    by (intro exI [of _ t] exI [of _ h] exI [of _ l] exI [of _ k] exI [of _ m]) simp
qed

lemma put_readme_effect:
  "\<exists>r b. fst (put_readme repo meta body s) = (fst s)\<lparr>so_readme := r, so_readme_base_url := b\<rparr> \<and>
     sn_changed (snd (put_readme repo meta body s)) =
       sn_changed (snd s) @ log_if (r \<noteq> so_readme (fst s)) ''readme'' @ log_if (b \<noteq> so_readme_base_url (fst s)) ''readme_base_url''"
  by (rule exI [of _ "if body \<noteq> [] \<and> so_readme (fst s) \<noteq> Some body then Some body else so_readme (fst s)"],
      rule exI [of _ "if raw_base repo meta \<noteq> None \<and> so_readme_base_url (fst s) \<noteq> raw_base repo meta
                      then raw_base repo meta else so_readme_base_url (fst s)"])
    (simp add: put_readme_def changed_def skipped_def log_if_def case_prod_beta)

lemma sync_readme_effect:
  assumes "sync_readme w token repo meta s = Inr s'"
  shows "\<exists>r b. fst s' = (fst s)\<lparr>so_readme := r, so_readme_base_url := b\<rparr> \<and>
     sn_changed (snd s') =
       sn_changed (snd s) @ log_if (r \<noteq> so_readme (fst s)) ''readme'' @ log_if (b \<noteq> so_readme_base_url (fst s)) ''readme_base_url''"
proof -
  from assms consider why where "s' = (fst s, skipped why (snd s))" | body where "s' = put_readme repo meta body s"
    by (auto simp: sync_readme_def and_then_def split: sum.splits option.splits http_reply.splits if_splits)
  then show ?thesis
  proof cases
    case 1
    then show ?thesis by (intro exI [of _ "so_readme (fst s)"] exI [of _ "so_readme_base_url (fst s)"]) (simp add: skipped_def log_if_def)
  qed (use put_readme_effect in blast)
qed

lemma collect_releases_log: "sn_changed (collect_releases rs seen out) = sn_changed out"
  by (induction rs seen out rule: collect_releases.induct) (auto simp: skipped_def Let_def split: option.split)

lemma sync_releases_effect:
  assumes "sync_releases w token repo s = Inr s'" shows "fst s' = fst s \<and> sn_changed (snd s') = sn_changed (snd s)"
  using assms by (auto simp: sync_releases_def and_then_def collect_releases_log split: sum.splits option.splits)

text \<open>
  C20. A sync sets nothing but the managed fields (and the base of the readme's links, with a managed
  readme); its log names exactly the fields in which the record now differs, and every keyword a curator
  wrote is still there. So the description and the image, which may be named as managed, are never
  brought in step.
\<close>

theorem sync_sets_managed_fields_only:
  assumes "sync_into w repo names token input = Inr (j, out)"
  shows "other_fields j = other_fields input \<and> sn_changed out = differing input j
     \<and> set (differing input j) \<subseteq> set names \<union> (if managed names ''readme'' then {''readme_base_url''} else {})
     \<and> (\<forall>x \<in> set (so_keywords input). \<exists>y \<in> set (so_keywords j). eq_ignore_ascii_case y x)
     \<and> so_description j = so_description input \<and> so_image j = so_image input"
proof -
  from assms obtain gh meta where gh: "github_repo repo = Some gh"
    and meta: "forge_get w repo_from_json (API @ ''/repos/'' @ gh) token = Inr (Some meta)"
    by (auto simp: sync_into_def and_then_eq_Inr split: option.splits)
  define s where s: "s = copy_fields names meta (input, \<lparr>sn_changed = [], sn_releases = [], sn_skipped = []\<rparr>)"
  have rest: "and_then (if managed names ''readme'' then sync_readme w token gh meta s else Inr s)
        (\<lambda>s. if managed names ''releases'' then sync_releases w token gh s else Inr s) = Inr (j, out)"
    using assms meta by (cases "managed names ''releases''") (simp_all add: sync_into_def gh s Let_def split: if_splits)
  obtain t h l k m where c: "fst s = input\<lparr>so_tagline := t, so_homepage := h, so_license := l, so_keywords := k, so_maturity := m\<rparr>"
    "sn_changed (snd s) = log_if (t \<noteq> so_tagline input) ''tagline'' @ log_if (h \<noteq> so_homepage input) ''homepage''
       @ log_if (l \<noteq> so_license input) ''license'' @ log_if (k \<noteq> so_keywords input) ''keywords'' @ log_if (m \<noteq> so_maturity input) ''maturity''"
    "t \<noteq> so_tagline input \<longrightarrow> managed names ''tagline''" "h \<noteq> so_homepage input \<longrightarrow> managed names ''homepage''"
    "l \<noteq> so_license input \<longrightarrow> managed names ''license''" "k \<noteq> so_keywords input \<longrightarrow> managed names ''keywords''"
    "m \<noteq> so_maturity input \<longrightarrow> managed names ''maturity''"
    "\<forall>x \<in> set (so_keywords input). \<exists>y \<in> set k. eq_ignore_ascii_case y x"
    using copy_fields_effect [of names meta "(input, \<lparr>sn_changed = [], sn_releases = [], sn_skipped = []\<rparr>)", folded s,
        unfolded fst_conv snd_conv sync_outcome.select_convs append_Nil] by (elim exE conjE) (rule that)
  from rest obtain s' where s': "(if managed names ''readme'' then sync_readme w token gh meta s else Inr s) = Inr s'"
    and last: "(if managed names ''releases'' then sync_releases w token gh s' else Inr s') = Inr (j, out)"
    by (auto simp: and_then_eq_Inr)
  have "\<exists>r b. fst s' = (fst s)\<lparr>so_readme := r, so_readme_base_url := b\<rparr> \<and> sn_changed (snd s') =
       sn_changed (snd s) @ log_if (r \<noteq> so_readme (fst s)) ''readme'' @ log_if (b \<noteq> so_readme_base_url (fst s)) ''readme_base_url''
     \<and> (r \<noteq> so_readme (fst s) \<or> b \<noteq> so_readme_base_url (fst s) \<longrightarrow> managed names ''readme'')"
  proof (cases "managed names ''readme''")
    case True
    with s' sync_readme_effect [of w token gh meta s s'] show ?thesis by auto
  next
    case False
    with s' show ?thesis by (intro exI [of _ "so_readme (fst s)"] exI [of _ "so_readme_base_url (fst s)"]) (simp add: log_if_def)
  qed
  then obtain r b where readme: "fst s' = (fst s)\<lparr>so_readme := r, so_readme_base_url := b\<rparr>" "sn_changed (snd s') =
       sn_changed (snd s) @ log_if (r \<noteq> so_readme (fst s)) ''readme'' @ log_if (b \<noteq> so_readme_base_url (fst s)) ''readme_base_url''"
    "r \<noteq> so_readme (fst s) \<or> b \<noteq> so_readme_base_url (fst s) \<longrightarrow> managed names ''readme''" by blast
  have "fst s' = j \<and> sn_changed (snd s') = sn_changed out"
    using last sync_releases_effect [of w token gh s' "(j, out)"] by (auto split: if_splits)
  with readme c(1,2) have j: "j = input\<lparr>so_tagline := t, so_homepage := h, so_license := l, so_keywords := k, so_maturity := m,
      so_readme := r, so_readme_base_url := b\<rparr>" and log: "sn_changed out = differing input j"
    by (simp_all add: differing_def)
  have "set (differing input j) \<subseteq> set names \<union> (if managed names ''readme'' then {''readme_base_url''} else {})"
    using c(3-7) readme(3) by (auto simp: differing_def log_if_def j managed_def c(1))
  moreover have "other_fields j = other_fields input" by (simp add: other_fields_def j)
  ultimately show ?thesis using log c(8) by (simp add: j)
qed

definition demo_software :: software_in where
  "demo_software =
     \<lparr>so_name = ''Tool'', so_tagline = Some ''old'', so_description = Some ''long'', so_homepage = None, so_code_repository = None,
      so_documentation = None, so_download_url = None, so_image = None, so_screenshots = [], so_readme = None,
      so_readme_base_url = None, so_api_docs = [], so_registration_clients = [], so_registration_issuer = None, so_license = None,
      so_kinds = [''cli''], so_kind = None, so_maturity = None, so_deployable = None, so_topics = [], so_keywords = [''RDF''],
      so_publisher = None, so_contact = None, so_publications = [], so_capability = None, so_sync = None\<rparr>"

definition demo_forge :: forge_world where
  "demo_forge =
     \<lparr>fg_get = (\<lambda>url _. Reply 200 (Some (JObject [(''description'', JText ''new''), (''homepage'', JText ''https://t.org''),
          (''topics'', JArray [JText ''bio''])])) None),
      fg_status_text = show_nat, fg_unreadable = (\<lambda>_. []), fg_debug = (\<lambda>s. s)\<rparr>"

theorem sync_sets_managed_fields_only_witness:
  "\<exists>j out. sync_into demo_forge ''https://github.com/a/b'' [''tagline'', ''keywords'', ''description''] None demo_software = Inr (j, out)
     \<and> so_description j = Some ''long'' \<and> sn_changed out = differing demo_software j \<and> so_tagline j = Some ''new''
     \<and> so_homepage j = None"
proof -
  have "(case sync_into demo_forge ''https://github.com/a/b'' [''tagline'', ''keywords'', ''description''] None demo_software of
      Inr (j, out) \<Rightarrow> so_tagline j = Some ''new'' \<and> so_homepage j = None | Inl e \<Rightarrow> False)" by code_simp
  then obtain j out where j: "sync_into demo_forge ''https://github.com/a/b'' [''tagline'', ''keywords'', ''description''] None demo_software = Inr (j, out)"
    "so_tagline j = Some ''new''" "so_homepage j = None" by (auto split: sum.splits)
  moreover have "so_description demo_software = Some ''long''" by (simp add: demo_software_def)
  ultimately show ?thesis using sync_sets_managed_fields_only [OF j(1)] by auto
qed

section \<open>A record polled is not due again until the interval has passed\<close>

lemma stats_polled:
  "\<exists>l. stats_for (fst t) (poll_target fetch now t rows) = Some l \<and> rs_repo l = snd t \<and> rs_checked_at l = now"
proof (cases "fetch (snd t)")
  case (Inl e)
  show ?thesis
  proof (cases "stats_for (fst t) rows")
    case None
    then have "\<not> list_ex (\<lambda>r. rs_software_iri r = fst t) rows" by (auto simp: stats_for_def find_None_iff list_ex_iff)
    with Inl None show ?thesis by (simp add: poll_target_def record_repository_error_def stats_for_def find_append_new)
  next
    case (Some l)
    then have "list_ex (\<lambda>r. rs_software_iri r = fst t) rows" "rs_software_iri l = fst t"
      by (auto simp: stats_for_def list_ex_iff dest: find_SomeD)
    with Inl Some show ?thesis
      by (simp add: poll_target_def record_repository_error_def stats_for_def find_update_where Let_def)
  qed
next
  case (Inr x)
  have "find (\<lambda>r. rs_software_iri r = fst t) (delete_where (\<lambda>r. rs_software_iri r = fst t) rows) = None"
    by (auto simp: find_None_iff delete_where_def)
  with Inr show ?thesis by (simp add: poll_target_def record_repository_stats_def stats_for_def find_append_new)
qed

lemma find_append_other: "\<not> P y \<Longrightarrow> find P (xs @ [y]) = find P xs"
  by (induction xs) auto

lemma find_delete_other: "(\<And>r. P r \<Longrightarrow> \<not> Q r) \<Longrightarrow> find P (delete_where Q rows) = find P rows"
  by (induction rows) (auto simp: delete_where_def)

lemma stats_not_polled:
  assumes "sw \<noteq> fst t" shows "stats_for sw (poll_target fetch now t rows) = stats_for sw rows"
proof (cases "fetch (snd t)")
  case (Inl e)
  have "find (\<lambda>r. rs_software_iri r = sw) (update_where (\<lambda>r. rs_software_iri r = fst t) f rows) = find (\<lambda>r. rs_software_iri r = sw) rows"
    if "\<And>r. rs_software_iri (f r) = rs_software_iri r" for f
    using that assms by (induction rows) (auto simp: update_where_def)
  with Inl assms show ?thesis
    by (simp add: poll_target_def record_repository_error_def stats_for_def find_append_other Let_def)
next
  case (Inr x)
  with assms show ?thesis
    by (simp add: poll_target_def record_repository_stats_def stats_for_def find_append_other find_delete_other)
qed

lemma distinct_targets: "distinct (map fst (targets st))"
proof -
  define add where "add = (\<lambda>(n, code, sync) out.
         case (iri_of n, repo_of (map_option term_value sync) (Option.bind code named)) of
           (Some iri, Some repo) \<Rightarrow> if iri \<in> fst ` set out then out else out @ [(iri, repo)]
         | _ \<Rightarrow> out)"
  have step: "distinct (map fst (add r out))" if "distinct (map fst out)" for r and out :: "(string \<times> string) list"
    using that by (cases r) (auto simp: add_def image_iff split: option.split)
  have "distinct (map fst (fold add rs out))" if "distinct (map fst out)" for rs and out :: "(string \<times> string) list"
    using that step by (induction rs arbitrary: out) auto
  then show ?thesis by (simp add: targets_def add_def)
qed

lemma stats_after_pass:
  assumes "distinct (map fst ts)"
  shows "j < length ts \<Longrightarrow> \<exists>l. stats_for (fst (ts ! j)) (fold (\<lambda>(i, t). poll_target fetch (clock i) t) (enumerate k ts) rows) = Some l
           \<and> rs_repo l = snd (ts ! j) \<and> rs_checked_at l = clock (k + j)"
    and "sw \<notin> fst ` set ts \<Longrightarrow> stats_for sw (fold (\<lambda>(i, t). poll_target fetch (clock i) t) (enumerate k ts) rows) = stats_for sw rows"
  using assms
proof (induction ts arbitrary: j k rows sw)
  case (Cons t ts)
  case 1
  show ?case
  proof (cases j)
    case 0
    have "fst t \<notin> fst ` set ts" using 1 by auto
    with Cons.IH(2) [of "fst t" "Suc k" "poll_target fetch (clock k) t rows"] 1 0 stats_polled [of t fetch "clock k" rows] show ?thesis by simp
  next
    case (Suc i)
    with Cons.IH(1) [of i "Suc k" "poll_target fetch (clock k) t rows"] 1 show ?thesis by simp
  qed
next
  case (Cons t ts)
  case 2
  with Cons.IH(2) [of sw "Suc j" "poll_target fetch (clock j) t rows"] stats_not_polled [of sw t fetch "clock j" rows] show ?case by simp
qed simp_all

text \<open>
  A record that was polled, whether the fetch succeeded or failed, is fresh until the interval after its own poll
  is over, and the numbers of every other record stay as they were. So a second pass right after
  the first has nothing to do.
\<close>

theorem polled_record_waits_the_interval:
  assumes "poll_once fetch start clock interval st rows = (n, rows')" "\<And>i. start \<le> clock i" "0 < interval"
  defines "due \<equiv> due_targets (start - interval) rows st"
  shows "n = length due
     \<and> (\<forall>i < n. \<forall>cutoff. is_fresh_stat cutoff rows' (due ! i) \<longleftrightarrow> cutoff < clock i)
     \<and> (\<forall>t \<in> set (targets st) - set due. stats_for (fst t) rows' = stats_for (fst t) rows)
     \<and> due_targets (start - interval) rows' st = []"
proof -
  have n: "n = length due" and r: "rows' = fold (\<lambda>(i, t). poll_target fetch (clock i) t) (enumerate 0 due) rows"
    using assms(1) by (simp_all add: poll_once_def due_def Let_def)
  have sub: "set due \<subseteq> set (targets st)" by (auto simp: due_def due_targets_def)
  have d: "distinct (map fst due)" using distinct_targets [of st] by (simp add: due_def due_targets_def distinct_map_filter)
  have polled: "is_fresh_stat cutoff rows' (due ! i) \<longleftrightarrow> cutoff < clock i" if "i < n" for i cutoff
    using stats_after_pass(1) [OF d, of i fetch clock 0 rows] that by (auto simp: is_fresh_stat_def r n)
  have others: "stats_for (fst t) rows' = stats_for (fst t) rows" if "t \<in> set (targets st) - set due" for t
  proof -
    have "fst t \<notin> fst ` set due"
      using that sub distinct_targets [of st] by (auto simp: distinct_map inj_on_def dest!: subsetD)
    then show ?thesis using stats_after_pass(2) [OF d] by (simp add: r)
  qed
  have "is_fresh_stat (start - interval) rows' t" if t: "t \<in> set (targets st)" for t
  proof (cases "t \<in> set due")
    case True
    then obtain i where "i < n" "t = due ! i" by (auto simp: in_set_conv_nth n)
    with polled assms(2) [of i] assms(3) show ?thesis by simp
  next
    case False
    with t have "is_fresh_stat (start - interval) rows t" by (simp add: due_def due_targets_def)
    with others [of t] t False show ?thesis by (simp add: is_fresh_stat_def)
  qed
  then have "due_targets (start - interval) rows' st = []" by (auto simp: due_targets_def filter_empty_conv)
  with n polled others show ?thesis by blast
qed

definition demo_code_store :: store where
  "demo_code_store =
     [\<lparr>q_subject = NamedNode ''https://r.org/software/1'', q_predicate = rdf_type, q_object = Node (NamedNode TYPE_SOFTWARE), q_graph = G_LOCAL\<rparr>,
      \<lparr>q_subject = NamedNode ''https://r.org/software/1'', q_predicate = SCHEMA @ ''codeRepository'',
       q_object = Node (NamedNode ''https://github.com/a/b.git''), q_graph = G_LOCAL\<rparr>]"

lemma demo_due: "due_targets (100 - 50) [] demo_code_store = [(''https://r.org/software/1'', ''a/b'')]"
  by code_simp

theorem polled_record_waits_the_interval_witness:
  "\<exists>n rows'. poll_once (\<lambda>_. Inl ''offline'') 100 (\<lambda>i. 101) 50 demo_code_store [] = (n, rows') \<and> n = 1
     \<and> due_targets (100 - 50) rows' demo_code_store = []"
proof -
  obtain n rows' where p: "poll_once (\<lambda>_. Inl ''offline'') 100 (\<lambda>i. 101) 50 demo_code_store [] = (n, rows')" by force
  have "n = 1 \<and> due_targets (100 - 50) rows' demo_code_store = []"
    using polled_record_waits_the_interval [OF p] demo_due by simp
  with p show ?thesis by blast
qed

end
