(* ===== verification/Deployments.thy ===== *)
theory Deployments
  imports Software_Records
begin

text \<open>
  Deployments, which the code calls instances: their shapes (\<open>src/model.rs\<close>), the statements they are
  stored as, the signals aggregated from runs, and how they are read back
  (\<open>src/domain/instance.rs\<close>). The aggregates \<open>MAX\<close> and \<open>SUM\<close> of SPARQL are arguments; they see an
  unbound value as \<open>None\<close>.
\<close>

section \<open>Shapes\<close>

record instance_in =
  ii_label :: string
  ii_self_registered_by :: "string option"
  ii_self_registered_issuer :: "string option"
  ii_instance_key :: "string option"
  ii_software :: "string option"
  ii_release :: "string option"
  ii_endpoint_url :: "string option"
  ii_endpoint_description :: "string option"
  ii_operator :: "agent_in option"
  ii_availability :: "string option"
  ii_jurisdiction :: "string option"
  ii_description :: "string option"
  ii_oidc_client_id :: "string option"
  ii_oidc_issuer :: "string option"
  ii_allowed_scopes :: "string list"
  ii_health_endpoint :: "string option"
  ii_capability :: "capability_in option"

record self_announce_in =
  sa_label :: "string option"
  sa_software :: "string option"
  sa_instance_key :: "string option"
  sa_release :: "string option"
  sa_version :: "string option"
  sa_endpoint_url :: "string option"
  sa_endpoint_description :: "string option"
  sa_health_endpoint :: "string option"
  sa_availability :: "string option"
  sa_jurisdiction :: "string option"
  sa_description :: "string option"
  sa_capability :: "capability_in option"

record instance_view =
  iv_iri :: string
  iv_id :: string
  iv_label :: string
  iv_description :: "string option"
  iv_software :: "string option"
  iv_software_name :: "string option"
  iv_release :: "string option"
  iv_release_version :: "string option"
  iv_outdated :: bool
  iv_latest_version :: "string option"
  iv_endpoint_url :: "string option"
  iv_endpoint_description :: "string option"
  iv_operator :: "agent_view option"
  iv_availability :: "string option"
  iv_jurisdiction :: "string option"
  iv_health :: string
  iv_health_checked_at :: "string option"
  iv_health_detail :: "string option"
  iv_health_endpoint :: "string option"
  iv_last_seen_at :: "string option"
  iv_self_registered_by :: "string option"
  iv_self_registered_issuer :: "string option"
  iv_instance_key :: "string option"
  iv_home_registry :: "string option"
  iv_capability :: "capability_view option"
  iv_last_run_at :: "string option"
  iv_runs_30d :: int
  iv_failures_30d :: int
  iv_artifact_count :: int
  iv_oidc_client_id :: "string option"
  iv_oidc_issuer :: "string option"
  iv_allowed_scopes :: "string list"
  iv_token_count :: int
  iv_origin :: origin
  iv_tombstoned :: bool

section \<open>Writes\<close>

definition TYPE_SOFTWARE_AGENT :: string where "TYPE_SOFTWARE_AGENT = ''http://www.w3.org/ns/prov#SoftwareAgent''"
definition TYPE_TAR_INSTANCE :: string where "TYPE_TAR_INSTANCE = ''https://w3id.org/tar/ns#Instance''"
definition TYPE_DATA_SERVICE :: string where "TYPE_DATA_SERVICE = ''http://www.w3.org/ns/dcat#DataService''"

definition describe_instance :: "build_world \<Rightarrow> instance_in \<Rightarrow> string \<Rightarrow> string option \<Rightarrow> rdf_node \<Rightarrow> rdf_node" where
  "describe_instance w input actor software node =
     build [add_type TYPE_SOFTWARE_AGENT, add_type TYPE_TAR_INSTANCE,
            (if non_empty (ii_endpoint_url input) \<noteq> None then add_type TYPE_DATA_SERVICE else id),
            add_text RDFS ''label'' (ii_label input),
            add_opt_text DCT ''description'' (ii_description input),
            opt_link (core w) TAR ''runsRelease'' (ii_release input),
            (case first_some software (ii_software input) of Some sw \<Rightarrow> add_link (core w) TAR ''instanceOf'' sw | None \<Rightarrow> id),
            opt_link (core w) DCAT ''endpointURL'' (ii_endpoint_url input),
            opt_link (core w) DCAT ''endpointDescription'' (ii_endpoint_description input),
            opt_link (core w) TAR ''healthEndpoint'' (ii_health_endpoint input),
            add_opt_text TAR ''selfRegisteredBy'' (ii_self_registered_by input),
            (if ii_self_registered_by input \<noteq> None then add_opt_text TAR ''selfRegisteredIssuer'' (ii_self_registered_issuer input) else id),
            add_opt_text TAR ''instanceKey'' (ii_instance_key input),
            add_opt_text TAR ''availability'' (ii_availability input),
            (case Option.bind (ii_availability input) access_right of Some ar \<Rightarrow> add_link (core w) DCT ''accessRights'' ar | None \<Rightarrow> id),
            add_opt_text TAR ''jurisdiction'' (ii_jurisdiction input),
            add_opt_text TAR ''oidcClientId'' (ii_oidc_client_id input),
            add_opt_text TAR ''oidcIssuer'' (ii_oidc_issuer input),
            add_texts TAR ''allowedScope'' (ii_allowed_scopes input),
            add_link (core w) DCAT ''inCatalog'' (bw_base w),
            attribution (core w) actor] node"

definition catalog_quads :: "build_world \<Rightarrow> string \<Rightarrow> quad list" where
  "catalog_quads w iri =
     finish (build [add_type (DCAT @ ''Catalog''), add_link (core w) DCAT ''resource'' iri] (local_node (bw_base w)))"

definition instance_quads ::
  "build_world \<Rightarrow> string \<Rightarrow> instance_in \<Rightarrow> string \<Rightarrow> string option \<Rightarrow> nat \<Rightarrow> quad list \<times> nat" where
  "instance_quads w iri input actor software n =
     (let b0 = (describe_instance w input actor software (local_node iri), catalog_quads w iri, n);
          (node, quads, n') = link_capability w (ii_capability input) (link_opt_agent w DCT ''publisher'' (ii_operator input) b0)
      in (quads @ finish node, n'))"

definition replace_instance ::
  "build_world \<Rightarrow> string \<Rightarrow> instance_in \<Rightarrow> string \<Rightarrow> string option \<Rightarrow> nat \<Rightarrow> graph_tx \<times> nat" where
  "replace_instance w iri input actor software n =
     (let (quads, n') = instance_quads w iri input actor software n
      in (tx_extend quads (replace_subject iri G_LOCAL new_tx), n'))"

section \<open>Reads\<close>

definition instance_from_props :: "read_world \<Rightarrow> store \<Rightarrow> string \<Rightarrow> props \<Rightarrow> instance_view" where
  "instance_from_props w st iri p =
     \<lparr>iv_iri = iri, iv_id = short_id (cx_base w) iri, iv_label = text_or (iri_tail iri) (get_str p RDFS ''label''),
      iv_description = get_str p DCT ''description'', iv_software = get_iri p TAR ''instanceOf'', iv_software_name = None,
      iv_release = get_iri p TAR ''runsRelease'', iv_release_version = None, iv_outdated = False, iv_latest_version = None,
      iv_endpoint_url = get_iri p DCAT ''endpointURL'', iv_endpoint_description = get_iri p DCAT ''endpointDescription'',
      iv_operator = map_option (agent_ref w st) (get_iri p DCT ''publisher''),
      iv_availability = get_str p TAR ''availability'', iv_jurisdiction = get_str p TAR ''jurisdiction'',
      iv_health = text_or ''unknown'' (get_str p TAR ''health''), iv_health_checked_at = get_str p TAR ''healthCheckedAt'',
      iv_health_detail = get_str p TAR ''healthDetail'', iv_health_endpoint = get_iri p TAR ''healthEndpoint'',
      iv_last_seen_at = get_str p TAR ''lastSeenAt'', iv_self_registered_by = get_str p TAR ''selfRegisteredBy'',
      iv_self_registered_issuer = get_str p TAR ''selfRegisteredIssuer'', iv_instance_key = get_str p TAR ''instanceKey'',
      iv_home_registry = first_some (get_iri p DCAT ''inCatalog'') (get_iri p TAR ''homeRegistry''),
      iv_capability = Option.bind (get_iri p TAR ''hasCapability'') (\<lambda>k. capability_from w st k ''instance''),
      iv_last_run_at = None, iv_runs_30d = 0, iv_failures_30d = 0, iv_artifact_count = 0,
      iv_oidc_client_id = get_str p TAR ''oidcClientId'', iv_oidc_issuer = get_str p TAR ''oidcIssuer'',
      iv_allowed_scopes = get_strs p TAR ''allowedScope'', iv_token_count = 0, iv_origin = origin_of_graph w (np_graph p),
      iv_tombstoned = (case get_bool p TAR ''tombstoned'' of Some b \<Rightarrow> b | None \<Rightarrow> False)\<rparr>"

record deploy_world = read_world +
  dw_max :: "rdf_term option list \<Rightarrow> string option"
  dw_sum :: "int option list \<Rightarrow> int option"

abbreviation reader :: "deploy_world \<Rightarrow> read_world" where
  "reader w \<equiv> read_world.truncate w"

record instance_signals =
  is_last_run_at :: "string option"
  is_runs_30d :: int
  is_failures_30d :: int
  is_artifacts :: int

text \<open>One row for each statement that ties a run to the deployment.\<close>

definition acting_rows :: "store \<Rightarrow> string \<Rightarrow> (string \<times> node) list" where
  "acting_rows st i =
     map (\<lambda>q. (q_graph q, q_subject q))
       (filter (\<lambda>q. q_predicate q \<in> {PROV @ ''wasAssociatedWith'', TAR @ ''atInstance''} \<and> q_object q = Node (NamedNode i)) st)"

definition run_rows :: "store \<Rightarrow> string \<Rightarrow> (string \<times> node) list" where
  "run_rows st i = filter (\<lambda>(g, run). is_activity st g run) (acting_rows st i)"

definition start_rows :: "store \<Rightarrow> string \<Rightarrow> rdf_term option list" where
  "start_rows st i = concat (map (\<lambda>(g, run). optional (quad_in st g run (PROV @ ''startedAtTime''))) (run_rows st i))"

definition recent_rows :: "read_world \<Rightarrow> store \<Rightarrow> string \<Rightarrow> (node \<times> rdf_term option) list" where
  "recent_rows w st i =
     concat (map (\<lambda>(g, run). concat (map (\<lambda>_. map (Pair run) (optional (quad_in st g run (TAR @ ''status''))))
        (filter (cx_recent w) (quad_in st g run (PROV @ ''startedAtTime''))))) (run_rows st i))"

text \<open>An unbound status is an error in the comparison and leaves the flag unbound.\<close>

definition failed_flag :: "rdf_term option \<Rightarrow> int option" where
  "failed_flag s = map_option (\<lambda>t. if t = simple_literal ''failed'' \<or> t = simple_literal ''aborted'' then 1 else 0) s"

definition made_by :: "store \<Rightarrow> string \<Rightarrow> node list" where
  "made_by st i =
     dedup (concat (map (\<lambda>(g, run). map q_subject
       (filter (\<lambda>q. q_graph q = g \<and> q_predicate q = PROV @ ''wasGeneratedBy'' \<and> q_object q = Node run) st)) (acting_rows st i)))"

text \<open>An entry exists where one of the three aggregates has a group; its other fields keep their defaults.\<close>

definition instance_signals_of :: "deploy_world \<Rightarrow> store \<Rightarrow> string option \<Rightarrow> app_error + (string \<Rightarrow> instance_signals option)" where
  "instance_signals_of w st only =
     (if (case only of Some s \<Rightarrow> \<not> rw_valid_iri w s | None \<Rightarrow> False) then Inl (internal (cx_query_error w))
      else Inr (\<lambda>i.
        let recent = recent_rows (reader w) st i in
        if (case only of Some s \<Rightarrow> i \<noteq> s | None \<Rightarrow> False) then None
        else if run_rows st i = [] \<and> made_by st i = [] then None
        else Some
          \<lparr>is_last_run_at = (if run_rows st i = [] then None else dw_max w (start_rows st i)),
           is_runs_30d = int (length (dedup (map fst recent))),
           is_failures_30d = (if recent = [] then 0 else case dw_sum w (map (failed_flag \<circ> snd) recent) of Some f \<Rightarrow> f | None \<Rightarrow> 0),
           is_artifacts = int (length (made_by st i))\<rparr>))"

text \<open>The versions of a software with the key they are compared by: the date, or the IRI of the release.\<close>

definition version_rows :: "store \<Rightarrow> string \<Rightarrow> (string \<times> string) list" where
  "version_rows st sw =
     concat (map (\<lambda>q. if q_predicate q = DCT @ ''isVersionOf'' \<and> q_object q = Node (NamedNode sw)
        then (case q_subject q of
                BlankNode _ \<Rightarrow> []
              | NamedNode r \<Rightarrow>
                  concat (map (\<lambda>v. map (\<lambda>d. (case d of Some t \<Rightarrow> term_value t | None \<Rightarrow> r, term_value v))
                      (optional (quad_in st (q_graph q) (NamedNode r) (SCHEMA @ ''datePublished''))))
                    (quad_in st (q_graph q) (NamedNode r) (SCHEMA @ ''softwareVersion''))))
        else []) st)"

definition later_version :: "string \<times> string \<Rightarrow> (string \<times> string) option \<Rightarrow> (string \<times> string) option" where
  "later_version x cur = (case cur of None \<Rightarrow> Some x | Some c \<Rightarrow> if fst c < fst x then Some x else Some c)"

definition latest_version :: "store \<Rightarrow> string \<Rightarrow> string option" where
  "latest_version st sw = map_option snd (fold later_version (version_rows st sw) None)"

definition decorate_instance :: "store \<Rightarrow> (string \<Rightarrow> string option) \<Rightarrow> instance_view \<Rightarrow> instance_view" where
  "decorate_instance st labels i =
     (let version = Option.bind (iv_release i) labels;
          i' = i\<lparr>iv_software_name := Option.bind (iv_software i) labels, iv_release_version := version\<rparr>
      in case (Option.bind (iv_software i) (latest_version st), version) of
           (Some latest, Some v) \<Rightarrow> i'\<lparr>iv_latest_version := Some latest, iv_outdated := (latest \<noteq> v)\<rparr>
         | _ \<Rightarrow> i')"

definition decorate_instances :: "read_world \<Rightarrow> store \<Rightarrow> instance_view list \<Rightarrow> instance_view list" where
  "decorate_instances w st items =
     (let labels = labels_of w (concat (map (\<lambda>i. List.map_filter id [iv_software i, iv_release i]) items))
      in map (decorate_instance st labels) items)"

definition with_signals :: "instance_signals option \<Rightarrow> instance_view \<Rightarrow> instance_view" where
  "with_signals s i =
     (case s of
        None \<Rightarrow> i
      | Some x \<Rightarrow> i\<lparr>iv_last_run_at := is_last_run_at x, iv_runs_30d := is_runs_30d x, iv_failures_30d := is_failures_30d x,
                    iv_artifact_count := is_artifacts x\<rparr>)"

definition load_instance :: "deploy_world \<Rightarrow> store \<Rightarrow> string \<Rightarrow> app_error + instance_view" where
  "load_instance w st iri =
     (case described w st iri of
        Inl e \<Rightarrow> Inl (internal e)
      | Inr [] \<Rightarrow> Inl (not_found (''no instance at '' @ iri))
      | Inr qs \<Rightarrow>
          (let p = from_quads iri qs in
           if \<not> has_type p TYPE_SOFTWARE_AGENT then Inl (not_found (iri @ '' is not an Instance record''))
           else and_then (instance_signals_of w st (Some iri)) (\<lambda>signals.
                  Inr (hd (decorate_instances (reader w) st
                             [with_signals (signals iri) (instance_from_props (reader w) st iri p)])))))"

end
