(* ===== verification/Record_Writes.thy ===== *)
theory Record_Writes
  imports Deployments Forge Shacl Token_Api
begin

text \<open>
  What the record endpoints share (\<open>src/api/software.rs\<close>, \<open>src/api/instances.rs\<close>): the world and the state
  they work in, a write that is validated before it is applied, withdrawing a record, declaring a
  capability on it, and turning the shapes of a record back into JSON for a merging \<open>PATCH\<close>. A handler
  returns an error or its answer, and the state: what was written before an error stays.
\<close>

record endpoint_world = deploy_world +
  ew_fresh :: "nat \<Rightarrow> string"
  ew_codec :: codec
  ew_unicode :: "string \<Rightarrow> string"
  ew_rules :: write_rules
  ew_oidc :: oidc_config
  ew_now :: int
  ew_forge :: forge_world
  ew_env :: "string \<Rightarrow> string option"
  ew_decode_error :: "json \<Rightarrow> string"

record endpoint_state =
  es_graph :: store
  es_audit :: "audit_row list"
  es_next :: nat

definition writer :: "endpoint_world \<Rightarrow> build_world" where
  "writer w =
     \<lparr>rw_valid_iri = rw_valid_iri w, rw_datetime = rw_datetime w, rw_now = rw_now w, rw_show = rw_show w,
      bw_base = cx_base w, bw_fresh = ew_fresh w, bw_codec = ew_codec w, bw_unicode = ew_unicode w\<rparr>"

abbreviation loader :: "endpoint_world \<Rightarrow> deploy_world" where
  "loader w \<equiv> deploy_world.truncate w"

abbreviation views :: "endpoint_world \<Rightarrow> read_world" where
  "views w \<equiv> read_world.truncate w"

type_synonym 'a outcome = "(app_error + 'a) \<times> endpoint_state"

definition and_also :: "'a outcome \<Rightarrow> ('a \<Rightarrow> endpoint_state \<Rightarrow> 'b outcome) \<Rightarrow> 'b outcome" where
  "and_also m f = (case m of (Inl e, st) \<Rightarrow> (Inl e, st) | (Inr x, st) \<Rightarrow> f x st)"

lemma and_also_Inr:
  "and_also m f = (Inr y, st'') \<longleftrightarrow> (\<exists>x st'. m = (Inr x, st') \<and> f x st' = (Inr y, st''))"
  by (auto simp: and_also_def split: prod.split sum.split)

text \<open>A check that writes nothing.\<close>

definition checked :: "app_error + 'a \<Rightarrow> endpoint_state \<Rightarrow> 'a outcome" where
  "checked r st = (r, st)"

lemma checked_Inr [simp]: "checked r st = (Inr x, st') \<longleftrightarrow> r = Inr x \<and> st' = st"
  by (auto simp: checked_def)

section \<open>Writes\<close>

definition store_tx :: "endpoint_world \<Rightarrow> graph_tx \<Rightarrow> endpoint_state \<Rightarrow> unit outcome" where
  "store_tx w tx st =
     (case apply_tx (rw_valid_iri w) tx (es_graph st) of
        Inl e \<Rightarrow> (Inl (internal e), st) | Inr g \<Rightarrow> (Inr (), st\<lparr>es_graph := g\<rparr>))"

text \<open>\<open>shacl::enforce_write\<close> on the quads to be inserted, then the transaction.\<close>

definition validated_tx :: "endpoint_world \<Rightarrow> quad list \<Rightarrow> graph_tx \<Rightarrow> endpoint_state \<Rightarrow> unit outcome" where
  "validated_tx w quads tx st =
     and_also (checked (enforce_write (ew_rules w) (core (writer w)) (ew_codec w) quads) st) (\<lambda>_ st. store_tx w tx st)"

definition noted :: "endpoint_world \<Rightarrow> principal \<Rightarrow> string \<Rightarrow> string \<Rightarrow> string option \<Rightarrow> endpoint_state \<Rightarrow> endpoint_state" where
  "noted w p action target about st =
     st\<lparr>es_audit := audit (ew_now w) (Some (subject p)) (actor_kind p) action (Some target) about None (es_audit st)\<rparr>"

definition describe_record :: "endpoint_world \<Rightarrow> string \<Rightarrow> endpoint_state \<Rightarrow> app_error + quad list" where
  "describe_record w iri st = (case described w (es_graph st) iri of Inl e \<Rightarrow> Inl (internal e) | Inr qs \<Rightarrow> Inr qs)"

text \<open>The error of an IRI that does not parse is rendered up to the parser's own words, which follow it.\<close>

definition exists_record :: "endpoint_world \<Rightarrow> string \<Rightarrow> endpoint_state \<Rightarrow> app_error + bool" where
  "exists_record w iri st =
     (if rw_valid_iri w iri then Inr (store_exists (es_graph st) iri) else Inl (internal (''bad IRI '' @ iri)))"

section \<open>Withdrawing a record\<close>

definition tombstone_quads :: "endpoint_world \<Rightarrow> string \<Rightarrow> string \<Rightarrow> quad list" where
  "tombstone_quads w iri actor =
     finish (build [add_boolean TAR ''tombstoned'' True,
                    add_datetime (core (writer w)) TAR ''tombstonedAt'' (rw_now w),
                    add_link (core (writer w)) ADMS ''status'' (EU_DATASET_STATUS @ ''WITHDRAWN''),
                    add_link (core (writer w)) PROV ''wasAttributedTo'' actor] (local_node iri))"

definition tombstone :: "endpoint_world \<Rightarrow> string \<Rightarrow> principal \<Rightarrow> endpoint_state \<Rightarrow> unit outcome" where
  "tombstone w iri p st =
     and_also (checked (describe_record w iri st) st) (\<lambda>existing st.
       if existing = [] then (Inl (not_found (''nothing at '' @ iri)), st)
       else and_also (store_tx w (tx_extend (tombstone_quads w iri (subject p)) new_tx) st) (\<lambda>_ st.
              (Inr (), noted w p ''tombstone'' iri None st)))"

section \<open>Declaring a capability\<close>

definition put_capability_on ::
  "endpoint_world \<Rightarrow> principal \<Rightarrow> string \<Rightarrow> capability_in \<Rightarrow> string \<Rightarrow> endpoint_state \<Rightarrow> capability_view option outcome" where
  "put_capability_on w p target input layer st =
     and_also (checked (describe_record w target st) st) (\<lambda>existing st.
       if existing = [] then (Inl (not_found (''nothing at '' @ target)), st)
       else
         let (cap, n) = (case get_iri (from_quads target existing) TAR ''hasCapability'' of
                           Some c \<Rightarrow> (c, es_next st) | None \<Rightarrow> (fresh_iri (writer w) Capability (es_next st), Suc (es_next st)));
             quads = capability_quads (core (writer w)) cap input;
             tx = tx_extend (finish (add_link (core (writer w)) TAR ''hasCapability'' cap (local_node target)))
                    (tx_extend quads (replace_subject cap G_LOCAL new_tx))
         in and_also (validated_tx w quads tx (st\<lparr>es_next := n\<rparr>)) (\<lambda>_ st.
              (Inr (capability_from (views w) (es_graph st) cap layer), noted w p ''capability.declare'' target (Some layer) st)))"

section \<open>Shapes as JSON\<close>

definition json_texts :: "string list \<Rightarrow> json" where
  "json_texts xs = JArray (map JText xs)"

text \<open>A member left out when there is no value (\<open>skip_serializing_if\<close>).\<close>

definition skip_none :: "string \<Rightarrow> string option \<Rightarrow> (string \<times> json) list" where
  "skip_none k v = (case v of None \<Rightarrow> [] | Some s \<Rightarrow> [(k, JText s)])"

definition agent_in_json :: "agent_in \<Rightarrow> json" where
  "agent_in_json a =
     JObject (skip_none ''iri'' (ag_iri a) @ skip_none ''name'' (ag_name a) @ skip_none ''kind'' (ag_kind a) @
       skip_none ''identifier'' (ag_identifier a) @ skip_none ''email'' (ag_email a) @ skip_none ''homepage'' (ag_homepage a) @
       skip_none ''version'' (ag_version a))"

definition capability_in_json :: "capability_in \<Rightarrow> json" where
  "capability_in_json c = JObject [(''produces'', json_texts (cp_produces c)), (''consumes'', json_texts (cp_consumes c))]"

definition json_option :: "('a \<Rightarrow> json) \<Rightarrow> 'a option \<Rightarrow> json" where
  "json_option f v = (case v of None \<Rightarrow> JNull | Some x \<Rightarrow> f x)"

definition agent_in_of_json :: "json \<Rightarrow> agent_in option" where
  "agent_in_of_json j =
     field (struct_fields [''iri'', ''name'', ''kind'', ''identifier'', ''email'', ''homepage'', ''version''] 0 j) (\<lambda>fs.
     field (text_field ''iri'' fs) (\<lambda>i.
     field (text_field ''name'' fs) (\<lambda>name.
     field (text_field ''kind'' fs) (\<lambda>kind.
     field (text_field ''identifier'' fs) (\<lambda>identifier.
     field (text_field ''email'' fs) (\<lambda>email.
     field (text_field ''homepage'' fs) (\<lambda>homepage.
     field (text_field ''version'' fs) (\<lambda>version.
       Some \<lparr>ag_iri = i, ag_name = name, ag_kind = kind, ag_identifier = identifier, ag_email = email,
             ag_homepage = homepage, ag_version = version\<rparr>))))))))"

definition capability_in_of_json :: "json \<Rightarrow> capability_in option" where
  "capability_in_of_json j =
     field (struct_fields [''produces'', ''consumes''] 0 j) (\<lambda>fs.
     field (texts_field ''produces'' fs) (\<lambda>produces.
     field (texts_field ''consumes'' fs) (\<lambda>consumes. Some \<lparr>cp_produces = produces, cp_consumes = consumes\<rparr>)))"

text \<open>A view of an agent or a capability taken as input again.\<close>

definition agent_in_from :: "agent_view \<Rightarrow> agent_in" where
  "agent_in_from a =
     \<lparr>ag_iri = Some (af_iri a), ag_name = af_name a, ag_kind = af_kind a, ag_identifier = af_identifier a,
      ag_email = af_email a, ag_homepage = af_homepage a, ag_version = af_version a\<rparr>"

definition capability_in_from :: "capability_view \<Rightarrow> capability_in" where
  "capability_in_from c = \<lparr>cp_produces = map tr_iri (cv_produces c), cp_consumes = map tr_iri (cv_consumes c)\<rparr>"

text \<open>\<open>serde_json::from_value\<close> with the handlers' 400.\<close>

definition decoded :: "endpoint_world \<Rightarrow> (json \<Rightarrow> 'a option) \<Rightarrow> json \<Rightarrow> app_error + 'a" where
  "decoded w d j =
     (case d j of Some x \<Rightarrow> Inr x | None \<Rightarrow> Inl (bad_request (''could not apply the change: '' @ ew_decode_error w j)))"

lemma map_of_skip_none:
  "map_of (skip_none k v @ ms) k' = (if k' = k \<and> v \<noteq> None then map_option JText v else map_of ms k')"
  "map_of (skip_none k v) k' = (if k' = k then map_option JText v else None)"
  by (auto simp: skip_none_def split: option.split)

lemma text_field_present: "fs k = map_option JText v \<Longrightarrow> text_field k fs = Some v"
  by (cases v) (simp_all add: defaulted_def dec_option_def)

lemma agent_in_json_round [simp]: "agent_in_of_json (agent_in_json a) = Some a"
proof -
  obtain i n k d e h v where a: "a = \<lparr>ag_iri = i, ag_name = n, ag_kind = k, ag_identifier = d, ag_email = e, ag_homepage = h, ag_version = v\<rparr>"
    by (cases a)
  define fs where "fs = map_of (skip_none ''iri'' i @ skip_none ''name'' n @ skip_none ''kind'' k @ skip_none ''identifier'' d @
    skip_none ''email'' e @ skip_none ''homepage'' h @ skip_none ''version'' v)"
  have "fs ''iri'' = map_option JText i" "fs ''name'' = map_option JText n" "fs ''kind'' = map_option JText k"
    "fs ''identifier'' = map_option JText d" "fs ''email'' = map_option JText e" "fs ''homepage'' = map_option JText h"
    "fs ''version'' = map_option JText v"
    unfolding fs_def map_of_skip_none by simp_all
  then show ?thesis
    by (simp add: agent_in_of_json_def agent_in_json_def struct_fields_def a text_field_present flip: fs_def del: map_of_append)
qed

lemma capability_in_json_round [simp]: "capability_in_of_json (capability_in_json c) = Some c"
  by (cases c) (simp add: capability_in_of_json_def capability_in_json_def struct_fields_def defaulted_def json_texts_def)

section \<open>What a write leaves in the graph\<close>

lemma store_tx_Inr: "store_tx w tx st = (Inr u, st') \<longleftrightarrow> (\<exists>g. apply_tx (rw_valid_iri w) tx (es_graph st) = Inr g \<and> st' = st\<lparr>es_graph := g\<rparr>)"
  by (auto simp: store_tx_def split: sum.split)

lemma validated_tx_Inr:
  "validated_tx w qs tx st = (Inr u, st') \<longleftrightarrow>
     (\<exists>r. enforce_write (ew_rules w) (core (writer w)) (ew_codec w) qs = Inr r) \<and> store_tx w tx st = (Inr u, st')"
  by (auto simp: validated_tx_def and_also_Inr)

lemma noted_graph [simp]: "es_graph (noted w p a t d st) = es_graph st" "es_next (noted w p a t d st) = es_next st"
  by (simp_all add: noted_def)

lemma applied_inserts:
  assumes "apply_tx v (tx_extend qs new_tx) st = Inr st'" shows "set st' = set st \<union> set qs"
  using assms by (auto simp: apply_tx_def tx_extend_def new_tx_def tx_iris_def Let_def)

lemma applied_replaces:
  assumes "apply_tx v (tx_extend qs (replace_subject s G_LOCAL new_tx)) st = Inr st'"
  shows "set st' = {q \<in> set st. \<not> (q_graph q = G_LOCAL \<and> q_subject q \<in> owned_closure st G_LOCAL (NamedNode s))} \<union> set qs"
  using assms
  by (auto simp: apply_tx_def tx_extend_def replace_subject_def new_tx_def tx_iris_def Let_def set_delete_subject split: if_splits)

text \<open>A replaced record says locally what was written for it, and nothing else.\<close>

lemma replaced_record:
  assumes "apply_tx v (tx_extend qs (replace_subject s G_LOCAL new_tx)) st = Inr st'" "q_subject q = NamedNode s" "q_graph q = G_LOCAL"
  shows "q \<in> set st' \<longleftrightarrow> q \<in> set qs"
  using applied_replaces [OF assms(1)] assms(2,3) by auto

text \<open>Builders that never use a predicate.\<close>

definition avoids :: "string \<Rightarrow> rdf_node \<Rightarrow> bool" where
  "avoids p n \<longleftrightarrow> (\<forall>q \<in> set (rn_quads n). q_predicate q \<noteq> p)"

definition never_says :: "string \<Rightarrow> quad list \<Rightarrow> bool" where
  "never_says p qs \<longleftrightarrow> (\<forall>q \<in> set qs. q_predicate q \<noteq> p)"

named_theorems avoiding

lemma avoids_push [avoiding]: "p' \<noteq> p \<Longrightarrow> avoids p (push_quad p' v n) = avoids p n"
  by (auto simp: avoids_def push_quad_def)

lemma avoids_local [avoiding]: "avoids p (local_node s)"
  by (simp add: avoids_def)

lemma avoids_calls [avoiding]:
  "rdf_type \<noteq> p \<Longrightarrow> avoids p n \<Longrightarrow> avoids p (add_type t n)"
  "ns @ l \<noteq> p \<Longrightarrow> avoids p n \<Longrightarrow> avoids p (add_link w ns l x n)"
  "ns @ l \<noteq> p \<Longrightarrow> avoids p n \<Longrightarrow> avoids p (opt_link w ns l v n)"
  "ns @ l \<noteq> p \<Longrightarrow> avoids p n \<Longrightarrow> avoids p (add_text ns l x n)"
  "ns @ l \<noteq> p \<Longrightarrow> avoids p n \<Longrightarrow> avoids p (add_opt_text ns l v n)"
  "ns @ l \<noteq> p \<Longrightarrow> avoids p n \<Longrightarrow> avoids p (add_boolean ns l b n)"
  "ns @ l \<noteq> p \<Longrightarrow> avoids p n \<Longrightarrow> avoids p (add_opt_int ns l i n)"
  "ns @ l \<noteq> p \<Longrightarrow> avoids p n \<Longrightarrow> avoids p (add_datetime w ns l x n)"
  "ns @ l \<noteq> p \<Longrightarrow> avoids p n \<Longrightarrow> avoids p (add_opt_datetime w ns l v n)"
  by (auto simp: add_type_def add_link_def opt_link_def add_text_def add_opt_text_def add_boolean_def add_opt_int_def add_int_def
      add_datetime_def add_opt_datetime_def avoids_push split: option.split)

lemma avoids_lists [avoiding]:
  assumes "ns @ l \<noteq> p"
  shows "avoids p n \<Longrightarrow> avoids p (add_links w ns l xs n)" "avoids p n \<Longrightarrow> avoids p (add_texts ns l xs n)"
  using assms by (induction xs arbitrary: n) (auto simp: add_links_def add_texts_def avoiding)

lemma avoids_child [avoiding]:
  "ns @ l \<noteq> p \<Longrightarrow> avoids p c \<Longrightarrow> avoids p n \<Longrightarrow> avoids p (add_child ns l c n)"
  by (auto simp: avoids_def rn_add_child quad_of_def)

lemma avoids_attribution [avoiding]:
  "DCT @ ''modified'' \<noteq> p \<Longrightarrow> PROV @ ''wasAttributedTo'' \<noteq> p \<Longrightarrow> avoids p n \<Longrightarrow> avoids p (attribution w a n)"
  by (simp add: attribution_def attribution_at_def avoiding)

lemma avoids_id [avoiding]: "avoids p n \<Longrightarrow> avoids p (id n)"
  by simp

lemma never_says_finish [avoiding]: "avoids p n \<Longrightarrow> never_says p (finish n)"
  by (simp add: never_says_def avoids_def finish_def)

lemma never_says_append [simp]: "never_says p (a @ b) \<longleftrightarrow> never_says p a \<and> never_says p b" "never_says p []"
  by (auto simp: never_says_def)

text \<open>The properties of the registry's own vocabulary that this part of the code writes elsewhere.\<close>

definition BOOKKEEPING_NAMES :: "string list" where
  "BOOKKEEPING_NAMES =
     [''health'', ''healthCheckedAt'', ''healthDetail'', ''lastSeenAt'', ''tombstoned'', ''tombstonedAt'', ''syncedAt'', ''syncStatus'',
      ''syncError'', ''syncChanged'', ''selfRegisteredBy'', ''selfRegisteredIssuer'', ''instanceKey'', ''oidcClientId'', ''allowedScope'', ''instanceOf'', ''sync'']"

definition bookkeeping :: "string list" where
  "bookkeeping = map (\<lambda>l. TAR @ l) BOOKKEEPING_NAMES"

lemma other_vocabulary:
  assumes "p \<in> set bookkeeping"
  shows "SCHEMA @ l \<noteq> p" "DCT @ l \<noteq> p" "PROV @ l \<noteq> p" "CODEMETA @ l \<noteq> p" "DCAT @ l \<noteq> p" "RDFS @ l \<noteq> p" "rdf_type \<noteq> p"
  using assms
  by (auto simp: bookkeeping_def TAR_def SCHEMA_def DCT_def PROV_def CODEMETA_def DCAT_def RDFS_def RDF_def rdf_type_def)

lemma other_name: "p \<in> set bookkeeping \<Longrightarrow> l \<notin> set BOOKKEEPING_NAMES \<Longrightarrow> TAR @ l \<noteq> p"
  by (auto simp: bookkeeping_def)

lemma agent_avoids:
  assumes "p \<in> set bookkeeping" shows "never_says p (snd (fst (agent_quads w a n)))"
proof -
  have "never_says p (described_agent c i a)" for c i
    unfolding described_agent_def agent_body_def agent_types_def build_def
    using other_vocabulary [OF assms] by (auto intro!: avoiding)
  then show ?thesis by (simp add: agent_quads_def split: option.split)
qed

lemma capability_avoids:
  assumes "p \<in> set bookkeeping" shows "never_says p (capability_quads w i c)"
proof -
  have "TAR @ ''produces'' \<noteq> p" "TAR @ ''consumes'' \<noteq> p" using other_name [OF assms] by (simp_all add: BOOKKEEPING_NAMES_def)
  with other_vocabulary [OF assms] show ?thesis unfolding capability_quads_def build_def by (auto intro!: avoiding)
qed

text \<open>A building of which neither part uses the predicate.\<close>

definition building_avoids :: "string \<Rightarrow> building \<Rightarrow> bool" where
  "building_avoids p b \<longleftrightarrow> (case b of (node, quads, n) \<Rightarrow> avoids p node \<and> never_says p quads)"

lemma building_link_agent:
  assumes "p \<in> set bookkeeping" "ns @ l \<noteq> p" "building_avoids p b" shows "building_avoids p (link_opt_agent w ns l a b)"
proof (cases a)
  case None
  with assms(3) show ?thesis by (simp add: link_opt_agent_def)
next
  case (Some x)
  obtain node quads n where b: "b = (node, quads, n)" by (cases b)
  obtain ai body n' where ag: "agent_quads w x n = ((ai, body), n')" by (cases "agent_quads w x n") auto
  with agent_avoids [OF assms(1), of w x n] have "never_says p body" by simp
  with assms(2,3) show ?thesis
    by (auto simp: link_opt_agent_def link_agent_def Some b ag building_avoids_def split: option.split intro!: avoiding)
qed

lemma building_link_capability:
  assumes "p \<in> set bookkeeping" "building_avoids p b" shows "building_avoids p (link_capability w c b)"
proof (cases c)
  case None
  with assms(2) show ?thesis by (cases b) (simp add: link_capability_def)
next
  case (Some x)
  have "TAR @ ''hasCapability'' \<noteq> p" using other_name [OF assms(1)] by (simp add: BOOKKEEPING_NAMES_def)
  with Some assms capability_avoids [OF assms(1)] show ?thesis
    by (cases b) (auto simp: link_capability_def building_avoids_def intro!: avoiding)
qed

end
