(* ===== verification/Software_Api.thy ===== *)
theory Software_Api
  imports Record_Writes Http_Surface
begin

text \<open>
  The software endpoints (\<open>src/api/software.rs\<close>): registering, patching and withdrawing a record, its
  releases and capability, the sync with its repository, the list with its facets, and the bio.tools
  export. Links of the answer's header and content negotiation are left out.
\<close>

section \<open>The record as JSON\<close>

definition software_in_from :: "software_view \<Rightarrow> software_in" where
  "software_in_from s =
     \<lparr>so_name = sw_name s, so_tagline = sw_tagline s, so_description = sw_description s, so_homepage = sw_homepage s,
      so_code_repository = sw_code_repository s, so_documentation = sw_documentation s, so_download_url = sw_download_url s,
      so_image = sw_image s, so_screenshots = sw_screenshots s, so_readme = sw_readme s, so_readme_base_url = sw_readme_base_url s,
      so_api_docs = sw_api_docs s, so_registration_clients = sw_registration_clients s,
      so_registration_issuer = sw_registration_issuer s, so_license = sw_license s, so_kinds = sw_kinds s, so_kind = None,
      so_maturity = sw_maturity s, so_deployable = Some (sw_deployable s), so_topics = map tr_iri (sw_topics s),
      so_keywords = sw_keywords s, so_publisher = map_option agent_in_from (sw_publisher s),
      so_contact = map_option agent_in_from (sw_contact s), so_publications = sw_publications s,
      so_capability = map_option capability_in_from (sw_capability s), so_sync = None\<rparr>"

definition api_doc_json :: "api_doc \<Rightarrow> json" where
  "api_doc_json d =
     JObject ([(''url'', JText (ad_url d)), (''format'', JText (ad_format d))] @ skip_none ''title'' (ad_title d) @
       skip_none ''description'' (ad_description d))"

definition sync_in_json :: "sync_in \<Rightarrow> json" where
  "sync_in_json s =
     JObject [(''source'', JText (sy_source s)), (''repo'', JText (sy_repo s)), (''fields'', json_texts (sy_fields s)),
              (''enabled'', JBool (sy_enabled s))]"

definition software_members :: "software_in \<Rightarrow> (string \<times> json) list" where
  "software_members s =
     [(''name'', JText (so_name s)), (''tagline'', opt_text (so_tagline s)), (''description'', opt_text (so_description s)),
      (''homepage'', opt_text (so_homepage s)), (''code_repository'', opt_text (so_code_repository s)),
      (''documentation'', opt_text (so_documentation s)), (''download_url'', opt_text (so_download_url s)),
      (''image'', opt_text (so_image s)), (''screenshots'', json_texts (so_screenshots s)), (''readme'', opt_text (so_readme s)),
      (''readme_base_url'', opt_text (so_readme_base_url s)), (''api_docs'', JArray (map api_doc_json (so_api_docs s))),
      (''registration_clients'', json_texts (so_registration_clients s)),
      (''registration_issuer'', opt_text (so_registration_issuer s)), (''license'', opt_text (so_license s)),
      (''kinds'', json_texts (so_kinds s)), (''maturity'', opt_text (so_maturity s)),
      (''deployable'', json_option JBool (so_deployable s)), (''topics'', json_texts (so_topics s)),
      (''keywords'', json_texts (so_keywords s)), (''publisher'', json_option agent_in_json (so_publisher s)),
      (''contact'', json_option agent_in_json (so_contact s)), (''publications'', json_texts (so_publications s)),
      (''capability'', json_option capability_in_json (so_capability s)), (''sync'', json_option sync_in_json (so_sync s))]"

definition software_in_json :: "software_in \<Rightarrow> json" where
  "software_in_json s = JObject (software_members s)"

definition api_doc_of_json :: "json \<Rightarrow> api_doc option" where
  "api_doc_of_json j =
     field (struct_fields [''url'', ''format'', ''title'', ''description''] 4 j) (\<lambda>fs.
     field (required dec_text ''url'' fs) (\<lambda>url.
     field (defaulted [] dec_text ''format'' fs) (\<lambda>fmt.
     field (text_field ''title'' fs) (\<lambda>title.
     field (text_field ''description'' fs) (\<lambda>description.
       Some \<lparr>ad_url = url, ad_format = fmt, ad_title = title, ad_description = description\<rparr>)))))"

definition sync_in_of_json :: "json \<Rightarrow> sync_in option" where
  "sync_in_of_json j =
     field (struct_fields [''source'', ''repo'', ''fields'', ''enabled''] 2 j) (\<lambda>fs.
     field (defaulted ''github'' dec_text ''source'' fs) (\<lambda>source.
     field (required dec_text ''repo'' fs) (\<lambda>repo.
     field (texts_field ''fields'' fs) (\<lambda>names.
     field (defaulted True dec_bool ''enabled'' fs) (\<lambda>enabled.
       Some \<lparr>sy_source = source, sy_repo = repo, sy_fields = names, sy_enabled = enabled\<rparr>)))))"

definition SOFTWARE_FIELDS :: "string list" where
  "SOFTWARE_FIELDS =
     [''name'', ''tagline'', ''description'', ''homepage'', ''code_repository'', ''documentation'', ''download_url'', ''image'',
      ''screenshots'', ''readme'', ''readme_base_url'', ''api_docs'', ''registration_clients'', ''registration_issuer'', ''license'',
      ''kinds'', ''kind'', ''maturity'', ''deployable'', ''topics'', ''keywords'', ''publisher'', ''contact'', ''publications'',
      ''capability'', ''sync'']"

definition software_in_of_json :: "json \<Rightarrow> software_in option" where
  "software_in_of_json j =
     field (struct_fields SOFTWARE_FIELDS 1 j) (\<lambda>fs.
     field (required dec_text ''name'' fs) (\<lambda>name.
     field (text_field ''tagline'' fs) (\<lambda>tagline.
     field (text_field ''description'' fs) (\<lambda>description.
     field (text_field ''homepage'' fs) (\<lambda>homepage.
     field (text_field ''code_repository'' fs) (\<lambda>code.
     field (text_field ''documentation'' fs) (\<lambda>documentation.
     field (text_field ''download_url'' fs) (\<lambda>download.
     field (text_field ''image'' fs) (\<lambda>image.
     field (texts_field ''screenshots'' fs) (\<lambda>screenshots.
     field (text_field ''readme'' fs) (\<lambda>readme.
     field (text_field ''readme_base_url'' fs) (\<lambda>base_url.
     field (defaulted [] (dec_list api_doc_of_json) ''api_docs'' fs) (\<lambda>docs.
     field (texts_field ''registration_clients'' fs) (\<lambda>clients.
     field (text_field ''registration_issuer'' fs) (\<lambda>iss.
     field (text_field ''license'' fs) (\<lambda>license.
     field (texts_field ''kinds'' fs) (\<lambda>kinds.
     field (text_field ''kind'' fs) (\<lambda>kind.
     field (text_field ''maturity'' fs) (\<lambda>maturity.
     field (opt_field dec_bool ''deployable'' fs) (\<lambda>deployable.
     field (texts_field ''topics'' fs) (\<lambda>topics.
     field (texts_field ''keywords'' fs) (\<lambda>keywords.
     field (opt_field agent_in_of_json ''publisher'' fs) (\<lambda>publisher.
     field (opt_field agent_in_of_json ''contact'' fs) (\<lambda>contact.
     field (texts_field ''publications'' fs) (\<lambda>publications.
     field (opt_field capability_in_of_json ''capability'' fs) (\<lambda>capability.
     field (opt_field sync_in_of_json ''sync'' fs) (\<lambda>sync.
       Some \<lparr>so_name = name, so_tagline = tagline, so_description = description, so_homepage = homepage,
             so_code_repository = code, so_documentation = documentation, so_download_url = download, so_image = image,
             so_screenshots = screenshots, so_readme = readme, so_readme_base_url = base_url, so_api_docs = docs,
             so_registration_clients = clients, so_registration_issuer = iss, so_license = license, so_kinds = kinds,
             so_kind = kind, so_maturity = maturity, so_deployable = deployable, so_topics = topics, so_keywords = keywords,
             so_publisher = publisher, so_contact = contact, so_publications = publications, so_capability = capability,
             so_sync = sync\<rparr>)))))))))))))))))))))))))))"

section \<open>Registering and changing\<close>

definition check_registration_binding :: "endpoint_world \<Rightarrow> software_in \<Rightarrow> app_error + unit" where
  "check_registration_binding w input =
     (if so_registration_clients input = [] \<or> so_registration_issuer input \<noteq> None then Inr ()
      else if issuer_pin_required (ew_oidc w) then
        Inl (bad_request (''registration_issuer is required: this registry accepts tokens from '' @
          join '', '' (accepted_issuers (ew_oidc w)) @
          '', and a client id is only unique within an issuer. Name the one these registration clients belong to.''))
      else Inr ())"

definition check_software :: "endpoint_world \<Rightarrow> software_in \<Rightarrow> app_error + unit" where
  "check_software w input =
     and_then (check_registration_binding w input) (\<lambda>_.
       case so_sync input of Some s \<Rightarrow> check_fields (sy_fields s) | None \<Rightarrow> Inr ())"

definition loaded_software :: "endpoint_world \<Rightarrow> string \<Rightarrow> endpoint_state \<Rightarrow> software_view outcome" where
  "loaded_software w iri st = checked (load_software (views w) (es_graph st) iri) st"

definition create_software :: "endpoint_world \<Rightarrow> principal \<Rightarrow> software_in \<Rightarrow> endpoint_state \<Rightarrow> (nat \<times> software_view) outcome" where
  "create_software w p input st =
     and_also (checked (and_then (require_curator p) (\<lambda>_. check_software w input)) st) (\<lambda>_ st.
       let iri = fresh_iri (writer w) Software (es_next st);
           (quads, n) = software_quads (writer w) iri input (subject p) None (Suc (es_next st))
       in and_also (validated_tx w quads (tx_extend quads new_tx) (st\<lparr>es_next := n\<rparr>)) (\<lambda>_ st.
          and_also (loaded_software w iri (noted w p ''software.create'' iri (Some (so_name input)) st)) (\<lambda>v st. (Inr (201, v), st))))"

definition not_authoritative :: app_error where
  "not_authoritative = forbidden (''this registry is not authoritative for that IRI (spec '' @ [CHR 0xC2, CHR 0xA7] @ ''9.7)'')"

text \<open>The record as it stands with the body merged onto it, and when it was created.\<close>

definition merged_software :: "endpoint_world \<Rightarrow> string \<Rightarrow> json \<Rightarrow> endpoint_state \<Rightarrow> app_error + software_in \<times> string option" where
  "merged_software w iri body st =
     and_then (describe_record w iri st) (\<lambda>existing.
       if existing = [] then Inl (not_found (''no software at '' @ iri))
       else and_then (load_software (views w) (es_graph st) iri) (\<lambda>v.
            and_then (decoded w software_in_of_json (merge_json (software_in_json (software_in_from v)) body)) (\<lambda>input.
              Inr (input, get_str (from_quads iri existing) DCT ''created''))))"

definition patch_software :: "endpoint_world \<Rightarrow> principal \<Rightarrow> string \<Rightarrow> json \<Rightarrow> endpoint_state \<Rightarrow> software_view outcome" where
  "patch_software w p ident body st =
     and_also (checked (require_curator p) st) (\<lambda>_ st.
       let iri = iri_for (cx_base w) Software ident in
       if \<not> is_local (cx_base w) iri then (Inl not_authoritative, st)
       else and_also (checked (merged_software w iri body st) st) (\<lambda>(input, created) st.
            and_also (checked (check_software w input) st) (\<lambda>_ st.
              let (tx, n) = replace_software (writer w) iri input (subject p) created (es_next st)
              in and_also (validated_tx w (insert_quads tx) tx (st\<lparr>es_next := n\<rparr>)) (\<lambda>_ st.
                   loaded_software w iri (noted w p ''software.update'' iri None st)))))"

definition soft_delete_software :: "endpoint_world \<Rightarrow> principal \<Rightarrow> string \<Rightarrow> endpoint_state \<Rightarrow> nat outcome" where
  "soft_delete_software w p ident st =
     and_also (checked (require_curator p) st) (\<lambda>_ st.
     and_also (tombstone w (iri_for (cx_base w) Software ident) p st) (\<lambda>_ st. (Inr 204, st)))"

definition put_software_capability ::
  "endpoint_world \<Rightarrow> principal \<Rightarrow> string \<Rightarrow> capability_in \<Rightarrow> endpoint_state \<Rightarrow> capability_view option outcome" where
  "put_software_capability w p ident input st =
     and_also (checked (require_curator p) st) (\<lambda>_ st.
       put_capability_on w p (iri_for (cx_base w) Software ident) input ''software'' st)"

text \<open>The repository's numbers are shown only if they were fetched, and for the repository the record names now.\<close>

definition get_software ::
  "endpoint_world \<Rightarrow> repository_stats list \<Rightarrow> string \<Rightarrow> endpoint_state \<Rightarrow> app_error + software_view \<times> repository_stats option" where
  "get_software w rows ident st =
     (let iri = iri_for (cx_base w) Software ident in
      and_then (load_software (views w) (es_graph st) iri) (\<lambda>v.
        let repo = repo_of (map_option ss_repo (sw_sync v)) (sw_code_repository v) in
        Inr (v, case stats_for iri rows of
                  Some s \<Rightarrow> if rs_fetched_at s \<noteq> None \<and> Some (rs_repo s) = repo then Some s else None
                | None \<Rightarrow> None)))"

section \<open>Releases\<close>

definition list_releases_handler :: "endpoint_world \<Rightarrow> string \<Rightarrow> endpoint_state \<Rightarrow> app_error + release_view list \<times> nat" where
  "list_releases_handler w ident st =
     and_then (list_releases (views w) (es_graph st) (iri_for (cx_base w) Software ident)) (\<lambda>rs. Inr (rs, length rs))"

definition create_release ::
  "endpoint_world \<Rightarrow> principal \<Rightarrow> string \<Rightarrow> release_in \<Rightarrow> endpoint_state \<Rightarrow> (nat \<times> release_view) outcome" where
  "create_release w p ident input st =
     and_also (checked (require_curator p) st) (\<lambda>_ st.
       let sw = iri_for (cx_base w) Software ident; iri = fresh_iri (writer w) Release (es_next st) in
       and_also (checked (exists_record w sw st) st) (\<lambda>known st.
         if \<not> known then (Inl (not_found (''no software at '' @ sw)), st)
         else
           let (quads, n) = release_quads (writer w) iri sw input (subject p) (Suc (es_next st))
           in and_also (validated_tx w quads (tx_extend quads new_tx) (st\<lparr>es_next := n\<rparr>)) (\<lambda>_ st.
              let st' = noted w p ''release.create'' iri (Some (rl_version input)) st in
              and_also (checked (described_props (views w) (es_graph st') iri) st') (\<lambda>ps st.
                (Inr (201, release_from_props (views w) (es_graph st) iri ps), st)))))"

definition delete_release :: "endpoint_world \<Rightarrow> principal \<Rightarrow> string \<Rightarrow> string \<Rightarrow> endpoint_state \<Rightarrow> nat outcome" where
  "delete_release w p ident release_id st =
     and_also (checked (require_curator p) st) (\<lambda>_ st.
       let sw = iri_for (cx_base w) Software ident; iri = iri_for (cx_base w) Release release_id in
       and_also (checked (describe_record w iri st) st) (\<lambda>quads st.
         if quads = [] then (Inl (not_found (''no release at '' @ iri)), st)
         else if get_iri (from_quads iri quads) DCT ''isVersionOf'' \<noteq> Some sw
         then (Inl (not_found ''that release does not belong to this software''), st)
         else and_also (tombstone w iri p st) (\<lambda>_ st. (Inr 204, st))))"

section \<open>Synchronising\<close>

definition sync_record :: "string \<Rightarrow> string" where
  "sync_record iri = iri @ ''#sync''"

definition sync_status_quads :: "endpoint_world \<Rightarrow> string \<Rightarrow> sync_status \<Rightarrow> quad list" where
  "sync_status_quads w iri s =
     finish (build [add_opt_datetime (core (writer w)) TAR ''syncedAt'' (ss_last_synced_at s),
                    add_text TAR ''syncStatus'' (ss_last_status s),
                    add_opt_text TAR ''syncError'' (ss_last_error s),
                    add_texts TAR ''syncChanged'' (ss_last_changed s)] (local_node (sync_record iri)))"

definition write_sync_status :: "endpoint_world \<Rightarrow> string \<Rightarrow> sync_status \<Rightarrow> endpoint_state \<Rightarrow> unit outcome" where
  "write_sync_status w iri s st =
     store_tx w (tx_extend (sync_status_quads w iri s)
       (fold (\<lambda>pred. replace_property (sync_record iri) (TAR @ pred) G_LOCAL) [''syncedAt'', ''syncStatus'', ''syncError'', ''syncChanged''] new_tx)) st"

text \<open>A release that is not known yet is added unless it is invalid; the versions added are returned.\<close>

fun add_releases :: "endpoint_world \<Rightarrow> principal \<Rightarrow> string \<Rightarrow> string list \<Rightarrow> release_in list \<Rightarrow> endpoint_state \<Rightarrow> string list outcome" where
  "add_releases w p sw known [] st = (Inr [], st)"
| "add_releases w p sw known (r # rs) st =
     (if rl_version r \<in> set known then add_releases w p sw known rs st
      else
        let (quads, n) = release_quads (writer w) (fresh_iri (writer w) Release (es_next st)) sw r (subject p) (Suc (es_next st));
            st' = st\<lparr>es_next := n\<rparr>
        in case enforce_write (ew_rules w) (core (writer w)) (ew_codec w) quads of
             Inl _ \<Rightarrow> add_releases w p sw known rs st'
           | Inr _ \<Rightarrow>
               and_also (store_tx w (tx_extend quads new_tx) st') (\<lambda>_ st.
               and_also (add_releases w p sw known rs st) (\<lambda>added st. (Inr (rl_version r # added), st))))"

definition import_releases ::
  "endpoint_world \<Rightarrow> principal \<Rightarrow> string \<Rightarrow> release_in list \<Rightarrow> sync_status \<Rightarrow> endpoint_state \<Rightarrow> string list outcome" where
  "import_releases w p iri releases status1 st =
     (if releases = [] then (Inr [], st)
      else and_also (checked (list_releases (views w) (es_graph st) iri) st) (\<lambda>known st.
           and_also (add_releases w p iri (map rv_version known) releases st) (\<lambda>added st.
             if added = [] then (Inr [], st)
             else and_also (write_sync_status w iri (status1\<lparr>ss_last_changed := ss_last_changed status1 @ [''releases'']\<rparr>) st) (\<lambda>_ st.
                    (Inr added, st)))))"

definition connected_record :: "endpoint_world \<Rightarrow> string \<Rightarrow> endpoint_state \<Rightarrow> app_error + software_view \<times> quad list \<times> sync_status" where
  "connected_record w iri st =
     and_then (describe_record w iri st) (\<lambda>quads.
       if quads = [] then Inl (not_found (''no software at '' @ iri))
       else and_then (load_software (views w) (es_graph st) iri) (\<lambda>v.
         case sw_sync v of
           None \<Rightarrow> Inl (bad_request (''this record is not connected to a repository '' @ [CHR 0xE2, CHR 0x80, CHR 0x94] @ '' set `sync` on it first''))
         | Some cfg \<Rightarrow>
             if \<not> ss_enabled cfg then Inl (bad_request ''sync is disabled for this record'') else Inr (v, quads, cfg)))"

definition forge_unreachable :: "string \<Rightarrow> app_error" where
  "forge_unreachable e = with_detail e (new_error 502 ''forge-unreachable'' ''Repository sync failed'')"

definition synced_status :: "endpoint_world \<Rightarrow> sync_outcome \<Rightarrow> sync_status \<Rightarrow> sync_status" where
  "synced_status w out cfg =
     cfg\<lparr>ss_last_synced_at := Some (rdf_world.rw_now w), ss_last_status := ''ok'', ss_last_error := None, ss_last_changed := sn_changed out\<rparr>"

definition failed_status :: "endpoint_world \<Rightarrow> string \<Rightarrow> sync_status \<Rightarrow> sync_status" where
  "failed_status w e cfg =
     cfg\<lparr>ss_last_synced_at := Some (rdf_world.rw_now w), ss_last_status := ''error'', ss_last_error := Some e, ss_last_changed := []\<rparr>"

definition connection_of :: "sync_status \<Rightarrow> sync_in" where
  "connection_of cfg = \<lparr>sy_source = ss_source cfg, sy_repo = ss_repo cfg, sy_fields = ss_fields cfg, sy_enabled = ss_enabled cfg\<rparr>"

text \<open>The answer: the record, what changed, the versions added, and what was skipped.\<close>

definition sync_software ::
  "endpoint_world \<Rightarrow> principal \<Rightarrow> string \<Rightarrow> endpoint_state \<Rightarrow> (software_view \<times> string list \<times> string list \<times> string list) outcome" where
  "sync_software w p ident st =
     and_also (checked (require_curator p) st) (\<lambda>_ st.
       let iri = iri_for (cx_base w) Software ident in
       and_also (checked (connected_record w iri st) st) (\<lambda>(v, quads, cfg) st.
         case sync_into (ew_forge w) (ss_repo cfg) (ss_fields cfg) (token_for (ew_env w) None) (software_in_from v) of
           Inl e \<Rightarrow> and_also (write_sync_status w iri (failed_status w e cfg) st) (\<lambda>_ st. (Inl (forge_unreachable e), st))
         | Inr (synced, out) \<Rightarrow>
             let (tx, n) = replace_software (writer w) iri (synced\<lparr>so_sync := Some (connection_of cfg)\<rparr>) (subject p)
                             (get_str (from_quads iri quads) DCT ''created'') (es_next st)
             in and_also (validated_tx w (insert_quads tx) tx (st\<lparr>es_next := n\<rparr>)) (\<lambda>_ st.
                and_also (write_sync_status w iri (synced_status w out cfg) st) (\<lambda>_ st.
                and_also (import_releases w p iri (sn_releases out) (synced_status w out cfg) st) (\<lambda>added st.
                and_also (loaded_software w iri (noted w p ''software.sync'' iri (Some (ss_repo cfg)) st)) (\<lambda>fresh st.
                  (Inr (fresh, sn_changed out @ (if added = [] then [] else [''releases'']), added, sn_skipped out), st)))))))"

section \<open>Lists\<close>

record software_filter =
  sf_q :: "string option"
  sf_license :: "string option"
  sf_publisher :: "string option"
  sf_topic :: "string option"
  sf_keyword :: "string option"
  sf_kind :: "string option"
  sf_produces :: "string option"
  sf_consumes :: "string option"
  sf_registry :: "string option"
  sf_paging :: paging

definition iri_pattern :: "string \<Rightarrow> string option \<Rightarrow> string" where
  "iri_pattern path v =
     (case non_empty v of None \<Rightarrow> [] | Some x \<Rightarrow> [NEWLINE] @ ''GRAPH ?g { ?s '' @ path @ '' <'' @ x @ ''> }'')"

definition text_pattern :: "string \<Rightarrow> string option \<Rightarrow> string" where
  "text_pattern path v =
     (case non_empty v of None \<Rightarrow> [] | Some x \<Rightarrow> [NEWLINE] @ ''GRAPH ?g { ?s '' @ path @ '' '' @ [QUOTE] @ escape_literal x @ [QUOTE] @ '' }'')"

definition registry_pattern :: "string option \<Rightarrow> string" where
  "registry_pattern r =
     (case r of
        None \<Rightarrow> []
      | Some x \<Rightarrow>
          if x = ''local'' then [NEWLINE] @ ''FILTER(?g = <'' @ G_LOCAL @ ''>)''
          else if x \<noteq> [] then [NEWLINE] @ ''FILTER(?g = <'' @ peer_graph x @ ''>)'' else [])"

definition software_where_body :: "software_filter \<Rightarrow> string" where
  "software_where_body f =
     ''GRAPH ?g { ?s a <'' @ TYPE_SOFTWARE @ ''> ; schema:name ?name . OPTIONAL { ?s dct:abstract|tar:tagline ?tagline } OPTIONAL { ?s schema:description ?desc } }''
       @ [NEWLINE] @ ''FILTER NOT EXISTS { GRAPH ?tg { ?s tar:tombstoned true } }''
       @ (case sf_q f of Some q \<Rightarrow> [NEWLINE] @ text_filter q [''?name'', ''?tagline'', ''?desc''] | None \<Rightarrow> [])
       @ iri_pattern ''dct:license'' (sf_license f) @ iri_pattern ''dct:publisher'' (sf_publisher f)
       @ iri_pattern ''dct:subject'' (sf_topic f) @ iri_pattern ''tar:hasCapability/tar:produces'' (sf_produces f)
       @ iri_pattern ''tar:hasCapability/tar:consumes'' (sf_consumes f)
       @ text_pattern ''schema:keywords'' (sf_keyword f) @ text_pattern ''schema:applicationCategory|tar:kind'' (sf_kind f)
       @ registry_pattern (sf_registry f) @ [NEWLINE] @ cursor_filter ''?s'' (sf_paging f)"

record facet_value =
  fv_value :: string
  fv_label :: "string option"
  fv_count :: nat

text \<open>The values of a path on records of the type, with how many records have them; the 25 most frequent.\<close>

definition facet_rows :: "store \<Rightarrow> string list \<Rightarrow> (rdf_term \<times> nat) list" where
  "facet_rows st path =
     (let hits = filter (\<lambda>q. q_predicate q \<in> set path \<and>
                    Node (NamedNode TYPE_SOFTWARE) \<in> set (quad_in st (q_graph q) (q_subject q) rdf_type)) st;
          counts = map (\<lambda>v. (v, length (dedup (map q_subject (filter (\<lambda>q. q_object q = v) hits))))) (dedup (map q_object hits))
      in take 25 (sort_key (\<lambda>x. - int (snd x)) counts))"

definition facet :: "read_world \<Rightarrow> store \<Rightarrow> string list \<Rightarrow> facet_value list" where
  "facet w st path =
     (let raw = map (\<lambda>(v, n). (term_value v, n)) (facet_rows st path)
      in map (\<lambda>((v, n), t). \<lparr>fv_value = v, fv_label = first_some (tr_label t) (Some (iri_tail v)), fv_count = n\<rparr>)
           (zip raw (type_refs w (map fst raw))))"

definition facets :: "read_world \<Rightarrow> store \<Rightarrow> (string \<times> facet_value list) list" where
  "facets w st =
     filter (\<lambda>f. snd f \<noteq> [])
       [(''license'', facet w st [DCT @ ''license'']),
        (''kind'', facet w st [SCHEMA @ ''applicationCategory'', TAR @ ''kind'']),
        (''topic'', facet w st [DCT @ ''subject''])]"

record 'a listing =
  ls_items :: "'a list"
  ls_total :: int
  ls_next :: "string option"
  ls_facets :: "(string \<times> facet_value list) list"

definition list_software ::
  "endpoint_world \<Rightarrow> (string \<Rightarrow> app_error + string option list) \<Rightarrow> (string \<Rightarrow> app_error + int option list) \<Rightarrow>
   software_filter \<Rightarrow> store \<Rightarrow> app_error + software_view listing" where
  "list_software w select select_count f st =
     and_then (page_iris select (software_where_body f) (sf_paging f)) (\<lambda>(iris, nxt).
     and_then (count_subjects select_count (software_where_body f)) (\<lambda>total.
     and_then (software_counts_of (views w) st None) (\<lambda>counts.
     and_then (collect_results (map (\<lambda>i. and_then (described_props (views w) st i) (\<lambda>p.
                 Inr (counted (counts i) (software_from_props (views w) st i p)))) iris)) (\<lambda>items.
       Inr \<lparr>ls_items = items, ls_total = total, ls_next = nxt, ls_facets = facets (views w) st\<rparr>))))"

section \<open>The bio.tools export\<close>

definition biotools_data :: "type_ref \<Rightarrow> json" where
  "biotools_data t = JObject [(''data'', JObject [(''uri'', JText (tr_iri t)), (''term'', opt_text (tr_label t))])]"

definition biotools_kind :: "string \<Rightarrow> string" where
  "biotools_kind k =
     (if k = ''service'' then ''Web service'' else if k = ''cli'' then ''Command-line tool''
      else if k = ''library'' then ''Library'' else if k = ''workflow'' then ''Workflow'' else ''Command-line tool'')"

definition json_list :: "('a \<Rightarrow> json) \<Rightarrow> 'a option \<Rightarrow> json" where
  "json_list f v = JArray (case v of None \<Rightarrow> [] | Some x \<Rightarrow> [f x])"

definition biotools_doc :: "software_view \<Rightarrow> json" where
  "biotools_doc s =
     JObject [(''name'', JText (sw_name s)), (''biotoolsID'', JText (sw_id s)),
       (''description'', opt_text (first_some (sw_description s) (sw_tagline s))), (''homepage'', opt_text (sw_homepage s)),
       (''toolType'', json_list (\<lambda>k. JText (biotools_kind k)) (sw_kind s)),
       (''topic'', JArray (map (\<lambda>t. JObject [(''uri'', JText (tr_iri t)), (''term'', opt_text (tr_label t))]) (sw_topics s))),
       (''function'', json_option (\<lambda>c. JArray [JObject [(''operation'', JArray []), (''input'', JArray (map biotools_data (cv_consumes c))),
          (''output'', JArray (map biotools_data (cv_produces c)))]]) (sw_capability s)),
       (''license'', opt_text (map_option iri_tail (sw_license s))),
       (''version'', json_list (\<lambda>r. JText (rv_version r)) (sw_latest_release s)),
       (''documentation'', json_list (\<lambda>d. JObject [(''url'', JText d), (''type'', JArray [JText ''General''])]) (sw_documentation s)),
       (''download'', json_list (\<lambda>i. JObject [(''url'', JText i), (''type'', JText ''Container file'')])
          (Option.bind (sw_latest_release s) rv_container_image)),
       (''link'', json_list (\<lambda>r. JObject [(''url'', JText r), (''type'', JArray [JText ''Repository''])]) (sw_code_repository s)),
       (''credit'', json_list (\<lambda>a. JObject [(''name'', opt_text (af_name a)), (''typeEntity'', JText ''Institute''),
          (''url'', opt_text (af_homepage a)), (''orcidid'', opt_text (af_identifier a))]) (sw_publisher s)),
       (''publication'', JArray (map (\<lambda>p. JObject [(''doi'', JText p)]) (sw_publications s)))]"

definition export_biotools :: "endpoint_world \<Rightarrow> string \<Rightarrow> endpoint_state \<Rightarrow> app_error + json" where
  "export_biotools w ident st =
     and_then (load_software (views w) (es_graph st) (iri_for (cx_base w) Software ident)) (\<lambda>v. Inr (biotools_doc v))"

section \<open>What a change of a record forgets\<close>

lemma api_docs_avoid:
  assumes "p \<in> set bookkeeping" "avoids p n" shows "avoids p (add_api_docs c ds n)"
  using assms(2)
proof (induction ds arbitrary: n)
  case Nil
  then show ?case by (simp add: add_api_docs_def)
next
  case (Cons d ds)
  have "TAR @ ''apiFormat'' \<noteq> p" using other_name [OF assms(1)] by (simp add: BOOKKEEPING_NAMES_def)
  with other_vocabulary [OF assms(1)] have "avoids p (api_doc_node c d)"
    unfolding api_doc_node_def build_def by (auto split: option.split intro!: avoiding)
  then have "avoids p (if trim (ad_url d) = [] then n else add_child DCAT ''endpointDescription'' (api_doc_node c d) n)"
    using Cons.prems other_vocabulary(5) [OF assms(1)] by (simp add: avoids_child)
  from Cons.IH [OF this] show ?case by (simp add: add_api_docs_def)
qed

lemma describe_software_avoids:
  assumes "p \<in> set bookkeeping" shows "avoids p (describe_software w input actor created (local_node iri))"
proof -
  note v = other_vocabulary [OF assms]
  have t: "TAR @ ''readme'' \<noteq> p" "TAR @ ''readmeBaseURL'' \<noteq> p" "TAR @ ''maturity'' \<noteq> p" "TAR @ ''deployable'' \<noteq> p"
    "TAR @ ''registrationClient'' \<noteq> p" "TAR @ ''registrationIssuer'' \<noteq> p"
    using other_name [OF assms] by (simp_all add: BOOKKEEPING_NAMES_def)
  have deployable: "avoids p ((if so_deployable input = Some False then add_boolean TAR ''deployable'' False else id) n)"
    and developed: "avoids p ((case Option.bind (so_maturity input) repostatus_iri of
               Some i \<Rightarrow> add_link (core w) CODEMETA ''developmentStatus'' i | None \<Rightarrow> id) n)"
    and issued: "avoids p ((if so_registration_clients input \<noteq> [] then add_opt_text TAR ''registrationIssuer'' (so_registration_issuer input) else id) n)"
    if "avoids p n" for n
    using that v t by (simp_all add: avoiding split: option.split)
  show ?thesis
    unfolding describe_software_def build_def fold.simps comp_apply
    by (intro avoiding deployable developed issued api_docs_avoid [OF assms] v t)
qed

lemma software_avoids:
  assumes "p \<in> set bookkeeping" "p = TAR @ ''sync'' \<longrightarrow> so_sync input = None"
  shows "never_says p (fst (software_quads w iri input actor created n))"
proof -
  have b0: "building_avoids p (describe_software w input actor created (local_node iri), [], n)"
    using describe_software_avoids [OF assms(1)] by (simp add: building_avoids_def)
  have "avoids p ((case so_sync input of Some s \<Rightarrow> add_child TAR ''sync'' (sync_node iri s) | None \<Rightarrow> id) node)" if "avoids p node" for node
  proof (cases "so_sync input")
    case (Some s)
    have "TAR @ ''syncSource'' \<noteq> p" "TAR @ ''syncRepo'' \<noteq> p" "TAR @ ''syncField'' \<noteq> p" "TAR @ ''syncEnabled'' \<noteq> p"
      using other_name [OF assms(1)] by (simp_all add: BOOKKEEPING_NAMES_def)
    with other_vocabulary [OF assms(1)] have "avoids p (sync_node iri s)"
      unfolding sync_node_def build_def by (auto intro!: avoiding)
    with Some that assms(2) show ?thesis by (auto intro!: avoiding)
  qed (use that in simp)
  then have step: "building_avoids p (on_node (case so_sync input of Some s \<Rightarrow> add_child TAR ''sync'' (sync_node iri s) | None \<Rightarrow> id) b)"
    if "building_avoids p b" for b
    using that by (cases b) (simp add: building_avoids_def on_node_def)
  note v = other_vocabulary [OF assms(1)]
  have "building_avoids p (link_capability w (so_capability input)
      (on_node (case so_sync input of Some s \<Rightarrow> add_child TAR ''sync'' (sync_node iri s) | None \<Rightarrow> id)
        (link_opt_agent w CODEMETA ''maintainer'' (so_contact input)
          (link_opt_agent w DCT ''publisher'' (so_publisher input) (describe_software w input actor created (local_node iri), [], n)))))"
    by (intro building_link_capability step building_link_agent assms(1) v b0)
  then show ?thesis by (auto simp: software_quads_def Let_def building_avoids_def intro!: never_says_finish split: prod.splits)
qed

text \<open>An accepted patch, taken apart: what was decoded, and the replaced graph.\<close>

lemma patch_software_parts:
  assumes "patch_software w p ident body st = (Inr v, st')"
  obtains input created where "require_curator p = Inr ()" "is_local (cx_base w) (iri_for (cx_base w) Software ident)"
    "merged_software w (iri_for (cx_base w) Software ident) body st = Inr (input, created)" "check_software w input = Inr ()"
    "apply_tx (rw_valid_iri w) (tx_extend (fst (software_quads (writer w) (iri_for (cx_base w) Software ident) input (subject p) created (es_next st)))
       (replace_subject (iri_for (cx_base w) Software ident) G_LOCAL new_tx)) (es_graph st) = Inr (es_graph st')"
proof -
  let ?iri = "iri_for (cx_base w) Software ident"
  from assms have "require_curator p = Inr ()" and loc: "is_local (cx_base w) ?iri"
    and rest: "and_also (checked (merged_software w ?iri body st) st) (\<lambda>(input, created) st.
            and_also (checked (check_software w input) st) (\<lambda>_ st.
              let (tx, n) = replace_software (writer w) ?iri input (subject p) created (es_next st)
              in and_also (validated_tx w (insert_quads tx) tx (st\<lparr>es_next := n\<rparr>)) (\<lambda>_ st.
                   loaded_software w ?iri (noted w p ''software.update'' ?iri None st)))) = (Inr v, st')"
    by (auto simp: patch_software_def and_also_Inr Let_def split: if_splits)
  moreover from rest obtain input created where m: "merged_software w ?iri body st = Inr (input, created)"
    and c: "check_software w input = Inr ()"
    and r: "(let (tx, n) = replace_software (writer w) ?iri input (subject p) created (es_next st)
              in and_also (validated_tx w (insert_quads tx) tx (st\<lparr>es_next := n\<rparr>)) (\<lambda>_ st.
                   loaded_software w ?iri (noted w p ''software.update'' ?iri None st))) = (Inr v, st')"
    by (auto simp: and_also_Inr)
  obtain qs n where qs: "software_quads (writer w) ?iri input (subject p) created (es_next st) = (qs, n)"
    by (cases "software_quads (writer w) ?iri input (subject p) created (es_next st)")
  from r have "apply_tx (rw_valid_iri w) (tx_extend qs (replace_subject ?iri G_LOCAL new_tx)) (es_graph st) = Inr (es_graph st')"
    by (auto simp: replace_software_def qs and_also_Inr validated_tx_Inr store_tx_Inr loaded_software_def)
  ultimately show ?thesis using m c qs by (intro that) auto
qed

end
