(* ===== verification/Software_Patch.thy ===== *)
theory Software_Patch
  imports Software_Api
begin

text \<open>
  What the software endpoints keep and forget (src/src/api/software.rs): the members of a record that a
  patch leaves alone, the connection and the withdrawal it drops, the versions a synchronisation brings
  back, and the filters of the list.
\<close>

section \<open>What a patch keeps\<close>

text \<open>A field that was read from a member which the encoder wrote holds the value it was written from.\<close>

lemma field_kept:
  "map_of ms k = Some (JText x) \<Longrightarrow> required dec_text k (map_of ms) = Some v \<Longrightarrow> v = x"
  "map_of ms k = Some (opt_text t) \<Longrightarrow> text_field k (map_of ms) = Some tv \<Longrightarrow> tv = t"
  "map_of ms k = Some (json_texts xs) \<Longrightarrow> texts_field k (map_of ms) = Some vs \<Longrightarrow> vs = xs"
  by (simp_all add: required_def defaulted_def json_texts_def)

lemma option_field_kept:
  assumes "\<And>x. d (f x) = Some x" "\<And>x. f x \<noteq> JNull" "map_of ms k = Some (json_option f u)" "opt_field d k (map_of ms) = Some v"
  shows "v = u"
  using assms by (cases u) (simp_all add: defaulted_def dec_option_def json_option_def)

lemma api_doc_round [simp]: "api_doc_of_json (api_doc_json d) = Some d"
proof -
  have "text_field ''title'' (map_of (skip_none ''title'' t @ skip_none ''description'' u)) = Some t"
    "text_field ''description'' (map_of (skip_none ''title'' t @ skip_none ''description'' u)) = Some u" for t u
    unfolding map_of_skip_none
    by (cases t; cases u; simp add: text_field_present defaulted_def dec_option_def del: map_of_append; simp add: map_of_skip_none)+
  then show ?thesis
    by (cases d) (simp add: api_doc_of_json_def api_doc_json_def struct_fields_def required_def defaulted_def del: map_of_append)
qed

lemma docs_field_kept:
  "map_of ms k = Some (JArray (map api_doc_json ds)) \<Longrightarrow> defaulted [] (dec_list api_doc_of_json) k (map_of ms) = Some v \<Longrightarrow> v = ds"
  by (simp add: defaulted_def dec_list_def comp_def)

lemma sync_round [simp]: "sync_in_of_json (sync_in_json s) = Some s"
  by (cases s) (simp add: sync_in_of_json_def sync_in_json_def struct_fields_def required_def defaulted_def json_texts_def dec_bool_def)

lemma encoded_objects [simp]: "agent_in_json a \<noteq> JNull" "capability_in_json c \<noteq> JNull" "sync_in_json s \<noteq> JNull" "JBool b \<noteq> JNull"
  by (simp_all add: agent_in_json_def capability_in_json_def sync_in_json_def)

lemma bool_round [simp]: "dec_bool (JBool b) = Some b"
  by (simp add: dec_bool_def)

lemma decoded_software:
  assumes "software_in_of_json (JObject ms) = Some j"
  shows "required dec_text ''name'' (map_of ms) = Some (so_name j) \<and>
    text_field ''tagline'' (map_of ms) = Some (so_tagline j) \<and>
    text_field ''description'' (map_of ms) = Some (so_description j) \<and>
    text_field ''homepage'' (map_of ms) = Some (so_homepage j) \<and>
    text_field ''code_repository'' (map_of ms) = Some (so_code_repository j) \<and>
    text_field ''documentation'' (map_of ms) = Some (so_documentation j) \<and>
    text_field ''download_url'' (map_of ms) = Some (so_download_url j) \<and>
    text_field ''image'' (map_of ms) = Some (so_image j) \<and>
    text_field ''readme'' (map_of ms) = Some (so_readme j) \<and>
    text_field ''readme_base_url'' (map_of ms) = Some (so_readme_base_url j) \<and>
    text_field ''registration_issuer'' (map_of ms) = Some (so_registration_issuer j) \<and>
    text_field ''license'' (map_of ms) = Some (so_license j) \<and>
    text_field ''kind'' (map_of ms) = Some (so_kind j) \<and>
    text_field ''maturity'' (map_of ms) = Some (so_maturity j) \<and>
    texts_field ''screenshots'' (map_of ms) = Some (so_screenshots j) \<and>
    texts_field ''registration_clients'' (map_of ms) = Some (so_registration_clients j) \<and>
    texts_field ''kinds'' (map_of ms) = Some (so_kinds j) \<and>
    texts_field ''topics'' (map_of ms) = Some (so_topics j) \<and>
    texts_field ''keywords'' (map_of ms) = Some (so_keywords j) \<and>
    texts_field ''publications'' (map_of ms) = Some (so_publications j) \<and>
    defaulted [] (dec_list api_doc_of_json) ''api_docs'' (map_of ms) = Some (so_api_docs j) \<and>
    opt_field dec_bool ''deployable'' (map_of ms) = Some (so_deployable j) \<and>
    opt_field agent_in_of_json ''publisher'' (map_of ms) = Some (so_publisher j) \<and>
    opt_field agent_in_of_json ''contact'' (map_of ms) = Some (so_contact j) \<and>
    opt_field capability_in_of_json ''capability'' (map_of ms) = Some (so_capability j) \<and>
    opt_field sync_in_of_json ''sync'' (map_of ms) = Some (so_sync j)"
  by (insert assms, unfold software_in_of_json_def struct_fields_def json.case field_Some, elim fieldE, drule option.inject [THEN iffD1], hypsubst, unfold software_in.select_convs, intro conjI; assumption)

lemmas kept =
  field_kept docs_field_kept option_field_kept [of dec_bool JBool, OF bool_round encoded_objects(4)]
  option_field_kept [of agent_in_of_json agent_in_json, OF agent_in_json_round encoded_objects(1)]
  option_field_kept [of capability_in_of_json capability_in_json, OF capability_in_json_round encoded_objects(2)]
  option_field_kept [of sync_in_of_json sync_in_json, OF sync_round encoded_objects(3)]

lemma member_values:
  "map_of (software_members s) ''name'' = Some (JText (so_name s))"
  "map_of (software_members s) ''tagline'' = Some (opt_text (so_tagline s))"
  "map_of (software_members s) ''description'' = Some (opt_text (so_description s))"
  "map_of (software_members s) ''homepage'' = Some (opt_text (so_homepage s))"
  "map_of (software_members s) ''code_repository'' = Some (opt_text (so_code_repository s))"
  "map_of (software_members s) ''documentation'' = Some (opt_text (so_documentation s))"
  "map_of (software_members s) ''download_url'' = Some (opt_text (so_download_url s))"
  "map_of (software_members s) ''image'' = Some (opt_text (so_image s))"
  "map_of (software_members s) ''readme'' = Some (opt_text (so_readme s))"
  "map_of (software_members s) ''readme_base_url'' = Some (opt_text (so_readme_base_url s))"
  "map_of (software_members s) ''registration_issuer'' = Some (opt_text (so_registration_issuer s))"
  "map_of (software_members s) ''license'' = Some (opt_text (so_license s))"
  "map_of (software_members s) ''maturity'' = Some (opt_text (so_maturity s))"
  "map_of (software_members s) ''screenshots'' = Some (json_texts (so_screenshots s))"
  "map_of (software_members s) ''registration_clients'' = Some (json_texts (so_registration_clients s))"
  "map_of (software_members s) ''kinds'' = Some (json_texts (so_kinds s))"
  "map_of (software_members s) ''topics'' = Some (json_texts (so_topics s))"
  "map_of (software_members s) ''keywords'' = Some (json_texts (so_keywords s))"
  "map_of (software_members s) ''publications'' = Some (json_texts (so_publications s))"
  "map_of (software_members s) ''api_docs'' = Some (JArray (map api_doc_json (so_api_docs s)))"
  "map_of (software_members s) ''deployable'' = Some (json_option JBool (so_deployable s))"
  "map_of (software_members s) ''publisher'' = Some (json_option agent_in_json (so_publisher s))"
  "map_of (software_members s) ''contact'' = Some (json_option agent_in_json (so_contact s))"
  "map_of (software_members s) ''capability'' = Some (json_option capability_in_json (so_capability s))"
  "map_of (software_members s) ''sync'' = Some (json_option sync_in_json (so_sync s))"
  by (simp_all add: software_members_def)

lemma silent_member:
  assumes "software_in_of_json (JObject ms) = Some j" "map_of ms k = map_of (software_members i) k"
    and k: "k \<in> set SOFTWARE_FIELDS" "k \<noteq> ''kind''"
  shows "map_of (software_members j) k = map_of (software_members i) k"
  by (insert k(1), unfold SOFTWARE_FIELDS_def list.set, elim insertE emptyE;
      (erule notE [OF k(2)] | insert decoded_software [OF assms(1)] assms(2), elim conjE, hypsubst, simp only: member_values, drule (1) kept, simp only:))

text \<open>The record that a patch starts from reads back as it was written.\<close>

lemma field_reads:
  "map_of ms k = Some (JText x) \<Longrightarrow> required dec_text k (map_of ms) = Some x"
  "map_of ms k = Some (opt_text t) \<Longrightarrow> text_field k (map_of ms) = Some t"
  "map_of ms k = Some (json_texts xs) \<Longrightarrow> texts_field k (map_of ms) = Some xs"
  "map_of ms k = Some (JArray (map api_doc_json ds)) \<Longrightarrow> defaulted [] (dec_list api_doc_of_json) k (map_of ms) = Some ds"
  "map_of ms k = None \<Longrightarrow> text_field k (map_of ms) = Some None"
  by (simp_all add: required_def defaulted_def json_texts_def dec_list_def comp_def)

lemma option_field_reads:
  assumes "\<And>x. d (f x) = Some x" "\<And>x. f x \<noteq> JNull" "map_of ms k = Some (json_option f u)"
  shows "opt_field d k (map_of ms) = Some u"
  using assms by (cases u) (simp_all add: defaulted_def dec_option_def json_option_def)

lemma no_kind_member: "map_of (software_members s) ''kind'' = None"
  by (simp add: software_members_def)

lemma software_members_read:
  assumes "so_kind i = None" shows "software_in_of_json (JObject (software_members i)) = Some i"
  unfolding software_in_of_json_def struct_fields_def json.case field_Some
  by (simp only: field_reads member_values field_Some no_kind_member
      option_field_reads [of dec_bool JBool, OF bool_round encoded_objects(4)]
      option_field_reads [of agent_in_of_json agent_in_json, OF agent_in_json_round encoded_objects(1)]
      option_field_reads [of capability_in_of_json capability_in_json, OF capability_in_json_round encoded_objects(2)]
      option_field_reads [of sync_in_of_json sync_in_json, OF sync_round encoded_objects(3)]) (simp add: assms)

section \<open>Patching\<close>

lemma merged_software_parts:
  assumes "merged_software w iri body st = Inr (input, created)"
  obtains view where "load_software (views w) (es_graph st) iri = Inr view"
    "software_in_of_json (merge_json (software_in_json (software_in_from view)) body) = Some input"
  using assms unfolding merged_software_def
  by (auto simp: and_then_eq_Inr decoded_def split: if_splits option.splits)

lemma merged_silent_member:
  assumes "software_in_of_json (merge_json (software_in_json cur) (JObject ms)) = Some input" "distinct (map fst ms)"
    and k: "k \<in> set SOFTWARE_FIELDS" "k \<noteq> ''kind''" "k \<notin> fst ` set ms"
  shows "map_of (software_members input) k = map_of (software_members cur) k"
proof -
  have none: "map_of ms k = None" using k(3) by (simp add: map_of_eq_None_iff)
  show ?thesis
    using assms(1) silent_member [of "merge_members (software_members cur) ms" input k cur] k(1,2)
    by (simp add: software_in_json_def map_of_merge_members [OF assms(2)] merged_member_silent [OF none])
qed

lemma written_members [simp]:
  "opt_text t = opt_text u \<longleftrightarrow> t = u"
  "json_texts xs = json_texts ys \<longleftrightarrow> xs = ys"
  "json_option JBool b = json_option JBool c \<longleftrightarrow> b = c"
  "json_option agent_in_json p = json_option agent_in_json q \<longleftrightarrow> p = q"
  "json_option capability_in_json d = json_option capability_in_json e \<longleftrightarrow> d = e"
  "map api_doc_json ds = map api_doc_json es \<longleftrightarrow> ds = es"
proof -
  have inj: "x = y" if "f x = f y" "\<And>x. d (f x) = Some x" for f :: "'x \<Rightarrow> json" and d :: "json \<Rightarrow> 'x option" and x y
    by (metis that option.inject)
  show "opt_text t = opt_text u \<longleftrightarrow> t = u" by (cases t; cases u) (auto simp: opt_text_def)
  show "json_texts xs = json_texts ys \<longleftrightarrow> xs = ys" by (auto simp: json_texts_def inj_map_eq_map inj_def)
  show "json_option JBool b = json_option JBool c \<longleftrightarrow> b = c"
    by (cases b; cases c) (auto simp: json_option_def)
  show "json_option agent_in_json p = json_option agent_in_json q \<longleftrightarrow> p = q"
    by (cases p; cases q) (auto simp: json_option_def encoded_objects [THEN not_sym] dest: inj [OF _ agent_in_json_round])
  show "json_option capability_in_json d = json_option capability_in_json e \<longleftrightarrow> d = e"
    by (cases d; cases e) (auto simp: json_option_def encoded_objects [THEN not_sym] dest: inj [OF _ capability_in_json_round])
  have "inj api_doc_json" by (rule injI) (rule inj [OF _ api_doc_round])
  then show "map api_doc_json ds = map api_doc_json es \<longleftrightarrow> ds = es" by (simp add: inj_map_eq_map)
qed

text \<open>Every field of the merged record whose member the body does not name, but the connection.\<close>

lemma merged_silent_fields:
  assumes "software_in_of_json (merge_json (software_in_json cur) (JObject ms)) = Some i" "distinct (map fst ms)"
  defines "silent \<equiv> \<lambda>k. k \<notin> fst ` set ms"
  shows "(silent ''name'' \<longrightarrow> so_name i = so_name cur) \<and> (silent ''tagline'' \<longrightarrow> so_tagline i = so_tagline cur)
     \<and> (silent ''description'' \<longrightarrow> so_description i = so_description cur) \<and> (silent ''homepage'' \<longrightarrow> so_homepage i = so_homepage cur)
     \<and> (silent ''code_repository'' \<longrightarrow> so_code_repository i = so_code_repository cur)
     \<and> (silent ''documentation'' \<longrightarrow> so_documentation i = so_documentation cur)
     \<and> (silent ''download_url'' \<longrightarrow> so_download_url i = so_download_url cur) \<and> (silent ''image'' \<longrightarrow> so_image i = so_image cur)
     \<and> (silent ''screenshots'' \<longrightarrow> so_screenshots i = so_screenshots cur) \<and> (silent ''readme'' \<longrightarrow> so_readme i = so_readme cur)
     \<and> (silent ''readme_base_url'' \<longrightarrow> so_readme_base_url i = so_readme_base_url cur)
     \<and> (silent ''api_docs'' \<longrightarrow> so_api_docs i = so_api_docs cur)
     \<and> (silent ''registration_clients'' \<longrightarrow> so_registration_clients i = so_registration_clients cur)
     \<and> (silent ''registration_issuer'' \<longrightarrow> so_registration_issuer i = so_registration_issuer cur)
     \<and> (silent ''license'' \<longrightarrow> so_license i = so_license cur) \<and> (silent ''kinds'' \<longrightarrow> so_kinds i = so_kinds cur)
     \<and> (silent ''maturity'' \<longrightarrow> so_maturity i = so_maturity cur) \<and> (silent ''deployable'' \<longrightarrow> so_deployable i = so_deployable cur)
     \<and> (silent ''topics'' \<longrightarrow> so_topics i = so_topics cur) \<and> (silent ''keywords'' \<longrightarrow> so_keywords i = so_keywords cur)
     \<and> (silent ''publisher'' \<longrightarrow> so_publisher i = so_publisher cur) \<and> (silent ''contact'' \<longrightarrow> so_contact i = so_contact cur)
     \<and> (silent ''publications'' \<longrightarrow> so_publications i = so_publications cur)
     \<and> (silent ''capability'' \<longrightarrow> so_capability i = so_capability cur)"
proof -
  have m: "silent k \<Longrightarrow> k \<noteq> ''kind'' \<Longrightarrow> k \<in> set SOFTWARE_FIELDS \<Longrightarrow> map_of (software_members i) k = map_of (software_members cur) k" for k
    using merged_silent_member [OF assms(1,2)] by (simp add: silent_def)
  show ?thesis
    by (intro conjI impI; drule m; (simp add: SOFTWARE_FIELDS_def; fail)?; simp add: member_values)
qed

text \<open>
  C16. A field that the body of an accepted patch does not name keeps the value the record is read with:
  the record's own statements afterwards are the ones written for an input that has the old value
  in each such field. (The connection to a repository is the exception that the next property states, and
  the old spelling \<open>kind\<close> of the kinds is a member of the body only.)
\<close>

theorem patch_keeps_silent_fields:
  assumes "patch_software w p ident (JObject ms) st = (Inr v', st')" "distinct (map fst ms)"
    and "load_software (views w) (es_graph st) (iri_for (cx_base w) Software ident) = Inr v"
  defines "silent \<equiv> \<lambda>k. k \<notin> fst ` set ms" and "iri \<equiv> iri_for (cx_base w) Software ident"
  shows "\<exists>i created.
     (\<forall>q. q_subject q = NamedNode iri \<and> q_graph q = G_LOCAL \<longrightarrow>
        (q \<in> set (es_graph st') \<longleftrightarrow> q \<in> set (fst (software_quads (writer w) iri i (subject p) created (es_next st)))))
     \<and> (silent ''name'' \<longrightarrow> so_name i = sw_name v) \<and> (silent ''tagline'' \<longrightarrow> so_tagline i = sw_tagline v)
     \<and> (silent ''description'' \<longrightarrow> so_description i = sw_description v) \<and> (silent ''homepage'' \<longrightarrow> so_homepage i = sw_homepage v)
     \<and> (silent ''code_repository'' \<longrightarrow> so_code_repository i = sw_code_repository v)
     \<and> (silent ''documentation'' \<longrightarrow> so_documentation i = sw_documentation v)
     \<and> (silent ''download_url'' \<longrightarrow> so_download_url i = sw_download_url v) \<and> (silent ''image'' \<longrightarrow> so_image i = sw_image v)
     \<and> (silent ''screenshots'' \<longrightarrow> so_screenshots i = sw_screenshots v) \<and> (silent ''readme'' \<longrightarrow> so_readme i = sw_readme v)
     \<and> (silent ''readme_base_url'' \<longrightarrow> so_readme_base_url i = sw_readme_base_url v)
     \<and> (silent ''api_docs'' \<longrightarrow> so_api_docs i = sw_api_docs v)
     \<and> (silent ''registration_clients'' \<longrightarrow> so_registration_clients i = sw_registration_clients v)
     \<and> (silent ''registration_issuer'' \<longrightarrow> so_registration_issuer i = sw_registration_issuer v)
     \<and> (silent ''license'' \<longrightarrow> so_license i = sw_license v) \<and> (silent ''kinds'' \<longrightarrow> so_kinds i = sw_kinds v)
     \<and> (silent ''maturity'' \<longrightarrow> so_maturity i = sw_maturity v) \<and> (silent ''deployable'' \<longrightarrow> so_deployable i = Some (sw_deployable v))
     \<and> (silent ''topics'' \<longrightarrow> so_topics i = map tr_iri (sw_topics v)) \<and> (silent ''keywords'' \<longrightarrow> so_keywords i = sw_keywords v)
     \<and> (silent ''publisher'' \<longrightarrow> so_publisher i = map_option agent_in_from (sw_publisher v))
     \<and> (silent ''contact'' \<longrightarrow> so_contact i = map_option agent_in_from (sw_contact v))
     \<and> (silent ''publications'' \<longrightarrow> so_publications i = sw_publications v)
     \<and> (silent ''capability'' \<longrightarrow> so_capability i = map_option capability_in_from (sw_capability v))"
proof -
  from assms(1) obtain i created where m: "merged_software w iri (JObject ms) st = Inr (i, created)"
    and tx: "apply_tx (rw_valid_iri w) (tx_extend (fst (software_quads (writer w) iri i (subject p) created (es_next st)))
       (replace_subject iri G_LOCAL new_tx)) (es_graph st) = Inr (es_graph st')"
    unfolding iri_def by (elim patch_software_parts)
  from m assms(3) have "software_in_of_json (merge_json (software_in_json (software_in_from v)) (JObject ms)) = Some i"
    by (metis iri_def merged_software_parts sum.inject(2))
  from merged_silent_fields [OF this assms(2)] show ?thesis
    unfolding silent_def
    by (intro exI [of _ i] exI [of _ created] conjI allI impI replaced_record [OF tx])
      (simp_all add: software_in_from_def)
qed

lemma no_sync_member: "map_of (software_members i) ''sync'' = Some JNull \<longleftrightarrow> so_sync i = None"
  by (cases "so_sync i") (simp_all add: member_values json_option_def)

lemma current_has_no_sync [simp]: "so_sync (software_in_from v) = None"
  by (simp add: software_in_from_def)

text \<open>
  C17. Any accepted patch takes a withdrawal of the record back, and one that does not name the sync
  connection removes the connection: the record's local statements afterwards have neither.
\<close>

theorem patch_forgets_connection_and_withdrawal:
  assumes "patch_software w p ident body st = (Inr v, st')"
    and "q \<in> set (es_graph st')" "q_subject q = NamedNode (iri_for (cx_base w) Software ident)" "q_graph q = G_LOCAL"
  shows "q_predicate q \<noteq> TAR @ ''tombstoned''
     \<and> (\<forall>ms. body = JObject ms \<and> distinct (map fst ms) \<and> ''sync'' \<notin> fst ` set ms \<longrightarrow> q_predicate q \<noteq> TAR @ ''sync'')"
proof -
  let ?iri = "iri_for (cx_base w) Software ident"
  from assms(1) obtain input created where m: "merged_software w ?iri body st = Inr (input, created)"
    and tx: "apply_tx (rw_valid_iri w) (tx_extend (fst (software_quads (writer w) ?iri input (subject p) created (es_next st)))
       (replace_subject ?iri G_LOCAL new_tx)) (es_graph st) = Inr (es_graph st')"
    by (elim patch_software_parts)
  have q: "q \<in> set (fst (software_quads (writer w) ?iri input (subject p) created (es_next st)))"
    using replaced_record [OF tx assms(3,4)] assms(2) by simp
  have avoided: "q_predicate q \<noteq> p'" if "p' \<in> set bookkeeping" "p' = TAR @ ''sync'' \<longrightarrow> so_sync input = None" for p'
    using software_avoids [OF that] q by (auto simp: never_says_def)
  from m obtain view where dec: "software_in_of_json (merge_json (software_in_json (software_in_from view)) body) = Some input"
    by (elim merged_software_parts)
  show ?thesis
  proof (intro conjI allI impI)
    show "q_predicate q \<noteq> TAR @ ''tombstoned''"
      by (rule avoided) (simp_all add: bookkeeping_def BOOKKEEPING_NAMES_def)
    fix ms
    assume ms: "body = JObject ms \<and> distinct (map fst ms) \<and> ''sync'' \<notin> fst ` set ms"
    with dec have "map_of (software_members input) ''sync'' = map_of (software_members (software_in_from view)) ''sync''"
      by (intro merged_silent_member [of _ ms]) (auto simp: SOFTWARE_FIELDS_def)
    then have "so_sync input = None"
      using no_sync_member [of input] no_sync_member [of "software_in_from view"] by simp
    then show "q_predicate q \<noteq> TAR @ ''sync''"
      by (intro avoided) (simp_all add: bookkeeping_def BOOKKEEPING_NAMES_def)
  qed
qed

text \<open>A curator of a small registry sends a patch that names nothing for a withdrawn record connected to a repository.\<close>

definition demo_endpoints :: endpoint_world where
  "demo_endpoints =
     \<lparr>rw_valid_iri = (\<lambda>s. prefix ''http'' s \<or> prefix ''urn:'' s), rw_datetime = Some, rw_now = ''2026-01-01T00:00:00Z'', rw_show = term_value,
      cx_base = ''https://r.org'', cx_peers = [], cx_type_rows = (\<lambda>_. []), cx_label_rows = (\<lambda>_. Some []), cx_time = (\<lambda>_. None),
      cx_json = (\<lambda>_. None), cx_recent = (\<lambda>_. False), cx_query_error = [], dw_max = (\<lambda>_. None), dw_sum = (\<lambda>_. None),
      ew_fresh = show_nat, ew_codec = demo_codec, ew_unicode = (\<lambda>_. []), ew_rules = demo_rules,
      ew_oidc = \<lparr>oidc_issuer = None, client_id = None, client_secret = None, workload_issuers = [], audience = None,
        require_audience = False, client_claim = ''azp'', roles_claim = ''roles'', scope_claim = ''scope'',
        auto_register_instances = False, dev_insecure = False\<rparr>,
      ew_now = 0, ew_forge = demo_forge, ew_env = (\<lambda>_. None), ew_decode_error = (\<lambda>_. [])\<rparr>"

definition demo_curator :: principal where
  "demo_curator = \<lparr>credential = OidcHuman, instance_iri = None, software_iri = None, subject = ''alice'', display_name = None,
     scopes = {}, roles = {Curator}, issuer = None\<rparr>"

definition demo_records :: endpoint_state where
  "demo_records = \<lparr>es_graph = fst (software_quads (writer demo_endpoints) ''https://r.org/software/1''
      (demo_software\<lparr>so_sync := Some \<lparr>sy_source = ''github'', sy_repo = ''a/b'', sy_fields = [''tagline''], sy_enabled = True\<rparr>\<rparr>)
      ''alice'' None 0) @ tombstone_quads demo_endpoints ''https://r.org/software/1'' ''alice'', es_audit = [], es_next = 0\<rparr>"

definition demo_current :: software_in where
  "demo_current = demo_software\<lparr>so_deployable := Some True\<rparr>"

definition demo_change :: graph_tx where
  "demo_change = fst (replace_software (writer demo_endpoints) ''https://r.org/software/1'' demo_current ''alice'' (Some ''2026-01-01T00:00:00Z'') 0)"

lemma demo_described:
  "case describe_record demo_endpoints ''https://r.org/software/1'' demo_records of
     Inr qs \<Rightarrow> qs \<noteq> [] \<and> get_str (from_quads ''https://r.org/software/1'' qs) DCT ''created'' = Some ''2026-01-01T00:00:00Z'' | Inl _ \<Rightarrow> False"
  by code_simp

lemma demo_loaded:
  "case load_software (views demo_endpoints) (es_graph demo_records) ''https://r.org/software/1'' of
     Inr v \<Rightarrow> software_in_from v = demo_current | Inl _ \<Rightarrow> False"
  by code_simp

lemma demo_merged:
  "merged_software demo_endpoints ''https://r.org/software/1'' (JObject []) demo_records = Inr (demo_current, Some ''2026-01-01T00:00:00Z'')"
proof -
  have "software_in_of_json (software_in_json demo_current) = Some demo_current"
    by (simp add: software_in_json_def software_members_read demo_current_def demo_software_def)
  with demo_described demo_loaded show ?thesis
    by (auto simp: merged_software_def and_then_eq_Inr decoded_def software_in_json_def split: sum.splits)
qed

lemma demo_change_passes: "\<exists>r. enforce_write demo_rules (core (writer demo_endpoints)) demo_codec (insert_quads demo_change) = Inr r"
proof -
  have "case enforce_write demo_rules (core (writer demo_endpoints)) demo_codec (insert_quads demo_change) of Inr r \<Rightarrow> True | Inl _ \<Rightarrow> False"
    by code_simp
  then show ?thesis by (auto split: sum.splits)
qed

lemma demo_change_applies:
  "\<exists>g v. apply_tx (rw_valid_iri demo_endpoints) demo_change (es_graph demo_records) = Inr g \<and>
     load_software (views demo_endpoints) g ''https://r.org/software/1'' = Inr v"
proof -
  have "case apply_tx (rw_valid_iri demo_endpoints) demo_change (es_graph demo_records) of Inr g \<Rightarrow>
      (case load_software (views demo_endpoints) g ''https://r.org/software/1'' of Inr v \<Rightarrow> True | Inl _ \<Rightarrow> False) | Inl _ \<Rightarrow> False"
    by code_simp
  then show ?thesis by (auto split: sum.splits)
qed

lemma demo_may: "require_curator demo_curator = Inr ()" "subject demo_curator = ''alice''"
  by (simp_all add: demo_curator_def require_curator_def require_authenticated_def is_curator_def is_anonymous_def)

lemma demo_patch_accepted:
  "\<exists>v st'. patch_software demo_endpoints demo_curator ''1'' (JObject []) demo_records = (Inr v, st')"
proof -
  let ?i = "''https://r.org/software/1''"
  have iri: "iri_for (cx_base demo_endpoints) Software ''1'' = ?i" "is_local (cx_base demo_endpoints) ?i" by code_simp+
  have check: "check_software demo_endpoints demo_current = Inr ()"
    by (simp add: check_software_def check_registration_binding_def demo_current_def demo_software_def)
  have "es_next demo_records = 0" by (simp add: demo_records_def)
  then obtain n where n: "replace_software (writer demo_endpoints) ?i demo_current ''alice'' (Some ''2026-01-01T00:00:00Z'') (es_next demo_records)
      = (demo_change, n)"
    by (metis demo_change_def prod.collapse)
  have rules: "ew_rules demo_endpoints = demo_rules" "ew_codec demo_endpoints = demo_codec" by (simp_all add: demo_endpoints_def)
  from demo_change_applies obtain g v where g: "apply_tx (rw_valid_iri demo_endpoints) demo_change (es_graph demo_records) = Inr g"
    and v: "load_software (views demo_endpoints) g ?i = Inr v" by blast
  have tx: "validated_tx demo_endpoints (insert_quads demo_change) demo_change (demo_records\<lparr>es_next := n\<rparr>)
      = (Inr (), demo_records\<lparr>es_next := n, es_graph := g\<rparr>)"
    using demo_change_passes g by (simp add: validated_tx_Inr store_tx_Inr rules)
  show ?thesis
    by (simp add: patch_software_def iri demo_may and_also_def checked_def demo_merged check n tx loaded_software_def v)
qed

text \<open>The record named its connection and was withdrawn before, and is neither after the patch.\<close>

definition own_statements :: "string \<Rightarrow> store \<Rightarrow> quad list" where
  "own_statements p g = filter (\<lambda>q. q_predicate q = TAR @ p \<and> q_subject q = NamedNode ''https://r.org/software/1'' \<and> q_graph q = G_LOCAL) g"

lemma demo_connected: "own_statements ''sync'' (es_graph demo_records) \<noteq> [] \<and> own_statements ''tombstoned'' (es_graph demo_records) \<noteq> []"
  by code_simp

theorem patch_forgets_connection_and_withdrawal_witness:
  "own_statements ''sync'' (es_graph demo_records) \<noteq> [] \<and> own_statements ''tombstoned'' (es_graph demo_records) \<noteq> [] \<and>
   (let after = es_graph (snd (patch_software demo_endpoints demo_curator ''1'' (JObject []) demo_records))
    in own_statements ''sync'' after = [] \<and> own_statements ''tombstoned'' after = [])"
proof -
  from demo_patch_accepted obtain v st' where ok: "patch_software demo_endpoints demo_curator ''1'' (JObject []) demo_records = (Inr v, st')"
    by blast
  have "iri_for (cx_base demo_endpoints) Software ''1'' = ''https://r.org/software/1''" by code_simp
  then have "own_statements ''sync'' (es_graph st') = []" "own_statements ''tombstoned'' (es_graph st') = []"
    using patch_forgets_connection_and_withdrawal [OF ok] by (auto simp: own_statements_def filter_empty_conv)
  with ok demo_connected show ?thesis by simp
qed

theorem patch_keeps_silent_fields_witness:
  "\<exists>v st' i created. patch_software demo_endpoints demo_curator ''1'' (JObject []) demo_records = (Inr v, st') \<and>
     so_name i = so_name demo_software \<and>
     {q \<in> set (es_graph st'). q_subject q = NamedNode ''https://r.org/software/1'' \<and> q_graph q = G_LOCAL} =
     {q \<in> set (fst (software_quads (writer demo_endpoints) ''https://r.org/software/1'' i (subject demo_curator) created (es_next demo_records))).
        q_subject q = NamedNode ''https://r.org/software/1'' \<and> q_graph q = G_LOCAL}"
proof -
  from demo_patch_accepted obtain v st' where ok: "patch_software demo_endpoints demo_curator ''1'' (JObject []) demo_records = (Inr v, st')"
    by blast
  have iri: "iri_for (cx_base demo_endpoints) Software ''1'' = ''https://r.org/software/1''" by code_simp
  from demo_loaded obtain u where u: "load_software (views demo_endpoints) (es_graph demo_records) ''https://r.org/software/1'' = Inr u"
    and cur: "software_in_from u = demo_current"
    by (auto split: sum.splits)
  have "so_name (software_in_from u) = so_name demo_current" by (simp only: cur)
  then have "sw_name u = so_name demo_software" by (simp add: software_in_from_def demo_current_def)
  note kept = patch_keeps_silent_fields [OF ok, unfolded iri, OF _ u]
  have "\<exists>i created. so_name i = sw_name u \<and>
     (\<forall>q. q_subject q = NamedNode ''https://r.org/software/1'' \<and> q_graph q = G_LOCAL \<longrightarrow>
        (q \<in> set (es_graph st') \<longleftrightarrow>
         q \<in> set (fst (software_quads (writer demo_endpoints) ''https://r.org/software/1'' i (subject demo_curator) created (es_next demo_records)))))"
    by (insert kept, elim meta_impE exE conjE, simp, intro exI conjI, erule mp, simp, assumption)
  with ok \<open>sw_name u = so_name demo_software\<close> show ?thesis by fastforce
qed

section \<open>Withdrawing\<close>

lemma tombstone_quads_state:
  "\<lparr>q_subject = NamedNode iri, q_predicate = TAR @ ''tombstoned'', q_object = Literal ''true'' (XSD @ ''boolean'') None, q_graph = G_LOCAL\<rparr>
     \<in> set (tombstone_quads w iri actor)"
proof -
  have keep: "set (rn_quads n) \<subseteq> set (rn_quads (add_datetime c ns l x n))" "set (rn_quads n) \<subseteq> set (rn_quads (add_link c ns l y n))" for c ns l x y n
    by (auto simp: add_datetime_def add_link_def add_text_def push_quad_def split: option.split)
  show ?thesis
    unfolding tombstone_quads_def build_def finish_def fold.simps comp_apply id_apply
    by (rule subsetD [OF keep(2)], rule subsetD [OF keep(2)], rule subsetD [OF keep(1)])
       (simp add: add_boolean_def push_quad_def local_node_def iri_node_def)
qed

lemma tombstone_states:
  assumes "tombstone w iri p st = (Inr u, st')" shows "is_tombstoned (es_graph st') (NamedNode iri)"
proof -
  from assms have "apply_tx (rw_valid_iri w) (tx_extend (tombstone_quads w iri (subject p)) new_tx) (es_graph st) = Inr (es_graph st')"
    by (auto simp: tombstone_def and_also_Inr store_tx_Inr split: if_splits)
  from applied_inserts [OF this] tombstone_quads_state [of iri w "subject p"] show ?thesis
    unfolding is_tombstoned_def by force
qed

text \<open>
  A record this registry is not authoritative for is refused a change, and can be withdrawn here
  all the same: the statement lands in the local graph.
\<close>

theorem withdrawal_ignores_authority:
  assumes "require_curator p = Inr ()" "\<not> is_local (cx_base w) (iri_for (cx_base w) Software ident)"
    and "soft_delete_software w p ident st = (Inr c, st')"
  shows "patch_software w p ident body st = (Inl not_authoritative, st) \<and> is_tombstoned (es_graph st') (NamedNode (iri_for (cx_base w) Software ident))"
proof
  show "patch_software w p ident body st = (Inl not_authoritative, st)"
    using assms(1,2) by (simp add: patch_software_def and_also_def checked_def)
  from assms(3) obtain u where "tombstone w (iri_for (cx_base w) Software ident) p st = (Inr u, st')"
    by (auto simp: soft_delete_software_def and_also_Inr)
  then show "is_tombstoned (es_graph st') (NamedNode (iri_for (cx_base w) Software ident))"
    by (rule tombstone_states)
qed

text \<open>A record of another registry, known here from that registry's graph.\<close>

definition demo_peer_records :: endpoint_state where
  "demo_peer_records =
     \<lparr>es_graph = [\<lparr>q_subject = NamedNode ''https://o.org/software/9'', q_predicate = SCHEMA @ ''name'', q_object = simple_literal ''x'', q_graph = ''urn:p''\<rparr>],
      es_audit = [], es_next = 0\<rparr>"

lemma demo_withdrawn: "case fst (soft_delete_software demo_endpoints demo_curator ''https://o.org/software/9'' demo_peer_records) of Inr c \<Rightarrow> c = 204 | Inl _ \<Rightarrow> False"
  by code_simp

theorem withdrawal_ignores_authority_witness:
  "fst (patch_software demo_endpoints demo_curator ''https://o.org/software/9'' JNull demo_peer_records) = Inl not_authoritative \<and>
   is_tombstoned (es_graph (snd (soft_delete_software demo_endpoints demo_curator ''https://o.org/software/9'' demo_peer_records)))
     (NamedNode ''https://o.org/software/9'')"
proof -
  let ?i = "''https://o.org/software/9''"
  obtain st' where "soft_delete_software demo_endpoints demo_curator ?i demo_peer_records = (Inr 204, st')"
    using demo_withdrawn by (cases "soft_delete_software demo_endpoints demo_curator ?i demo_peer_records") (auto split: sum.splits)
  moreover have "iri_for (cx_base demo_endpoints) Software ?i = ?i" "\<not> is_local (cx_base demo_endpoints) ?i" by code_simp+
  ultimately show ?thesis
    using withdrawal_ignores_authority [of demo_curator demo_endpoints ?i demo_peer_records] demo_may by simp
qed

section \<open>Importing releases\<close>

lemma listed_release:
  assumes "list_releases w g sw = Inr known" "v \<in> set known"
  shows "\<exists>q \<in> set g. \<exists>i ps. q_predicate q = DCT @ ''isVersionOf'' \<and> q_object q = Node (NamedNode sw) \<and> q_subject q = NamedNode i
     \<and> \<not> is_tombstoned g (NamedNode i) \<and> described_props w g i = Inr ps \<and> v = release_from_props w g i ps"
proof -
  let ?read = "\<lambda>i. and_then (described_props w g i) (\<lambda>p. Inr (release_from_props w g i p))"
  from assms obtain rs where rs: "map ?read (List.map_filter iri_of (release_rows g sw)) = map Inr rs" "v \<in> set rs"
    by (auto simp: list_releases_def and_then_eq_Inr select_from_def newest_first_def collect_results_Inr split: if_splits)
  then have "Inr v \<in> set (map ?read (List.map_filter iri_of (release_rows g sw)))" by simp
  then obtain i where i: "i \<in> set (List.map_filter iri_of (release_rows g sw))" "?read i = Inr v" by auto
  then have "NamedNode i \<in> set (release_rows g sw)" by (auto simp: map_filter_def iri_of_def split: node.splits)
  then obtain q where q: "q \<in> set g" "q_predicate q = DCT @ ''isVersionOf''" "q_object q = Node (NamedNode sw)"
    "\<not> is_tombstoned g (q_subject q)" "q_subject q = NamedNode i"
    by (auto simp: release_rows_def)
  moreover from i(2) obtain ps where "described_props w g i = Inr ps" "v = release_from_props w g i ps"
    by (auto simp: and_then_eq_Inr)
  ultimately show ?thesis by (intro bexI [OF _ q(1)]) auto
qed

text \<open>A statement that a builder has made stays made.\<close>

definition says :: "string \<Rightarrow> string \<Rightarrow> rdf_term \<Rightarrow> rdf_node \<Rightarrow> bool" where
  "says i p t n \<longleftrightarrow> \<lparr>q_subject = NamedNode i, q_predicate = p, q_object = t, q_graph = G_LOCAL\<rparr> \<in> set (rn_quads n)"

definition at_home :: "string \<Rightarrow> rdf_node \<Rightarrow> bool" where
  "at_home i n \<longleftrightarrow> rn_subject n = NamedNode i \<and> rn_graph n = G_LOCAL"

named_theorems saying

lemma at_home_calls [saying]:
  "at_home i (local_node i)" "at_home i n \<Longrightarrow> at_home i (push_quad p t n)"
  "at_home i n \<Longrightarrow> at_home i (add_type ty n)" "at_home i n \<Longrightarrow> at_home i (add_text ns l v n)"
  "at_home i n \<Longrightarrow> at_home i (add_opt_text ns l tv n)" "at_home i n \<Longrightarrow> at_home i (add_link w ns l v n)"
  "at_home i n \<Longrightarrow> at_home i (opt_link w ns l tv n)" "at_home i n \<Longrightarrow> at_home i (add_opt_datetime w ns l tv n)"
  "at_home i n \<Longrightarrow> at_home i (add_child ns l c n)"
  by (auto simp: at_home_def local_node_def iri_node_def push_quad_def add_type_def add_text_def add_opt_text_def add_link_def
      opt_link_def add_opt_datetime_def add_datetime_def add_child_def Let_def split: option.split)

lemma says_calls [saying]:
  "says i p t n \<Longrightarrow> says i p t (push_quad p' t' n)"
  "says i p t n \<Longrightarrow> says i p t (add_type ty n)" "says i p t n \<Longrightarrow> says i p t (add_text ns l v n)"
  "says i p t n \<Longrightarrow> says i p t (add_opt_text ns l tv n)" "says i p t n \<Longrightarrow> says i p t (add_link w ns l v n)"
  "says i p t n \<Longrightarrow> says i p t (opt_link w ns l tv n)" "says i p t n \<Longrightarrow> says i p t (add_opt_datetime w ns l tv n)"
  "says i p t n \<Longrightarrow> says i p t (add_datetime w ns l v n)"
  "says i p t n \<Longrightarrow> says i p t (add_child ns l c n)" "says i p t n \<Longrightarrow> says i p t (attribution w actor n)"
  by (auto simp: says_def push_quad_def add_type_def add_text_def add_opt_text_def add_link_def
      opt_link_def add_opt_datetime_def add_datetime_def add_child_def attribution_def attribution_at_def Let_def split: option.split)

lemma says_now:
  "at_home i n \<Longrightarrow> v \<noteq> [] \<Longrightarrow> says i (ns @ l) (simple_literal v) (add_text ns l v n)"
  "at_home i n \<Longrightarrow> rw_valid_iri w v \<Longrightarrow> v \<noteq> [] \<Longrightarrow> says i (ns @ l) (Node (NamedNode v)) (add_link w ns l v n)"
  by (simp_all add: says_def at_home_def add_text_def add_link_def push_quad_def link_term_def)

lemma downloads_keep:
  "P (fst b) \<Longrightarrow> (\<And>n c. P n \<Longrightarrow> P (add_child DCAT ''distribution'' c n)) \<Longrightarrow> P (fst (fold (add_download w) ds b))"
  by (induction ds arbitrary: b) (auto simp: add_download_def split: prod.split)

lemma release_quads_say:
  assumes "rl_version r \<noteq> []" "sw \<noteq> []" "rw_valid_iri (core w) sw"
  shows "\<lparr>q_subject = NamedNode i, q_predicate = SCHEMA @ ''softwareVersion'', q_object = simple_literal (rl_version r), q_graph = G_LOCAL\<rparr>
      \<in> set (fst (release_quads w i sw r actor n))
    \<and> \<lparr>q_subject = NamedNode i, q_predicate = DCT @ ''isVersionOf'', q_object = Node (NamedNode sw), q_graph = G_LOCAL\<rparr>
      \<in> set (fst (release_quads w i sw r actor n))"
proof -
  let ?n0 = "build [add_type TYPE_SOFTWARE, add_type TYPE_RELEASE_PLAN, add_type TYPE_TAR_RELEASE,
                       add_text SCHEMA ''softwareVersion'' (rl_version r),
                       add_opt_datetime (core w) SCHEMA ''datePublished'' (rl_date_published r),
                       add_opt_text TAR ''containerImage'' (rl_container_image r),
                       add_opt_text TAR ''imageDigest'' (rl_image_digest r),
                       opt_link (core w) SCHEMA ''releaseNotes'' (rl_changelog r),
                       add_opt_text TAR ''installCommand'' (rl_install_command r)] (local_node i)"
  let ?b1 = "fold (add_download w) (rl_downloads r) (?n0, [], n)"
  let ?n2 = "build [add_link (core w) DCT ''isVersionOf'' sw, attribution (core w) actor] (fst ?b1)"
  let ?version = "says i (SCHEMA @ ''softwareVersion'') (simple_literal (rl_version r))"
  let ?of = "says i (DCT @ ''isVersionOf'') (Node (NamedNode sw))"
  have n0: "at_home i ?n0" "?version ?n0"
    unfolding build_def fold.simps comp_apply id_apply by (intro saying says_now assms)+
  have "at_home i (fst ?b1)"
    by (rule downloads_keep [where P = "at_home i"]) (simp only: fst_conv n0, rule saying)
  moreover have "?version (fst ?b1)"
    by (rule downloads_keep [where P = ?version]) (simp only: fst_conv n0, rule saying)
  ultimately have n2: "?version ?n2" "?of ?n2"
    unfolding build_def fold.simps comp_apply id_apply by - (rule saying, rule saying says_now; (assumption | rule assms))+
  obtain node2 quads2 m2 where b2: "on_node (build [add_link (core w) DCT ''isVersionOf'' sw, attribution (core w) actor]) ?b1 = (node2, quads2, m2)"
    by (metis prod_cases3)
  then have node2: "node2 = ?n2" by (auto simp: on_node_def split: prod.splits)
  obtain node3 quads3 m3 where b3: "link_capability w (rl_capability r) (node2, quads2, m2) = (node3, quads3, m3)" by (metis prod_cases3)
  with n2 have "?version node3" "?of node3"
    by (auto simp: link_capability_def node2 split: option.splits intro: saying)
  moreover have "fst (release_quads w i sw r actor n) = quads3 @ finish node3"
    unfolding release_quads_def Let_def by (simp only: b2 b3) simp
  ultimately show ?thesis by (simp add: says_def finish_def)
qed

text \<open>Importing releases only adds statements, and so does the status of the synchronisation outside its own predicates.\<close>

lemma inserted: "store_tx w (tx_extend qs new_tx) st = (Inr u, st') \<Longrightarrow> set (es_graph st') = set (es_graph st) \<union> set qs"
  by (auto simp: store_tx_Inr dest: applied_inserts)

lemma add_releases_keep:
  "add_releases w p sw known rs st = (Inr added, st') \<Longrightarrow> set (es_graph st) \<subseteq> set (es_graph st')"
proof (induction w p sw known rs st arbitrary: added st' rule: add_releases.induct)
  case (2 w p sw known r rs st)
  show ?case
  proof (cases "rl_version r \<in> set known")
    case True
    with 2 show ?thesis by simp
  next
    case False
    obtain qs n where qs: "release_quads (writer w) (fresh_iri (writer w) Release (es_next st)) sw r (subject p) (Suc (es_next st)) = (qs, n)"
      by fastforce
    show ?thesis
    proof (cases "enforce_write (ew_rules w) (core (writer w)) (ew_codec w) qs")
      case (Inl e)
      with 2(2) [OF False refl qs [symmetric] refl] 2(4) False qs show ?thesis by (simp add: Let_def)
    next
      case (Inr u)
      with 2(4) False qs obtain st1 a where s: "store_tx w (tx_extend qs new_tx) (st\<lparr>es_next := n\<rparr>) = (Inr (), st1)"
        "add_releases w p sw known rs st1 = (Inr a, st')"
        by (auto simp: Let_def and_also_Inr)
      from 2(3) [OF False refl qs [symmetric] refl Inr s(2)] inserted [OF s(1)] show ?thesis by auto
    qed
  qed
qed simp

lemma sync_status_keeps:
  assumes "write_sync_status w iri s st = (Inr u, st')" "q \<in> set (es_graph st)"
    and "q_predicate q \<notin> (\<lambda>l. TAR @ l) ` {''syncedAt'', ''syncStatus'', ''syncError'', ''syncChanged''}"
  shows "q \<in> set (es_graph st')"
  using assms
  by (auto simp: write_sync_status_def store_tx_Inr apply_tx_def replace_property_def tx_extend_def new_tx_def Let_def
      set_delete_property split: option.splits)

text \<open>
  C18. When a synchronisation imports a version whose releases were all withdrawn, it registers that
  version again: the version is among those added, and afterwards a new release record
  gives it as a version of the software.
\<close>

theorem withdrawn_version_is_imported_again:
  assumes withdrawn: "\<And>q i ps. q \<in> set (es_graph st) \<Longrightarrow> q_predicate q = DCT @ ''isVersionOf'' \<Longrightarrow> q_object q = Node (NamedNode iri)
        \<Longrightarrow> q_subject q = NamedNode i \<Longrightarrow> described_props (views w) (es_graph st) i = Inr ps
        \<Longrightarrow> rv_version (release_from_props (views w) (es_graph st) i ps) = rl_version r \<Longrightarrow> is_tombstoned (es_graph st) (NamedNode i)"
    and "rl_version r \<noteq> []" "iri \<noteq> []"
    and passes: "enforce_write (ew_rules w) (core (writer w)) (ew_codec w)
           (fst (release_quads (writer w) (fresh_iri (writer w) Release (es_next st)) iri r (subject p) (Suc (es_next st)))) = Inr u"
    and sync: "import_releases w p iri (r # rs) s st = (Inr added, st')"
  defines "new \<equiv> fresh_iri (writer w) Release (es_next st)"
  shows "rl_version r \<in> set added
    \<and> \<lparr>q_subject = NamedNode new, q_predicate = SCHEMA @ ''softwareVersion'', q_object = simple_literal (rl_version r), q_graph = G_LOCAL\<rparr>
        \<in> set (es_graph st')
    \<and> \<lparr>q_subject = NamedNode new, q_predicate = DCT @ ''isVersionOf'', q_object = Node (NamedNode iri), q_graph = G_LOCAL\<rparr>
        \<in> set (es_graph st')"
proof -
  from sync obtain known where known: "list_releases (views w) (es_graph st) iri = Inr known"
    and a: "and_also (add_releases w p iri (map rv_version known) (r # rs) st) (\<lambda>added st.
             if added = [] then (Inr [], st)
             else and_also (write_sync_status w iri (s\<lparr>ss_last_changed := ss_last_changed s @ [''releases'']\<rparr>) st) (\<lambda>_ st.
                    (Inr added, st))) = (Inr added, st')"
    by (auto simp: import_releases_def and_also_Inr)
  have unknown: "rl_version r \<notin> set (map rv_version known)"
    using listed_release [OF known] withdrawn by fastforce
  have valid: "rw_valid_iri (core (writer w)) iri"
    using known by (auto simp: list_releases_def and_then_eq_Inr select_from_def writer_def rdf_world.truncate_def read_world.truncate_def
        split: if_splits)
  obtain qs n where qs: "release_quads (writer w) new iri r (subject p) (Suc (es_next st)) = (qs, n)" by fastforce
  from a unknown qs passes obtain st1 more st2 where s1: "store_tx w (tx_extend qs new_tx) (st\<lparr>es_next := n\<rparr>) = (Inr (), st1)"
    and more: "add_releases w p iri (map rv_version known) rs st1 = (Inr more, st2)"
    and fin: "write_sync_status w iri (s\<lparr>ss_last_changed := ss_last_changed s @ [''releases'']\<rparr>) st2 = (Inr (), st')"
    and added: "added = rl_version r # more"
    by (auto simp: and_also_Inr Let_def new_def split: if_splits)
  have kept: "q \<in> set (es_graph st')" if "q \<in> set qs" "q_predicate q \<in> {SCHEMA @ ''softwareVersion'', DCT @ ''isVersionOf''}" for q
  proof (rule sync_status_keeps [OF fin])
    show "q \<in> set (es_graph st2)" using that(1) inserted [OF s1] add_releases_keep [OF more] by auto
    show "q_predicate q \<notin> (\<lambda>l. TAR @ l) ` {''syncedAt'', ''syncStatus'', ''syncError'', ''syncChanged''}"
      using that(2) by (auto simp: SCHEMA_def DCT_def TAR_def)
  qed
  from release_quads_say [OF assms(2,3) valid, of new "subject p" "Suc (es_next st)"] qs kept added show ?thesis by simp
qed

definition demo_release :: release_in where
  "demo_release = \<lparr>rl_version = ''1.0'', rl_date_published = None, rl_container_image = None, rl_image_digest = None, rl_changelog = None,
     rl_install_command = None, rl_downloads = [], rl_capability = None\<rparr>"

definition demo_status :: sync_status where
  "demo_status = \<lparr>ss_source = ''github'', ss_repo = ''a/b'', ss_fields = [], ss_enabled = True, ss_last_synced_at = None, ss_last_status = ''ok'',
     ss_last_error = None, ss_last_changed = []\<rparr>"

text \<open>The only release of the record was withdrawn.\<close>

definition demo_withdrawn_release :: endpoint_state where
  "demo_withdrawn_release =
     \<lparr>es_graph = fst (release_quads (writer demo_endpoints) ''https://r.org/release/1'' ''https://r.org/software/1'' demo_release ''alice'' 0)
         @ tombstone_quads demo_endpoints ''https://r.org/release/1'' ''alice'', es_audit = [], es_next = 5\<rparr>"

lemma demo_all_withdrawn:
  "\<forall>q \<in> set (es_graph demo_withdrawn_release).
     q_predicate q = DCT @ ''isVersionOf'' \<and> q_object q = Node (NamedNode ''https://r.org/software/1'') \<longrightarrow>
     is_tombstoned (es_graph demo_withdrawn_release) (q_subject q)"
  by code_simp

lemma demo_release_passes:
  "\<exists>u. enforce_write (ew_rules demo_endpoints) (core (writer demo_endpoints)) (ew_codec demo_endpoints)
    (fst (release_quads (writer demo_endpoints) (fresh_iri (writer demo_endpoints) Release (es_next demo_withdrawn_release))
      ''https://r.org/software/1'' demo_release (subject demo_curator) (Suc (es_next demo_withdrawn_release)))) = Inr u"
proof -
  have "case enforce_write (ew_rules demo_endpoints) (core (writer demo_endpoints)) (ew_codec demo_endpoints)
    (fst (release_quads (writer demo_endpoints) (fresh_iri (writer demo_endpoints) Release (es_next demo_withdrawn_release))
      ''https://r.org/software/1'' demo_release (subject demo_curator) (Suc (es_next demo_withdrawn_release)))) of Inr u \<Rightarrow> True | Inl _ \<Rightarrow> False"
    by code_simp
  then show ?thesis by (auto split: sum.splits)
qed

text \<open>A transaction applies in every state once the IRIs it deletes are valid.\<close>

lemma store_tx_ok: "find (\<lambda>s. \<not> rw_valid_iri w s) (tx_iris tx) = None \<Longrightarrow> \<exists>st'. store_tx w tx st = (Inr (), st')"
  by (auto simp: store_tx_Inr apply_tx_def Let_def)

lemma insertion_ok: "\<exists>st'. store_tx w (tx_extend qs new_tx) st = (Inr (), st')"
  by (rule store_tx_ok) (simp add: tx_iris_def tx_extend_def new_tx_def)

lemma demo_listed:
  "list_releases (views demo_endpoints) (es_graph demo_withdrawn_release) ''https://r.org/software/1'' = Inr []"
proof -
  have "case list_releases (views demo_endpoints) (es_graph demo_withdrawn_release) ''https://r.org/software/1'' of Inr k \<Rightarrow> True | Inl _ \<Rightarrow> False"
    by code_simp
  then obtain known where k: "list_releases (views demo_endpoints) (es_graph demo_withdrawn_release) ''https://r.org/software/1'' = Inr known"
    by (auto split: sum.splits)
  moreover have "v \<notin> set known" for v
    using listed_release [OF k, of v] demo_all_withdrawn by metis
  ultimately show ?thesis by (cases known) auto
qed

lemma demo_status_written: "\<exists>st'. write_sync_status demo_endpoints ''https://r.org/software/1'' s st = (Inr (), st')"
  unfolding write_sync_status_def by (rule store_tx_ok) code_simp

lemma demo_import:
  "\<exists>added st'. import_releases demo_endpoints demo_curator ''https://r.org/software/1'' [demo_release] demo_status demo_withdrawn_release = (Inr added, st')"
proof -
  let ?w = demo_endpoints and ?st = demo_withdrawn_release
  obtain quads n where q: "release_quads (writer ?w) (fresh_iri (writer ?w) Release (es_next ?st)) ''https://r.org/software/1'' demo_release
      (subject demo_curator) (Suc (es_next ?st)) = (quads, n)" by fastforce
  with demo_release_passes obtain u where u: "enforce_write (ew_rules ?w) (core (writer ?w)) (ew_codec ?w) quads = Inr u" by auto
  obtain st1 where s1: "store_tx ?w (tx_extend quads new_tx) (?st\<lparr>es_next := n\<rparr>) = (Inr (), st1)" using insertion_ok by blast
  obtain st2 where "write_sync_status ?w ''https://r.org/software/1'' (demo_status\<lparr>ss_last_changed := ss_last_changed demo_status @ [''releases'']\<rparr>) st1 = (Inr (), st2)"
    using demo_status_written by blast
  with q u s1 show ?thesis
    by (simp add: import_releases_def demo_listed checked_def and_also_def)
qed

theorem withdrawn_version_is_imported_again_witness:
  "\<exists>st'. import_releases demo_endpoints demo_curator ''https://r.org/software/1'' [demo_release] demo_status demo_withdrawn_release
      = (Inr [''1.0''], st')
    \<and> \<lparr>q_subject = NamedNode (fresh_iri (writer demo_endpoints) Release 5), q_predicate = SCHEMA @ ''softwareVersion'',
        q_object = simple_literal ''1.0'', q_graph = G_LOCAL\<rparr> \<in> set (es_graph st')"
proof -
  obtain added st' where i: "import_releases demo_endpoints demo_curator ''https://r.org/software/1'' [demo_release] demo_status demo_withdrawn_release
      = (Inr added, st')"
    using demo_import by blast
  then have "length added \<le> 1"
    by (auto simp: import_releases_def and_also_Inr Let_def split: prod.splits sum.splits if_splits)
  moreover from demo_release_passes obtain u where u: "enforce_write (ew_rules demo_endpoints) (core (writer demo_endpoints)) (ew_codec demo_endpoints)
    (fst (release_quads (writer demo_endpoints) (fresh_iri (writer demo_endpoints) Release (es_next demo_withdrawn_release))
      ''https://r.org/software/1'' demo_release (subject demo_curator) (Suc (es_next demo_withdrawn_release)))) = Inr u" by blast
  have v: "rl_version demo_release = ''1.0''" "es_next demo_withdrawn_release = 5"
    by (simp_all add: demo_release_def demo_withdrawn_release_def)
  have old: "is_tombstoned (es_graph demo_withdrawn_release) (NamedNode j)"
    if "q \<in> set (es_graph demo_withdrawn_release)" "q_predicate q = DCT @ ''isVersionOf''"
      "q_object q = Node (NamedNode ''https://r.org/software/1'')" "q_subject q = NamedNode j" for q j
    using demo_all_withdrawn that by metis
  have "rl_version demo_release \<noteq> []" "''https://r.org/software/1'' \<noteq> []" by (simp_all add: v)
  from withdrawn_version_is_imported_again [OF old this u i] v
  have "''1.0'' \<in> set added" "\<lparr>q_subject = NamedNode (fresh_iri (writer demo_endpoints) Release 5),
     q_predicate = SCHEMA @ ''softwareVersion'', q_object = simple_literal ''1.0'', q_graph = G_LOCAL\<rparr> \<in> set (es_graph st')"
    by simp_all
  ultimately show ?thesis using i by (cases added) auto
qed

section \<open>The list's filters\<close>

text \<open>
  C33. The value of the licence filter is pasted into the query as it is: one that closes the pattern
  and opens another asks for the publisher too, as the two filters do.
\<close>

theorem license_filter_is_query_text:
  assumes "l \<noteq> []" "b \<noteq> []"
  shows "software_where_body (f\<lparr>sf_license := Some (l @ ''> }'' @ [NEWLINE] @ ''GRAPH ?g { ?s dct:publisher <'' @ b), sf_publisher := None\<rparr>)
       = software_where_body (f\<lparr>sf_license := Some l, sf_publisher := Some b\<rparr>)"
  using assms by (simp add: software_where_body_def iri_pattern_def non_empty_def)

theorem license_filter_is_query_text_witness:
  "software_where_body \<lparr>sf_q = None, sf_license = Some (''a> }'' @ [NEWLINE] @ ''GRAPH ?g { ?s dct:publisher <b''), sf_publisher = None, sf_topic = None,
      sf_keyword = None, sf_kind = None, sf_produces = None, sf_consumes = None, sf_registry = None, sf_paging = \<lparr>pg_cursor_iri = None, pg_limit = None\<rparr>\<rparr>
   = software_where_body \<lparr>sf_q = None, sf_license = Some ''a'', sf_publisher = Some ''b'', sf_topic = None,
      sf_keyword = None, sf_kind = None, sf_produces = None, sf_consumes = None, sf_registry = None, sf_paging = \<lparr>pg_cursor_iri = None, pg_limit = None\<rparr>\<rparr>"
  using license_filter_is_query_text [of "''a''" "''b''" "\<lparr>sf_q = None, sf_license = None, sf_publisher = None, sf_topic = None,
      sf_keyword = None, sf_kind = None, sf_produces = None, sf_consumes = None, sf_registry = None, sf_paging = \<lparr>pg_cursor_iri = None, pg_limit = None\<rparr>\<rparr>"]
  by simp

end
