(* ===== verification/Local_Writes.thy ===== *)
theory Local_Writes
  imports Software_Api
begin

text \<open>
  What the software endpoints may touch: every statement they write or delete is in the registry's own
  graph, so the graphs of peers and of the vocabularies are as before, whatever a handler answers.
\<close>

section \<open>Builders that stay in the registry's graph\<close>

definition homely :: "rdf_node \<Rightarrow> bool" where
  "homely n \<longleftrightarrow> rn_graph n = G_LOCAL \<and> (\<forall>q \<in> set (rn_quads n). q_graph q = G_LOCAL)"

definition all_local :: "quad list \<Rightarrow> bool" where
  "all_local qs \<longleftrightarrow> (\<forall>q \<in> set qs. q_graph q = G_LOCAL)"

named_theorems homing

lemma homely_start [homing]: "homely (local_node s)"
  by (simp add: homely_def local_node_def iri_node_def)

lemma homely_push [homing]: "homely n \<Longrightarrow> homely (push_quad p v n)"
  by (auto simp: homely_def push_quad_def)

lemma homely_calls [homing]:
  "homely n \<Longrightarrow> homely (add_type t n)"
  "homely n \<Longrightarrow> homely (add_link w ns l x n)"
  "homely n \<Longrightarrow> homely (opt_link w ns l v n)"
  "homely n \<Longrightarrow> homely (add_text ns l x n)"
  "homely n \<Longrightarrow> homely (add_opt_text ns l v n)"
  "homely n \<Longrightarrow> homely (add_boolean ns l b n)"
  "homely n \<Longrightarrow> homely (add_opt_int ns l i n)"
  "homely n \<Longrightarrow> homely (add_datetime w ns l x n)"
  "homely n \<Longrightarrow> homely (add_opt_datetime w ns l v n)"
  by (auto simp: add_type_def add_link_def opt_link_def add_text_def add_opt_text_def add_boolean_def add_opt_int_def add_int_def
      add_datetime_def add_opt_datetime_def homely_push split: option.split)

lemma homely_lists [homing]:
  "homely n \<Longrightarrow> homely (add_links w ns l xs n)" "homely n \<Longrightarrow> homely (add_texts ns l xs n)"
  by (induction xs arbitrary: n) (auto simp: add_links_def add_texts_def homing)

lemma homely_child [homing]: "homely c \<Longrightarrow> homely n \<Longrightarrow> homely (add_child ns l c n)"
  by (auto simp: homely_def add_child_def push_quad_def Let_def)

lemma homely_attribution [homing]: "homely n \<Longrightarrow> homely (attribution w a n)"
  by (simp add: attribution_def attribution_at_def homing)

lemma homely_id [homing]: "homely n \<Longrightarrow> homely (id n)"
  by simp

lemma homely_finish: "homely n \<Longrightarrow> all_local (finish n)"
  by (simp add: homely_def all_local_def finish_def)

lemma all_local_append [simp]: "all_local (a @ b) \<longleftrightarrow> all_local a \<and> all_local b" "all_local []"
  by (auto simp: all_local_def)

lemma agent_local: "all_local (snd (fst (agent_quads w a n)))"
proof -
  have "all_local (described_agent c i a)" for c i
    unfolding described_agent_def agent_body_def agent_types_def build_def
    by (auto intro!: homely_finish homing)
  then show ?thesis by (simp add: agent_quads_def split: option.split)
qed

lemma capability_local: "all_local (capability_quads w i c)"
  unfolding capability_quads_def build_def by (auto intro!: homely_finish homing)

definition building_local :: "building \<Rightarrow> bool" where
  "building_local b \<longleftrightarrow> (case b of (node, quads, n) \<Rightarrow> homely node \<and> all_local quads)"

lemma building_local_agent: "building_local b \<Longrightarrow> building_local (link_opt_agent w ns l a b)"
proof (cases a)
  case (Some x)
  obtain node quads n where b: "b = (node, quads, n)" by (cases b)
  obtain ai body n' where ag: "agent_quads w x n = ((ai, body), n')" by (cases "agent_quads w x n") auto
  with agent_local [of w x n] have "all_local body" by simp
  then show "building_local b \<Longrightarrow> ?thesis"
    by (auto simp: link_opt_agent_def link_agent_def Some b ag building_local_def split: option.split intro!: homing)
qed (simp add: link_opt_agent_def)

lemma building_local_capability: "building_local b \<Longrightarrow> building_local (link_capability w c b)"
  using capability_local by (cases c; cases b) (auto simp: link_capability_def building_local_def intro!: homing)

lemma building_local_node: "(\<And>n. homely n \<Longrightarrow> homely (f n)) \<Longrightarrow> building_local b \<Longrightarrow> building_local (on_node f b)"
  by (cases b) (simp add: building_local_def on_node_def)

lemma building_local_start: "homely n \<Longrightarrow> building_local (n, [], k)"
  by (simp add: building_local_def)

lemma building_finished: "building_local b \<Longrightarrow> all_local (fst (case b of (node, quads, n) \<Rightarrow> (quads @ finish node, n)))"
  by (cases b) (simp add: building_local_def homely_finish)

section \<open>The records\<close>

lemma api_docs_local [homing]: "homely n \<Longrightarrow> homely (add_api_docs c ds n)"
proof (induction ds arbitrary: n)
  case (Cons d ds)
  have "homely (api_doc_node c d)"
    unfolding api_doc_node_def build_def by (auto split: option.split intro!: homing)
  then have "homely (if trim (ad_url d) = [] then n else add_child DCAT ''endpointDescription'' (api_doc_node c d) n)"
    using Cons.prems by (simp add: homely_child)
  from Cons.IH [OF this] show ?case by (simp add: add_api_docs_def)
qed (simp add: add_api_docs_def)

lemma software_local: "all_local (fst (software_quads w iri input actor created n))"
proof -
  have "homely (describe_software w input actor created (local_node iri))"
    unfolding describe_software_def build_def fold.simps comp_apply
    by (auto intro!: homing split: option.split)
  moreover have "homely (sync_node iri s)" for s
    unfolding sync_node_def build_def by (auto intro!: homing)
  ultimately have "building_local (link_capability w (so_capability input)
      (on_node (case so_sync input of Some s \<Rightarrow> add_child TAR ''sync'' (sync_node iri s) | None \<Rightarrow> id)
        (link_opt_agent w CODEMETA ''maintainer'' (so_contact input)
          (link_opt_agent w DCT ''publisher'' (so_publisher input) (describe_software w input actor created (local_node iri), [], n)))))"
    by (intro building_local_capability building_local_node building_local_agent building_local_start) (auto split: option.splits intro!: homing)
  from building_finished [OF this] show ?thesis by (simp add: software_quads_def Let_def)
qed

lemma release_local: "all_local (fst (release_quads w iri sw input actor n))"
proof -
  have "homely (download_node c i d)" for c i d
    unfolding download_node_def build_def Let_def by (auto split: option.split intro!: homing)
  then have one: "building_local b \<Longrightarrow> building_local (add_download w d b)" for d b
    by (cases b) (auto simp: add_download_def building_local_def intro!: homing)
  have downloads: "building_local b \<Longrightarrow> building_local (fold (add_download w) ds b)" for ds b
    by (induction ds arbitrary: b) (simp_all add: one del: split_paired_All)
  have "building_local (link_capability w (rl_capability input)
      (on_node (build [add_link (core w) DCT ''isVersionOf'' sw, attribution (core w) actor])
        (fold (add_download w) (rl_downloads input)
          (build [add_type TYPE_SOFTWARE, add_type TYPE_RELEASE_PLAN, add_type TYPE_TAR_RELEASE,
                       add_text SCHEMA ''softwareVersion'' (rl_version input),
                       add_opt_datetime (core w) SCHEMA ''datePublished'' (rl_date_published input),
                       add_opt_text TAR ''containerImage'' (rl_container_image input),
                       add_opt_text TAR ''imageDigest'' (rl_image_digest input),
                       opt_link (core w) SCHEMA ''releaseNotes'' (rl_changelog input),
                       add_opt_text TAR ''installCommand'' (rl_install_command input)] (local_node iri), [], n))))"
    unfolding build_def
    by (intro building_local_capability building_local_node downloads building_local_start) (auto intro!: homing)
  from building_finished [OF this] show ?thesis by (simp add: release_quads_def Let_def)
qed

lemma tombstone_local: "all_local (tombstone_quads w iri actor)"
  unfolding tombstone_quads_def build_def by (auto intro!: homely_finish homing)

lemma sync_status_local: "all_local (sync_status_quads w iri s)"
  unfolding sync_status_quads_def build_def by (auto intro!: homely_finish homing)

section \<open>Transactions and handlers\<close>

definition tx_local :: "graph_tx \<Rightarrow> bool" where
  "tx_local tx \<longleftrightarrow> clear_graphs tx = [] \<and> (\<forall>(s, g) \<in> set (delete_subjects tx). g = G_LOCAL) \<and>
     (\<forall>(s, p, g) \<in> set (delete_properties tx). g = G_LOCAL) \<and> all_local (insert_quads tx)"

lemma tx_local_calls [simp]:
  "tx_local new_tx" "tx_local (tx_extend qs tx) \<longleftrightarrow> all_local qs \<and> tx_local tx"
  "tx_local (replace_subject s G_LOCAL tx) \<longleftrightarrow> tx_local tx" "tx_local (replace_property s p G_LOCAL tx) \<longleftrightarrow> tx_local tx"
  by (auto simp: tx_local_def new_tx_def tx_extend_def replace_subject_def replace_property_def)

text \<open>The statements of the other graphs.\<close>

definition elsewhere :: "store \<Rightarrow> quad set" where
  "elsewhere g = {q \<in> set g. q_graph q \<noteq> G_LOCAL}"

lemma elsewhere_insert: "all_local qs \<Longrightarrow> elsewhere (fold insert_quad qs g) = elsewhere g"
  by (induction qs arbitrary: g) (auto simp: insert_quad_def elsewhere_def all_local_def)

lemma elsewhere_delete:
  "\<forall>(s, g) \<in> set xs. g = G_LOCAL \<Longrightarrow> elsewhere (fold (\<lambda>(s, g). delete_subject s g) xs st) = elsewhere st"
  by (induction xs arbitrary: st) (auto simp: elsewhere_def set_delete_subject)

lemma elsewhere_drop:
  "\<forall>(s, p, g) \<in> set xs. g = G_LOCAL \<Longrightarrow> elsewhere (fold (\<lambda>(s, p, g). delete_property s p g) xs st) = elsewhere st"
  by (induction xs arbitrary: st) (auto simp: elsewhere_def delete_property_def)

lemma apply_local_tx: "tx_local tx \<Longrightarrow> apply_tx v tx st = Inr st' \<Longrightarrow> elsewhere st' = elsewhere st"
  by (auto simp: apply_tx_def tx_local_def Let_def elsewhere_insert elsewhere_delete elsewhere_drop split: option.splits)

text \<open>An outcome that leaves the other graphs as they were.\<close>

definition leaves :: "store \<Rightarrow> 'a outcome \<Rightarrow> bool" where
  "leaves g m \<longleftrightarrow> elsewhere (es_graph (snd m)) = elsewhere g"

lemma leaves_and_also [intro]:
  "leaves g m \<Longrightarrow> (\<And>x st. elsewhere (es_graph st) = elsewhere g \<Longrightarrow> leaves g (f x st)) \<Longrightarrow> leaves g (and_also m f)"
  by (cases m) (auto simp: and_also_def leaves_def split: sum.split)

lemma leaves_simple [simp]:
  "leaves g (r, st) \<longleftrightarrow> elsewhere (es_graph st) = elsewhere g" "leaves g (checked r st) \<longleftrightarrow> elsewhere (es_graph st) = elsewhere g"
  by (auto simp: leaves_def checked_def)

lemma leaves_store [simp]: "tx_local tx \<Longrightarrow> elsewhere (es_graph st) = elsewhere g \<Longrightarrow> leaves g (store_tx w tx st)"
  by (auto simp: store_tx_def leaves_def apply_local_tx split: sum.split)

lemma leaves_validated [simp]: "tx_local tx \<Longrightarrow> elsewhere (es_graph st) = elsewhere g \<Longrightarrow> leaves g (validated_tx w qs tx st)"
  unfolding validated_tx_def by (rule leaves_and_also) auto

lemma leaves_tombstone [simp]: "elsewhere (es_graph st) = elsewhere g \<Longrightarrow> leaves g (tombstone w iri p st)"
  unfolding tombstone_def by (auto intro!: leaves_and_also simp: tombstone_local)

lemma leaves_capability [simp]: "elsewhere (es_graph st) = elsewhere g \<Longrightarrow> leaves g (put_capability_on w p target input layer st)"
  unfolding put_capability_on_def
  by (auto intro!: leaves_and_also simp: Let_def capability_local homely_finish homing split: option.split)

lemma leaves_sync_status [simp]: "elsewhere (es_graph st) = elsewhere g \<Longrightarrow> leaves g (write_sync_status w iri s st)"
  unfolding write_sync_status_def by (simp add: sync_status_local)

lemma release_pair: "release_quads w i sw r actor n = (qs, n') \<Longrightarrow> all_local qs"
  using release_local [of w i sw r actor n] by simp

lemma software_pair: "software_quads w i r actor c n = (qs, n') \<Longrightarrow> all_local qs"
  using software_local [of w i r actor c n] by simp

lemma replacement_local: "replace_software w i r actor c n = (tx, n') \<Longrightarrow> tx_local tx"
  using software_local [of w i r actor c n] by (auto simp: replace_software_def split: prod.splits)

lemma leaves_releases [simp]: "elsewhere (es_graph st) = elsewhere g \<Longrightarrow> leaves g (add_releases w p sw known rs st)"
proof (induction rs arbitrary: st)
  case (Cons r rs)
  then show ?case
    by (auto intro!: leaves_and_also simp: Let_def release_pair split: prod.split sum.split)
qed simp

lemma leaves_import [simp]: "elsewhere (es_graph st) = elsewhere g \<Longrightarrow> leaves g (import_releases w p i rs s st)"
  unfolding import_releases_def by (auto intro!: leaves_and_also)

lemma leaves_loaded [simp]: "elsewhere (es_graph st) = elsewhere g \<Longrightarrow> leaves g (loaded_software w i st)"
  by (simp add: loaded_software_def)

lemma handlers_leave:
  assumes "elsewhere (es_graph st) = elsewhere g"
  shows "leaves g (create_software w p input st)" "leaves g (patch_software w p ident body st)"
    "leaves g (soft_delete_software w p ident st)" "leaves g (put_software_capability w p ident cap st)"
    "leaves g (create_release w p ident rel st)" "leaves g (delete_release w p ident rid st)"
    "leaves g (sync_software w p ident st)"
  using assms
  by (auto simp: create_software_def patch_software_def soft_delete_software_def put_software_capability_def create_release_def
      delete_release_def sync_software_def Let_def software_pair release_pair replacement_local
      intro!: leaves_and_also split: prod.split sum.split)

text \<open>
  C8. Whatever a handler of the software endpoints answers, an error included, the graphs of the peers
  and of the vocabularies say what they said before.
\<close>

theorem software_endpoints_write_locally:
  "elsewhere (es_graph (snd (create_software w p input st))) = elsewhere (es_graph st) \<and>
    elsewhere (es_graph (snd (patch_software w p ident body st))) = elsewhere (es_graph st) \<and>
    elsewhere (es_graph (snd (soft_delete_software w p ident st))) = elsewhere (es_graph st) \<and>
    elsewhere (es_graph (snd (put_software_capability w p ident cap st))) = elsewhere (es_graph st) \<and>
    elsewhere (es_graph (snd (create_release w p ident rel st))) = elsewhere (es_graph st) \<and>
    elsewhere (es_graph (snd (delete_release w p ident rid st))) = elsewhere (es_graph st) \<and>
    elsewhere (es_graph (snd (sync_software w p ident st))) = elsewhere (es_graph st)"
  using handlers_leave [of st "es_graph st"] by (simp add: leaves_def)

end
