(* ===== verification/Instances_Api.thy ===== *)
theory Instances_Api
  imports Record_Writes Http_Surface
begin

text \<open>
  The endpoints of deployments (\<open>src/api/instances.rs\<close>): creating, patching and withdrawing a record,
  the announcement of a running deployment, and the lists. Links of the answer's header and content
  negotiation are left out.
\<close>

section \<open>The record as JSON\<close>

definition instance_in_from :: "instance_view \<Rightarrow> instance_in" where
  "instance_in_from i =
     \<lparr>ii_label = iv_label i, ii_self_registered_by = iv_self_registered_by i, ii_self_registered_issuer = iv_self_registered_issuer i,
      ii_instance_key = iv_instance_key i, ii_software = iv_software i, ii_release = iv_release i,
      ii_endpoint_url = iv_endpoint_url i, ii_endpoint_description = iv_endpoint_description i,
      ii_operator = map_option agent_in_from (iv_operator i), ii_availability = iv_availability i,
      ii_jurisdiction = iv_jurisdiction i, ii_description = iv_description i, ii_oidc_client_id = iv_oidc_client_id i,
      ii_oidc_issuer = iv_oidc_issuer i, ii_allowed_scopes = iv_allowed_scopes i, ii_health_endpoint = iv_health_endpoint i,
      ii_capability = map_option capability_in_from (iv_capability i)\<rparr>"

definition instance_members :: "instance_in \<Rightarrow> (string \<times> json) list" where
  "instance_members i =
     (''label'', JText (ii_label i)) # skip_none ''self_registered_by'' (ii_self_registered_by i) @
     skip_none ''self_registered_issuer'' (ii_self_registered_issuer i) @ skip_none ''instance_key'' (ii_instance_key i) @
     [(''software'', opt_text (ii_software i)), (''release'', opt_text (ii_release i)),
      (''endpoint_url'', opt_text (ii_endpoint_url i)), (''endpoint_description'', opt_text (ii_endpoint_description i)),
      (''operator'', json_option agent_in_json (ii_operator i)), (''availability'', opt_text (ii_availability i)),
      (''jurisdiction'', opt_text (ii_jurisdiction i)), (''description'', opt_text (ii_description i)),
      (''oidc_client_id'', opt_text (ii_oidc_client_id i)), (''oidc_issuer'', opt_text (ii_oidc_issuer i)),
      (''allowed_scopes'', json_texts (ii_allowed_scopes i)), (''health_endpoint'', opt_text (ii_health_endpoint i)),
      (''capability'', json_option capability_in_json (ii_capability i))]"

definition instance_in_json :: "instance_in \<Rightarrow> json" where
  "instance_in_json i = JObject (instance_members i)"

definition INSTANCE_FIELDS :: "string list" where
  "INSTANCE_FIELDS =
     [''label'', ''self_registered_by'', ''self_registered_issuer'', ''instance_key'', ''software'', ''release'', ''endpoint_url'',
      ''endpoint_description'', ''operator'', ''availability'', ''jurisdiction'', ''description'', ''oidc_client_id'', ''oidc_issuer'',
      ''allowed_scopes'', ''health_endpoint'', ''capability'']"

definition instance_in_of_json :: "json \<Rightarrow> instance_in option" where
  "instance_in_of_json j =
     field (struct_fields INSTANCE_FIELDS 1 j) (\<lambda>fs.
     field (required dec_text ''label'' fs) (\<lambda>lab.
     field (text_field ''self_registered_by'' fs) (\<lambda>owner.
     field (text_field ''self_registered_issuer'' fs) (\<lambda>vouched.
     field (text_field ''instance_key'' fs) (\<lambda>key.
     field (text_field ''software'' fs) (\<lambda>software.
     field (text_field ''release'' fs) (\<lambda>release.
     field (text_field ''endpoint_url'' fs) (\<lambda>endpoint.
     field (text_field ''endpoint_description'' fs) (\<lambda>endpoint_description.
     field (opt_field agent_in_of_json ''operator'' fs) (\<lambda>operator.
     field (text_field ''availability'' fs) (\<lambda>availability.
     field (text_field ''jurisdiction'' fs) (\<lambda>jurisdiction.
     field (text_field ''description'' fs) (\<lambda>description.
     field (text_field ''oidc_client_id'' fs) (\<lambda>client.
     field (text_field ''oidc_issuer'' fs) (\<lambda>iss.
     field (texts_field ''allowed_scopes'' fs) (\<lambda>allowed.
     field (text_field ''health_endpoint'' fs) (\<lambda>health.
     field (opt_field capability_in_of_json ''capability'' fs) (\<lambda>capability.
       Some \<lparr>ii_label = lab, ii_self_registered_by = owner, ii_self_registered_issuer = vouched, ii_instance_key = key,
             ii_software = software, ii_release = release, ii_endpoint_url = endpoint,
             ii_endpoint_description = endpoint_description, ii_operator = operator, ii_availability = availability,
             ii_jurisdiction = jurisdiction, ii_description = description, ii_oidc_client_id = client, ii_oidc_issuer = iss,
             ii_allowed_scopes = allowed, ii_health_endpoint = health, ii_capability = capability\<rparr>))))))))))))))))))"

section \<open>What a deployment is of\<close>

definition record_props :: "endpoint_world \<Rightarrow> string \<Rightarrow> endpoint_state \<Rightarrow> app_error + props" where
  "record_props w iri st = and_then (describe_record w iri st) (\<lambda>qs. Inr (from_quads iri qs))"

definition not_deployable :: "string \<Rightarrow> string \<Rightarrow> app_error" where
  "not_deployable name endpoint =
     with_extra ''field'' (JStr ''endpoint_url'')
       (with_detail
         (name @ '' is marked as not deployable '' @ [CHR 0xE2, CHR 0x80, CHR 0x94] @
          '' it runs on a machine rather than being hosted '' @ [CHR 0xE2, CHR 0x80, CHR 0x94] @
          '' so this instance is an installation and cannot have an endpoint. Remove endpoint_url ('' @ endpoint @
          ''), or clear `deployable: false` on the software if that is wrong.'')
         (new_error 422 ''not-deployable'' ''Endpoint on software that cannot be hosted''))"

definition check_deployable :: "endpoint_world \<Rightarrow> string option \<Rightarrow> instance_in \<Rightarrow> endpoint_state \<Rightarrow> app_error + unit" where
  "check_deployable w software input st =
     (case (software, non_empty (ii_endpoint_url input)) of
        (Some sw, Some endpoint) \<Rightarrow>
          and_then (record_props w sw st) (\<lambda>ps.
            if get_bool ps TAR ''deployable'' = Some False
            then Inl (not_deployable (case get_str ps SCHEMA ''name'' of Some n \<Rightarrow> n | None \<Rightarrow> sw) endpoint)
            else Inr ())
      | _ \<Rightarrow> Inr ())"

definition resolve_software_for :: "endpoint_world \<Rightarrow> instance_in \<Rightarrow> endpoint_state \<Rightarrow> app_error + string option" where
  "resolve_software_for w input st =
     (case non_empty (ii_software input) of
        Some sw \<Rightarrow> Inr (Some (iri_for (cx_base w) Software sw))
      | None \<Rightarrow>
          (case non_empty (ii_release input) of
             Some r \<Rightarrow>
               (let iri = iri_for (cx_base w) Release r
                in and_then (record_props w iri st) (\<lambda>ps. Inr (get_iri ps DCT ''isVersionOf'')))
           | None \<Rightarrow> Inr None))"

definition loaded_instance :: "endpoint_world \<Rightarrow> string \<Rightarrow> endpoint_state \<Rightarrow> instance_view outcome" where
  "loaded_instance w iri st = checked (load_instance (loader w) (es_graph st) iri) st"

text \<open>The software is resolved and the endpoint allowed.\<close>

definition deployment_of :: "endpoint_world \<Rightarrow> instance_in \<Rightarrow> endpoint_state \<Rightarrow> app_error + string option" where
  "deployment_of w input st =
     and_then (resolve_software_for w input st) (\<lambda>software.
     and_then (check_deployable w software input st) (\<lambda>_. Inr software))"

section \<open>Creating\<close>

definition may_create_instance :: "principal \<Rightarrow> app_error + unit" where
  "may_create_instance p = (if is_curator p then Inr () else require_scope SCOPE_REGISTER_INSTANCE p)"

definition wrong_software :: "string \<Rightarrow> string \<Rightarrow> app_error" where
  "wrong_software bound other = forbidden (''this credential registers deployments of '' @ bound @ '', not of '' @ other)"

definition full_iris :: "endpoint_world \<Rightarrow> instance_in \<Rightarrow> instance_in" where
  "full_iris w input =
     input\<lparr>ii_software := map_option (iri_for (cx_base w) Software) (ii_software input),
           ii_release := map_option (iri_for (cx_base w) Release) (ii_release input)\<rparr>"

text \<open>The body as it is registered: ownership dropped, IRIs completed, the software decided by the credential.\<close>

definition registered_input :: "endpoint_world \<Rightarrow> principal \<Rightarrow> instance_in \<Rightarrow> app_error + instance_in" where
  "registered_input w p input =
     (let own = full_iris w (input\<lparr>ii_self_registered_by := None, ii_self_registered_issuer := None, ii_instance_key := None\<rparr>)
      in case software_iri p of
           None \<Rightarrow> Inr own
         | Some bound \<Rightarrow>
             (case ii_software own of
                Some other \<Rightarrow> if other \<noteq> bound then Inl (wrong_software bound other) else Inr (own\<lparr>ii_software := Some bound\<rparr>)
              | None \<Rightarrow> Inr (own\<lparr>ii_software := Some bound\<rparr>)))"

definition create_instance :: "endpoint_world \<Rightarrow> principal \<Rightarrow> instance_in \<Rightarrow> endpoint_state \<Rightarrow> (nat \<times> instance_view) outcome" where
  "create_instance w p body st =
     and_also (checked (and_then (may_create_instance p) (\<lambda>_. registered_input w p body)) st) (\<lambda>input st.
       let iri = fresh_iri (writer w) Instance (es_next st); st = st\<lparr>es_next := Suc (es_next st)\<rparr>
       in and_also (checked (deployment_of w input st) st) (\<lambda>software st.
            let (quads, n) = instance_quads (writer w) iri input (subject p) software (es_next st)
            in and_also (validated_tx w quads (tx_extend quads new_tx) (st\<lparr>es_next := n\<rparr>)) (\<lambda>_ st.
               and_also (loaded_instance w iri (noted w p ''instance.create'' iri (Some (ii_label input)) st)) (\<lambda>v st.
                 (Inr (201, v), st)))))"

section \<open>Changing and withdrawing\<close>

definition may_change_instance :: "principal \<Rightarrow> string \<Rightarrow> app_error + unit" where
  "may_change_instance p iri = (if acts_for_instance p iri then Inr () else require_curator p)"

definition maintained_by :: "string \<Rightarrow> app_error" where
  "maintained_by owner =
     forbidden (''this deployment maintains its own record '' @ [CHR 0xE2, CHR 0x80, CHR 0x94] @ '' it was registered by '' @ owner @
       '', and                          re-states these fields every time it announces itself, so an edit made here                          '' @
       ''would be overwritten without warning. The deployment changes them at                          '' @
       ''PUT /api/v1/instances/self. To stop it, withdraw the record or revoke the                          credential it registered with.'')"

definition owner_only :: "principal \<Rightarrow> string \<Rightarrow> instance_view \<Rightarrow> app_error + unit" where
  "owner_only p iri current =
     (case iv_self_registered_by current of
        Some owner \<Rightarrow> if instance_iri p \<noteq> Some iri then Inl (maintained_by owner) else Inr ()
      | None \<Rightarrow> Inr ())"

text \<open>The body merged onto the stored record, whose ownership stands.\<close>

definition merged_instance :: "endpoint_world \<Rightarrow> instance_view \<Rightarrow> json \<Rightarrow> app_error + instance_in" where
  "merged_instance w current body =
     and_then (decoded w instance_in_of_json (merge_json (instance_in_json (instance_in_from current)) body)) (\<lambda>input.
       Inr (full_iris w (input\<lparr>ii_self_registered_by := iv_self_registered_by current,
              ii_self_registered_issuer := iv_self_registered_issuer current, ii_instance_key := iv_instance_key current\<rparr>)))"

definition patched_instance ::
  "endpoint_world \<Rightarrow> principal \<Rightarrow> string \<Rightarrow> json \<Rightarrow> endpoint_state \<Rightarrow> app_error + instance_in \<times> string option" where
  "patched_instance w p iri body st =
     and_then (exists_record w iri st) (\<lambda>known.
       if \<not> known then Inl (not_found (''no instance at '' @ iri))
       else and_then (load_instance (loader w) (es_graph st) iri) (\<lambda>current.
            and_then (owner_only p iri current) (\<lambda>_.
            and_then (merged_instance w current body) (\<lambda>input.
            and_then (deployment_of w input st) (\<lambda>software. Inr (input, software))))))"

definition foreign_instance :: app_error where
  "foreign_instance = forbidden (''this registry is not authoritative for that IRI (spec '' @ [CHR 0xC2, CHR 0xA7] @ ''9.7)'')"

definition patch_instance :: "endpoint_world \<Rightarrow> principal \<Rightarrow> string \<Rightarrow> json \<Rightarrow> endpoint_state \<Rightarrow> instance_view outcome" where
  "patch_instance w p ident body st =
     (let iri = iri_for (cx_base w) Instance ident in
      and_also (checked (may_change_instance p iri) st) (\<lambda>_ st.
        if \<not> is_local (cx_base w) iri then (Inl foreign_instance, st)
        else and_also (checked (patched_instance w p iri body st) st) (\<lambda>(input, software) st.
             let (tx, n) = replace_instance (writer w) iri input (subject p) software (es_next st)
             in and_also (validated_tx w (insert_quads tx) tx (st\<lparr>es_next := n\<rparr>)) (\<lambda>_ st.
                  loaded_instance w iri (noted w p ''instance.update'' iri None st)))))"

definition soft_delete_instance :: "endpoint_world \<Rightarrow> principal \<Rightarrow> string \<Rightarrow> endpoint_state \<Rightarrow> nat outcome" where
  "soft_delete_instance w p ident st =
     and_also (checked (require_curator p) st) (\<lambda>_ st.
     and_also (tombstone w (iri_for (cx_base w) Instance ident) p st) (\<lambda>_ st. (Inr 204, st)))"

definition put_instance_capability ::
  "endpoint_world \<Rightarrow> principal \<Rightarrow> string \<Rightarrow> capability_in \<Rightarrow> endpoint_state \<Rightarrow> capability_view option outcome" where
  "put_instance_capability w p ident input st =
     (let iri = iri_for (cx_base w) Instance ident in
      and_also (checked (may_change_instance p iri) st) (\<lambda>_ st. put_capability_on w p iri input ''instance'' st))"

section \<open>Announcing\<close>

definition apply_announcement :: "string \<Rightarrow> self_announce_in \<Rightarrow> instance_in \<Rightarrow> instance_in" where
  "apply_announcement base input target =
     target\<lparr>ii_label := (case sa_label input of Some v \<Rightarrow> v | None \<Rightarrow> ii_label target),
       ii_software := (case sa_software input of Some v \<Rightarrow> Some (iri_for base Software v) | None \<Rightarrow> ii_software target),
       ii_release := (case sa_release input of Some v \<Rightarrow> Some (iri_for base Release v) | None \<Rightarrow> ii_release target),
       ii_endpoint_url := first_some (sa_endpoint_url input) (ii_endpoint_url target),
       ii_endpoint_description := first_some (sa_endpoint_description input) (ii_endpoint_description target),
       ii_health_endpoint := first_some (sa_health_endpoint input) (ii_health_endpoint target),
       ii_availability := first_some (sa_availability input) (ii_availability target),
       ii_jurisdiction := first_some (sa_jurisdiction input) (ii_jurisdiction target),
       ii_description := first_some (sa_description input) (ii_description target),
       ii_capability := first_some (sa_capability input) (ii_capability target)\<rparr>"

definition stamp_seen :: "endpoint_world \<Rightarrow> string \<Rightarrow> graph_tx \<Rightarrow> graph_tx" where
  "stamp_seen w iri tx =
     tx_extend (finish (add_datetime (core (writer w)) TAR ''lastSeenAt'' (rdf_world.rw_now w) (local_node iri)))
       (replace_property iri (TAR @ ''lastSeenAt'') G_LOCAL tx)"

text \<open>The first deployment in the registry's graph that the credential registered under the key.\<close>

definition find_self_registered :: "store \<Rightarrow> string \<Rightarrow> string \<Rightarrow> string option" where
  "find_self_registered g sub key =
     (case filter (\<lambda>q. q_graph q = G_LOCAL \<and> q_predicate q = TAR @ ''selfRegisteredBy'' \<and> q_object q = simple_literal sub \<and>
              simple_literal key \<in> set (local_values g (q_subject q) (TAR @ ''instanceKey'')) \<and> \<not> is_tombstoned g (q_subject q)) g of
        [] \<Rightarrow> None | q # _ \<Rightarrow> iri_of (q_subject q))"

definition announce_key :: "principal \<Rightarrow> self_announce_in \<Rightarrow> string" where
  "announce_key p input = (case sa_instance_key input of Some k \<Rightarrow> k | None \<Rightarrow> subject p)"

text \<open>The record an announcement is about.\<close>

definition announce_target :: "principal \<Rightarrow> self_announce_in \<Rightarrow> store \<Rightarrow> string option" where
  "announce_target p input g =
     (let registered = find_self_registered g (subject p) (announce_key p input)
      in if software_iri p \<noteq> None
         then first_some registered (if sa_instance_key input = None then instance_iri p else None)
         else first_some (instance_iri p) registered)"

definition may_announce :: "principal \<Rightarrow> app_error + unit" where
  "may_announce p =
     and_then (require_authenticated p) (\<lambda>_.
       if is_subscribe_only p then Inl (forbidden ''a subscribe:artifacts credential cannot announce a deployment'')
       else if credential p = OidcWorkload \<or> credential p = LocalToken then Inr ()
       else Inl (forbidden (''only a deployment may announce itself; this is a person's or an administrator's '' @
              ''credential, so use POST /api/v1/instances'')))"

definition announce_known :: "endpoint_world \<Rightarrow> principal \<Rightarrow> string \<Rightarrow> self_announce_in \<Rightarrow> endpoint_state \<Rightarrow> (nat \<times> instance_view) outcome" where
  "announce_known w p iri input st =
     and_also (checked (load_instance (loader w) (es_graph st) iri) st) (\<lambda>current st.
       let merged = apply_announcement (cx_base w) input (instance_in_from current);
           (quads, n) = instance_quads (writer w) iri merged (subject p) (ii_software merged) (es_next st)
       in and_also (checked (enforce_write (ew_rules w) (core (writer w)) (ew_codec w) quads) (st\<lparr>es_next := n\<rparr>)) (\<lambda>_ st.
          and_also (checked (deployment_of w merged st) st) (\<lambda>software st.
            let (tx, n) = replace_instance (writer w) iri merged (subject p) software (es_next st)
            in and_also (store_tx w (stamp_seen w iri tx) (st\<lparr>es_next := n\<rparr>)) (\<lambda>_ st.
               and_also (loaded_instance w iri (noted w p ''instance.announce'' iri None st)) (\<lambda>v st.
                 (Inr (200, v), st))))))"

definition nothing_bound :: "string \<Rightarrow> app_error" where
  "nothing_bound client =
     forbidden (''no deployment is bound to '' @ client @ '', and no software authorises it to register one. Either an '' @
       ''administrator creates the deployment with POST /api/v1/instances setting oidc_client_id to '' @ client @
       '', or a curator issues an auto-registration key with POST /api/v1/software/{id}/tokens (or lists '' @ client @
       '' in that software's registration_clients), or the operator enables TAR_OIDC_AUTO_REGISTER_INSTANCES.'')"

text \<open>Which software the credential may register a deployment of.\<close>

definition registration_software :: "endpoint_world \<Rightarrow> principal \<Rightarrow> self_announce_in \<Rightarrow> app_error + string" where
  "registration_software w p input =
     (case (software_iri p, sa_software input) of
        (Some bound, Some claimed) \<Rightarrow>
          (let iri = iri_for (cx_base w) Software claimed
           in if iri \<noteq> bound then Inl (wrong_software bound iri) else Inr bound)
      | (Some bound, None) \<Rightarrow> Inr bound
      | (None, claimed) \<Rightarrow>
          if \<not> auto_register_instances (ew_oidc w) then Inl (nothing_bound (subject p))
          else (case claimed of
                  None \<Rightarrow> Inl (bad_request ''a first announcement must say which software this is a deployment of'')
                | Some c \<Rightarrow> Inr (iri_for (cx_base w) Software c)))"

definition first_record :: "endpoint_world \<Rightarrow> principal \<Rightarrow> string \<Rightarrow> self_announce_in \<Rightarrow> instance_in" where
  "first_record w p software input =
     (let own = software_iri p = None;
          fresh = \<lparr>ii_label = (case sa_label input of Some l \<Rightarrow> l | None \<Rightarrow> subject p), ii_self_registered_by = None,
             ii_self_registered_issuer = None, ii_instance_key = None, ii_software = Some software, ii_release = None,
             ii_endpoint_url = None, ii_endpoint_description = None, ii_operator = None, ii_availability = None,
             ii_jurisdiction = None, ii_description = None, ii_oidc_client_id = (if own then Some (subject p) else None),
             ii_oidc_issuer = (if own then issuer p else None),
             ii_allowed_scopes = [''advertise:produce'', ''advertise:consume''], ii_health_endpoint = None, ii_capability = None\<rparr>
      in (apply_announcement (cx_base w) input fresh)
           \<lparr>ii_software := Some software, ii_self_registered_by := Some (subject p), ii_self_registered_issuer := issuer p,
            ii_instance_key := Some (announce_key p input)\<rparr>)"

definition announce_first :: "endpoint_world \<Rightarrow> principal \<Rightarrow> self_announce_in \<Rightarrow> endpoint_state \<Rightarrow> (nat \<times> instance_view) outcome" where
  "announce_first w p input st =
     and_also (checked (registration_software w p input) st) (\<lambda>sw st.
       let fresh = first_record w p sw input; iri = fresh_iri (writer w) Instance (es_next st); st = st\<lparr>es_next := Suc (es_next st)\<rparr>
       in and_also (checked (deployment_of w fresh st) st) (\<lambda>software st.
            let (quads, n) = instance_quads (writer w) iri fresh (subject p) software (es_next st)
            in and_also (validated_tx w quads (stamp_seen w iri (tx_extend quads new_tx)) (st\<lparr>es_next := n\<rparr>)) (\<lambda>_ st.
               and_also (loaded_instance w iri (noted w p ''instance.self-register'' iri (Some (subject p)) st)) (\<lambda>v st.
                 (Inr (201, v), st)))))"

definition announce_self :: "endpoint_world \<Rightarrow> principal \<Rightarrow> self_announce_in \<Rightarrow> endpoint_state \<Rightarrow> (nat \<times> instance_view) outcome" where
  "announce_self w p input st =
     and_also (checked (may_announce p) st) (\<lambda>_ st.
       case announce_target p input (es_graph st) of
         Some iri \<Rightarrow> announce_known w p iri input st
       | None \<Rightarrow> announce_first w p input st)"

section \<open>Reading\<close>

text \<open>Who could manage the tokens of a deployment is told how many live ones it has.\<close>

definition get_instance :: "endpoint_world \<Rightarrow> principal \<Rightarrow> token_row list \<Rightarrow> string \<Rightarrow> endpoint_state \<Rightarrow> app_error + instance_view" where
  "get_instance w p rows ident st =
     (let iri = iri_for (cx_base w) Instance ident in
      and_then (load_instance (loader w) (es_graph st) iri) (\<lambda>v.
        Inr (if is_curator p \<or> instance_iri p = Some iri
             then v\<lparr>iv_token_count := int (length (filter (\<lambda>t. tok_revoked_at t = None) (list_tokens iri rows)))\<rparr>
             else v)))"

record instance_filter =
  if_q :: "string option"
  if_software :: "string option"
  if_operator :: "string option"
  if_status :: "string option"
  if_release :: "string option"
  if_registry :: "string option"
  if_paging :: paging

definition graph_pattern :: "string \<Rightarrow> string option \<Rightarrow> string" where
  "graph_pattern path v =
     (case v of None \<Rightarrow> [] | Some iri \<Rightarrow> [NEWLINE] @ ''GRAPH ?g { ?s '' @ path @ '' <'' @ iri @ ''> }'')"

definition instance_where_body :: "string \<Rightarrow> instance_filter \<Rightarrow> string" where
  "instance_where_body base f =
     ''GRAPH ?g { ?s a <'' @ TYPE_SOFTWARE_AGENT @ ''> ; rdfs:label ?label }'' @ [NEWLINE] @
       ''FILTER NOT EXISTS { GRAPH ?tg { ?s tar:tombstoned true } }''
       @ (case if_q f of Some q \<Rightarrow> [NEWLINE] @ text_filter q [''?label''] | None \<Rightarrow> [])
       @ graph_pattern ''tar:instanceOf'' (map_option (iri_for base Software) (non_empty (if_software f)))
       @ graph_pattern ''tar:runsRelease'' (map_option (iri_for base Release) (non_empty (if_release f)))
       @ graph_pattern ''dct:publisher'' (non_empty (if_operator f))
       @ (case non_empty (if_status f) of
            Some s \<Rightarrow> [NEWLINE] @ ''GRAPH ?g { ?s tar:health '' @ [QUOTE] @ escape_literal s @ [QUOTE] @ '' }'' | None \<Rightarrow> [])
       @ (case if_registry f of
            None \<Rightarrow> []
          | Some x \<Rightarrow>
              if x = ''local'' then [NEWLINE] @ ''FILTER(?g = <'' @ G_LOCAL @ ''>)''
              else if x \<noteq> [] then [NEWLINE] @ ''FILTER(?g = <'' @ peer_graph x @ ''>)'' else [])
       @ [NEWLINE] @ cursor_filter ''?s'' (if_paging f)"

text \<open>A page: its records, the number of all of them, and the next cursor.\<close>

definition list_instances ::
  "endpoint_world \<Rightarrow> (string \<Rightarrow> app_error + string option list) \<Rightarrow> (string \<Rightarrow> app_error + int option list) \<Rightarrow>
   instance_filter \<Rightarrow> store \<Rightarrow> app_error + instance_view list \<times> int \<times> string option" where
  "list_instances w select select_count f g =
     (let body = instance_where_body (cx_base w) f in
      and_then (page_iris select body (if_paging f)) (\<lambda>(iris, nxt).
      and_then (count_subjects select_count body) (\<lambda>total.
      and_then (instance_signals_of (loader w) g None) (\<lambda>signals.
      and_then (collect_results (map (\<lambda>i. and_then (described_props (views w) g i) (\<lambda>p.
                  Inr (with_signals (signals i) (instance_from_props (views w) g i p)))) iris)) (\<lambda>items.
        Inr (decorate_instances (views w) g items, total, nxt))))))"

definition instance_runs_body :: "string \<Rightarrow> paging \<Rightarrow> string" where
  "instance_runs_body iri p =
     ''GRAPH ?g { ?s a <'' @ TYPE_ACTIVITY @ ''> ; prov:wasAssociatedWith|tar:atInstance <'' @ iri @ ''> }'' @ [NEWLINE] @ cursor_filter ''?s'' p"

definition instance_artifacts_body :: "string \<Rightarrow> paging \<Rightarrow> string" where
  "instance_artifacts_body iri p =
     ''GRAPH ?g { ?run prov:wasAssociatedWith|tar:atInstance <'' @ iri @ ''> . ?s prov:wasGeneratedBy ?run }'' @ [NEWLINE] @ cursor_filter ''?s'' p"

text \<open>The records of a page that can be loaded.\<close>

definition loadable_page ::
  "(string \<Rightarrow> app_error + string option list) \<Rightarrow> (string \<Rightarrow> app_error + int option list) \<Rightarrow> string \<Rightarrow> paging \<Rightarrow>
   (string \<Rightarrow> app_error + 'a) \<Rightarrow> app_error + 'a list \<times> int \<times> string option" where
  "loadable_page select select_count body p load =
     and_then (page_iris select body p) (\<lambda>(iris, nxt).
     and_then (count_subjects select_count body) (\<lambda>total.
       Inr (List.map_filter (\<lambda>i. case load i of Inr x \<Rightarrow> Some x | Inl _ \<Rightarrow> None) iris, total, nxt)))"

definition instance_runs where
  "instance_runs w select select_count ident p g =
     loadable_page select select_count (instance_runs_body (iri_for (cx_base w) Instance ident) p) p (load_run_summary (views w) g)"

definition instance_artifacts where
  "instance_artifacts w select select_count ident p g =
     loadable_page select select_count (instance_artifacts_body (iri_for (cx_base w) Instance ident) p) p (load_artifact (views w) g)"

end
