(* ===== verification/Deployment_Reads.thy ===== *)
theory Deployment_Reads
  imports Instances_Api
begin

text \<open>
  The statements of a deployment as a list of pairs (\<open>instance_quads\<close> of \<open>src/domain/instance.rs\<close>), and
  reading them back: what \<open>load_instance\<close> and \<open>instance_in_from\<close> give is what was written.
\<close>

section \<open>The statements of a deployment\<close>

definition texts_pairs :: "string \<Rightarrow> string list \<Rightarrow> (string \<times> rdf_term) list" where
  "texts_pairs p vs = map (\<lambda>v. (p, simple_literal v)) (filter (\<lambda>v. v \<noteq> []) vs)"

lemma emit_texts: "add_texts ns l vs = emit (texts_pairs (ns @ l) vs)"
proof
  fix n
  show "add_texts ns l vs n = emit (texts_pairs (ns @ l) vs) n"
    by (induction vs arbitrary: n) (simp_all add: add_texts_def texts_pairs_def add_text_def emit_push emit_def [of "[]"])
qed

definition instance_pairs :: "build_world \<Rightarrow> instance_in \<Rightarrow> string \<Rightarrow> string option \<Rightarrow> (string \<times> rdf_term) list" where
  "instance_pairs w input actor software =
     [(rdf_type, Node (NamedNode TYPE_SOFTWARE_AGENT)), (rdf_type, Node (NamedNode TYPE_TAR_INSTANCE))]
     @ (if non_empty (ii_endpoint_url input) \<noteq> None then [(rdf_type, Node (NamedNode TYPE_DATA_SERVICE))] else [])
     @ text_pairs (RDFS @ ''label'') (Some (ii_label input)) @ text_pairs (DCT @ ''description'') (ii_description input)
     @ link_pairs (core w) (TAR @ ''runsRelease'') (ii_release input)
     @ link_pairs (core w) (TAR @ ''instanceOf'') (first_some software (ii_software input))
     @ link_pairs (core w) (DCAT @ ''endpointURL'') (ii_endpoint_url input)
     @ link_pairs (core w) (DCAT @ ''endpointDescription'') (ii_endpoint_description input)
     @ link_pairs (core w) (TAR @ ''healthEndpoint'') (ii_health_endpoint input)
     @ text_pairs (TAR @ ''selfRegisteredBy'') (ii_self_registered_by input)
     @ (if ii_self_registered_by input \<noteq> None then text_pairs (TAR @ ''selfRegisteredIssuer'') (ii_self_registered_issuer input) else [])
     @ text_pairs (TAR @ ''instanceKey'') (ii_instance_key input) @ text_pairs (TAR @ ''availability'') (ii_availability input)
     @ link_pairs (core w) (DCT @ ''accessRights'') (Option.bind (ii_availability input) access_right)
     @ text_pairs (TAR @ ''jurisdiction'') (ii_jurisdiction input) @ text_pairs (TAR @ ''oidcClientId'') (ii_oidc_client_id input)
     @ text_pairs (TAR @ ''oidcIssuer'') (ii_oidc_issuer input) @ texts_pairs (TAR @ ''allowedScope'') (ii_allowed_scopes input)
     @ link_pairs (core w) (DCAT @ ''inCatalog'') (Some (bw_base w)) @ link_pairs (core w) (PROV @ ''wasAttributedTo'') (Some actor)
     @ date_pairs (core w) (DCT @ ''modified'') (Some (rdf_world.rw_now (core w)))"

lemma emit_if: "(if c then emit a else emit b) = emit (if c then a else b)"
  by simp

lemma emit_option_link: "(case v of Some x \<Rightarrow> emit (link_pairs w p (Some x)) | None \<Rightarrow> emit []) = emit (link_pairs w p v)"
  by (cases v) (simp_all add: link_pairs_def non_empty_def)

lemma emit_attribution: "attribution w a = emit (link_pairs w (PROV @ ''wasAttributedTo'') (Some a) @ date_pairs w (DCT @ ''modified'') (Some (rdf_world.rw_now w)))"
  by (simp add: fun_eq_iff attribution_def attribution_at_def emit_calls)

lemma describe_instance_emits: "describe_instance w input actor software node = emit (instance_pairs w input actor software) node"
  unfolding describe_instance_def instance_pairs_def build_def fold.simps comp_apply id_apply emit_calls emit_texts emit_none emit_if
    emit_option_link emit_attribution emit_emit append_assoc append_Cons append_Nil
  by simp

text \<open>The objects a deployment is described with under one of the names that only it uses.\<close>

definition objects_under :: "string \<Rightarrow> (string \<times> rdf_term) list \<Rightarrow> rdf_term list" where
  "objects_under p ps = map snd (filter (\<lambda>x. fst x = p) ps)"

lemma objects_under_append: "objects_under p (a @ b) = objects_under p a @ objects_under p b" "objects_under p [] = []"
  "objects_under p ((k, v) # ps) = (if k = p then [v] else []) @ objects_under p ps"
  "objects_under p (if c then a else b) = (if c then objects_under p a else objects_under p b)"
  by (simp_all add: objects_under_def)

lemma objects_under_pairs:
  "objects_under p (text_pairs k v) = (if k = p then map simple_literal (case non_empty v of Some t \<Rightarrow> [t] | None \<Rightarrow> []) else [])"
  "objects_under p (link_pairs c k v) = (if k = p then map (link_term c) (case non_empty v of Some t \<Rightarrow> [t] | None \<Rightarrow> []) else [])"
  "objects_under p (texts_pairs k vs) = (if k = p then map simple_literal (filter (\<lambda>v. v \<noteq> []) vs) else [])"
  "k \<noteq> p \<Longrightarrow> objects_under p (date_pairs c k v) = []"
  by (auto simp: objects_under_def text_pairs_def link_pairs_def texts_pairs_def date_pairs_def comp_def split: option.split)

definition present :: "string option \<Rightarrow> string list" where
  "present v = (case non_empty v of Some t \<Rightarrow> [t] | None \<Rightarrow> [])"

section \<open>Reading them back\<close>

lemma namespaces_apart [simp]:
  "TAR @ a \<noteq> RDFS @ b" "TAR @ a \<noteq> DCT @ b" "TAR @ a \<noteq> DCAT @ b" "TAR @ a \<noteq> PROV @ b" "TAR @ a \<noteq> ADMS @ b" "TAR @ a \<noteq> rdf_type"
  "RDFS @ a \<noteq> TAR @ b" "RDFS @ a \<noteq> DCT @ b" "RDFS @ a \<noteq> DCAT @ b" "RDFS @ a \<noteq> PROV @ b" "RDFS @ a \<noteq> ADMS @ b" "RDFS @ a \<noteq> rdf_type"
  "DCT @ a \<noteq> TAR @ b" "DCT @ a \<noteq> RDFS @ b" "DCT @ a \<noteq> DCAT @ b" "DCT @ a \<noteq> PROV @ b" "DCT @ a \<noteq> ADMS @ b" "DCT @ a \<noteq> rdf_type"
  "DCAT @ a \<noteq> TAR @ b" "DCAT @ a \<noteq> RDFS @ b" "DCAT @ a \<noteq> DCT @ b" "DCAT @ a \<noteq> PROV @ b" "DCAT @ a \<noteq> ADMS @ b" "DCAT @ a \<noteq> rdf_type"
  "PROV @ a \<noteq> TAR @ b" "PROV @ a \<noteq> RDFS @ b" "PROV @ a \<noteq> DCT @ b" "PROV @ a \<noteq> DCAT @ b"
  "rdf_type \<noteq> TAR @ b" "rdf_type \<noteq> RDFS @ b" "rdf_type \<noteq> DCT @ b" "rdf_type \<noteq> DCAT @ b"
  "ADMS @ a \<noteq> TAR @ b" "ADMS @ a \<noteq> RDFS @ b" "ADMS @ a \<noteq> DCT @ b" "ADMS @ a \<noteq> DCAT @ b"
  by (simp_all add: TAR_def RDFS_def DCT_def DCAT_def PROV_def ADMS_def rdf_type_def RDF_def)

lemmas pair_lookups = instance_pairs_def objects_under_append objects_under_pairs present_def

lemma text_lookups:
  "objects_under (RDFS @ ''label'') (instance_pairs w i a s) = map simple_literal (present (Some (ii_label i)))"
  "objects_under (DCT @ ''description'') (instance_pairs w i a s) = map simple_literal (present (ii_description i))"
  "objects_under (TAR @ ''availability'') (instance_pairs w i a s) = map simple_literal (present (ii_availability i))"
  "objects_under (TAR @ ''jurisdiction'') (instance_pairs w i a s) = map simple_literal (present (ii_jurisdiction i))"
  "objects_under (TAR @ ''selfRegisteredBy'') (instance_pairs w i a s) = map simple_literal (present (ii_self_registered_by i))"
  "objects_under (TAR @ ''selfRegisteredIssuer'') (instance_pairs w i a s)
     = (if ii_self_registered_by i = None then [] else map simple_literal (present (ii_self_registered_issuer i)))"
  "objects_under (TAR @ ''instanceKey'') (instance_pairs w i a s) = map simple_literal (present (ii_instance_key i))"
  "objects_under (TAR @ ''oidcClientId'') (instance_pairs w i a s) = map simple_literal (present (ii_oidc_client_id i))"
  "objects_under (TAR @ ''oidcIssuer'') (instance_pairs w i a s) = map simple_literal (present (ii_oidc_issuer i))"
  "objects_under (TAR @ ''allowedScope'') (instance_pairs w i a s) = map simple_literal (filter (\<lambda>v. v \<noteq> []) (ii_allowed_scopes i))"
  by (simp add: pair_lookups)+

lemma link_lookups:
  "objects_under (TAR @ ''instanceOf'') (instance_pairs w i a s) = map (link_term (core w)) (present (first_some s (ii_software i)))"
  "objects_under (TAR @ ''runsRelease'') (instance_pairs w i a s) = map (link_term (core w)) (present (ii_release i))"
  "objects_under (TAR @ ''healthEndpoint'') (instance_pairs w i a s) = map (link_term (core w)) (present (ii_health_endpoint i))"
  "objects_under (DCAT @ ''endpointURL'') (instance_pairs w i a s) = map (link_term (core w)) (present (ii_endpoint_url i))"
  "objects_under (DCAT @ ''endpointDescription'') (instance_pairs w i a s) = map (link_term (core w)) (present (ii_endpoint_description i))"
  "objects_under (DCT @ ''publisher'') (instance_pairs w i a s) = []"
  "objects_under (TAR @ ''hasCapability'') (instance_pairs w i a s) = []"
  by (simp add: pair_lookups)+

text \<open>Statements that come with a withdrawal are in the way of none of these.\<close>

definition WITHDRAWAL :: "string list" where
  "WITHDRAWAL = [TAR @ ''tombstoned'', TAR @ ''tombstonedAt'', ADMS @ ''status'', PROV @ ''wasAttributedTo'']"

lemma terms_under: "terms p ns l = objects_under (ns @ l) (np_pairs p)"
  by (simp add: terms_def objects_under_def)

lemma nothing_under: "\<forall>x \<in> set ps. fst x \<in> set WITHDRAWAL \<Longrightarrow> k \<notin> set WITHDRAWAL \<Longrightarrow> objects_under k ps = []"
  by (auto simp: objects_under_def filter_empty_conv)

lemma first_text: "terms p ns l = map simple_literal (present v) \<Longrightarrow> get_str p ns l = non_empty v"
  by (simp add: get_str_def one_def present_def term_value_def simple_literal_def split: option.split)

lemma first_link:
  assumes "terms p ns l = map (link_term c) (present v)" "\<forall>t. v = Some t \<longrightarrow> rw_valid_iri c t"
  shows "get_iri p ns l = non_empty v"
  using assms by (simp add: get_iri_def one_def present_def named_def link_term_def non_empty_def split: option.splits)

text \<open>A deployment whose texts are not empty and whose links are IRIs, without operator and capability.\<close>

definition plain_instance :: "(string \<Rightarrow> bool) \<Rightarrow> instance_in \<Rightarrow> bool" where
  "plain_instance valid i \<longleftrightarrow>
     ii_label i \<noteq> [] \<and> [] \<notin> set (ii_allowed_scopes i) \<and> ii_operator i = None \<and> ii_capability i = None \<and>
     (ii_self_registered_by i = None \<longrightarrow> ii_self_registered_issuer i = None) \<and>
     list_all (\<lambda>v. v \<noteq> Some [])
       [ii_description i, ii_availability i, ii_jurisdiction i, ii_self_registered_by i, ii_self_registered_issuer i, ii_instance_key i,
        ii_oidc_client_id i, ii_oidc_issuer i] \<and>
     list_all (\<lambda>v. case v of None \<Rightarrow> True | Some t \<Rightarrow> t \<noteq> [] \<and> valid t)
       [ii_software i, ii_release i, ii_endpoint_url i, ii_endpoint_description i, ii_health_endpoint i]"

lemma non_empty_same: "v \<noteq> Some [] \<Longrightarrow> non_empty v = v"
  by (auto simp: non_empty_def split: option.split)

lemma instance_reads_back:
  assumes pairs: "np_pairs p = instance_pairs b i a (ii_software i) @ rest" and rest: "\<forall>x \<in> set rest. fst x \<in> set WITHDRAWAL"
    and plain: "plain_instance (rw_valid_iri (core b)) i"
  shows "instance_in_from (instance_from_props w g iri p) = i"
proof -
  have t: "terms p ns l = objects_under (ns @ l) (instance_pairs b i a (ii_software i))" if "ns @ l \<notin> set WITHDRAWAL" for ns l
    using nothing_under [OF rest that] by (simp add: terms_under pairs objects_under_append)
  have texts: "get_str p RDFS ''label'' = Some (ii_label i)" "get_str p DCT ''description'' = ii_description i"
    "get_str p TAR ''availability'' = ii_availability i" "get_str p TAR ''jurisdiction'' = ii_jurisdiction i"
    "get_str p TAR ''selfRegisteredBy'' = ii_self_registered_by i" "get_str p TAR ''instanceKey'' = ii_instance_key i"
    "get_str p TAR ''oidcClientId'' = ii_oidc_client_id i" "get_str p TAR ''oidcIssuer'' = ii_oidc_issuer i"
    using plain by (simp_all add: first_text [OF t [THEN trans]] text_lookups WITHDRAWAL_def plain_instance_def non_empty_same)
  have vouched: "get_str p TAR ''selfRegisteredIssuer'' = ii_self_registered_issuer i"
  proof (cases "ii_self_registered_by i")
    case None
    with plain show ?thesis by (simp add: get_str_def one_def t text_lookups WITHDRAWAL_def plain_instance_def)
  next
    case (Some o')
    with plain show ?thesis by (simp add: first_text [OF t [THEN trans]] text_lookups WITHDRAWAL_def plain_instance_def non_empty_same)
  qed
  have links: "get_iri p TAR ''instanceOf'' = ii_software i" "get_iri p TAR ''runsRelease'' = ii_release i"
    "get_iri p TAR ''healthEndpoint'' = ii_health_endpoint i" "get_iri p DCAT ''endpointURL'' = ii_endpoint_url i"
    "get_iri p DCAT ''endpointDescription'' = ii_endpoint_description i"
    using plain
    by (auto simp: first_link [OF t [THEN trans]] link_lookups WITHDRAWAL_def plain_instance_def non_empty_same first_some_def split: option.splits)
  have none: "get_iri p DCT ''publisher'' = None" "get_iri p TAR ''hasCapability'' = None"
    by (simp_all add: get_iri_def one_def t link_lookups WITHDRAWAL_def)
  have "filter (\<lambda>v. v \<noteq> []) (ii_allowed_scopes i) = ii_allowed_scopes i"
    using plain unfolding plain_instance_def filter_id_conv by metis
  then have scopes: "get_strs p TAR ''allowedScope'' = ii_allowed_scopes i"
    by (simp add: get_strs_def t text_lookups WITHDRAWAL_def comp_def term_value_def simple_literal_def)
  show ?thesis
    using plain by (cases i) (simp add: instance_in_from_def instance_from_props_def texts vouched links none scopes text_or_def plain_instance_def)
qed

lemma pairs_of_record:
  "np_pairs (from_quads iri (map (quad_of (local_node iri)) ps)) = ps"
  by (simp add: from_quads_def props_of_def node_props.extend_def quads_about_def filter_map comp_def quad_of_def subject_key_def)

lemma has_type_pair:
  assumes "(rdf_type, Node (NamedNode t)) \<in> set (np_pairs p)" shows "has_type p t"
proof -
  have "Node (NamedNode t) \<in> set (terms p RDF ''type'')" using assms by (force simp: terms_def rdf_type_def)
  moreover have "named (Node (NamedNode t)) = Some t" by (simp add: named_def)
  ultimately show ?thesis by (force simp: has_type_def types_of_def get_iris_def map_filter_def)
qed

text \<open>What loading gives for a record that is described by such statements, withdrawn or not.\<close>

lemma loaded_record:
  assumes "described w g iri = Inr (map (quad_of (local_node iri)) (instance_pairs b i a (ii_software i) @ rest))"
    and "\<forall>x \<in> set rest. fst x \<in> set WITHDRAWAL" "plain_instance (rw_valid_iri (core b)) i" "rw_valid_iri w iri"
  shows "\<exists>v. load_instance w g iri = Inr v \<and> instance_in_from v = i"
proof -
  let ?p = "from_quads iri (map (quad_of (local_node iri)) (instance_pairs b i a (ii_software i) @ rest))"
  have p: "np_pairs ?p = instance_pairs b i a (ii_software i) @ rest" by (rule pairs_of_record)
  have same: "instance_in_from (instance_from_props (reader w) g iri ?p) = i"
    by (rule instance_reads_back [OF p assms(2,3)])
  obtain q qs where cons: "map (quad_of (local_node iri)) (instance_pairs b i a (ii_software i) @ rest) = q # qs"
    by (simp add: instance_pairs_def)
  have "has_type ?p TYPE_SOFTWARE_AGENT"
    by (rule has_type_pair) (simp only: p, simp add: instance_pairs_def)
  then have typed: "has_type (from_quads iri (q # qs)) TYPE_SOFTWARE_AGENT" by (simp only: cons)
  obtain f where f: "instance_signals_of w g (Some iri) = Inr f" using assms(4) by (auto simp: instance_signals_of_def)
  have "instance_in_from (hd (decorate_instances r g [with_signals s x])) = instance_in_from x" for r s x
    by (auto simp: decorate_instances_def decorate_instance_def with_signals_def instance_in_from_def Let_def split: option.split)
  moreover have "described w g iri = Inr (q # qs)" by (simp only: assms(1) cons)
  ultimately show ?thesis
    using same unfolding cons by (simp add: load_instance_def typed f Let_def)
qed

lemma typed_record_loads:
  assumes "described w g iri = Inr qs" "has_type (from_quads iri qs) TYPE_SOFTWARE_AGENT" "rw_valid_iri w iri"
  shows "\<exists>v. load_instance w g iri = Inr v"
proof (cases qs)
  case Nil
  with assms(2) show ?thesis
    by (simp add: has_type_def types_of_def get_iris_def terms_def from_quads_def props_of_def node_props.extend_def quads_about_def map_filter_def)
next
  case (Cons q qs')
  with assms show ?thesis by (simp add: load_instance_def instance_signals_of_def Let_def)
qed

section \<open>What the store says after the write\<close>

lemma filter_inserted:
  assumes "distinct (filter P qs)" "\<forall>q \<in> set (filter P qs). q \<notin> set st"
  shows "filter P (fold insert_quad qs st) = filter P st @ filter P qs"
  using assms
proof (induction qs arbitrary: st)
  case (Cons q qs)
  show ?case
  proof (cases "P q")
    case True
    with Cons.prems have "filter P (fold insert_quad qs (st @ [q])) = filter P (st @ [q]) @ filter P qs"
      by (intro Cons.IH) auto
    moreover have "insert_quad q st = st @ [q]" using True Cons.prems(2) by (simp add: insert_quad_def)
    ultimately show ?thesis using True by simp
  next
    case False
    with Cons.prems have "filter P (fold insert_quad qs (insert_quad q st)) = filter P (insert_quad q st) @ filter P qs"
      by (intro Cons.IH) auto
    moreover have "filter P (insert_quad q st) = filter P st" using False by (simp add: insert_quad_def)
    ultimately show ?thesis using False by simp
  qed
qed simp

text \<open>A record of which no part says anything is described by its own statements.\<close>

lemma silent_levels:
  assumes "\<forall>q \<in> set st. q_subject q = NamedNode s \<longrightarrow> (\<forall>n \<in> set (owned_objects q). \<not> speaks st n)" "n \<in> set (level_nodes st s (Suc d))"
  shows "\<not> speaks st n"
  using assms(2)
proof (induction d arbitrary: n)
  case 0
  with assms(1) show ?case by (auto simp: hop_def)
next
  case (Suc d)
  then obtain m where m: "m \<in> set (level_nodes st s (Suc d))" "(m, n) \<in> follows st"
    by (auto simp: set_hop)
  with Suc.IH [OF m(1)] follows_speaks [OF m(2)] show ?case by simp
qed

lemma shallow_description:
  assumes "valid s" "\<forall>q \<in> set st. q_subject q = NamedNode s \<longrightarrow> (\<forall>n \<in> set (owned_objects q). \<not> speaks st n)"
    and "distinct (filter (\<lambda>q. q_subject q = NamedNode s) st)"
  shows "Describe.describe valid st s = Some (Inr (filter (\<lambda>q. q_subject q = NamedNode s) st))"
proof -
  let ?own = "filter (\<lambda>q. q_subject q = NamedNode s) st"
  have deep: "filter (\<lambda>q. q_subject q \<in> set (level_nodes st s d)) st = []" if "0 < d" for d
    using that silent_levels [OF assms(2)] by (cases d) (fastforce simp: filter_empty_conv speaks_def simp del: level_nodes.simps)+
  have "concat (map (\<lambda>d. map (Pair d) (filter (\<lambda>q. q_subject q \<in> set (level_nodes st s d)) st)) [Suc 0..<Suc DEFAULT_DEPTH]) = []"
    by (simp add: deep del: upt_Suc level_nodes.simps)
  then have rows: "describe_rows st s DEFAULT_DEPTH = map (Pair 0) ?own"
    unfolding describe_rows_def by (subst upt_conv_Cons) (simp_all del: upt_Suc)
  have "\<not> truncated (map (\<lambda>(d, q). (d, subject_key (q_subject q))) (map (Pair 0) ?own)) DEFAULT_DEPTH"
    by (auto simp: truncated_def DEFAULT_DEPTH_def)
  moreover have "dedup (map snd (map (Pair (0 :: nat)) ?own)) = ?own"
    using assms(3) by (simp add: comp_def dedup_distinct)
  ultimately have "describe_loop st s DEFAULT_DEPTH = Some ?own"
    by (subst describe_loop.simps) (simp only: rows Let_def if_True not_False_eq_True simp_thms)
  with assms(1) show ?thesis by (simp add: describe_def)
qed

text \<open>No statement of a deployment is written twice: the predicates of the pieces differ.\<close>

lemma distinct_pieces:
  assumes "distinct (map fst pieces)" "\<forall>x \<in> set pieces. distinct (snd x) \<and> fst ` set (snd x) \<subseteq> {fst x}"
  shows "distinct (concat (map snd pieces))"
  using assms
proof (induction pieces)
  case (Cons x pieces)
  have "set (snd x) \<inter> set (concat (map snd pieces)) = {}"
  proof (rule ccontr)
    assume "set (snd x) \<inter> set (concat (map snd pieces)) \<noteq> {}"
    then obtain y z where "y \<in> set (snd x)" "z \<in> set pieces" "y \<in> set (snd z)" by auto
    then have "fst y = fst x" "fst y = fst z" using Cons.prems(2) by auto
    moreover have "fst z \<in> fst ` set pieces" using \<open>z \<in> set pieces\<close> by simp
    ultimately show False using Cons.prems(1) by simp
  qed
  with Cons show ?case by simp
qed simp

lemma single_pairs [simp]:
  "distinct (text_pairs p v)" "distinct (link_pairs c p v)" "distinct (date_pairs c p v)"
  "fst ` set (text_pairs p v) \<subseteq> {p}" "fst ` set (link_pairs c p v) \<subseteq> {p}" "fst ` set (date_pairs c p v) \<subseteq> {p}"
  "fst ` set (texts_pairs p vs) \<subseteq> {p}" "distinct vs \<Longrightarrow> distinct (texts_pairs p vs)"
  by (auto simp: text_pairs_def link_pairs_def date_pairs_def texts_pairs_def distinct_map inj_on_def simple_literal_def split: option.split)

lemma distinct_instance_pairs:
  assumes "distinct (ii_allowed_scopes i)" shows "distinct (instance_pairs b i a sw)"
proof -
  let ?pieces = "[(rdf_type, [(rdf_type, Node (NamedNode TYPE_SOFTWARE_AGENT)), (rdf_type, Node (NamedNode TYPE_TAR_INSTANCE))]
       @ (if non_empty (ii_endpoint_url i) \<noteq> None then [(rdf_type, Node (NamedNode TYPE_DATA_SERVICE))] else [])),
     (RDFS @ ''label'', text_pairs (RDFS @ ''label'') (Some (ii_label i))),
     (DCT @ ''description'', text_pairs (DCT @ ''description'') (ii_description i)),
     (TAR @ ''runsRelease'', link_pairs (core b) (TAR @ ''runsRelease'') (ii_release i)),
     (TAR @ ''instanceOf'', link_pairs (core b) (TAR @ ''instanceOf'') (first_some sw (ii_software i))),
     (DCAT @ ''endpointURL'', link_pairs (core b) (DCAT @ ''endpointURL'') (ii_endpoint_url i)),
     (DCAT @ ''endpointDescription'', link_pairs (core b) (DCAT @ ''endpointDescription'') (ii_endpoint_description i)),
     (TAR @ ''healthEndpoint'', link_pairs (core b) (TAR @ ''healthEndpoint'') (ii_health_endpoint i)),
     (TAR @ ''selfRegisteredBy'', text_pairs (TAR @ ''selfRegisteredBy'') (ii_self_registered_by i)),
     (TAR @ ''selfRegisteredIssuer'',
       if ii_self_registered_by i \<noteq> None then text_pairs (TAR @ ''selfRegisteredIssuer'') (ii_self_registered_issuer i) else []),
     (TAR @ ''instanceKey'', text_pairs (TAR @ ''instanceKey'') (ii_instance_key i)),
     (TAR @ ''availability'', text_pairs (TAR @ ''availability'') (ii_availability i)),
     (DCT @ ''accessRights'', link_pairs (core b) (DCT @ ''accessRights'') (Option.bind (ii_availability i) access_right)),
     (TAR @ ''jurisdiction'', text_pairs (TAR @ ''jurisdiction'') (ii_jurisdiction i)),
     (TAR @ ''oidcClientId'', text_pairs (TAR @ ''oidcClientId'') (ii_oidc_client_id i)),
     (TAR @ ''oidcIssuer'', text_pairs (TAR @ ''oidcIssuer'') (ii_oidc_issuer i)),
     (TAR @ ''allowedScope'', texts_pairs (TAR @ ''allowedScope'') (ii_allowed_scopes i)),
     (DCAT @ ''inCatalog'', link_pairs (core b) (DCAT @ ''inCatalog'') (Some (bw_base b))),
     (PROV @ ''wasAttributedTo'', link_pairs (core b) (PROV @ ''wasAttributedTo'') (Some a)),
     (DCT @ ''modified'', date_pairs (core b) (DCT @ ''modified'') (Some (rdf_world.rw_now (core b))))]"
  have "distinct [rdf_type, RDFS @ ''label'', DCT @ ''description'', TAR @ ''runsRelease'', TAR @ ''instanceOf'', DCAT @ ''endpointURL'',
      DCAT @ ''endpointDescription'', TAR @ ''healthEndpoint'', TAR @ ''selfRegisteredBy'', TAR @ ''selfRegisteredIssuer'', TAR @ ''instanceKey'',
      TAR @ ''availability'', DCT @ ''accessRights'', TAR @ ''jurisdiction'', TAR @ ''oidcClientId'', TAR @ ''oidcIssuer'', TAR @ ''allowedScope'',
      DCAT @ ''inCatalog'', PROV @ ''wasAttributedTo'', DCT @ ''modified'']"
    by code_simp
  then have keys: "distinct (map fst ?pieces)" by simp
  have types: "TYPE_SOFTWARE_AGENT \<noteq> TYPE_TAR_INSTANCE" "TYPE_SOFTWARE_AGENT \<noteq> TYPE_DATA_SERVICE" "TYPE_TAR_INSTANCE \<noteq> TYPE_DATA_SERVICE"
    by code_simp+
  have "\<forall>x \<in> set ?pieces. distinct (snd x) \<and> fst ` set (snd x) \<subseteq> {fst x}"
    using assms types by simp
  from distinct_pieces [OF keys this] show ?thesis
    by (simp only: instance_pairs_def list.map snd_conv concat.simps append_assoc append_Nil append_Nil2 append_Cons)
qed

lemma unowned_pairs:
  "x \<in> set (text_pairs p v) \<Longrightarrow> owned_objects (quad_of n x) = []"
  "x \<in> set (texts_pairs p vs) \<Longrightarrow> owned_objects (quad_of n x) = []"
  "x \<in> set (date_pairs c p v) \<Longrightarrow> owned_objects (quad_of n x) = []"
  "x \<in> set (link_pairs c p v) \<Longrightarrow> \<not> is_owned_subresource p \<Longrightarrow> owned_objects (quad_of n x) = []"
  "x \<in> set (link_pairs c p v) \<Longrightarrow> y \<in> set (owned_objects (quad_of n x)) \<Longrightarrow> \<exists>e. v = Some e \<and> y = NamedNode e"
  by (auto simp: text_pairs_def link_pairs_def date_pairs_def texts_pairs_def quad_of_def owned_objects_def simple_literal_def link_term_def
      non_empty_def split: option.splits if_splits)

lemma owned_by_deployment:
  assumes x: "x \<in> set (instance_pairs b i a sw)" and y: "y \<in> set (owned_objects (quad_of n x))"
  shows "\<exists>e. ii_endpoint_description i = Some e \<and> y = NamedNode e"
proof -
  have no: "\<not> is_owned_subresource (TAR @ ''runsRelease'')" "\<not> is_owned_subresource (TAR @ ''instanceOf'')"
    "\<not> is_owned_subresource (DCAT @ ''endpointURL'')" "\<not> is_owned_subresource (TAR @ ''healthEndpoint'')"
    "\<not> is_owned_subresource (DCT @ ''accessRights'')" "\<not> is_owned_subresource (DCAT @ ''inCatalog'')"
    "\<not> is_owned_subresource (PROV @ ''wasAttributedTo'')" "\<not> is_owned_subresource rdf_type"
    by code_simp+
  have types: "owned_objects (quad_of n (rdf_type, Node (NamedNode t))) = []" for t
    using no(8) by (simp add: quad_of_def owned_objects_def)
  from x consider "owned_objects (quad_of n x) = []"
    | "x \<in> set (link_pairs (core b) (DCAT @ ''endpointDescription'') (ii_endpoint_description i))"
    unfolding instance_pairs_def set_append
    by (elim UnE) (auto simp: types dest: unowned_pairs(1-3) unowned_pairs(4) [OF _ no(1)] unowned_pairs(4) [OF _ no(2)]
      unowned_pairs(4) [OF _ no(3)] unowned_pairs(4) [OF _ no(4)] unowned_pairs(4) [OF _ no(5)] unowned_pairs(4) [OF _ no(6)]
      unowned_pairs(4) [OF _ no(7)] split: if_splits)
  then show ?thesis using y unowned_pairs(5) by cases auto
qed


end
