(* ===== verification/Deployment_Rights.thy ===== *)
theory Deployment_Rights
  imports Deployment_Reads Local_Writes Software_Patch Jwt
begin

text \<open>
  What the endpoints of deployments keep, forget and allow (\<open>src/api/instances.rs\<close>): nothing is written
  to another graph, who owns a self-registered record, which scopes a deployment may give itself, and
  what an announcement does to a record that was withdrawn or belongs to another software.
\<close>

section \<open>Only the registry's own graph\<close>

lemma catalog_local: "all_local (catalog_quads w iri)"
  unfolding catalog_quads_def build_def by (auto intro!: homely_finish homing)

lemma instance_local: "all_local (fst (instance_quads w iri input actor software n))"
proof -
  have "homely (describe_instance w input actor software (local_node iri))"
    unfolding describe_instance_def build_def fold.simps comp_apply
    by (auto intro!: homing split: option.split)
  then have "building_local (link_capability w (ii_capability input) (link_opt_agent w DCT ''publisher'' (ii_operator input)
      (describe_instance w input actor software (local_node iri), catalog_quads w iri, n)))"
    using catalog_local by (intro building_local_capability building_local_agent) (simp add: building_local_def)
  from building_finished [OF this] show ?thesis by (simp add: instance_quads_def Let_def)
qed

lemma instance_pair: "instance_quads w i r actor s n = (qs, n') \<Longrightarrow> all_local qs"
  using instance_local [of w i r actor s n] by simp

lemma instance_replacement_local: "replace_instance w i r actor s n = (tx, n') \<Longrightarrow> tx_local tx"
  using instance_local [of w i r actor s n] by (auto simp: replace_instance_def split: prod.splits)

lemma stamped_local [simp]: "tx_local (stamp_seen w i tx) \<longleftrightarrow> tx_local tx"
  using homely_finish [of "add_datetime (core (writer w)) TAR ''lastSeenAt'' (rdf_world.rw_now w) (local_node i)"]
  by (auto simp: stamp_seen_def homing)

lemma leaves_loaded_instance [simp]: "elsewhere (es_graph st) = elsewhere g \<Longrightarrow> leaves g (loaded_instance w i st)"
  by (simp add: loaded_instance_def)

lemma leaves_announcements:
  assumes "elsewhere (es_graph st) = elsewhere g"
  shows "leaves g (announce_known w p iri input st)" "leaves g (announce_first w p input st)"
  using assms
  by (auto simp: announce_known_def announce_first_def Let_def instance_pair instance_replacement_local
      intro!: leaves_and_also split: prod.split)

lemma instance_handlers_leave:
  assumes "elsewhere (es_graph st) = elsewhere g"
  shows "leaves g (create_instance w p input st)" "leaves g (patch_instance w p ident body st)"
    "leaves g (soft_delete_instance w p ident st)" "leaves g (put_instance_capability w p ident cap st)"
    "leaves g (announce_self w p said_by st)"
  using assms leaves_announcements
  by (auto simp: create_instance_def patch_instance_def soft_delete_instance_def put_instance_capability_def announce_self_def Let_def
      instance_pair instance_replacement_local intro!: leaves_and_also split: prod.split option.split)

text \<open>
  C9. Whatever a handler of the deployment endpoints answers, an error included, the graphs of the
  peers and of the vocabularies say what they said before.
\<close>

theorem deployment_endpoints_write_locally:
  "elsewhere (es_graph (snd (create_instance w p input st))) = elsewhere (es_graph st) \<and>
    elsewhere (es_graph (snd (patch_instance w p ident body st))) = elsewhere (es_graph st) \<and>
    elsewhere (es_graph (snd (soft_delete_instance w p ident st))) = elsewhere (es_graph st) \<and>
    elsewhere (es_graph (snd (put_instance_capability w p ident cap st))) = elsewhere (es_graph st) \<and>
    elsewhere (es_graph (snd (announce_self w p said_by st))) = elsewhere (es_graph st)"
  using instance_handlers_leave [of st "es_graph st"] by (simp add: leaves_def)

section \<open>What only the record itself says\<close>

definition FORGOTTEN :: "string list" where
  "FORGOTTEN = [''health'', ''healthCheckedAt'', ''healthDetail'', ''lastSeenAt'', ''tombstoned'', ''tombstonedAt'']"

lemma bookkeeping_names: "l \<in> set BOOKKEEPING_NAMES \<Longrightarrow> TAR @ l \<in> set bookkeeping"
  by (simp add: bookkeeping_def)

lemma instance_objects:
  "objects_under (TAR @ ''selfRegisteredBy'') (instance_pairs w i a s) = map simple_literal (present (ii_self_registered_by i))"
  "objects_under (TAR @ ''instanceKey'') (instance_pairs w i a s) = map simple_literal (present (ii_instance_key i))"
  "objects_under (TAR @ ''allowedScope'') (instance_pairs w i a s) = map simple_literal (filter (\<lambda>v. v \<noteq> []) (ii_allowed_scopes i))"
  "objects_under (TAR @ ''instanceOf'') (instance_pairs w i a s) = map (link_term (core w)) (present (first_some s (ii_software i)))"
  "l \<in> set FORGOTTEN \<Longrightarrow> objects_under (TAR @ l) (instance_pairs w i a s) = []"
proof -
  have v: "SCHEMA @ k \<noteq> TAR @ l" "DCT @ k \<noteq> TAR @ l" "PROV @ k \<noteq> TAR @ l" "DCAT @ k \<noteq> TAR @ l" "RDFS @ k \<noteq> TAR @ l" "rdf_type \<noteq> TAR @ l"
    if "l \<in> set BOOKKEEPING_NAMES" for k l
    by (rule other_vocabulary [OF bookkeeping_names [OF that]])+
  note all = instance_pairs_def objects_under_append objects_under_pairs present_def append_same_eq
  have *: "''selfRegisteredBy'' \<in> set BOOKKEEPING_NAMES" "''instanceKey'' \<in> set BOOKKEEPING_NAMES" "''allowedScope'' \<in> set BOOKKEEPING_NAMES"
    "''instanceOf'' \<in> set BOOKKEEPING_NAMES" by (simp_all add: BOOKKEEPING_NAMES_def)
  show "objects_under (TAR @ ''selfRegisteredBy'') (instance_pairs w i a s) = map simple_literal (present (ii_self_registered_by i))"
    by (simp add: all v [OF *(1)])
  show "objects_under (TAR @ ''instanceKey'') (instance_pairs w i a s) = map simple_literal (present (ii_instance_key i))"
    by (simp add: all v [OF *(2)])
  show "objects_under (TAR @ ''allowedScope'') (instance_pairs w i a s) = map simple_literal (filter (\<lambda>v. v \<noteq> []) (ii_allowed_scopes i))"
    by (simp add: all v [OF *(3)])
  show "objects_under (TAR @ ''instanceOf'') (instance_pairs w i a s) = map (link_term (core w)) (present (first_some s (ii_software i)))"
    by (simp add: all v [OF *(4)])
  show "objects_under (TAR @ l) (instance_pairs w i a s) = []" if "l \<in> set FORGOTTEN"
  proof -
    have n: "l \<in> set BOOKKEEPING_NAMES" "''runsRelease'' \<noteq> l" "''instanceOf'' \<noteq> l" "''healthEndpoint'' \<noteq> l" "''selfRegisteredBy'' \<noteq> l"
       "''selfRegisteredIssuer'' \<noteq> l" "''instanceKey'' \<noteq> l" "''availability'' \<noteq> l" "''jurisdiction'' \<noteq> l" "''oidcClientId'' \<noteq> l"
       "''oidcIssuer'' \<noteq> l" "''allowedScope'' \<noteq> l"
      using that by (auto simp: BOOKKEEPING_NAMES_def FORGOTTEN_def)
    show ?thesis by (simp add: all v [OF n(1)] n(2-))
  qed
qed

text \<open>Agents and capabilities that a record links add nothing under such a name.\<close>

definition under :: "string \<Rightarrow> building \<Rightarrow> quad set" where
  "under p b = (case b of (node, quads, n) \<Rightarrow> {q. q_predicate q = p \<and> (q \<in> set quads \<or> q \<in> set (rn_quads node))})"

lemma link_adds: "q \<in> set (rn_quads (add_link c ns l x n)) \<longleftrightarrow> q \<in> set (rn_quads n) \<or> q \<in> quad_of n ` set (link_pairs c (ns @ l) (Some x))"
  by (auto simp: emit_calls)

lemma link_adds_other: "ns @ l \<noteq> p \<Longrightarrow> q_predicate q = p \<Longrightarrow> q \<in> set (rn_quads (add_link c ns l x n)) \<longleftrightarrow> q \<in> set (rn_quads n)"
  by (auto simp: link_adds link_pairs_def quad_of_def split: option.splits)

lemma under_agent:
  assumes "p \<in> set bookkeeping" "ns @ l \<noteq> p" shows "under p (link_opt_agent w ns l a b) = under p b"
proof (cases a)
  case (Some x)
  obtain node quads n where b: "b = (node, quads, n)" by (cases b)
  obtain ai body n' where ag: "agent_quads w x n = ((ai, body), n')" by (cases "agent_quads w x n") auto
  with agent_avoids [OF assms(1), of w x n] have "never_says p body" by simp
  with assms(2) show ?thesis
    by (auto simp: link_opt_agent_def link_agent_def Some b ag under_def never_says_def link_adds_other split: option.split)
qed (simp add: link_opt_agent_def)

lemma under_capability:
  assumes "p \<in> set bookkeeping" shows "under p (link_capability w c b) = under p b"
proof -
  have "TAR @ ''hasCapability'' \<noteq> p" using other_name [OF assms] by (simp add: BOOKKEEPING_NAMES_def)
  with capability_avoids [OF assms] show ?thesis
    by (cases c; cases b) (auto simp: link_capability_def under_def never_says_def link_adds_other)
qed

lemma catalog_avoids:
  assumes "p \<in> set bookkeeping" shows "never_says p (catalog_quads w iri)"
  unfolding catalog_quads_def build_def using other_vocabulary(5,7) [OF assms] by (auto intro!: avoiding)

lemma instance_quads_under:
  assumes "p \<in> set bookkeeping" "q_predicate q = p"
  shows "q \<in> set (fst (instance_quads w iri i a s n)) \<longleftrightarrow>
     q_subject q = NamedNode iri \<and> q_graph q = G_LOCAL \<and> q_object q \<in> set (objects_under p (instance_pairs w i a s))"
proof -
  define b where "b = (describe_instance w i a s (local_node iri), catalog_quads w iri, n)"
  have "q \<in> set (fst (instance_quads w iri i a s n)) \<longleftrightarrow> q \<in> under p (link_capability w (ii_capability i) (link_opt_agent w DCT ''publisher'' (ii_operator i) b))"
    using assms(2) by (auto simp: instance_quads_def Let_def b_def under_def finish_def split: prod.split)
  also have "\<dots> \<longleftrightarrow> q \<in> under p b"
    using other_vocabulary(2) [OF assms(1)] by (simp add: under_capability [OF assms(1)] under_agent [OF assms(1)])
  also have "\<dots> \<longleftrightarrow> q \<in> quad_of (local_node iri) ` set (instance_pairs w i a s)"
    using catalog_avoids [OF assms(1), of w iri] assms(2) by (auto simp: under_def b_def never_says_def describe_instance_emits)
  also have "\<dots> \<longleftrightarrow> q_subject q = NamedNode iri \<and> q_graph q = G_LOCAL \<and> q_object q \<in> set (objects_under p (instance_pairs w i a s))"
    using assms(2) by (cases q) (force simp: quad_of_def objects_under_def image_iff)
  finally show ?thesis .
qed

section \<open>Patching\<close>

lemma patch_instance_parts:
  assumes "patch_instance w p ident body st = (Inr v, st')"
  obtains current input software where
    "may_change_instance p (iri_for (cx_base w) Instance ident) = Inr ()"
    "load_instance (loader w) (es_graph st) (iri_for (cx_base w) Instance ident) = Inr current"
    "owner_only p (iri_for (cx_base w) Instance ident) current = Inr ()"
    "merged_instance w current body = Inr input" "deployment_of w input st = Inr software"
    "apply_tx (rw_valid_iri w) (tx_extend (fst (instance_quads (writer w) (iri_for (cx_base w) Instance ident) input (subject p) software (es_next st)))
       (replace_subject (iri_for (cx_base w) Instance ident) G_LOCAL new_tx)) (es_graph st) = Inr (es_graph st')"
proof -
  let ?iri = "iri_for (cx_base w) Instance ident"
  from assms have m: "may_change_instance p ?iri = Inr ()"
    and r: "and_also (checked (patched_instance w p ?iri body st) st) (\<lambda>(input, software) st.
             let (tx, n) = replace_instance (writer w) ?iri input (subject p) software (es_next st)
             in and_also (validated_tx w (insert_quads tx) tx (st\<lparr>es_next := n\<rparr>)) (\<lambda>_ st.
                  loaded_instance w ?iri (noted w p ''instance.update'' ?iri None st))) = (Inr v, st')"
    by (auto simp: patch_instance_def and_also_Inr Let_def split: if_splits)
  from r obtain input software where i: "patched_instance w p ?iri body st = Inr (input, software)"
    and r': "(let (tx, n) = replace_instance (writer w) ?iri input (subject p) software (es_next st)
             in and_also (validated_tx w (insert_quads tx) tx (st\<lparr>es_next := n\<rparr>)) (\<lambda>_ st.
                  loaded_instance w ?iri (noted w p ''instance.update'' ?iri None st))) = (Inr v, st')"
    by (auto simp: and_also_Inr)
  obtain qs n where qs: "instance_quads (writer w) ?iri input (subject p) software (es_next st) = (qs, n)"
    by (cases "instance_quads (writer w) ?iri input (subject p) software (es_next st)")
  from r' have "apply_tx (rw_valid_iri w) (tx_extend qs (replace_subject ?iri G_LOCAL new_tx)) (es_graph st) = Inr (es_graph st')"
    by (auto simp: replace_instance_def qs and_also_Inr validated_tx_Inr store_tx_Inr loaded_instance_def)
  moreover from i obtain current where "load_instance (loader w) (es_graph st) ?iri = Inr current" "owner_only p ?iri current = Inr ()"
    "merged_instance w current body = Inr input" "deployment_of w input st = Inr software"
    by (auto simp: patched_instance_def and_then_eq_Inr split: if_splits)
  ultimately show ?thesis using m qs by (intro that [of current input software]) simp_all
qed

lemma local_value_iff:
  "x \<in> set (local_values g n p) \<longleftrightarrow> \<lparr>q_subject = n, q_predicate = p, q_object = x, q_graph = G_LOCAL\<rparr> \<in> set g"
proof
  assume "x \<in> set (local_values g n p)"
  then obtain q where q: "q \<in> set g" "q_subject q = n" "q_predicate q = p" "q_graph q = G_LOCAL" "q_object q = x"
    by (auto simp: local_values_def)
  then have "q = \<lparr>q_subject = n, q_predicate = p, q_object = x, q_graph = G_LOCAL\<rparr>" by simp
  with q(1) show "\<lparr>q_subject = n, q_predicate = p, q_object = x, q_graph = G_LOCAL\<rparr> \<in> set g" by simp
next
  assume "\<lparr>q_subject = n, q_predicate = p, q_object = x, q_graph = G_LOCAL\<rparr> \<in> set g"
  then show "x \<in> set (local_values g n p)"
    unfolding local_values_def set_map set_filter by (intro image_eqI [of _ q_object, rotated]) auto
qed

text \<open>What the record says locally under such a name after an accepted patch.\<close>

lemma patched_statements:
  assumes "apply_tx v (tx_extend (fst (instance_quads w iri i a s n)) (replace_subject iri G_LOCAL new_tx)) g = Inr g'"
    and "TAR @ l \<in> set bookkeeping"
  shows "set (local_values g' (NamedNode iri) (TAR @ l)) = set (objects_under (TAR @ l) (instance_pairs w i a s))"
  using replaced_record [OF assms(1)] instance_quads_under [OF assms(2)] by (auto simp: local_value_iff)

lemma set_present: "set (present v) = {t. v = Some t \<and> t \<noteq> []}"
  by (auto simp: present_def non_empty_def split: option.split)

lemmas under_names = bookkeeping_names [of "''selfRegisteredBy''"] bookkeeping_names [of "''instanceKey''"]
  bookkeeping_names [of "''allowedScope''"] bookkeeping_names [of "''instanceOf''"]

text \<open>
  C11. A patch of a self-registered record is accepted only from the deployment's own credential, and
  whatever the body of the patch says, the record still names the credential and the key it was
  registered with. (An announcement under another issuer, a curator's withdrawal and a
  curator's capability are other ways to change it.)
\<close>

theorem patch_keeps_ownership:
  assumes "patch_instance w p ident body st = (Inr v, st')"
    and "load_instance (loader w) (es_graph st) (iri_for (cx_base w) Instance ident) = Inr current"
  shows "(iv_self_registered_by current = None \<or> instance_iri p = Some (iri_for (cx_base w) Instance ident)) \<and>
    set (local_values (es_graph st') (NamedNode (iri_for (cx_base w) Instance ident)) (TAR @ ''selfRegisteredBy''))
      = simple_literal ` set (present (iv_self_registered_by current)) \<and>
    set (local_values (es_graph st') (NamedNode (iri_for (cx_base w) Instance ident)) (TAR @ ''instanceKey''))
      = simple_literal ` set (present (iv_instance_key current))"
proof -
  let ?iri = "iri_for (cx_base w) Instance ident"
  from assms obtain input software where own: "owner_only p ?iri current = Inr ()" and m: "merged_instance w current body = Inr input"
    and tx: "apply_tx (rw_valid_iri w) (tx_extend (fst (instance_quads (writer w) ?iri input (subject p) software (es_next st)))
       (replace_subject ?iri G_LOCAL new_tx)) (es_graph st) = Inr (es_graph st')"
    by (elim patch_instance_parts) simp
  from m have "ii_self_registered_by input = iv_self_registered_by current" "ii_instance_key input = iv_instance_key current"
    by (auto simp: merged_instance_def and_then_eq_Inr full_iris_def)
  with own patched_statements [OF tx] show ?thesis
    by (auto simp: owner_only_def instance_objects under_names BOOKKEEPING_NAMES_def split: option.splits if_splits)
qed

lemma decoded_scopes:
  assumes "instance_in_of_json (JObject ms) = Some i" "map_of ms ''allowed_scopes'' = Some (json_texts ss)"
  shows "ii_allowed_scopes i = ss"
proof -
  have "texts_field ''allowed_scopes'' (map_of ms) = Some (ii_allowed_scopes i)"
    by (insert assms(1), unfold instance_in_of_json_def struct_fields_def json.case field_Some, elim fieldE, drule option.inject [THEN iffD1], hypsubst,
        unfold instance_in.select_convs; assumption)
  with assms(2) show ?thesis by (simp add: defaulted_def json_texts_def)
qed

lemma distinct_single: "distinct xs \<Longrightarrow> set xs = {x} \<Longrightarrow> xs = [x]"
  by (cases xs; cases "tl xs") auto

lemma one_scope:
  assumes "set (local_values g n (TAR @ ''allowedScope'')) = {simple_literal SCOPE_ADMIN}" "r \<in> set (binding_rows g b ip n)"
  shows "ib_scopes (binding_of r i sw) = [SCOPE_ADMIN]"
proof -
  have "dedup (local_values g n (TAR @ ''allowedScope'')) = [simple_literal SCOPE_ADMIN]"
    using assms(1) by (intro distinct_single) simp_all
  moreover have "split_whitespace (join '' '' [term_value (simple_literal SCOPE_ADMIN)]) = [SCOPE_ADMIN]"
    "is_literal (simple_literal SCOPE_ADMIN)" by code_simp+
  ultimately show ?thesis using assms(2) by (simp add: binding_of_def binding_rows_iff joined_scopes_def)
qed

text \<open>
  C10. A deployment that may patch its own record may list the administrator's scope among the scopes of
  its workload: the next token of that workload which claims no scopes is an administrator's.
\<close>

theorem deployment_makes_itself_admin:
  assumes "patch_instance w p ident (JObject [(''allowed_scopes'', JArray [JText SCOPE_ADMIN])]) st = (Inr v, st')"
    and "r \<in> set (binding_rows (es_graph st') b ip (NamedNode (iri_for (cx_base w) Instance ident)))"
    and "claimed_scopes c claims = {}"
  shows "is_admin (bound_principal c iss claims (binding_of r (iri_for (cx_base w) Instance ident) sw))"
proof -
  let ?iri = "iri_for (cx_base w) Instance ident"
  from assms(1) obtain current input software where m: "merged_instance w current (JObject [(''allowed_scopes'', JArray [JText SCOPE_ADMIN])]) = Inr input"
    and tx: "apply_tx (rw_valid_iri w) (tx_extend (fst (instance_quads (writer w) ?iri input (subject p) software (es_next st)))
       (replace_subject ?iri G_LOCAL new_tx)) (es_graph st) = Inr (es_graph st')"
    by (elim patch_instance_parts) simp
  from m obtain i where i: "instance_in_of_json (merge_json (instance_in_json (instance_in_from current))
      (JObject [(''allowed_scopes'', JArray [JText SCOPE_ADMIN])])) = Some i" "ii_allowed_scopes input = ii_allowed_scopes i"
    by (auto simp: merged_instance_def and_then_eq_Inr full_iris_def decoded_def split: option.splits)
  have "ii_allowed_scopes i = [SCOPE_ADMIN]"
  proof (rule decoded_scopes)
    show "instance_in_of_json (JObject (merge_members (instance_members (instance_in_from current)) [(''allowed_scopes'', JArray [JText SCOPE_ADMIN])])) = Some i"
      using i(1) by (simp add: instance_in_json_def)
    show "map_of (merge_members (instance_members (instance_in_from current)) [(''allowed_scopes'', JArray [JText SCOPE_ADMIN])]) ''allowed_scopes''
        = Some (json_texts [SCOPE_ADMIN])"
      by (subst map_of_merge_members) (simp_all add: merged_member_def json_texts_def)
  qed
  with i(2) have "set (local_values (es_graph st') (NamedNode ?iri) (TAR @ ''allowedScope'')) = {simple_literal SCOPE_ADMIN}"
    using patched_statements [OF tx] by (simp add: instance_objects under_names BOOKKEEPING_NAMES_def SCOPE_ADMIN_def)
  from one_scope [OF this assms(2)] assms(3) show ?thesis by (simp add: bound_principal_def is_admin_def)
qed

section \<open>Announcing\<close>

lemma announce_parts:
  assumes "announce_self w p input st = (Inr r, st')" "announce_target p input (es_graph st) = Some iri"
  obtains current software n where
    "load_instance (loader w) (es_graph st) iri = Inr current"
    "deployment_of w (apply_announcement (cx_base w) input (instance_in_from current)) st = Inr software"
    "apply_tx (rw_valid_iri w) (stamp_seen w iri (tx_extend (fst (instance_quads (writer w) iri
        (apply_announcement (cx_base w) input (instance_in_from current)) (subject p) software n)) (replace_subject iri G_LOCAL new_tx)))
      (es_graph st) = Inr (es_graph st')"
proof -
  have same: "deployment_of w i (s\<lparr>es_next := n\<rparr>) = deployment_of w i s" for i n and s :: endpoint_state
    by (simp add: deployment_of_def resolve_software_for_def check_deployable_def record_props_def describe_record_def Let_def cong: option.case_cong)
  from assms have "announce_known w p iri input st = (Inr r, st')"
    by (auto simp: announce_self_def and_also_Inr)
  then obtain current where c: "load_instance (loader w) (es_graph st) iri = Inr current"
    and r: "(let merged = apply_announcement (cx_base w) input (instance_in_from current);
           (quads, n) = instance_quads (writer w) iri merged (subject p) (ii_software merged) (es_next st)
       in and_also (checked (enforce_write (ew_rules w) (core (writer w)) (ew_codec w) quads) (st\<lparr>es_next := n\<rparr>)) (\<lambda>_ st.
          and_also (checked (deployment_of w merged st) st) (\<lambda>software st.
            let (tx, n) = replace_instance (writer w) iri merged (subject p) software (es_next st)
            in and_also (store_tx w (stamp_seen w iri tx) (st\<lparr>es_next := n\<rparr>)) (\<lambda>_ st.
               and_also (loaded_instance w iri (noted w p ''instance.announce'' iri None st)) (\<lambda>v st.
                 (Inr (200, v), st)))))) = (Inr r, st')"
    by (auto simp: announce_known_def and_also_Inr)
  let ?m = "apply_announcement (cx_base w) input (instance_in_from current)"
  obtain qs n where q: "instance_quads (writer w) iri ?m (subject p) (ii_software ?m) (es_next st) = (qs, n)" by fastforce
  with r obtain software where d: "deployment_of w ?m st = Inr software"
    and r': "(let (tx, n) = replace_instance (writer w) iri ?m (subject p) software n
            in and_also (store_tx w (stamp_seen w iri tx) (st\<lparr>es_next := n\<rparr>)) (\<lambda>_ st.
               and_also (loaded_instance w iri (noted w p ''instance.announce'' iri None st)) (\<lambda>v st.
                 (Inr (200, v), st)))) = (Inr r, st')"
    by (auto simp: Let_def and_also_Inr same)
  obtain qs' n' where q': "instance_quads (writer w) iri ?m (subject p) software n = (qs', n')" by fastforce
  from r' have "apply_tx (rw_valid_iri w) (stamp_seen w iri (tx_extend qs' (replace_subject iri G_LOCAL new_tx))) (es_graph st) = Inr (es_graph st')"
    by (auto simp: replace_instance_def q' and_also_Inr store_tx_Inr loaded_instance_def)
  with c d q' show ?thesis by (intro that [of current software n]) simp_all
qed

lemma stamped_statements:
  assumes "apply_tx v (stamp_seen w iri (tx_extend (fst (instance_quads b iri i a s n)) (replace_subject iri G_LOCAL new_tx))) g = Inr g'"
    and "TAR @ l \<in> set bookkeeping" "l \<noteq> ''lastSeenAt''"
  shows "set (local_values g' (NamedNode iri) (TAR @ l)) = set (objects_under (TAR @ l) (instance_pairs b i a s))"
proof -
  let ?seen = "finish (add_datetime (core (writer w)) TAR ''lastSeenAt'' (rdf_world.rw_now w) (local_node iri))"
  have seen: "q_predicate q = TAR @ ''lastSeenAt''" if "q \<in> set ?seen" for q
    using that by (auto simp: finish_def emit_calls quad_of_def date_pairs_def split: option.splits)
  from assms(1) have "set g' = {q \<in> set g. \<not> (q_graph q = G_LOCAL \<and> q_subject q \<in> owned_closure g G_LOCAL (NamedNode iri)) \<and>
      \<not> (q_subject q = NamedNode iri \<and> q_predicate q = TAR @ ''lastSeenAt'' \<and> q_graph q = G_LOCAL)} \<union> (set (fst (instance_quads b iri i a s n)) \<union> set ?seen)"
    by (auto simp: apply_tx_def stamp_seen_def tx_extend_def replace_subject_def replace_property_def new_tx_def tx_iris_def Let_def
        set_delete_subject delete_property_def split: if_splits)
  moreover have "NamedNode iri \<in> owned_closure g G_LOCAL (NamedNode iri)" by (simp add: owned_closure_def)
  ultimately show ?thesis
    using assms(3) instance_quads_under [OF assms(2)] seen by (fastforce simp: local_value_iff)
qed

text \<open>C13. An announcement takes the withdrawal of its record back, and drops what the health probe found.\<close>

theorem announcement_revives_withdrawn_record:
  assumes "announce_self w p input st = (Inr r, st')" "announce_target p input (es_graph st) = Some iri"
  shows "local_values (es_graph st') (NamedNode iri) (TAR @ ''tombstoned'') = [] \<and>
    local_values (es_graph st') (NamedNode iri) (TAR @ ''health'') = []"
proof -
  from assms obtain current software n where
    "apply_tx (rw_valid_iri w) (stamp_seen w iri (tx_extend (fst (instance_quads (writer w) iri
        (apply_announcement (cx_base w) input (instance_in_from current)) (subject p) software n)) (replace_subject iri G_LOCAL new_tx)))
      (es_graph st) = Inr (es_graph st')"
    by (elim announce_parts) simp
  from stamped_statements [OF this, of "''tombstoned''"] stamped_statements [OF this, of "''health''"] show ?thesis
    by (simp add: bookkeeping_names BOOKKEEPING_NAMES_def instance_objects FORGOTTEN_def)
qed

text \<open>
  C12. The software that a credential is bound to holds for a new record only: a later announcement makes
  the record a deployment of whatever software it names.
\<close>

theorem announcement_leaves_bound_software:
  assumes "announce_self w p input st = (Inr r, st')" "announce_target p input (es_graph st) = Some iri"
    and "sa_software input = Some sw" "prefix ''https://'' sw"
  shows "set (local_values (es_graph st') (NamedNode iri) (TAR @ ''instanceOf'')) = {link_term (core (writer w)) sw}"
proof -
  from assms(1,2) obtain current software n where
      d: "deployment_of w (apply_announcement (cx_base w) input (instance_in_from current)) st = Inr software"
    and tx: "apply_tx (rw_valid_iri w) (stamp_seen w iri (tx_extend (fst (instance_quads (writer w) iri
        (apply_announcement (cx_base w) input (instance_in_from current)) (subject p) software n)) (replace_subject iri G_LOCAL new_tx)))
      (es_graph st) = Inr (es_graph st')"
    by (elim announce_parts) simp
  have "iri_for (cx_base w) Software sw = sw" "sw \<noteq> []" using assms(4) by (auto simp: iri_for_def)
  with d assms(3) have "software = Some sw"
    by (auto simp: deployment_of_def and_then_eq_Inr resolve_software_for_def apply_announcement_def non_empty_def)
  with \<open>sw \<noteq> []\<close> stamped_statements [OF tx, of "''instanceOf''"] show ?thesis
    by (simp add: under_names BOOKKEEPING_NAMES_def instance_objects present_def non_empty_def first_some_def)
qed

text \<open>
  C14. Which issuer vouches for the credential makes no difference to an announcement about a record that
  exists, although the record says which issuer registered it.
\<close>

theorem announcement_ignores_the_issuer:
  assumes "announce_target p input (es_graph st) = Some iri"
  shows "announce_self w (p\<lparr>issuer := i\<rparr>) input st = announce_self w p input st"
proof -
  have "announce_target (p\<lparr>issuer := i\<rparr>) input g = announce_target p input g" for g
    by (cases p) (simp add: announce_target_def announce_key_def Let_def split: option.split)
  moreover have "may_announce (p\<lparr>issuer := i\<rparr>) = may_announce p"
    by (cases p) (simp add: may_announce_def require_authenticated_def is_anonymous_def is_subscribe_only_def)
  moreover have "noted w (p\<lparr>issuer := i\<rparr>) = noted w p" by (cases p) (simp add: fun_eq_iff noted_def actor_kind_def)
  moreover have "announce_known w (p\<lparr>issuer := i\<rparr>) iri input st = announce_known w p iri input st"
    by (cases p) (use \<open>noted w (p\<lparr>issuer := i\<rparr>) = noted w p\<close> in \<open>simp add: announce_known_def Let_def\<close>)
  ultimately show ?thesis using assms
    by (auto simp: announce_self_def and_also_def checked_def split: sum.split)
qed

section \<open>A withdrawn deployment\<close>

text \<open>A workload that registered its deployment, which a curator withdrew since.\<close>

definition demo_instance :: instance_in where
  "demo_instance =
     \<lparr>ii_label = ''n'', ii_self_registered_by = Some ''w1'', ii_self_registered_issuer = Some ''https://i'', ii_instance_key = Some ''w1'',
      ii_software = Some ''https://r.org/software/1'', ii_release = None, ii_endpoint_url = None, ii_endpoint_description = None,
      ii_operator = None, ii_availability = None, ii_jurisdiction = None, ii_description = None, ii_oidc_client_id = None,
      ii_oidc_issuer = None, ii_allowed_scopes = [''advertise:produce''], ii_health_endpoint = None, ii_capability = None\<rparr>"

definition demo_deployment :: endpoint_state where
  "demo_deployment =
     \<lparr>es_graph = fst (instance_quads (writer demo_endpoints) ''https://r.org/instance/1'' demo_instance ''w1'' (ii_software demo_instance) 0)
         @ tombstone_quads demo_endpoints ''https://r.org/instance/1'' ''alice'', es_audit = [], es_next = 5\<rparr>"

definition demo_workload :: principal where
  "demo_workload = \<lparr>credential = OidcWorkload, instance_iri = Some ''https://r.org/instance/1'', software_iri = Some ''https://r.org/software/1'',
     subject = ''w1'', display_name = None, scopes = {SCOPE_ADVERTISE_PRODUCE}, roles = {}, issuer = Some ''https://i''\<rparr>"

definition demo_announcement :: self_announce_in where
  "demo_announcement = \<lparr>sa_label = None, sa_software = Some ''https://r.org/software/2'', sa_instance_key = None, sa_release = None,
     sa_version = None, sa_endpoint_url = None, sa_endpoint_description = None, sa_health_endpoint = None, sa_availability = None,
     sa_jurisdiction = None, sa_description = None, sa_capability = None\<rparr>"

lemma demo_instance_one: "iri_for (cx_base demo_endpoints) Instance ''1'' = ''https://r.org/instance/1''" "is_local (cx_base demo_endpoints) ''https://r.org/instance/1''"
  by code_simp+

definition demo_withdrawal :: "(string \<times> rdf_term) list" where
  "demo_withdrawal = map (\<lambda>q. (q_predicate q, q_object q)) (tombstone_quads demo_endpoints ''https://r.org/instance/1'' ''alice'')"

lemma demo_deployment_described:
  "case described (loader demo_endpoints) (es_graph demo_deployment) ''https://r.org/instance/1'' of
     Inr qs \<Rightarrow> qs = map (quad_of (local_node ''https://r.org/instance/1'')) (instance_pairs (writer demo_endpoints) demo_instance ''w1'' (ii_software demo_instance) @ demo_withdrawal)
   | Inl _ \<Rightarrow> False"
  by code_simp

lemma demo_withdrawal_names: "\<forall>x \<in> set demo_withdrawal. fst x \<in> set WITHDRAWAL"
  by code_simp

lemma demo_plain: "plain_instance (rw_valid_iri (core (writer demo_endpoints))) demo_instance"
  by code_simp

lemma demo_deployment_loaded:
  obtains v where "load_instance (loader demo_endpoints) (es_graph demo_deployment) ''https://r.org/instance/1'' = Inr v"
    "instance_in_from v = demo_instance"
proof -
  have "rw_valid_iri (loader demo_endpoints) ''https://r.org/instance/1''" by code_simp
  moreover have "described (loader demo_endpoints) (es_graph demo_deployment) ''https://r.org/instance/1'' = Inr (map (quad_of (local_node ''https://r.org/instance/1''))
      (instance_pairs (writer demo_endpoints) demo_instance ''w1'' (ii_software demo_instance) @ demo_withdrawal))"
    using demo_deployment_described by (auto split: sum.splits)
  ultimately show ?thesis
    using loaded_record [OF _ demo_withdrawal_names demo_plain] that by blast
qed

lemma demo_target: "announce_target demo_workload demo_announcement (es_graph demo_deployment) = Some ''https://r.org/instance/1''"
  by code_simp

text \<open>The workload gives itself the administrator's scope, and announces another software.\<close>

definition demo_wider :: instance_in where
  "demo_wider = demo_instance\<lparr>ii_allowed_scopes := [SCOPE_ADMIN]\<rparr>"

definition demo_moved :: instance_in where
  "demo_moved = demo_instance\<lparr>ii_software := Some ''https://r.org/software/2''\<rparr>"

definition demo_statements :: "instance_in \<Rightarrow> quad list" where
  "demo_statements i =
     catalog_quads (writer demo_endpoints) ''https://r.org/instance/1'' @
     finish (describe_instance (writer demo_endpoints) i ''w1'' (ii_software i) (local_node ''https://r.org/instance/1''))"

lemma plain_quads:
  assumes "ii_operator i = None" "ii_capability i = None"
  shows "instance_quads w iri i a s n = (catalog_quads w iri @ finish (describe_instance w i a s (local_node iri)), n)"
  using assms by (simp add: instance_quads_def link_opt_agent_def link_capability_def Let_def)

lemma demo_quads:
  assumes "i = demo_wider \<or> i = demo_moved" "s = ii_software i"
  shows "instance_quads (writer demo_endpoints) ''https://r.org/instance/1'' i ''w1'' s n = (demo_statements i, n)"
    "replace_instance (writer demo_endpoints) ''https://r.org/instance/1'' i ''w1'' s n
       = (tx_extend (demo_statements i) (replace_subject ''https://r.org/instance/1'' G_LOCAL new_tx), n)"
  using assms by (auto simp: replace_instance_def plain_quads demo_statements_def demo_wider_def demo_moved_def demo_instance_def)

lemma demo_statements_pass:
  "case enforce_write demo_rules (core (writer demo_endpoints)) demo_codec (demo_statements demo_wider) of Inr r \<Rightarrow> True | Inl _ \<Rightarrow> False"
  "case enforce_write demo_rules (core (writer demo_endpoints)) demo_codec (demo_statements demo_moved) of Inr r \<Rightarrow> True | Inl _ \<Rightarrow> False"
  by code_simp+

lemma demo_patched:
  "case apply_tx (rw_valid_iri demo_endpoints) (tx_extend (demo_statements demo_wider) (replace_subject ''https://r.org/instance/1'' G_LOCAL new_tx)) (es_graph demo_deployment) of
     Inr g \<Rightarrow> (case described (loader demo_endpoints) g ''https://r.org/instance/1'' of
        Inr qs \<Rightarrow> has_type (from_quads ''https://r.org/instance/1'' qs) TYPE_SOFTWARE_AGENT | Inl _ \<Rightarrow> False) | Inl _ \<Rightarrow> False"
  by code_simp

lemma demo_announced:
  "case apply_tx (rw_valid_iri demo_endpoints) (stamp_seen demo_endpoints ''https://r.org/instance/1'' (tx_extend (demo_statements demo_moved)
        (replace_subject ''https://r.org/instance/1'' G_LOCAL new_tx))) (es_graph demo_deployment) of
     Inr g \<Rightarrow> (case described (loader demo_endpoints) g ''https://r.org/instance/1'' of
        Inr qs \<Rightarrow> has_type (from_quads ''https://r.org/instance/1'' qs) TYPE_SOFTWARE_AGENT | Inl _ \<Rightarrow> False) | Inl _ \<Rightarrow> False"
  by code_simp

lemma demo_decoded:
  "instance_in_of_json (merge_json (instance_in_json demo_instance) (JObject [(''allowed_scopes'', JArray [JText SCOPE_ADMIN])])) = Some demo_wider"
  by code_simp

lemma demo_world: "ew_rules demo_endpoints = demo_rules" "ew_codec demo_endpoints = demo_codec" "subject demo_workload = ''w1''" "es_next demo_deployment = 5"
  "demo_deployment\<lparr>es_next := 5\<rparr> = demo_deployment"
  by (simp_all add: demo_endpoints_def demo_workload_def demo_deployment_def)

lemma demo_full_iris: "full_iris demo_endpoints demo_wider = demo_wider"
  by (simp add: full_iris_def demo_wider_def demo_instance_def iri_for_def)

lemma demo_of_software:
  "deployment_of demo_endpoints demo_wider st = Inr (ii_software demo_wider)" "deployment_of demo_endpoints demo_moved st = Inr (ii_software demo_moved)"
  by (simp_all add: deployment_of_def resolve_software_for_def check_deployable_def non_empty_def demo_wider_def demo_moved_def demo_instance_def iri_for_def)

lemma demo_reloads:
  assumes "case described (loader demo_endpoints) g ''https://r.org/instance/1'' of
        Inr qs \<Rightarrow> has_type (from_quads ''https://r.org/instance/1'' qs) TYPE_SOFTWARE_AGENT | Inl _ \<Rightarrow> False"
  shows "\<exists>v. load_instance (loader demo_endpoints) g ''https://r.org/instance/1'' = Inr v"
proof -
  have "rw_valid_iri (loader demo_endpoints) ''https://r.org/instance/1''" by code_simp
  with assms typed_record_loads show ?thesis by (auto split: sum.splits)
qed

abbreviation demo_wish :: json where
  "demo_wish \<equiv> JObject [(''allowed_scopes'', JArray [JText SCOPE_ADMIN])]"

lemma demo_patch_accepted_too:
  "\<exists>v st'. patch_instance demo_endpoints demo_workload ''1'' demo_wish demo_deployment = (Inr v, st')"
proof -
  let ?i = "''https://r.org/instance/1''"
  obtain c where c: "load_instance (loader demo_endpoints) (es_graph demo_deployment) ?i = Inr c" "instance_in_from c = demo_instance"
    by (rule demo_deployment_loaded)
  then have own: "iv_self_registered_by c = Some ''w1''" "iv_self_registered_issuer c = Some ''https://i''" "iv_instance_key c = Some ''w1''"
    by (auto simp: instance_in_from_def demo_instance_def)
  have may: "may_change_instance demo_workload ?i = Inr ()" "owner_only demo_workload ?i c = Inr ()"
    by (simp_all add: may_change_instance_def acts_for_instance_def is_subscribe_only_def demo_workload_def owner_only_def own
        SCOPE_ADVERTISE_PRODUCE_def SCOPE_SUBSCRIBE_ARTIFACTS_def)
  have "demo_wider\<lparr>ii_self_registered_by := Some ''w1'', ii_self_registered_issuer := Some ''https://i'', ii_instance_key := Some ''w1''\<rparr> = demo_wider"
    by (simp add: demo_wider_def demo_instance_def)
  with demo_decoded demo_full_iris have merged: "merged_instance demo_endpoints c demo_wish = Inr demo_wider"
    by (simp add: merged_instance_def c(2) decoded_def own)
  have "rw_valid_iri demo_endpoints ?i" "store_exists (es_graph demo_deployment) ?i" by code_simp+
  then have there: "exists_record demo_endpoints ?i demo_deployment = Inr True" by (simp add: exists_record_def)
  from demo_patched obtain g where g: "apply_tx (rw_valid_iri demo_endpoints) (tx_extend (demo_statements demo_wider) (replace_subject ?i G_LOCAL new_tx))
      (es_graph demo_deployment) = Inr g" and t: "\<exists>v. load_instance (loader demo_endpoints) g ?i = Inr v"
    using demo_reloads by (auto split: sum.splits)
  have "validated_tx demo_endpoints (insert_quads (tx_extend (demo_statements demo_wider) (replace_subject ?i G_LOCAL new_tx)))
      (tx_extend (demo_statements demo_wider) (replace_subject ?i G_LOCAL new_tx)) demo_deployment
      = (Inr (), demo_deployment\<lparr>es_graph := g\<rparr>)"
    using demo_statements_pass(1) g
    by (auto simp: validated_tx_Inr store_tx_Inr demo_world tx_extend_def replace_subject_def new_tx_def split: sum.splits)
  with t show ?thesis
    by (auto simp: patch_instance_def demo_instance_one may and_also_def checked_def patched_instance_def there c(1) merged demo_of_software demo_world
        demo_quads loaded_instance_def)
qed

lemma demo_announcement_accepted:
  "\<exists>r st'. announce_self demo_endpoints demo_workload demo_announcement demo_deployment = (Inr r, st')"
proof -
  let ?i = "''https://r.org/instance/1''"
  obtain c where c: "load_instance (loader demo_endpoints) (es_graph demo_deployment) ?i = Inr c" "instance_in_from c = demo_instance"
    by (rule demo_deployment_loaded)
  have may: "may_announce demo_workload = Inr ()"
    by (simp add: may_announce_def require_authenticated_def is_anonymous_def is_subscribe_only_def demo_workload_def
        SCOPE_ADVERTISE_PRODUCE_def SCOPE_SUBSCRIBE_ARTIFACTS_def)
  have moved: "apply_announcement (cx_base demo_endpoints) demo_announcement demo_instance = demo_moved"
    by (simp add: apply_announcement_def demo_announcement_def demo_moved_def demo_instance_def iri_for_def first_some_def)
  from demo_statements_pass(2) obtain u where u: "enforce_write demo_rules (core (writer demo_endpoints)) demo_codec (demo_statements demo_moved) = Inr u"
    by (auto split: sum.splits)
  from demo_announced obtain g where g: "apply_tx (rw_valid_iri demo_endpoints) (stamp_seen demo_endpoints ?i (tx_extend (demo_statements demo_moved)
        (replace_subject ?i G_LOCAL new_tx))) (es_graph demo_deployment) = Inr g" and t: "\<exists>v. load_instance (loader demo_endpoints) g ?i = Inr v"
    using demo_reloads by (auto split: sum.splits)
  then have "store_tx demo_endpoints (stamp_seen demo_endpoints ?i (tx_extend (demo_statements demo_moved) (replace_subject ?i G_LOCAL new_tx)))
      demo_deployment = (Inr (), demo_deployment\<lparr>es_graph := g\<rparr>)"
    by (simp add: store_tx_Inr)
  with t show ?thesis
    by (auto simp: announce_self_def demo_target may and_also_def checked_def announce_known_def c moved demo_world demo_quads u
        demo_of_software loaded_instance_def)
qed

lemma optional_has: "\<exists>x. x \<in> set (optional vs)"
  by (cases vs) (auto simp: optional_def)

lemma rows_of_a_binding: "\<exists>r. r \<in> set (binding_rows g False ip n)"
proof -
  obtain l i where "l \<in> set (optional (local_values g n (RDFS @ ''label'')))" "i \<in> set (optional (local_values g n ip))"
    using optional_has by meson
  then show ?thesis
    by (intro exI [of _ "\<lparr>br_subject = n, br_label = l, br_software = None, br_issuer = i, br_scopes = joined_scopes g n\<rparr>"])
      (auto simp: binding_rows_def)
qed

text \<open>The workload is no administrator; the binding of its record after the patch makes one.\<close>

theorem deployment_makes_itself_admin_witness:
  "\<not> is_admin demo_workload \<and>
   (\<exists>r. r \<in> set (binding_rows (es_graph (snd (patch_instance demo_endpoints demo_workload ''1'' demo_wish demo_deployment))) False (TAR @ ''oidcIssuer'')
            (NamedNode ''https://r.org/instance/1'')) \<and>
        is_admin (bound_principal (ew_oidc demo_endpoints) ''https://i'' (JObject []) (binding_of r ''https://r.org/instance/1'' None)))"
proof
  show "\<not> is_admin demo_workload"
    by (simp add: is_admin_def demo_workload_def SCOPE_ADMIN_def SCOPE_ADVERTISE_PRODUCE_def)
  obtain v st' where p: "patch_instance demo_endpoints demo_workload ''1'' demo_wish demo_deployment = (Inr v, st')"
    using demo_patch_accepted_too by blast
  obtain r where r: "r \<in> set (binding_rows (es_graph st') False (TAR @ ''oidcIssuer'') (NamedNode ''https://r.org/instance/1''))"
    using rows_of_a_binding by blast
  have "claimed_scopes (ew_oidc demo_endpoints) (JObject []) = {}" by code_simp
  from deployment_makes_itself_admin [OF p _ this] r p
  show "\<exists>r. r \<in> set (binding_rows (es_graph (snd (patch_instance demo_endpoints demo_workload ''1'' demo_wish demo_deployment))) False (TAR @ ''oidcIssuer'')
            (NamedNode ''https://r.org/instance/1'')) \<and>
        is_admin (bound_principal (ew_oidc demo_endpoints) ''https://i'' (JObject []) (binding_of r ''https://r.org/instance/1'' None))"
    by (auto simp: demo_instance_one)
qed

theorem patch_keeps_ownership_witness:
  "instance_iri demo_workload = Some ''https://r.org/instance/1'' \<and>
   set (local_values (es_graph (snd (patch_instance demo_endpoints demo_workload ''1'' demo_wish demo_deployment)))
     (NamedNode ''https://r.org/instance/1'') (TAR @ ''selfRegisteredBy'')) = {simple_literal ''w1''}"
proof -
  obtain v st' where p: "patch_instance demo_endpoints demo_workload ''1'' demo_wish demo_deployment = (Inr v, st')"
    using demo_patch_accepted_too by blast
  obtain c where c: "load_instance (loader demo_endpoints) (es_graph demo_deployment) ''https://r.org/instance/1'' = Inr c" "instance_in_from c = demo_instance"
    by (rule demo_deployment_loaded)
  then have own: "iv_self_registered_by c = Some ''w1''" by (simp add: instance_in_from_def demo_instance_def)
  from patch_keeps_ownership [OF p] c(1) p show ?thesis
    by (simp add: demo_instance_one own present_def non_empty_def)
qed

theorem announcement_revives_withdrawn_record_witness:
  "is_tombstoned (es_graph demo_deployment) (NamedNode ''https://r.org/instance/1'') \<and>
   local_values (es_graph (snd (announce_self demo_endpoints demo_workload demo_announcement demo_deployment)))
     (NamedNode ''https://r.org/instance/1'') (TAR @ ''tombstoned'') = []"
proof
  show "is_tombstoned (es_graph demo_deployment) (NamedNode ''https://r.org/instance/1'')" by code_simp
  obtain r st' where a: "announce_self demo_endpoints demo_workload demo_announcement demo_deployment = (Inr r, st')"
    using demo_announcement_accepted by blast
  from announcement_revives_withdrawn_record [OF a demo_target] a
  show "local_values (es_graph (snd (announce_self demo_endpoints demo_workload demo_announcement demo_deployment)))
     (NamedNode ''https://r.org/instance/1'') (TAR @ ''tombstoned'') = []" by simp
qed

theorem announcement_leaves_bound_software_witness:
  "software_iri demo_workload = Some ''https://r.org/software/1'' \<and>
   set (local_values (es_graph (snd (announce_self demo_endpoints demo_workload demo_announcement demo_deployment)))
     (NamedNode ''https://r.org/instance/1'') (TAR @ ''instanceOf'')) = {link_term (core (writer demo_endpoints)) ''https://r.org/software/2''}"
proof -
  obtain r st' where a: "announce_self demo_endpoints demo_workload demo_announcement demo_deployment = (Inr r, st')"
    using demo_announcement_accepted by blast
  from announcement_leaves_bound_software [OF a demo_target, of "''https://r.org/software/2''"] a show ?thesis
    by (simp add: demo_workload_def demo_announcement_def)
qed

theorem announcement_ignores_the_issuer_witness:
  "announce_self demo_endpoints (demo_workload\<lparr>issuer := Some ''https://evil''\<rparr>) demo_announcement demo_deployment
   = announce_self demo_endpoints demo_workload demo_announcement demo_deployment"
  by (rule announcement_ignores_the_issuer [where st = demo_deployment, OF demo_target])


end
