(* ===== verification/Spec2Isabelle.thy ===== *)
theory Spec2Isabelle
  imports Rebase Token_Api Jwt Subscription_Api Federated_Search Http_Surface Describe Keywords Content_Ids
    Record_Reads Advertise_Retry Forge Software_Patch Local_Writes Deployment_Rights
begin

text \<open>
  A verification development of the Tool Artifact Registry, a Rust web service that records
  which deployed software produced and consumed which artifacts, answers searches over those
  records, and federates with other registries.

  \<^bold>\<open>The program and the theories.\<close> A request passes the middlewares, is answered by a handler under
  \<open>src/api\<close>, and a handler reads and writes two stores: the graph of RDF statements
  (\<open>src/store\<close>) and the operational tables of SQLite (\<open>src/ops\<close>). A worker pushes queued
  notifications to subscribers. The theories follow that order.

  \<^item> \<open>Tar_Prelude\<close>: strings as UTF-8 bytes with the operations of Rust's \<open>str\<close>, results with \<open>?\<close>,
    decimal numbers, SQL tables as lists of rows in insertion order. \<open>Interfaces\<close>: the contracts that
    several components share, as locales: a back-off schedule, a table of claims, claims that last.
    \<open>Errors\<close> (\<open>error.rs\<close>), \<open>Ids\<close> (\<open>ids.rs\<close>), \<open>Settings\<close> (\<open>config.rs\<close>), \<open>Json\<close>.
  \<^item> Who asks: \<open>Principals\<close> and \<open>Authenticate\<close> (\<open>auth/mod.rs\<close>), \<open>Tokens\<close> (the token table of
    \<open>ops/mod.rs\<close>), \<open>Token_Api\<close> (\<open>api/tokens.rs\<close>), \<open>Jwt\<close> (tokens of an identity provider and the
    deployments they speak for, \<open>auth/jwt.rs\<close>).
  \<^item> How much they may ask: \<open>Net_Addr\<close> and \<open>Ratelimit\<close> (\<open>ratelimit.rs\<close>), \<open>Http_Surface\<close>
    (the gate, paging and query text of \<open>api/mod.rs\<close>).
  \<^item> The graph: \<open>Graph_Store\<close> (transactions, \<open>store/mod.rs\<close>, \<open>store/oxi.rs\<close>), \<open>Describe\<close> (the derived
    reads, \<open>store/queries.rs\<close>), \<open>Rdf_Build\<close> (\<open>rdf/build.rs\<close>, \<open>rdf/props.rs\<close>), \<open>Keywords\<close> and
    \<open>Content_Ids\<close> (\<open>domain/keywords.rs\<close>, \<open>domain/content.rs\<close>), \<open>Rebase\<close> (\<open>rebase.rs\<close>).
  \<^item> The records: \<open>Records\<close> (what is written for agents, runs, distributions and artifacts) and
    \<open>Record_Reads\<close> (what is read back), after \<open>domain/mod.rs\<close>, \<open>run.rs\<close>, \<open>artifact.rs\<close> and the shapes of
    \<open>model.rs\<close>; \<open>Software_Records\<close> (software, releases and capabilities, \<open>domain/software.rs\<close>),
    \<open>Deployments\<close> (\<open>domain/instance.rs\<close>);
    \<open>Forge\<close> (keeping a record in step with its repository, \<open>domain/forge.rs\<close>); \<open>Serde\<close> (decoding JSON, and the
    merge of a \<open>PATCH\<close>); \<open>Shacl\<close> (what a write is refused for, \<open>shacl.rs\<close> and the end of \<open>content.rs\<close>).
  \<^item> The endpoints over them: \<open>Record_Writes\<close> (a validated write, withdrawing, declaring a capability, shapes
    as JSON), \<open>Software_Api\<close> (every handler of \<open>api/software.rs\<close>), \<open>Software_Patch\<close> (what a patch keeps and
    forgets, withdrawal, import of releases, filters), \<open>Local_Writes\<close> (no handler touches another graph),
    \<open>Instances_Api\<close> (every handler of \<open>api/instances.rs\<close>), \<open>Deployment_Reads\<close> (a deployment is read
    back as it was written), \<open>Deployment_Rights\<close> (who may change a deployment,
    and what a patch or an announcement does to its owner, scopes, software and withdrawal).
  \<^item> Advertising: \<open>Advertise\<close> (the handler of \<open>api/advertise.rs\<close> over graph, key tables and queue)
    and \<open>Advertise_Retry\<close> (a retry changes nothing, and what the checks miss).
  \<^item> The tables: \<open>Peers\<close> (peers, resolve queue, idempotency and repository tables of \<open>ops/mod.rs\<close>),
    \<open>Subscriptions\<close> and \<open>Delivery_Queue\<close> (\<open>ops/subscriptions.rs\<close>).
  \<^item> Notifying: \<open>Webhook_Guard\<close> and \<open>Subscription_Api\<close> (\<open>api/subscriptions.rs\<close>).
  \<^item> Federation: \<open>Federation\<close> (\<open>ops/federation.rs\<close>) and \<open>Federated_Search\<close> (\<open>api/search.rs\<close>).

  \<^bold>\<open>How state and effects are modelled.\<close> An operation takes the state it changes and returns it
  updated; a handler returns an error value or its answer together with the state. Each \<open>?\<close>, early
  return and error of the source is a branch of the definition. Times are integers of nanoseconds
  or the texts the code stores. Integers keep their width where overflow matters. What is
  not under \<open>src/\<close> (Argon2, SHA-256, base64, the SPARQL engine, the URL parser, the resolver, HTTP
  exchanges, random identifiers, the clock, Unicode tables) is an argument of the definitions
  that use it; what a theorem needs of it is a hypothesis with a witness.

  \<^bold>\<open>Bounds and fuel.\<close> The walk of a federated query through a network is a function of a fuel; nine is
  enough, because a registry grants at most eight hops and every request it sends carries one
  hop less. The deepening loop of \<open>describe\<close> has no fuel and is shown to end. All other loops are
  recursions with a termination proof.

  \<^bold>\<open>Not modelled.\<close> The route table and the server start-up; the MCP and OpenAPI descriptions
  and the pages for language models, which are text; the seed data; the remote SPARQL backend's
  HTTP plumbing; the SHACL engine; the handlers over artifacts, runs and peers and the OpenLineage
  adapter; the vocabulary checks of \<open>domain/vocabulary.rs\<close>, whose findings are an argument of the write
  rules; content negotiation. They are listed with their reasons in the manifest.
\<close>

end
